(* ===== verification/Nsb_Prelude.thy ===== *)
theory Nsb_Prelude
  imports Main "HOL-Library.Word" "HOL-Library.Monad_Syntax" "HOL-Library.Multiset"
begin

unbundle bit_operations_syntax

text \<open>
  Shared vocabulary of the development.

  \<^item> The C integer types are words of their width (\<open>u8\<close>, \<open>u32\<close>, \<open>u64\<close>), so addition and
    subtraction wrap as in C. A signed result that only carries an error code or a
    small count is an \<open>int\<close>; where a 64-bit value is reinterpreted as signed, the
    model says so with \<open>sint\<close>.
  \<^item> The \<open>errno\<close> values are the Linux x86-64 ones.
  \<^item> A function of the program that can crash (a NULL dereference, an access outside
    an array) or run forever returns an \<open>option\<close>: \<open>None\<close> means that the C function
    does not return to its caller.
  \<^item> \<open>iterate\<close> is the loop every iterator of the program has: call the actor on each
    element, stop at the first non-zero result and return it.
  \<^item> \<open>le_bytes\<close> and \<open>le_word\<close> are the little-endian object representation, which the
    code uses through \<open>memcpy\<close> and through casts of byte pointers.
\<close>

named_theorems le_simps
named_theorems byte_eval

type_synonym u8 = "8 word"
type_synonym u16 = "16 word"
type_synonym u32 = "32 word"
type_synonym u64 = "64 word"
type_synonym byte = u8
type_synonym addr = u64

abbreviation (input) EPERM :: int where "EPERM \<equiv> 1"
abbreviation (input) ENOENT :: int where "ENOENT \<equiv> 2"
abbreviation (input) ESRCH :: int where "ESRCH \<equiv> 3"
abbreviation (input) E2BIG :: int where "E2BIG \<equiv> 7"
abbreviation (input) EAGAIN :: int where "EAGAIN \<equiv> 11"
abbreviation (input) ENOMEM :: int where "ENOMEM \<equiv> 12"
abbreviation (input) EFAULT :: int where "EFAULT \<equiv> 14"
abbreviation (input) EBUSY :: int where "EBUSY \<equiv> 16"
abbreviation (input) EEXIST :: int where "EEXIST \<equiv> 17"
abbreviation (input) EINVAL :: int where "EINVAL \<equiv> 22"
abbreviation (input) ENOSPC :: int where "ENOSPC \<equiv> 28"
abbreviation (input) ERANGE :: int where "ERANGE \<equiv> 34"
abbreviation (input) ENOSYS :: int where "ENOSYS \<equiv> 38"
abbreviation (input) ENODATA :: int where "ENODATA \<equiv> 61"
abbreviation (input) ETIME :: int where "ETIME \<equiv> 62"
abbreviation (input) ENOTSUP :: int where "ENOTSUP \<equiv> 95"

section \<open>Little-endian object representation\<close>

fun le_bytes :: "nat \<Rightarrow> u64 \<Rightarrow> byte list" where
  "le_bytes 0 w = []"
| "le_bytes (Suc n) w = ucast w # le_bytes n (drop_bit 8 w)"

fun le_word :: "byte list \<Rightarrow> u64" where
  "le_word [] = 0"
| "le_word (b # bs) = ucast b OR push_bit 8 (le_word bs)"

lemma length_le_bytes [simp, le_simps]: "length (le_bytes n w) = n"
  by (induction n arbitrary: w) auto

text \<open>Unfolding on numerals, for evaluating concrete buffers.\<close>

lemma le_bytes_numeral [byte_eval]:
  "le_bytes (numeral k) w = ucast w # le_bytes (pred_numeral k) (drop_bit 8 w)"
  by (simp add: numeral_eq_Suc)

lemma replicate_numeral_eq [byte_eval]: "replicate (numeral k) x = x # replicate (pred_numeral k) x"
  by (simp add: numeral_eq_Suc)

lemma ucast_low_byte_or_high:
  "(ucast (ucast (w :: u64) :: byte) :: u64) OR push_bit 8 (take_bit n (drop_bit 8 w))
    = take_bit (8 + n) w"
  by (rule bit_eqI) (auto simp: bit_simps)

lemma le_word_le_bytes [simp, le_simps]: "le_word (le_bytes n w) = take_bit (8 * n) w"
proof (induction n arbitrary: w)
  case 0
  show ?case by simp
next
  case (Suc n)
  then show ?case
    by (simp add: ucast_low_byte_or_high)
qed

lemma take_bit_64 [simp, le_simps]: "take_bit 64 (w :: u64) = w"
  by (rule bit_eqI) (auto simp: bit_simps dest: bit_imp_le_length)

lemma le_word_le_bytes_8 [simp, le_simps]: "le_word (le_bytes 8 w) = w"
  by simp

text \<open>Reading fields of a structure in memory.\<close>

definition word_at :: "byte list \<Rightarrow> nat \<Rightarrow> u64" where
  "word_at bs off = le_word (take 8 (drop off bs))"

definition int_at :: "byte list \<Rightarrow> nat \<Rightarrow> u32" where
  "int_at bs off = ucast (le_word (take 4 (drop off bs)))"

lemma le_bytes_inj: "le_bytes 8 v = le_bytes 8 w \<Longrightarrow> v = w"
  by (metis le_word_le_bytes_8)

section \<open>Signed readings of 64-bit words\<close>

lemma sint_u64: "sint (x::u64) = (if uint x < 2^63 then uint x else uint x - 2^64)"
proof -
  have b: "uint x < 2^64" "0 \<le> uint x" using uint_lt2p[of x] by auto
  have s: "sint x = (uint x + 2^63) mod 2^64 - 2^63"
    by (simp add: sint_uint signed_take_bit_eq_take_bit_shift take_bit_eq_mod)
  show ?thesis
  proof (cases "uint x < 2^63")
    case True
    with b s show ?thesis by simp
  next
    case False
    have "(uint x + 2^63) mod 2^64 = (uint x - 2^63 + 2^64) mod 2^64" by (simp add: algebra_simps)
    also have "\<dots> = uint x - 2^63" 
      using False b by (subst mod_add_self2) (simp add: mod_pos_pos_trivial)
    finally show ?thesis using s False by simp
  qed
qed

lemma scast_ucast_fits:
  assumes "\<bar>sint (x::u64)\<bar> < 2^31" shows "scast (ucast x :: u32) = x"
proof (rule bit_eqI)
  fix n assume n: "possible_bit TYPE(u64) n"
  have "signed_take_bit 31 (sint x) = sint x" using assms by (intro signed_take_bit_int_eq_self) auto
  moreover have "bit (signed_take_bit 31 (sint x)) n = bit (sint x) (min 31 n)"
    by (simp add: bit_signed_take_bit_iff)
  ultimately have "bit (sint x) n = bit (sint x) (min 31 n)" by simp
  moreover have n64: "n < 64" using n by simp
  moreover have "bit (sint x) m = bit x m" if "m < 64" for m
    using that by (cases "m = 63") (auto simp: bit_sint_iff)
  ultimately have "bit x n = bit x (min 31 n)" by simp
  moreover have "bit (scast (ucast x :: u32) :: u64) n = bit x (min 31 n)"
    using n64 by (cases "n < 31") (auto simp: bit_simps)
  ultimately show "bit (scast (ucast x :: u32) :: u64) n = bit x n" by simp
qed

text \<open>Conversion of a wider integer to \<open>int\<close>: the low 32 bits, read as signed.\<close>

definition to_int :: "int \<Rightarrow> int" where
  "to_int i = signed_take_bit 31 i"

lemma to_int_small [simp]: "- (2 ^ 31) \<le> i \<Longrightarrow> i < 2 ^ 31 \<Longrightarrow> to_int i = i"
  by (simp add: to_int_def signed_take_bit_int_eq_self)

section \<open>Numbers as text\<close>

text \<open>What \<open>%lx\<close> and \<open>%d\<close> print.\<close>

definition hexd :: "nat \<Rightarrow> char" where
  "hexd d = ''0123456789abcdef'' ! d"

fun hex_string :: "nat \<Rightarrow> string" where
  "hex_string n = (if n < 16 then [hexd n] else hex_string (n div 16) @ [hexd (n mod 16)])"

fun dec_string :: "nat \<Rightarrow> string" where
  "dec_string n = (if n < 10 then [hexd n] else dec_string (n div 10) @ [hexd (n mod 10)])"

declare hex_string.simps [simp del] dec_string.simps [simp del]

definition int_string :: "int \<Rightarrow> string" where
  "int_string i = (if i < 0 then CHR ''-'' # dec_string (nat (- i)) else dec_string (nat i))"

definition digit_val :: "char \<Rightarrow> nat option" where
  "digit_val c =
     (let v = of_char c :: nat in
      if 48 \<le> v \<and> v \<le> 57 then Some (v - 48)
      else if 97 \<le> v \<and> v \<le> 102 then Some (v - 87)
      else if 65 \<le> v \<and> v \<le> 70 then Some (v - 55)
      else None)"

definition is_digit :: "nat \<Rightarrow> char \<Rightarrow> bool" where
  "is_digit base c = (case digit_val c of None \<Rightarrow> False | Some v \<Rightarrow> v < base)"

definition digits_value :: "nat \<Rightarrow> string \<Rightarrow> nat" where
  "digits_value base cs = foldl (\<lambda>a c. a * base + the (digit_val c)) 0 cs"

lemma digit_val_hexd: "d < 16 \<Longrightarrow> digit_val (hexd d) = Some d"
proof -
  have "\<forall>d \<in> set [0..<16]. digit_val (hexd d) = Some d" by code_simp
  then show "d < 16 \<Longrightarrow> ?thesis" by simp
qed

lemma hex_string_digits: "c \<in> set (hex_string n) \<Longrightarrow> is_digit 16 c"
proof (induction n rule: hex_string.induct)
  case (1 n)
  then show ?case
    by (auto simp: hex_string.simps[of n] is_digit_def digit_val_hexd split: if_splits)
qed

lemma dec_string_digits: "c \<in> set (dec_string n) \<Longrightarrow> is_digit 10 c"
proof (induction n rule: dec_string.induct)
  case (1 n)
  then show ?case
    by (auto simp: dec_string.simps[of n] is_digit_def digit_val_hexd split: if_splits)
qed

lemma hex_string_value: "digits_value 16 (hex_string n) = n"
proof (induction n rule: hex_string.induct)
  case (1 n)
  then show ?case
    by (auto simp: hex_string.simps[of n] digits_value_def digit_val_hexd)
qed

lemma dec_string_value: "digits_value 10 (dec_string n) = n"
proof (induction n rule: dec_string.induct)
  case (1 n)
  then show ?case
    by (auto simp: dec_string.simps[of n] digits_value_def digit_val_hexd)
qed

lemma length_hex_string: "n < 16 ^ k \<Longrightarrow> 0 < k \<Longrightarrow> length (hex_string n) \<le> k"
proof (induction k arbitrary: n)
  case (Suc k)
  show ?case
  proof (cases "n < 16")
    case False
    with Suc.prems have "0 < k" by (cases k) auto
    moreover have "n div 16 < 16 ^ k" using Suc.prems by (simp add: div_less_iff_less_mult mult.commute)
    ultimately show ?thesis using Suc.IH[of "n div 16"] False by (subst hex_string.simps) simp
  qed (simp add: hex_string.simps)
qed simp

lemma length_dec_string: "n < 10 ^ k \<Longrightarrow> 0 < k \<Longrightarrow> length (dec_string n) \<le> k"
proof (induction k arbitrary: n)
  case (Suc k)
  show ?case
  proof (cases "n < 10")
    case False
    with Suc.prems have "0 < k" by (cases k) auto
    moreover have "n div 10 < 10 ^ k" using Suc.prems by (simp add: div_less_iff_less_mult mult.commute)
    ultimately show ?thesis using Suc.IH[of "n div 10"] False by (subst dec_string.simps) simp
  qed (simp add: dec_string.simps)
qed simp

lemma length_int_string: "\<bar>i\<bar> < 10 ^ 20 \<Longrightarrow> length (int_string i) \<le> 21"
  using length_dec_string[of "nat \<bar>i\<bar>" 20] by (auto simp: int_string_def nat_less_iff)

lemma hex_string_nonempty [simp]: "hex_string n \<noteq> []"
  by (simp add: hex_string.simps[of n])

lemma dec_string_nonempty [simp]: "dec_string n \<noteq> []"
  by (simp add: dec_string.simps[of n])

section \<open>Loops over lists\<close>

text \<open>
  The body of every iterator of the program. The state is threaded through the actor;
  \<open>None\<close> (a crash or a loop that does not end) stops the iteration.
\<close>

fun iterate :: "('a \<Rightarrow> 's \<Rightarrow> (int \<times> 's) option) \<Rightarrow> 'a list \<Rightarrow> 's \<Rightarrow> (int \<times> 's) option" where
  "iterate actor [] s = Some (0, s)"
| "iterate actor (x # xs) s = do {
     (err, s) \<leftarrow> actor x s;
     if err \<noteq> 0 then Some (err, s) else iterate actor xs s }"

text \<open>
  The contract an iterator offers to its callers, whatever list it walks. Every iterator
  of the program (\<open>iterate_vmas\<close>, \<open>iterate_dl_vmas\<close>, \<open>iterate_dl_maps\<close>,
  \<open>iterate_patch_function_jumps\<close>) is shown to meet it, and the lemmas below are used
  through these interpretations.
\<close>

locale iterator =
  fixes iter :: "'a list \<Rightarrow> ('a \<Rightarrow> 's \<Rightarrow> (int \<times> 's) option) \<Rightarrow> 's \<Rightarrow> (int \<times> 's) option"
  assumes iter_Nil: "iter [] actor s = Some (0, s)"
    and iter_Cons: "iter (x # xs) actor s = do {
          (err, s) \<leftarrow> actor x s;
          if err \<noteq> 0 then Some (err, s) else iter xs actor s }"
begin

lemma iter_eq_iterate: "iter xs actor s = iterate actor xs s"
proof (induction xs arbitrary: s)
  case Nil
  show ?case by (simp add: iter_Nil)
next
  case (Cons x xs)
  then show ?case
    by (cases "actor x s") (auto simp: iter_Cons split: prod.splits)
qed

lemma iter_append:
  "iter (xs @ ys) actor s = do {
     (err, s) \<leftarrow> iter xs actor s;
     if err \<noteq> 0 then Some (err, s) else iter ys actor s }"
proof (induction xs arbitrary: s)
  case Nil
  show ?case by (simp add: iter_Nil)
next
  case (Cons x xs)
  show ?case
    by (cases "actor x s") (auto simp: iter_Cons Cons.IH split: prod.splits)
qed

lemma iter_invariant:
  assumes "\<And>x s err s'. x \<in> set xs \<Longrightarrow> I s \<Longrightarrow> actor x s = Some (err, s') \<Longrightarrow> I s'"
    and "I s" and "iter xs actor s = Some (err, s')"
  shows "I s'"
  using assms
proof (induction xs arbitrary: s)
  case Nil
  then show ?case by (simp add: iter_Nil)
next
  case (Cons x xs)
  from Cons.prems(3) obtain e t where act: "actor x s = Some (e, t)"
    and rest: "(if e \<noteq> 0 then Some (e, t) else iter xs actor t) = Some (err, s')"
    by (auto simp: iter_Cons split: bind_splits prod.splits)
  have t: "I t" using Cons.prems(1)[OF _ Cons.prems(2) act] by simp
  show ?case
  proof (cases "e = 0")
    case True
    have step: "I s2" if "y \<in> set xs" "I s1" "actor y s1 = Some (e', s2)" for y s1 e' s2
      using Cons.prems(1)[of y s1 e' s2] that by simp
    show ?thesis using Cons.IH[OF step t] rest True by simp
  next
    case False
    with rest t show ?thesis by simp
  qed
qed

lemma iter_pure:
  assumes "\<And>x s. x \<in> set xs \<Longrightarrow> actor x s = Some (f x, s)"
  shows "iter xs actor s
    = Some (case find (\<lambda>x. f x \<noteq> 0) xs of None \<Rightarrow> 0 | Some x \<Rightarrow> f x, s)"
  using assms
proof (induction xs)
  case Nil
  show ?case by (simp add: iter_Nil)
next
  case (Cons x xs)
  then show ?case by (simp add: iter_Cons)
qed

end

interpretation iter_core: iterator "\<lambda>xs actor. iterate actor xs"
  by unfold_locales simp_all

end
