(* ===== verification/List_Head.thy ===== *)
theory List_Head
  imports Nsb_Prelude
begin

text \<open>
  The intrusive doubly linked lists of \<open>patcher/include/list.h\<close>, on which every
  collection of the patcher is kept. The model is the pointer program itself: a heap of
  \<open>struct list_head\<close> nodes, each primitive a sequence of field assignments in the order
  of the C statements. The predicate \<open>clist h head xs\<close> says that the circular list
  anchored at \<open>head\<close> holds the nodes \<open>xs\<close>; the lemmas show what each primitive does to
  \<open>xs\<close>, and that the traversal macros visit exactly \<open>xs\<close>. The other theories use the
  abstract lists.
\<close>

type_synonym ptr = nat

record list_head =
  prev :: ptr
  "next" :: ptr

type_synonym heap = "ptr \<Rightarrow> list_head"

definition LIST_POISON1 :: ptr where "LIST_POISON1 = 0x00100100"
definition LIST_POISON2 :: ptr where "LIST_POISON2 = 0x00200200"

definition set_next :: "ptr \<Rightarrow> ptr \<Rightarrow> heap \<Rightarrow> heap" where
  "set_next p v h = h(p := (h p)\<lparr>next := v\<rparr>)"

definition set_prev :: "ptr \<Rightarrow> ptr \<Rightarrow> heap \<Rightarrow> heap" where
  "set_prev p v h = h(p := (h p)\<lparr>prev := v\<rparr>)"

definition INIT_LIST_HEAD :: "ptr \<Rightarrow> heap \<Rightarrow> heap" where
  "INIT_LIST_HEAD list h = set_prev list list (set_next list list h)"

definition list_add_between :: "ptr \<Rightarrow> ptr \<Rightarrow> ptr \<Rightarrow> heap \<Rightarrow> heap" where
  "list_add_between new prv nxt h =
     (let h = set_prev nxt new h;
          h = set_next new nxt h;
          h = set_prev new prv h
      in set_next prv new h)"

definition list_add :: "ptr \<Rightarrow> ptr \<Rightarrow> heap \<Rightarrow> heap" where
  "list_add new head h = list_add_between new head (next (h head)) h"

definition list_add_tail :: "ptr \<Rightarrow> ptr \<Rightarrow> heap \<Rightarrow> heap" where
  "list_add_tail new head h = list_add_between new (prev (h head)) head h"

definition list_del_between :: "ptr \<Rightarrow> ptr \<Rightarrow> heap \<Rightarrow> heap" where
  "list_del_between prv nxt h = set_next prv nxt (set_prev nxt prv h)"

definition list_del_entry :: "ptr \<Rightarrow> heap \<Rightarrow> heap" where
  "list_del_entry entry h = list_del_between (prev (h entry)) (next (h entry)) h"

definition list_del :: "ptr \<Rightarrow> heap \<Rightarrow> heap" where
  "list_del entry h =
     (let h = list_del_between (prev (h entry)) (next (h entry)) h;
          h = set_next entry LIST_POISON1 h
      in set_prev entry LIST_POISON2 h)"

definition list_replace :: "ptr \<Rightarrow> ptr \<Rightarrow> heap \<Rightarrow> heap" where
  "list_replace old new h =
     (let h = set_next new (next (h old)) h;
          h = set_prev (next (h new)) new h;
          h = set_prev new (prev (h old)) h
      in set_next (prev (h new)) new h)"

definition list_replace_init :: "ptr \<Rightarrow> ptr \<Rightarrow> heap \<Rightarrow> heap" where
  "list_replace_init old new h = INIT_LIST_HEAD old (list_replace old new h)"

definition list_del_init :: "ptr \<Rightarrow> heap \<Rightarrow> heap" where
  "list_del_init entry h = INIT_LIST_HEAD entry (list_del_entry entry h)"

definition list_move :: "ptr \<Rightarrow> ptr \<Rightarrow> heap \<Rightarrow> heap" where
  "list_move list head h = list_add list head (list_del_entry list h)"

definition list_move_tail :: "ptr \<Rightarrow> ptr \<Rightarrow> heap \<Rightarrow> heap" where
  "list_move_tail list head h = list_add_tail list head (list_del_entry list h)"

definition list_is_last :: "ptr \<Rightarrow> ptr \<Rightarrow> heap \<Rightarrow> bool" where
  "list_is_last list head h \<longleftrightarrow> next (h list) = head"

definition list_is_first :: "ptr \<Rightarrow> ptr \<Rightarrow> heap \<Rightarrow> bool" where
  "list_is_first list head h \<longleftrightarrow> prev (h list) = head"

definition list_empty :: "ptr \<Rightarrow> heap \<Rightarrow> bool" where
  "list_empty head h \<longleftrightarrow> next (h head) = head"

definition list_empty_careful :: "ptr \<Rightarrow> heap \<Rightarrow> bool" where
  "list_empty_careful head h \<longleftrightarrow> (let nxt = next (h head) in nxt = head \<and> nxt = prev (h head))"

definition list_rotate_left :: "ptr \<Rightarrow> heap \<Rightarrow> heap" where
  "list_rotate_left head h =
     (if \<not> list_empty head h then list_move_tail (next (h head)) head h else h)"

definition list_is_singular :: "ptr \<Rightarrow> heap \<Rightarrow> bool" where
  "list_is_singular head h \<longleftrightarrow> \<not> list_empty head h \<and> next (h head) = prev (h head)"

definition list_cut_position_at :: "ptr \<Rightarrow> ptr \<Rightarrow> ptr \<Rightarrow> heap \<Rightarrow> heap" where
  "list_cut_position_at list head entry h =
     (let new_first = next (h entry);
          h = set_next list (next (h head)) h;
          h = set_prev (next (h list)) list h;
          h = set_prev list entry h;
          h = set_next entry list h;
          h = set_next head new_first h
      in set_prev new_first head h)"

definition list_cut_position :: "ptr \<Rightarrow> ptr \<Rightarrow> ptr \<Rightarrow> heap \<Rightarrow> heap" where
  "list_cut_position list head entry h =
     (if list_empty head h then h
      else if list_is_singular head h \<and> next (h head) \<noteq> entry \<and> head \<noteq> entry then h
      else if entry = head then INIT_LIST_HEAD list h
      else list_cut_position_at list head entry h)"

definition list_splice_between :: "ptr \<Rightarrow> ptr \<Rightarrow> ptr \<Rightarrow> heap \<Rightarrow> heap" where
  "list_splice_between list prv nxt h =
     (let first = next (h list);
          last = prev (h list);
          h = set_prev first prv h;
          h = set_next prv first h;
          h = set_next last nxt h
      in set_prev nxt last h)"

definition list_splice :: "ptr \<Rightarrow> ptr \<Rightarrow> heap \<Rightarrow> heap" where
  "list_splice list head h =
     (if \<not> list_empty list h then list_splice_between list head (next (h head)) h else h)"

definition list_splice_tail :: "ptr \<Rightarrow> ptr \<Rightarrow> heap \<Rightarrow> heap" where
  "list_splice_tail list head h =
     (if \<not> list_empty list h then list_splice_between list (prev (h head)) head h else h)"

definition list_splice_init :: "ptr \<Rightarrow> ptr \<Rightarrow> heap \<Rightarrow> heap" where
  "list_splice_init list head h =
     (if \<not> list_empty list h
      then INIT_LIST_HEAD list (list_splice_between list head (next (h head)) h) else h)"

definition list_splice_tail_init :: "ptr \<Rightarrow> ptr \<Rightarrow> heap \<Rightarrow> heap" where
  "list_splice_tail_init list head h =
     (if \<not> list_empty list h
      then INIT_LIST_HEAD list (list_splice_between list (prev (h head)) head h) else h)"

text \<open>
  The traversal macros, as the list of nodes they visit. Nothing in C bounds the loop:
  on a chain that never comes back to \<open>head\<close> it runs forever, which is \<open>None\<close>.
\<close>

partial_function (option) list_walk_next :: "heap \<Rightarrow> ptr \<Rightarrow> ptr \<Rightarrow> ptr list option" where
  "list_walk_next h head pos =
     (if pos = head then Some []
      else do { ps \<leftarrow> list_walk_next h head (next (h pos)); Some (pos # ps) })"

partial_function (option) list_walk_prev :: "heap \<Rightarrow> ptr \<Rightarrow> ptr \<Rightarrow> ptr list option" where
  "list_walk_prev h head pos =
     (if pos = head then Some []
      else do { ps \<leftarrow> list_walk_prev h head (prev (h pos)); Some (pos # ps) })"

definition list_for_each :: "heap \<Rightarrow> ptr \<Rightarrow> ptr list option" where
  "list_for_each h head = list_walk_next h head (next (h head))"

definition list_for_each_prev :: "heap \<Rightarrow> ptr \<Rightarrow> ptr list option" where
  "list_for_each_prev h head = list_walk_prev h head (prev (h head))"

definition list_for_each_entry_continue_reverse :: "heap \<Rightarrow> ptr \<Rightarrow> ptr \<Rightarrow> ptr list option" where
  "list_for_each_entry_continue_reverse h head pos = list_walk_prev h head (prev (h pos))"

section \<open>The abstraction: which nodes a list holds\<close>

fun chain :: "heap \<Rightarrow> ptr \<Rightarrow> ptr list \<Rightarrow> ptr \<Rightarrow> bool" where
  "chain h p [] q \<longleftrightarrow> next (h p) = q \<and> prev (h q) = p"
| "chain h p (x # xs) q \<longleftrightarrow> next (h p) = x \<and> prev (h x) = p \<and> chain h x xs q"

definition clist :: "heap \<Rightarrow> ptr \<Rightarrow> ptr list \<Rightarrow> bool" where
  "clist h head xs \<longleftrightarrow> distinct (head # xs) \<and> chain h head xs head"

lemma next_set_next [simp]: "next (set_next p v h q) = (if q = p then v else next (h q))"
  by (simp add: set_next_def)

lemma prev_set_next [simp]: "prev (set_next p v h q) = prev (h q)"
  by (simp add: set_next_def)

lemma prev_set_prev [simp]: "prev (set_prev p v h q) = (if q = p then v else prev (h q))"
  by (simp add: set_prev_def)

lemma next_set_prev [simp]: "next (set_prev p v h q) = next (h q)"
  by (simp add: set_prev_def)

lemma chain_append: "chain h p (xs @ y # ys) q \<longleftrightarrow> chain h p xs y \<and> chain h y ys q"
  by (induction xs arbitrary: p) auto

lemma chain_cong:
  assumes "\<And>a. a \<in> set (p # xs) \<Longrightarrow> next (h' a) = next (h a)"
    and "\<And>a. a \<in> set (xs @ [q]) \<Longrightarrow> prev (h' a) = prev (h a)"
  shows "chain h' p xs q = chain h p xs q"
  using assms by (induction xs arbitrary: p) auto

lemma chain_last_next: "chain h p xs q \<Longrightarrow> next (h (last (p # xs))) = q"
  by (induction xs arbitrary: p) auto

lemma chain_prev_last: "chain h p xs q \<Longrightarrow> prev (h q) = last (p # xs)"
  by (induction xs arbitrary: p) auto

lemma chain_first: "chain h p xs q \<Longrightarrow> next (h p) = hd (xs @ [q])"
  by (cases xs) auto

lemma chain_split:
  "chain h p (xs @ ys) q \<longleftrightarrow> chain h p xs (hd (ys @ [q])) \<and> chain h (last (p # xs)) ys q"
  by (induction xs arbitrary: p) (cases ys, auto)+

text \<open>Redirecting the last or the first link of a chain, everything else unchanged.\<close>

lemma chain_relink_last:
  assumes "chain h p xs q"
    and "\<And>a. a \<in> set (butlast (p # xs)) \<Longrightarrow> next (h' a) = next (h a)"
    and "\<And>a. a \<in> set xs \<Longrightarrow> prev (h' a) = prev (h a)"
    and "next (h' (last (p # xs))) = q'" and "prev (h' q') = last (p # xs)"
  shows "chain h' p xs q'"
  using assms by (induction xs arbitrary: p) (auto split: if_splits)

lemma chain_relink_first:
  assumes "chain h p ys q"
    and "\<And>a. a \<in> set ys \<Longrightarrow> next (h' a) = next (h a)"
    and "\<And>a. a \<in> set (tl (ys @ [q])) \<Longrightarrow> prev (h' a) = prev (h a)"
    and "next (h' p') = hd (ys @ [q])" and "prev (h' (hd (ys @ [q]))) = p'"
  shows "chain h' p' ys q"
proof (cases ys)
  case Nil
  with assms(4,5) show ?thesis by simp
next
  case (Cons y zs)
  have "chain h' y zs q = chain h y zs q"
    using assms(2,3) Cons by (intro chain_cong) auto
  with assms Cons show ?thesis by simp
qed

lemma distinct_last_notin: "distinct (p # xs) \<Longrightarrow> a \<in> set (butlast (p # xs)) \<Longrightarrow> a \<noteq> last (p # xs)"
  by (metis append_butlast_last_id distinct_append disjoint_insert(1) list.distinct(1) list.set(2))

lemma last_in_Cons: "last (p # xs) \<in> set (p # xs)"
  by (rule last_in_set) simp

lemma hd_in_snoc: "hd (ys @ [q]) \<in> set (ys @ [q])"
  by (cases ys) auto

lemma hd_notin_tl: "distinct (ys @ [q]) \<Longrightarrow> a \<in> set (tl (ys @ [q])) \<Longrightarrow> a \<noteq> hd (ys @ [q])"
  by (cases ys) auto

lemma in_tl_snoc: "a \<in> set (tl (ys @ [q])) \<Longrightarrow> a \<in> set ys \<or> a = q"
  by (cases ys) auto

lemmas chain_ends = chain_last_next chain_prev_last chain_first
lemmas end_mem = last_in_Cons hd_in_snoc

section \<open>What each primitive does to the nodes of a list\<close>

lemma INIT_LIST_HEAD_clist: "clist (INIT_LIST_HEAD p h) p []"
  by (simp add: clist_def INIT_LIST_HEAD_def)

lemma list_empty_iff: "clist h head xs \<Longrightarrow> list_empty head h \<longleftrightarrow> xs = []"
  by (cases xs) (auto simp: clist_def list_empty_def)

lemma list_empty_careful_iff: "clist h head xs \<Longrightarrow> list_empty_careful head h \<longleftrightarrow> xs = []"
  by (cases xs) (auto simp: clist_def list_empty_careful_def)

lemma list_is_singular_iff: "clist h head xs \<Longrightarrow> list_is_singular head h \<longleftrightarrow> (\<exists>x. xs = [x])"
proof (cases xs)
  case Nil
  then show "clist h head xs \<Longrightarrow> ?thesis" by (simp add: clist_def list_is_singular_def list_empty_def)
next
  case (Cons x ys)
  assume c: "clist h head xs"
  then have "prev (h head) = last (x # ys)" "next (h head) = x" "x \<noteq> head" "x \<notin> set ys"
    using Cons by (auto simp: clist_def dest: chain_prev_last)
  with Cons show ?thesis
    by (cases ys) (auto simp: list_is_singular_def list_empty_def split: if_splits)
qed

lemma clist_add_between:
  assumes "clist h head (xs @ ys)" and new: "new \<notin> set (head # xs @ ys)"
  shows "clist (list_add_between new (last (head # xs)) (hd (ys @ [head])) h) head (xs @ new # ys)"
    (is "clist ?h head _")
proof -
  from assms(1) have c1: "chain h head xs (hd (ys @ [head]))"
    and c2: "chain h (last (head # xs)) ys head" and d: "distinct (head # xs @ ys)"
    by (auto simp: clist_def chain_split)
  let ?a = "last (head # xs)" and ?b = "hd (ys @ [head])"
  have a: "?a \<in> set (head # xs)" and b: "?b \<in> set (ys @ [head])" by (rule end_mem)+
  have ab: "?a \<noteq> new" "?b \<noteq> new" using a b new by auto
  have da: "\<And>c. c \<in> set (butlast (head # xs)) \<Longrightarrow> c \<noteq> ?a"
    by (rule distinct_last_notin) (use d in auto)
  have c1': "chain ?h head xs new"
  proof (rule chain_relink_last[OF c1])
    fix c assume c: "c \<in> set (butlast (head # xs))"
    then have "c \<in> set (head # xs)" by (rule in_set_butlastD)
    with new have "c \<noteq> new" by auto
    with da[OF c] show "next (?h c) = next (h c)"
      by (simp add: list_add_between_def Let_def)
  next
    fix c assume "c \<in> set xs"
    with b d new show "prev (?h c) = prev (h c)"
      by (auto simp: list_add_between_def Let_def)
  qed (use ab in \<open>simp_all add: list_add_between_def Let_def\<close>)
  have c2': "chain ?h new ys head"
  proof (rule chain_relink_first[OF c2])
    fix c assume "c \<in> set ys"
    with a d new show "next (?h c) = next (h c)"
      by (auto simp: list_add_between_def Let_def)
  next
    fix c assume c: "c \<in> set (tl (ys @ [head]))"
    then have "c \<noteq> ?b" by (rule hd_notin_tl[rotated]) (use d in auto)
    moreover have "c \<in> set (ys @ [head])" using in_tl_snoc[OF c] by auto
    ultimately show "prev (?h c) = prev (h c)"
      using new by (auto simp: list_add_between_def Let_def)
  qed (use ab in \<open>simp_all add: list_add_between_def Let_def\<close>)
  from c1' c2' d new show ?thesis by (auto simp: clist_def chain_append)
qed

lemma list_add_clist:
  "clist h head ys \<Longrightarrow> new \<notin> set (head # ys) \<Longrightarrow> clist (list_add new head h) head (new # ys)"
  using clist_add_between[of h head "[]" ys new]
  by (auto simp: list_add_def clist_def dest: chain_first)

lemma list_add_before_clist:
  assumes "clist h head (xs @ v # ys)" and "new \<notin> set (head # xs @ v # ys)"
  shows "clist (list_add new (prev (h v)) h) head (xs @ new # v # ys)"
proof -
  from assms(1) have c: "chain h head xs v" by (simp add: clist_def chain_append)
  then show ?thesis
    using clist_add_between[OF assms] chain_last_next[OF c] chain_prev_last[OF c]
    by (simp add: list_add_def)
qed

lemma list_add_tail_clist:
  assumes "clist h head xs" and "new \<notin> set (head # xs)"
  shows "clist (list_add_tail new head h) head (xs @ [new])"
proof -
  from assms(1) have "prev (h head) = last (head # xs)"
    by (auto simp: clist_def dest: chain_prev_last)
  then show ?thesis
    using clist_add_between[of h head xs "[]" new] assms by (simp add: list_add_tail_def)
qed

lemma clist_del_between:
  assumes "clist h head (xs @ e # ys)"
    and h': "\<And>a. next (h' a) = (if a = last (head # xs) then hd (ys @ [head]) else next (h a)) \<or> a = e"
      "\<And>a. prev (h' a) = (if a = hd (ys @ [head]) then last (head # xs) else prev (h a)) \<or> a = e"
  shows "clist h' head (xs @ ys)"
proof -
  from assms(1) have c1: "chain h head xs e" and c2: "chain h e ys head"
    and d: "distinct (head # xs @ e # ys)"
    by (auto simp: clist_def chain_append)
  let ?a = "last (head # xs)" and ?b = "hd (ys @ [head])"
  have a: "?a \<in> set (head # xs)" and b: "?b \<in> set (ys @ [head])" by (rule end_mem)+
  have ae: "?a \<noteq> e" "?b \<noteq> e" using a b d by auto
  have n: "next (h' c) = (if c = ?a then ?b else next (h c))"
    and p: "prev (h' c) = (if c = ?b then ?a else prev (h c))" if "c \<noteq> e" for c
    using h'(1)[of c] h'(2)[of c] that by blast+
  have c1': "chain h' head xs ?b"
  proof (rule chain_relink_last[OF c1])
    fix c assume c: "c \<in> set (butlast (head # xs))"
    have "c \<noteq> ?a" using c by (rule distinct_last_notin[rotated]) (use d in auto)
    moreover have "c \<noteq> e" using in_set_butlastD[OF c] d by auto
    ultimately show "next (h' c) = next (h c)" using n by simp
  next
    fix c assume "c \<in> set xs"
    with b d have "c \<noteq> e" "c \<noteq> ?b" by auto
    then show "prev (h' c) = prev (h c)" using p by simp
  qed (use ae n p in \<open>simp_all\<close>)
  have c2': "chain h' ?a ys head"
  proof (rule chain_relink_first[OF c2])
    fix c assume "c \<in> set ys"
    with a d have "c \<noteq> e" "c \<noteq> ?a" by auto
    then show "next (h' c) = next (h c)" using n by simp
  next
    fix c assume c: "c \<in> set (tl (ys @ [head]))"
    then have "c \<noteq> ?b" by (rule hd_notin_tl[rotated]) (use d in auto)
    moreover have "c \<in> set (ys @ [head])" using in_tl_snoc[OF c] by auto
    then have "c \<noteq> e" using d by auto
    ultimately show "prev (h' c) = prev (h c)" using p by simp
  qed (use ae n p in \<open>simp_all\<close>)
  from c1' c2' d show ?thesis by (auto simp: clist_def chain_split)
qed

lemma clist_neighbours:
  assumes "clist h head (xs @ e # ys)"
  shows "prev (h e) = last (head # xs)" and "next (h e) = hd (ys @ [head])"
  using assms chain_prev_last[of h head xs e] chain_first[of h e ys head]
  by (auto simp: clist_def chain_append)

lemma list_del_entry_clist:
  assumes "clist h head (xs @ e # ys)"
  shows "clist (list_del_entry e h) head (xs @ ys)"
  by (rule clist_del_between[OF assms])
    (simp_all add: list_del_entry_def list_del_between_def clist_neighbours[OF assms])

lemma list_del_clist:
  assumes "clist h head (xs @ e # ys)"
  shows "clist (list_del e h) head (xs @ ys)"
  by (rule clist_del_between[OF assms])
    (simp_all add: list_del_def list_del_between_def clist_neighbours[OF assms] Let_def)

lemma list_del_poisons:
  "next (list_del e h e) = LIST_POISON1" "prev (list_del e h e) = LIST_POISON2"
  by (simp_all add: list_del_def Let_def)

lemma list_del_init_clist:
  assumes "clist h head (xs @ e # ys)"
  shows "clist (list_del_init e h) head (xs @ ys)" and "clist (list_del_init e h) e []"
proof -
  show "clist (list_del_init e h) head (xs @ ys)"
    using assms
    by (rule clist_del_between)
      (simp_all add: list_del_init_def list_del_entry_def list_del_between_def
        INIT_LIST_HEAD_def clist_neighbours[OF assms])
  show "clist (list_del_init e h) e []"
    by (simp add: list_del_init_def INIT_LIST_HEAD_clist)
qed

lemma list_move_clist:
  assumes "clist h head (xs @ e # ys)"
  shows "clist (list_move e head h) head (e # xs @ ys)"
  using list_add_clist[OF list_del_entry_clist[OF assms], of e] assms
  by (auto simp: list_move_def clist_def)

lemma list_move_tail_clist:
  assumes "clist h head (xs @ e # ys)"
  shows "clist (list_move_tail e head h) head (xs @ ys @ [e])"
  using list_add_tail_clist[OF list_del_entry_clist[OF assms], of e] assms
  by (auto simp: list_move_tail_def clist_def)

lemma list_rotate_left_clist:
  assumes "clist h head xs"
  shows "clist (list_rotate_left head h) head (rotate1 xs)"
proof (cases xs)
  case Nil
  with assms show ?thesis by (simp add: list_rotate_left_def list_empty_iff)
next
  case (Cons x ys)
  with assms have "next (h head) = x" "clist h head ([] @ x # ys)" by (simp_all add: clist_def)
  with list_move_tail_clist[of h head "[]" x ys] Cons assms show ?thesis
    by (simp add: list_rotate_left_def list_empty_iff)
qed

lemma clist_frame:
  assumes "clist h head xs"
    and "\<And>a. a \<in> set (head # xs) \<Longrightarrow> h' a = h a"
  shows "clist h' head xs"
proof -
  have "chain h' head xs head = chain h head xs head"
    by (rule chain_cong) (use assms(2) in auto)
  with assms(1) show ?thesis by (simp add: clist_def)
qed

lemma list_splice_between_clist:
  assumes h: "clist h head (xs @ ys)" and l: "clist h list (z # zs)"
    and disj: "set (head # xs @ ys) \<inter> set (list # z # zs) = {}"
  shows "clist (list_splice_between list (last (head # xs)) (hd (ys @ [head])) h) head (xs @ z # zs @ ys)"
proof -
  define a b e h' where a_def: "a = last (head # xs)" and b_def: "b = hd (ys @ [head])"
    and e_def: "e = last (z # zs)" and h'_def: "h' = list_splice_between list a b h"
  from h have c1: "chain h head xs b" and c2: "chain h a ys head" and d: "distinct (head # xs @ ys)"
    unfolding a_def b_def by (simp_all only: clist_def chain_split)
  from l have c3: "chain h z zs list" and f: "next (h list) = z" and dz: "distinct (z # zs)"
    and p: "prev (h list) = e"
    unfolding e_def by (auto simp: clist_def dest: chain_prev_last)
  have a: "a \<in> set (head # xs)" and b: "b \<in> set (ys @ [head])" and e: "e \<in> set (z # zs)"
    unfolding a_def b_def e_def by (rule end_mem)+
  have n: "next (h' c) = (if c = e then b else if c = a then z else next (h c))"
    and q: "prev (h' c) = (if c = b then e else if c = z then a else prev (h c))" for c
    by (simp_all only: h'_def list_splice_between_def Let_def f p next_set_next next_set_prev
        prev_set_next prev_set_prev)
  have za: "z \<noteq> b" "a \<noteq> e" using a b e disj by auto
  have "chain h' head xs z"
  proof (rule chain_relink_last[OF c1], fold a_def)
    fix c assume c: "c \<in> set (butlast (head # xs))"
    have "c \<noteq> a" unfolding a_def using c by (rule distinct_last_notin[rotated]) (use d in auto)
    moreover have "c \<noteq> e" using in_set_butlastD[OF c] e disj by auto
    ultimately show "next (h' c) = next (h c)" by (simp add: n)
  next
    fix c assume "c \<in> set xs"
    with b d disj have "c \<noteq> b" "c \<noteq> z" by auto
    then show "prev (h' c) = prev (h c)" by (simp add: q)
  qed (use za in \<open>simp_all add: n q\<close>)
  moreover have "chain h' z zs b"
  proof (rule chain_relink_last[OF c3], fold e_def)
    fix c assume c: "c \<in> set (butlast (z # zs))"
    have "c \<noteq> e" unfolding e_def using c dz by (rule distinct_last_notin[rotated])
    moreover have "c \<noteq> a" using in_set_butlastD[OF c] a disj by auto
    ultimately show "next (h' c) = next (h c)" by (simp add: n)
  next
    fix c assume "c \<in> set zs"
    with b dz disj have "c \<noteq> b" "c \<noteq> z" by auto
    then show "prev (h' c) = prev (h c)" by (simp add: q)
  qed (use za in \<open>simp_all add: n q\<close>)
  moreover have "chain h' e ys head"
  proof (rule chain_relink_first[OF c2], fold b_def)
    fix c assume "c \<in> set ys"
    with a d e disj have "c \<noteq> e" "c \<noteq> a" by auto
    then show "next (h' c) = next (h c)" by (simp add: n)
  next
    fix c assume c: "c \<in> set (tl (ys @ [head]))"
    then have "c \<noteq> b" unfolding b_def by (rule hd_notin_tl[rotated]) (use d in auto)
    moreover have "c \<noteq> z" using in_tl_snoc[OF c] disj by auto
    ultimately show "prev (h' c) = prev (h c)" by (simp add: q)
  qed (simp_all add: n q)
  ultimately have "chain h' head (xs @ z # zs @ ys) head"
    by (simp only: chain_append chain_split[of _ z zs] e_def b_def)
  moreover have "distinct (head # xs @ z # zs @ ys)" using d dz disj by auto
  ultimately show ?thesis by (simp only: clist_def h'_def a_def b_def)
qed

lemma list_splice_clist:
  assumes "clist h head xs" "clist h list zs" "set (head # xs) \<inter> set (list # zs) = {}"
  shows "clist (list_splice list head h) head (zs @ xs)"
proof (cases zs)
  case Nil
  with assms show ?thesis by (simp add: list_splice_def list_empty_iff)
next
  case (Cons z ws)
  from assms(1) have "next (h head) = hd (xs @ [head])" by (auto simp: clist_def dest: chain_first)
  with list_splice_between_clist[of h head "[]" xs list z ws] Cons assms show ?thesis
    by (simp add: list_splice_def list_empty_iff[OF assms(2)])
qed

lemma list_splice_tail_clist:
  assumes "clist h head xs" "clist h list zs" "set (head # xs) \<inter> set (list # zs) = {}"
  shows "clist (list_splice_tail list head h) head (xs @ zs)"
proof (cases zs)
  case Nil
  with assms show ?thesis by (simp add: list_splice_tail_def list_empty_iff)
next
  case (Cons z ws)
  from assms(1) have "prev (h head) = last (head # xs)" by (auto simp: clist_def dest: chain_prev_last)
  with list_splice_between_clist[of h head xs "[]" list z ws] Cons assms show ?thesis
    by (simp add: list_splice_tail_def list_empty_iff[OF assms(2)])
qed

lemma list_splice_init_eq:
  "list_splice_init list head h
     = (if list_empty list h then h else INIT_LIST_HEAD list (list_splice list head h))"
  "list_splice_tail_init list head h
     = (if list_empty list h then h else INIT_LIST_HEAD list (list_splice_tail list head h))"
  by (simp_all add: list_splice_init_def list_splice_tail_init_def list_splice_def list_splice_tail_def)

lemma INIT_LIST_HEAD_frame:
  "clist h head xs \<Longrightarrow> p \<notin> set (head # xs) \<Longrightarrow> clist (INIT_LIST_HEAD p h) head xs"
  by (erule clist_frame) (auto simp: INIT_LIST_HEAD_def set_next_def set_prev_def)

lemma list_splice_init_clist:
  assumes "clist h head xs" "clist h list zs" "set (head # xs) \<inter> set (list # zs) = {}"
  shows "clist (list_splice_init list head h) head (zs @ xs)"
    and "clist (list_splice_init list head h) list []"
    and "clist (list_splice_tail_init list head h) head (xs @ zs)"
    and "clist (list_splice_tail_init list head h) list []"
proof -
  have "list \<notin> set zs" using assms(2) by (simp add: clist_def)
  with assms list_splice_clist[OF assms] list_splice_tail_clist[OF assms]
  show "clist (list_splice_init list head h) head (zs @ xs)"
    and "clist (list_splice_init list head h) list []"
    and "clist (list_splice_tail_init list head h) head (xs @ zs)"
    and "clist (list_splice_tail_init list head h) list []"
    by (auto simp: list_splice_init_eq list_empty_iff[OF assms(2)] INIT_LIST_HEAD_clist
        intro!: INIT_LIST_HEAD_frame)
qed

lemma list_cut_position_clist:
  assumes h: "clist h head (xs @ entry # ys)" and new: "list \<notin> set (head # xs @ entry # ys)"
  shows "clist (list_cut_position list head entry h) list (xs @ [entry])" (is ?A)
    and "clist (list_cut_position list head entry h) head ys" (is ?B)
proof -
  let ?h = "list_cut_position_at list head entry h" and ?b = "hd (ys @ [head])"
    and ?f = "hd (xs @ [entry])"
  from h have c1: "chain h head xs entry" and c2: "chain h entry ys head"
    and d: "distinct (head # xs @ entry # ys)"
    by (auto simp: clist_def chain_append)
  have eq: "list_cut_position list head entry h = ?h"
    using d h list_is_singular_iff[OF h] list_empty_iff[OF h]
    by (cases xs) (auto simp: list_cut_position_def clist_def)
  have b: "?b \<in> set (ys @ [head])" and f: "?f \<in> set (xs @ [entry])" by (rule end_mem)+
  note fb = chain_first[OF c1] chain_first[OF c2]
  have n: "next (?h c) = (if c = head then ?b else if c = entry then list else
      if c = list then ?f else next (h c))" for c
    using fb by (simp add: list_cut_position_at_def Let_def)
  have q: "prev (?h c) = (if c = ?b then head else if c = list then entry else
      if c = ?f then list else prev (h c))" for c
    using fb by (simp add: list_cut_position_at_def Let_def)
  have "chain ?h list xs entry"
    by (rule chain_relink_first[OF c1])
      (use d new b f hd_notin_tl[of xs entry] in \<open>auto simp: n q dest: in_tl_snoc\<close>)
  then have "chain ?h list (xs @ [entry]) list"
    using d new b by (auto simp: chain_append n q)
  with d new show ?A by (simp add: clist_def eq)
  have "chain ?h head ys head"
    by (rule chain_relink_first[OF c2])
      (use d new b f hd_notin_tl[of ys head] in \<open>auto simp: n q dest: in_tl_snoc\<close>)
  with d show ?B by (simp add: clist_def eq)
qed

lemma list_replace_clist:
  assumes h: "clist h head (xs @ old # ys)" and new: "new \<notin> set (head # xs @ old # ys)"
  shows "clist (list_replace old new h) head (xs @ new # ys)" (is "clist ?h _ _")
proof -
  from h have c1: "chain h head xs old" and c2: "chain h old ys head"
    and d: "distinct (head # xs @ old # ys)"
    by (auto simp: clist_def chain_append)
  let ?a = "last (head # xs)" and ?b = "hd (ys @ [head])"
  note nb = clist_neighbours[OF h]
  have a: "?a \<in> set (head # xs)" and b: "?b \<in> set (ys @ [head])" by (rule end_mem)+
  have ab: "?a \<noteq> new" "?b \<noteq> new" "?a \<noteq> old" "?b \<noteq> old" "new \<noteq> old" using a b d new by auto
  have n: "next (?h c) = (if c = ?a then new else if c = new then ?b else next (h c))"
    and q: "prev (?h c) = (if c = new then ?a else if c = ?b then new else prev (h c))" for c
    using ab by (simp_all add: list_replace_def Let_def nb)
  have "chain ?h head xs new"
  proof (rule chain_relink_last[OF c1])
    fix c assume c: "c \<in> set (butlast (head # xs))"
    have "c \<noteq> ?a" using c by (rule distinct_last_notin[rotated]) (use d in auto)
    then show "next (?h c) = next (h c)" using in_set_butlastD[OF c] new n[of c] by auto
  next
    fix c assume "c \<in> set xs"
    with b d new show "prev (?h c) = prev (h c)" using q[of c] by auto
  qed (use n q in auto)
  moreover have "chain ?h new ys head"
    by (rule chain_relink_first[OF c2])
      (use d new a ab hd_notin_tl[of ys head] in \<open>auto simp: n q dest: in_tl_snoc\<close>)
  ultimately show ?thesis using d new by (auto simp: clist_def chain_append)
qed

section \<open>Traversal\<close>

lemma list_walk_next_chain:
  "chain h p xs q \<Longrightarrow> q \<notin> set xs \<Longrightarrow> list_walk_next h q (next (h p)) = Some xs"
  by (induction xs arbitrary: p) (auto simp: list_walk_next.simps[of h q])

lemma list_walk_prev_chain:
  "chain h p xs q \<Longrightarrow> p \<notin> set xs \<Longrightarrow> list_walk_prev h p (prev (h q)) = Some (rev xs)"
proof (induction xs arbitrary: q rule: rev_induct)
  case Nil
  then show ?case by (simp add: list_walk_prev.simps[of h p])
next
  case (snoc x xs)
  then show ?case by (auto simp: chain_append list_walk_prev.simps[of h p])
qed

lemma list_for_each_clist: "clist h head xs \<Longrightarrow> list_for_each h head = Some xs"
  by (simp add: list_for_each_def clist_def list_walk_next_chain)

lemma list_for_each_prev_clist: "clist h head xs \<Longrightarrow> list_for_each_prev h head = Some (rev xs)"
  by (simp add: list_for_each_prev_def clist_def list_walk_prev_chain)

lemma list_for_each_entry_continue_reverse_clist:
  "clist h head (xs @ e # ys) \<Longrightarrow> list_for_each_entry_continue_reverse h head e = Some (rev xs)"
  by (simp add: list_for_each_entry_continue_reverse_def clist_def chain_append list_walk_prev_chain)

section \<open>The interface the patcher uses\<close>

text \<open>
  The patcher builds its collections with \<open>INIT_LIST_HEAD\<close> and \<open>list_add_tail\<close>, takes
  elements out with \<open>list_del\<close> and walks them with \<open>list_for_each_entry\<close> (and its
  \<open>_safe\<close> form, which deletes while it walks). What it relies on is this contract.
\<close>

locale node_walk =
  fixes holds :: "'h \<Rightarrow> 'p \<Rightarrow> 'p list \<Rightarrow> bool"
    and del :: "'p \<Rightarrow> 'h \<Rightarrow> 'h"
    and each :: "'h \<Rightarrow> 'p \<Rightarrow> 'p list option"
  assumes holds_del: "holds h head (xs @ e # ys) \<Longrightarrow> holds (del e h) head (xs @ ys)"
    and each_holds: "holds h head xs \<Longrightarrow> each h head = Some xs"
begin

lemma destroy_all: "holds h head xs \<Longrightarrow> holds (fold del xs h) head []"
proof (induction xs arbitrary: h)
  case Nil
  then show ?case by simp
next
  case (Cons x xs)
  then have "holds (del x h) head xs" using holds_del[of h head "[]" x xs] by simp
  from Cons.IH[OF this] show ?case by simp
qed

lemma holds_unique: "holds h head xs \<Longrightarrow> holds h head ys \<Longrightarrow> xs = ys"
  by (metis each_holds option.inject)

end

locale node_list = node_walk holds del each
  for holds :: "'h \<Rightarrow> 'p \<Rightarrow> 'p list \<Rightarrow> bool"
    and del :: "'p \<Rightarrow> 'h \<Rightarrow> 'h"
    and each :: "'h \<Rightarrow> 'p \<Rightarrow> 'p list option" +
  fixes init :: "'p \<Rightarrow> 'h \<Rightarrow> 'h"
    and add_tail :: "'p \<Rightarrow> 'p \<Rightarrow> 'h \<Rightarrow> 'h"
  assumes holds_init: "holds (init p h) p []"
    and holds_add_tail: "holds h head xs \<Longrightarrow> new \<notin> set (head # xs) \<Longrightarrow>
          holds (add_tail new head h) head (xs @ [new])"
begin

lemma collect_in_order:
  "holds h head xs \<Longrightarrow> distinct (head # xs @ ns) \<Longrightarrow>
   holds (fold (\<lambda>n. add_tail n head) ns h) head (xs @ ns)"
proof (induction ns arbitrary: h xs)
  case Nil
  then show ?case by simp
next
  case (Cons n ns)
  then have "holds (add_tail n head h) head (xs @ [n])" by (intro holds_add_tail) auto
  from Cons.IH[OF this] Cons.prems show ?case by auto
qed

lemma collect_then_walk:
  assumes "distinct (head # ns)"
  shows "each (fold (\<lambda>n. add_tail n head) ns (init head h)) head = Some ns"
  using collect_in_order[OF holds_init, of head ns h] assms by (simp add: each_holds)

end

interpretation list_h: node_list clist list_del list_for_each INIT_LIST_HEAD list_add_tail
  by unfold_locales
    (simp_all add: INIT_LIST_HEAD_clist list_add_tail_clist list_del_clist list_for_each_clist)

interpretation list_h_init: node_list clist list_del_init list_for_each INIT_LIST_HEAD list_add_tail
  by unfold_locales
    (simp_all add: INIT_LIST_HEAD_clist list_add_tail_clist list_del_init_clist list_for_each_clist)

section \<open>Properties\<close>

text \<open>
  C32: The pointer operations implement the operations on sequences that the rest of the
  model uses: linking a node in front of another one or at the tail, unlinking a node,
  walking the list forwards, and walking backwards from a node.
\<close>

theorem list_operations_refine:
  assumes "clist h head (xs @ v # ys)" "new \<notin> set (head # xs @ v # ys)"
  shows "clist (list_add new (prev (h v)) h) head (xs @ new # v # ys)
    \<and> clist (list_add_tail new head h) head (xs @ v # ys @ [new])
    \<and> clist (list_del v h) head (xs @ ys)
    \<and> list_for_each h head = Some (xs @ v # ys)
    \<and> list_for_each_entry_continue_reverse h head v = Some (rev xs)"
  using assms list_add_before_clist[OF assms] list_add_tail_clist[OF assms] list_del_clist[OF assms(1)]
    list_for_each_clist[OF assms(1)] list_for_each_entry_continue_reverse_clist[OF assms(1)]
  by simp

theorem list_operations_refine_witness:
  "(let h = fold (\<lambda>n. list_add_tail n 1) [2, 3, 4] (INIT_LIST_HEAD 1 (\<lambda>p. \<lparr>prev = 0, next = 0\<rparr>))
    in clist h 1 [2, 3, 4] \<and> list_for_each (list_add 9 (prev (h 3)) h) 1 = Some [2, 9, 3, 4]
       \<and> list_for_each (list_del 3 h) 1 = Some [2, 4] \<and> list_for_each_entry_continue_reverse h 1 3 = Some [2])"
proof -
  let ?h = "fold (\<lambda>n. list_add_tail n 1) [2, 3, 4] (INIT_LIST_HEAD 1 (\<lambda>p. \<lparr>prev = 0, next = 0\<rparr>))"
  have c: "clist ?h 1 ([2] @ 3 # [4])"
    using list_h.collect_in_order[OF INIT_LIST_HEAD_clist, of 1 "[2, 3, 4]"] by simp
  have "9 \<notin> set (1 # [2] @ 3 # [4 :: ptr])" by simp
  note r = list_operations_refine[OF c this]
  from r c show ?thesis unfolding Let_def by (auto dest: list_for_each_clist)
qed

text \<open>
  A list that is built by initialising its head and appending distinct nodes is walked
  in the order of the appends, and it is empty again after its nodes are deleted one by
  one, as \<open>list_for_each_entry_safe\<close> loops do.
\<close>

lemma list_collect_walk_destroy:
  assumes "distinct (head # ns)"
  shows "list_for_each (fold (\<lambda>n. list_add_tail n head) ns (INIT_LIST_HEAD head h)) head = Some ns
    \<and> list_empty head (fold list_del ns (fold (\<lambda>n. list_add_tail n head) ns (INIT_LIST_HEAD head h)))"
proof -
  have "clist (fold (\<lambda>n. list_add_tail n head) ns (INIT_LIST_HEAD head h)) head ns"
    using list_h.collect_in_order[OF INIT_LIST_HEAD_clist, of head ns h] assms by simp
  from list_h.destroy_all[OF this] show ?thesis
    using list_h.collect_then_walk[OF assms] list_empty_iff by blast
qed

lemma list_collect_walk_destroy_witness:
  "list_for_each (fold (\<lambda>n. list_add_tail n 7) [5, 6] (INIT_LIST_HEAD 7 (\<lambda>p. \<lparr>prev = 0, next = 0\<rparr>))) 7 = Some [5, 6]"
  using list_collect_walk_destroy[of 7 "[5, 6]" "\<lambda>p. \<lparr>prev = 0, next = 0\<rparr>"] by simp

end
