(* ===== verification/Hlist.thy ===== *)
theory Hlist
  imports List_Head
begin

text \<open>
  The second half of \<open>patcher/include/list.h\<close>: lists with a head of one pointer. A node points
  back not to the node before it but to the word that points to it, which is the head's
  \<open>first\<close> or the \<open>next\<close> of the node before. Both are the first field of their structure, so the
  address of the word is the address of the structure, and the heap has one store of such words:
  \<open>*pprev = v\<close> writes it without knowing which of the two it is. \<open>hlist h head ns\<close> says that the
  list anchored at \<open>head\<close> holds the nodes \<open>ns\<close>.
\<close>

section \<open>The operations\<close>

text \<open>\<open>hfirst\<close> is \<open>hlist_head.first\<close> or \<open>hlist_node.next\<close>, by address; 0 is NULL.\<close>

record hlist_heap =
  hfirst :: "ptr \<Rightarrow> ptr"
  pprev :: "ptr \<Rightarrow> ptr"

definition set_word :: "ptr \<Rightarrow> ptr \<Rightarrow> hlist_heap \<Rightarrow> hlist_heap" where
  "set_word p v h = h\<lparr>hfirst := (hfirst h)(p := v)\<rparr>"

definition set_pprev :: "ptr \<Rightarrow> ptr \<Rightarrow> hlist_heap \<Rightarrow> hlist_heap" where
  "set_pprev p v h = h\<lparr>pprev := (pprev h)(p := v)\<rparr>"

definition INIT_HLIST_HEAD :: "ptr \<Rightarrow> hlist_heap \<Rightarrow> hlist_heap" where
  "INIT_HLIST_HEAD head h = set_word head 0 h"

definition INIT_HLIST_NODE :: "ptr \<Rightarrow> hlist_heap \<Rightarrow> hlist_heap" where
  "INIT_HLIST_NODE n h = set_pprev n 0 (set_word n 0 h)"

definition hlist_unhashed :: "ptr \<Rightarrow> hlist_heap \<Rightarrow> bool" where
  "hlist_unhashed n h \<longleftrightarrow> pprev h n = 0"

definition hlist_empty :: "ptr \<Rightarrow> hlist_heap \<Rightarrow> bool" where
  "hlist_empty head h \<longleftrightarrow> hfirst h head = 0"

definition hlist_del_links :: "ptr \<Rightarrow> hlist_heap \<Rightarrow> hlist_heap" where
  "hlist_del_links n h =
     (let nxt = hfirst h n; pp = pprev h n; h = set_word pp nxt h
      in if nxt \<noteq> 0 then set_pprev nxt pp h else h)"

definition hlist_del :: "ptr \<Rightarrow> hlist_heap \<Rightarrow> hlist_heap" where
  "hlist_del n h = set_pprev n LIST_POISON2 (set_word n LIST_POISON1 (hlist_del_links n h))"

definition hlist_del_init :: "ptr \<Rightarrow> hlist_heap \<Rightarrow> hlist_heap" where
  "hlist_del_init n h = (if hlist_unhashed n h then h else INIT_HLIST_NODE n (hlist_del_links n h))"

definition hlist_add_head :: "ptr \<Rightarrow> ptr \<Rightarrow> hlist_heap \<Rightarrow> hlist_heap" where
  "hlist_add_head n head h =
     (let first = hfirst h head;
          h = set_word n first h;
          h = (if first \<noteq> 0 then set_pprev first n h else h);
          h = set_word head n h
      in set_pprev n head h)"

definition hlist_add_before :: "ptr \<Rightarrow> ptr \<Rightarrow> hlist_heap \<Rightarrow> hlist_heap" where
  "hlist_add_before n nxt h =
     (let h = set_pprev n (pprev h nxt) h;
          h = set_word n nxt h;
          h = set_pprev nxt n h
      in set_word (pprev h n) n h)"

text \<open>The new node is the second argument.\<close>

definition hlist_add_after :: "ptr \<Rightarrow> ptr \<Rightarrow> hlist_heap \<Rightarrow> hlist_heap" where
  "hlist_add_after n nxt h =
     (let h = set_word nxt (hfirst h n) h;
          h = set_word n nxt h;
          h = set_pprev nxt n h
      in if hfirst h nxt \<noteq> 0 then set_pprev (hfirst h nxt) nxt h else h)"

definition hlist_add_fake :: "ptr \<Rightarrow> hlist_heap \<Rightarrow> hlist_heap" where
  "hlist_add_fake n h = set_pprev n n h"

definition hlist_move_list :: "ptr \<Rightarrow> ptr \<Rightarrow> hlist_heap \<Rightarrow> hlist_heap" where
  "hlist_move_list old new h =
     (let h = set_word new (hfirst h old) h;
          h = (if hfirst h new \<noteq> 0 then set_pprev (hfirst h new) new h else h)
      in set_word old 0 h)"

text \<open>The nodes a traversal visits; a chain that never ends is \<open>None\<close>.\<close>

partial_function (option) hlist_walk :: "hlist_heap \<Rightarrow> ptr \<Rightarrow> ptr list option" where
  "hlist_walk h pos =
     (if pos = 0 then Some [] else do { ps \<leftarrow> hlist_walk h (hfirst h pos); Some (pos # ps) })"

definition hlist_for_each :: "hlist_heap \<Rightarrow> ptr \<Rightarrow> ptr list option" where
  "hlist_for_each h head = hlist_walk h (hfirst h head)"

definition hlist_for_each_entry_continue :: "hlist_heap \<Rightarrow> ptr \<Rightarrow> ptr list option" where
  "hlist_for_each_entry_continue h pos = hlist_walk h (hfirst h pos)"

definition hlist_for_each_entry_from :: "hlist_heap \<Rightarrow> ptr \<Rightarrow> ptr list option" where
  "hlist_for_each_entry_from h pos = hlist_walk h pos"

text \<open>The \<open>_safe\<close> loop with its body: the successor is read before the body runs.\<close>

partial_function (option) hlist_safe_walk ::
  "(ptr \<Rightarrow> hlist_heap \<Rightarrow> hlist_heap) \<Rightarrow> ptr \<Rightarrow> hlist_heap \<Rightarrow> hlist_heap option" where
  "hlist_safe_walk body pos h =
     (if pos = 0 then Some h else let n = hfirst h pos in hlist_safe_walk body n (body pos h))"

definition hlist_for_each_safe :: "(ptr \<Rightarrow> hlist_heap \<Rightarrow> hlist_heap) \<Rightarrow> ptr \<Rightarrow> hlist_heap \<Rightarrow> hlist_heap option" where
  "hlist_for_each_safe body head h = hlist_safe_walk body (hfirst h head) h"

definition hlist_for_each_entry_safe :: "(ptr \<Rightarrow> hlist_heap \<Rightarrow> hlist_heap) \<Rightarrow> ptr \<Rightarrow> hlist_heap \<Rightarrow> hlist_heap option" where
  "hlist_for_each_entry_safe body head h = hlist_safe_walk body (hfirst h head) h"

section \<open>The abstraction\<close>

text \<open>The chain from the word at \<open>a\<close> on.\<close>

fun hchain :: "hlist_heap \<Rightarrow> ptr \<Rightarrow> ptr list \<Rightarrow> bool" where
  "hchain h a [] \<longleftrightarrow> hfirst h a = 0"
| "hchain h a (n # ns) \<longleftrightarrow> hfirst h a = n \<and> pprev h n = a \<and> hchain h n ns"

definition hlist :: "hlist_heap \<Rightarrow> ptr \<Rightarrow> ptr list \<Rightarrow> bool" where
  "hlist h head ns \<longleftrightarrow> distinct (0 # head # ns) \<and> hchain h head ns"

lemma words [simp]:
  "hfirst (set_word p v h) q = (if q = p then v else hfirst h q)" "pprev (set_word p v h) q = pprev h q"
  "hfirst (set_pprev p v h) q = hfirst h q" "pprev (set_pprev p v h) q = (if q = p then v else pprev h q)"
  by (simp_all add: set_word_def set_pprev_def)

lemma hchain_cong:
  "(\<And>a. a \<in> set (p # ns) \<Longrightarrow> hfirst h' a = hfirst h a) \<Longrightarrow> (\<And>a. a \<in> set ns \<Longrightarrow> pprev h' a = pprev h a) \<Longrightarrow>
   hchain h' p ns = hchain h p ns"
  by (induction ns arbitrary: p) auto

text \<open>A chain up to a node, given by the word that points to it, and the chain from there.\<close>

fun hseg :: "hlist_heap \<Rightarrow> ptr \<Rightarrow> ptr list \<Rightarrow> bool" where
  "hseg h a [] \<longleftrightarrow> True"
| "hseg h a (n # ns) \<longleftrightarrow> hfirst h a = n \<and> pprev h n = a \<and> hseg h n ns"

lemma hchain_append: "hchain h p (xs @ ys) \<longleftrightarrow> hseg h p xs \<and> hchain h (last (p # xs)) ys"
  by (induction xs arbitrary: p) auto

lemma hseg_cong:
  "(\<And>a. a \<in> set (butlast (p # ns)) \<Longrightarrow> hfirst h' a = hfirst h a) \<Longrightarrow> (\<And>a. a \<in> set ns \<Longrightarrow> pprev h' a = pprev h a) \<Longrightarrow>
   hseg h' p ns = hseg h p ns"
  by (induction ns arbitrary: p) auto

section \<open>What the operations do\<close>

text \<open>Replacing the chain behind a prefix of the list.\<close>

lemma hlist_retail:
  assumes "hlist h head (xs @ ys)" "distinct (0 # head # xs @ zs)"
    and "\<And>a. a \<in> set (butlast (head # xs)) \<Longrightarrow> hfirst h' a = hfirst h a"
    and "\<And>a. a \<in> set xs \<Longrightarrow> pprev h' a = pprev h a" and "hchain h' (last (head # xs)) zs"
  shows "hlist h' head (xs @ zs)"
  using assms hseg_cong[of head xs h' h] by (simp add: hlist_def hchain_append)

lemma hlist_tail: "hlist h head (xs @ ys) \<Longrightarrow> hchain h (last (head # xs)) ys"
  by (simp add: hlist_def hchain_append)

lemma word_of: "last (head # xs) \<in> set (head # xs)" "a \<in> set (butlast (head # xs)) \<Longrightarrow> a \<in> set (head # xs)"
  by (rule last_in_Cons) (rule in_set_butlastD)

lemma INIT_HLIST_HEAD_hlist: "head \<noteq> 0 \<Longrightarrow> hlist (INIT_HLIST_HEAD head h) head []"
  by (simp add: hlist_def INIT_HLIST_HEAD_def)

lemma hlist_empty_iff: "hlist h head ns \<Longrightarrow> hlist_empty head h \<longleftrightarrow> ns = []"
  by (cases ns) (auto simp: hlist_def hlist_empty_def)

lemma hlist_hashed: "hlist h head ns \<Longrightarrow> n \<in> set ns \<Longrightarrow> \<not> hlist_unhashed n h"
proof -
  assume "hlist h head ns" "n \<in> set ns"
  then obtain xs ys where ns: "hlist h head (xs @ n # ys)" by (metis split_list)
  then have "pprev h n = last (head # xs)" using hlist_tail[OF ns] by simp
  moreover have "0 \<notin> set (head # xs)" using ns by (auto simp: hlist_def)
  ultimately show ?thesis using last_in_Cons[of head xs] by (metis hlist_unhashed_def)
qed

text \<open>Linking \<open>n\<close> into the word at the end of a prefix.\<close>

lemma hlist_link:
  assumes "hlist h head (xs @ ys)" "n \<notin> set (0 # head # xs @ ys)"
    and "hfirst h' (last (head # xs)) = n" "pprev h' n = last (head # xs)" "hfirst h' n = hd (ys @ [0])"
    and "ys \<noteq> [] \<Longrightarrow> pprev h' (hd ys) = n"
    and "\<And>a. a \<noteq> n \<Longrightarrow> a \<noteq> last (head # xs) \<Longrightarrow> hfirst h' a = hfirst h a"
    and "\<And>a. a \<noteq> n \<Longrightarrow> a \<noteq> hd (ys @ [0]) \<Longrightarrow> pprev h' a = pprev h a"
  shows "hlist h' head (xs @ n # ys)"
proof (rule hlist_retail[OF assms(1)])
  have d: "distinct (0 # head # xs @ ys)" using assms(1) by (simp add: hlist_def)
  show "distinct (0 # head # xs @ n # ys)" using d assms(2) by auto
  show "hfirst h' a = hfirst h a" if "a \<in> set (butlast (head # xs))" for a
    using that distinct_last_notin[of head xs a] word_of(2)[OF that] d assms(2) by (intro assms(7)) auto
  show "pprev h' a = pprev h a" if "a \<in> set xs" for a
    using that d assms(2) by (intro assms(8)) (auto simp: hd_append)
  have "hchain h (last (head # xs)) ys" by (rule hlist_tail[OF assms(1)])
  then have "hchain h' n ys"
  proof (cases ys)
    case (Cons y zs)
    have "last (head # xs) \<notin> set ys" using d last_in_Cons[of head xs] by auto
    then have "hchain h' y zs = hchain h y zs"
      using d assms(2) Cons by (intro hchain_cong assms(7,8)) auto
    with \<open>hchain h (last (head # xs)) ys\<close> Cons assms(5,6) show ?thesis by simp
  qed (use assms(5) in simp)
  with assms(3,4) show "hchain h' (last (head # xs)) (n # ys)" by simp
qed

lemma hlist_add_head_hlist:
  assumes "hlist h head ns" "n \<notin> set (0 # head # ns)"
  shows "hlist (hlist_add_head n head h) head (n # ns)"
proof -
  have "hfirst h head = hd (ns @ [0])" using assms(1) by (cases ns) (auto simp: hlist_def)
  then have "hlist (hlist_add_head n head h) head ([] @ n # ns)"
    using assms by (intro hlist_link[of h]) (auto simp: hlist_add_head_def Let_def hlist_def neq_Nil_conv split: if_splits)
  then show ?thesis by simp
qed

lemma hlist_add_before_hlist:
  assumes "hlist h head (xs @ v # ys)" "n \<notin> set (0 # head # xs @ v # ys)"
  shows "hlist (hlist_add_before n v h) head (xs @ n # v # ys)"
proof -
  have "pprev h v = last (head # xs)" using hlist_tail[OF assms(1)] by simp
  moreover have "last (head # xs) \<noteq> n" using assms(2) last_in_Cons[of head xs] by auto
  ultimately show ?thesis
    using assms by (intro hlist_link[of h head xs "v # ys"]) (auto simp: hlist_add_before_def Let_def)
qed

lemma hlist_add_after_hlist:
  assumes "hlist h head (xs @ v # ys)" "n \<notin> set (0 # head # xs @ v # ys)"
  shows "hlist (hlist_add_after v n h) head (xs @ v # n # ys)"
proof -
  have t: "hfirst h v = hd (ys @ [0])" using hlist_tail[of h head "xs @ [v]" ys] assms(1) by (cases ys) simp_all
  have "0 \<notin> set ys" "hd (ys @ [0]) \<noteq> n" using assms by (cases ys; auto simp: hlist_def)+
  then have "hlist (hlist_add_after v n h) head ((xs @ [v]) @ n # ys)"
    using assms t by (intro hlist_link[of h]) (auto simp: hlist_add_after_def Let_def neq_Nil_conv)
  then show ?thesis by simp
qed

lemma hlist_unlink:
  assumes "hlist h head (xs @ v # ys)"
    and "hfirst h' (last (head # xs)) = hd (ys @ [0])" and "ys \<noteq> [] \<Longrightarrow> pprev h' (hd ys) = last (head # xs)"
    and "\<And>a. a \<noteq> v \<Longrightarrow> a \<noteq> last (head # xs) \<Longrightarrow> hfirst h' a = hfirst h a"
    and "\<And>a. a \<noteq> v \<Longrightarrow> a \<noteq> hd (ys @ [0]) \<Longrightarrow> pprev h' a = pprev h a"
  shows "hlist h' head (xs @ ys)"
proof (rule hlist_retail[OF assms(1)])
  have d: "distinct (0 # head # xs @ v # ys)" using assms(1) by (simp add: hlist_def)
  then show "distinct (0 # head # xs @ ys)" by auto
  show "hfirst h' a = hfirst h a" if "a \<in> set (butlast (head # xs))" for a
    using that distinct_last_notin[of head xs a] word_of(2)[OF that] d by (intro assms(4)) auto
  show "pprev h' a = pprev h a" if "a \<in> set xs" for a
    using that d by (intro assms(5)) (auto simp: hd_append)
  have c: "hchain h v ys" using hlist_tail[OF assms(1)] by simp
  show "hchain h' (last (head # xs)) ys"
  proof (cases ys)
    case (Cons y zs)
    have "last (head # xs) \<notin> set ys" using d last_in_Cons[of head xs] by auto
    then have "hchain h' y zs = hchain h y zs"
      using d Cons by (intro hchain_cong assms(4,5)) auto
    with c Cons assms(2,3) show ?thesis by simp
  qed (use assms(2) in simp)
qed

lemma hlist_around:
  assumes "hlist h head (xs @ v # ys)"
  shows "pprev h v = last (head # xs)" "hfirst h v = hd (ys @ [0])" "last (head # xs) \<noteq> v" "0 \<notin> set ys" "v \<notin> set ys"
    and "hd (ys @ [0]) \<noteq> v"
proof -
  show "pprev h v = last (head # xs)" "hfirst h v = hd (ys @ [0])"
    using hlist_tail[OF assms] by (cases ys, simp_all)+
  show "last (head # xs) \<noteq> v" using last_in_Cons[of head xs] assms by (auto simp: hlist_def)
  show "0 \<notin> set ys" "v \<notin> set ys" "hd (ys @ [0]) \<noteq> v" using assms by (auto simp: hlist_def hd_append)
qed

lemma hlist_del_hlist:
  assumes "hlist h head (xs @ v # ys)"
  shows "hlist (hlist_del v h) head (xs @ ys)" "hlist (hlist_del_init v h) head (xs @ ys)"
  using hlist_around[OF assms] hlist_hashed[OF assms, of v]
  by (intro hlist_unlink[OF assms];
      auto simp: hlist_del_def hlist_del_init_def INIT_HLIST_NODE_def hlist_del_links_def Let_def neq_Nil_conv)+

lemma hlist_move_list_hlist:
  assumes "hlist h old ns" "new \<notin> set (0 # old # ns)"
  shows "hlist (hlist_move_list old new h) new ns \<and> hlist (hlist_move_list old new h) old []"
proof (cases ns)
  case Nil
  with assms show ?thesis by (auto simp: hlist_def hlist_move_list_def Let_def)
next
  case (Cons n zs)
  have "hchain (hlist_move_list old new h) n zs = hchain h n zs"
    using assms Cons by (intro hchain_cong) (auto simp: hlist_def hlist_move_list_def Let_def)
  with assms Cons show ?thesis by (auto simp: hlist_def hlist_move_list_def Let_def)
qed

text \<open>After \<open>hlist_add_fake\<close> a node can be unhashed although it is on no list.\<close>

lemma hlist_add_fake_del: "n \<noteq> 0 \<Longrightarrow> \<not> hlist_unhashed n (hlist_add_fake n h)
    \<and> hlist_unhashed n (hlist_del_init n (hlist_add_fake n h))"
  by (simp add: hlist_unhashed_def hlist_add_fake_def hlist_del_init_def INIT_HLIST_NODE_def)

section \<open>Traversal\<close>

lemma hlist_walk_chain: "hchain h a ns \<Longrightarrow> 0 \<notin> set ns \<Longrightarrow> hlist_walk h (hfirst h a) = Some ns"
  by (induction ns arbitrary: a) (auto simp: hlist_walk.simps)

lemma hlist_for_each_hlist: "hlist h head ns \<Longrightarrow> hlist_for_each h head = Some ns"
  by (auto simp: hlist_for_each_def hlist_def hlist_walk_chain)

lemma hlist_for_each_entry_from_hlist:
  assumes "hlist h head (xs @ v # ys)"
  shows "hlist_for_each_entry_continue h v = Some ys" "hlist_for_each_entry_from h v = Some (v # ys)"
  using hlist_tail[OF assms] hlist_walk_chain[of h v ys] hlist_walk_chain[of h "last (head # xs)" "v # ys"] assms
  by (simp_all add: hlist_def hlist_for_each_entry_continue_def hlist_for_each_entry_from_def)

text \<open>A loop whose body unhashes its node visits every node and leaves an empty list.\<close>

lemma hlist_safe_walk_del:
  "hlist h head ns \<Longrightarrow> \<exists>h'. hlist_safe_walk hlist_del (hfirst h head) h = Some h' \<and> hlist h' head []"
proof (induction ns arbitrary: h)
  case Nil
  then show ?case by (auto simp: hlist_def hlist_safe_walk.simps)
next
  case (Cons n ns)
  have d: "hlist (hlist_del n h) head ns" using hlist_del_hlist(1)[of h head "[]" n ns] Cons.prems by simp
  have "hfirst h head = n" "n \<noteq> 0" "hfirst h n = hd (ns @ [0])" "hfirst (hlist_del n h) head = hd (ns @ [0])"
    using Cons.prems d hlist_around(2)[of h head "[]" n ns] by (cases ns; auto simp: hlist_def)+
  with Cons.IH[OF d] show ?case by (simp add: hlist_safe_walk.simps[of _ n])
qed

interpretation hlist_h: node_walk hlist hlist_del hlist_for_each
  by unfold_locales (simp_all add: hlist_del_hlist hlist_for_each_hlist)

interpretation hlist_h_init: node_walk hlist hlist_del_init hlist_for_each
  by unfold_locales (simp_all add: hlist_del_hlist hlist_for_each_hlist)

section \<open>Properties\<close>

text \<open>
  The operations on the lists with one-pointer heads implement those on sequences: adding at
  the head, before and after a node, taking a node out, moving all nodes to another head,
  walking the list from its head, from a node or behind a node, and a loop that deletes each
  node it visits, which ends and leaves the list empty.
\<close>

lemma hlist_operations_refine:
  assumes "hlist h head (xs @ v # ys)" "n \<notin> set (0 # head # xs @ v # ys)"
  shows "hlist (hlist_add_head n head h) head (n # xs @ v # ys)
    \<and> hlist (hlist_add_before n v h) head (xs @ n # v # ys)
    \<and> hlist (hlist_add_after v n h) head (xs @ v # n # ys)
    \<and> hlist (hlist_del v h) head (xs @ ys) \<and> hlist (hlist_del_init v h) head (xs @ ys)
    \<and> hlist (hlist_move_list head n h) n (xs @ v # ys) \<and> hlist_empty head (hlist_move_list head n h)
    \<and> hlist_for_each h head = Some (xs @ v # ys)
    \<and> hlist_for_each_entry_from h v = Some (v # ys) \<and> hlist_for_each_entry_continue h v = Some ys
    \<and> (\<exists>h'. hlist_for_each_entry_safe hlist_del head h = Some h' \<and> hlist_empty head h')"
proof (intro conjI)
  show "hlist_empty head (hlist_move_list head n h)"
    using hlist_move_list_hlist[OF assms] hlist_empty_iff by blast
  show "\<exists>h'. hlist_for_each_entry_safe hlist_del head h = Some h' \<and> hlist_empty head h'"
    using hlist_safe_walk_del[OF assms(1)] hlist_empty_iff unfolding hlist_for_each_entry_safe_def by blast
qed (use assms in \<open>simp_all add: hlist_add_head_hlist hlist_add_before_hlist hlist_add_after_hlist hlist_del_hlist
    hlist_move_list_hlist hlist_for_each_hlist hlist_for_each_entry_from_hlist\<close>)

lemma hlist_operations_refine_witness:
  "(let h = hlist_add_head 2 1 (hlist_add_head 3 1 (INIT_HLIST_HEAD 1 \<lparr>hfirst = \<lambda>p. 0, pprev = \<lambda>p. 0\<rparr>))
    in hlist h 1 [2, 3] \<and> hlist_for_each (hlist_add_before 9 3 h) 1 = Some [2, 9, 3]
       \<and> hlist_for_each (hlist_del 2 h) 1 = Some [3])"
proof -
  let ?h = "hlist_add_head 2 1 (hlist_add_head 3 1 (INIT_HLIST_HEAD 1 \<lparr>hfirst = \<lambda>p. 0, pprev = \<lambda>p. 0\<rparr>))"
  have c: "hlist ?h 1 [2, 3]"
    by (simp add: hlist_add_head_hlist INIT_HLIST_HEAD_hlist)
  note r = hlist_operations_refine[of ?h 1 "[2]" 3 "[]" 9] hlist_operations_refine[of ?h 1 "[]" 2 "[3]" 9]
  show ?thesis unfolding Let_def using c r by (auto dest: hlist_for_each_hlist)
qed

end
