(* ===== verification/Vzp.thy ===== *)
theory Vzp
  imports Nsb_Prelude
begin

text \<open>
  \<open>include/vzp.h\<close>, the macros with which the author of a patch describes it: each use declares
  what it refers to and puts a constant into the section \<open>vzp_meta\<close>, from which the patch is
  generated. A macro is a function on token texts, \<open>##\<close> is concatenation, and an argument list
  is a list; \<open>None\<close> is an expansion that does not compile (too few arguments, or the name of a
  macro that does not exist). Names and types that are themselves macros are not considered.

  The environment holds what the source may define before including the header:
  \<open>VZP_PREFIX\<close> and \<open>VZP_ALLOW_STATIC\<close>, the definitions of \<open>VZP_NO_STATIC_\<close>\<^emph>\<open>line\<close>, and the
  name of the file. The state is the translation unit so far.
\<close>

record vzp_env =
  VZP_PREFIX :: string
  VZP_ALLOW_STATIC :: bool
  VZP_NO_STATIC :: "nat \<Rightarrow> string option"
  vzp_FILE :: string

text \<open>The prefix when the source defines none.\<close>

definition vzpatch_prefix :: string where
  "vzpatch_prefix = ''vzpatch_''"

definition VZP_STATIC_DEF_LINKAGE :: "vzp_env \<Rightarrow> string" where
  "VZP_STATIC_DEF_LINKAGE env = (if \<not> VZP_ALLOW_STATIC env then ''extern'' else ''static'')"

definition VZP_STATIC_ALT_LINKAGE :: "vzp_env \<Rightarrow> string" where
  "VZP_STATIC_ALT_LINKAGE env = (if \<not> VZP_ALLOW_STATIC env then ''BAD_LINKAGE'' else ''extern'')"

definition VZP_TAG_FILE :: int where "VZP_TAG_FILE = 1"
definition VZP_TAG_SYMBOL :: int where "VZP_TAG_SYMBOL = 2"
definition VZP_TAG_ALIAS :: int where "VZP_TAG_ALIAS = 3"

definition VZP_VIS_INTERNAL :: int where "VZP_VIS_INTERNAL = 1"
definition VZP_VIS_HIDDEN :: int where "VZP_VIS_HIDDEN = 2"
definition VZP_VIS_PROTECTED :: int where "VZP_VIS_PROTECTED = 3"
definition VZP_VIS_STATIC :: int where "VZP_VIS_STATIC = 100"

section \<open>The records of the section\<close>

record vzp_header_t =
  vh_tag :: int
  vh_filename :: string
  vh_line :: nat

record vzp_file_t =
  vf_header :: vzp_header_t
  vf_target_filename :: string

record vzp_symbol_t =
  vs_header :: vzp_header_t
  vs_target_filename :: "string option"
  vs_symbol :: string
  vs_visibility :: int

record vzp_alias_t =
  va_header :: vzp_header_t
  va_patch_symbol :: string
  va_target_symbol :: string

datatype vzp_meta = Meta_file vzp_file_t | Meta_symbol vzp_symbol_t | Meta_alias vzp_alias_t

text \<open>The linkage (or \<open>extern\<close>), the type, the name, and the parameters of a function.\<close>

datatype vzp_decl = Decl_var string string string | Decl_func string string string

text \<open>\<open>tu_counter\<close> is the next value of \<open>__COUNTER__\<close>, if the compiler has it.\<close>

record vzp_tu =
  tu_counter :: "nat option"
  tu_decls :: "vzp_decl list"
  tu_meta :: "(string \<times> vzp_meta) list"

definition VZP_X_HEADER :: "vzp_env \<Rightarrow> nat \<Rightarrow> int \<Rightarrow> vzp_header_t" where
  "VZP_X_HEADER env line tag = \<lparr>vh_tag = tag, vh_filename = vzp_FILE env, vh_line = line\<rparr>"

section \<open>Names\<close>

definition VZP_X_PASTE :: "string \<Rightarrow> string \<Rightarrow> string \<Rightarrow> string" where
  "VZP_X_PASTE prefix middle suffix = prefix @ middle @ suffix"

definition VZP_X_JOIN_2 :: "string \<Rightarrow> string \<Rightarrow> string" where
  "VZP_X_JOIN_2 prefix suffix = VZP_X_PASTE prefix [] suffix"

definition VZP_X_NEXT_NUM :: "nat \<Rightarrow> vzp_tu \<Rightarrow> nat \<times> vzp_tu" where
  "VZP_X_NEXT_NUM line tu =
     (case tu_counter tu of Some n \<Rightarrow> (n, tu\<lparr>tu_counter := Some (n + 1)\<rparr>) | None \<Rightarrow> (line, tu))"

definition VZP_X_CREATE_ID :: "vzp_env \<Rightarrow> nat \<Rightarrow> string \<Rightarrow> vzp_tu \<Rightarrow> string \<times> vzp_tu" where
  "VZP_X_CREATE_ID env line basename tu =
     (case VZP_X_NEXT_NUM line tu of (num, tu) \<Rightarrow> (VZP_X_PASTE (VZP_PREFIX env) basename (dec_string num), tu))"

definition VZP_X_FILE_ID :: "vzp_env \<Rightarrow> nat \<Rightarrow> vzp_tu \<Rightarrow> string \<times> vzp_tu" where
  "VZP_X_FILE_ID env line = VZP_X_CREATE_ID env line ''file_''"

definition VZP_X_SYMBOL_ID :: "vzp_env \<Rightarrow> nat \<Rightarrow> vzp_tu \<Rightarrow> string \<times> vzp_tu" where
  "VZP_X_SYMBOL_ID env line = VZP_X_CREATE_ID env line ''symbol_''"

definition VZP_X_ALIAS_ID :: "vzp_env \<Rightarrow> nat \<Rightarrow> vzp_tu \<Rightarrow> string \<times> vzp_tu" where
  "VZP_X_ALIAS_ID env line = VZP_X_CREATE_ID env line ''alias_''"

section \<open>Counting arguments and choosing\<close>

definition VZP_X_AT_POS :: "string list \<Rightarrow> string option" where
  "VZP_X_AT_POS args = (if 5 < length args then Some (args ! 5) else None)"

text \<open>The empty first argument; with no further ones the GNU comma deletion leaves just the digits.\<close>

definition VZP_X_COUNT :: "string list \<Rightarrow> string option" where
  "VZP_X_COUNT args = VZP_X_AT_POS ([] # args @ [''4'', ''3'', ''2'', ''1'', ''0''])"

definition VZP_X_COND_1 :: "string \<Rightarrow> string \<Rightarrow> string" where
  "VZP_X_COND_1 true_arg false_arg = false_arg"

definition VZP_X_COND_2 :: "string \<Rightarrow> string \<Rightarrow> string" where
  "VZP_X_COND_2 true_arg false_arg = true_arg"

definition VZP_X_COND_SELECT :: "string \<Rightarrow> (string \<Rightarrow> string \<Rightarrow> string) option" where
  "VZP_X_COND_SELECT n =
     (let name = VZP_X_JOIN_2 ''VZP_X_COND_'' n
      in if name = ''VZP_X_COND_1'' then Some VZP_X_COND_1
         else if name = ''VZP_X_COND_2'' then Some VZP_X_COND_2 else None)"

text \<open>What an identifier expands to as an argument list: \<open>VZP_X_VALUE_1\<close> has a comma.\<close>

definition VZP_X_VALUE :: "string \<Rightarrow> string list" where
  "VZP_X_VALUE name = (if name = ''VZP_X_VALUE_1'' then [''^'', ''^''] else [name])"

definition VZP_X_COND :: "string \<Rightarrow> string \<Rightarrow> string \<Rightarrow> string option" where
  "VZP_X_COND macro arg_true arg_false = do {
     n \<leftarrow> VZP_X_COUNT (VZP_X_VALUE (VZP_X_JOIN_2 ''VZP_X_VALUE_'' macro));
     c \<leftarrow> VZP_X_COND_SELECT n;
     Some (c arg_true arg_false) }"

text \<open>\<open>VZP_NO_STATIC_\<close>\<^emph>\<open>line\<close> stays as it is when it is not defined.\<close>

definition VZP_X_LINKAGE :: "vzp_env \<Rightarrow> nat \<Rightarrow> string option" where
  "VZP_X_LINKAGE env line =
     VZP_X_COND (case VZP_NO_STATIC env line of
                   None \<Rightarrow> VZP_X_JOIN_2 ''VZP_NO_STATIC_'' (dec_string line) | Some text \<Rightarrow> text)
       (VZP_STATIC_ALT_LINKAGE env) (VZP_STATIC_DEF_LINKAGE env)"

section \<open>Declarations and entries\<close>

definition VZP_X_DECL_VAR :: "vzp_env \<Rightarrow> nat \<Rightarrow> string \<Rightarrow> string \<Rightarrow> vzp_tu \<Rightarrow> vzp_tu option" where
  "VZP_X_DECL_VAR env line type name tu = do {
     linkage \<leftarrow> VZP_X_LINKAGE env line;
     Some (tu\<lparr>tu_decls := tu_decls tu @ [Decl_var linkage type name]\<rparr>) }"

definition VZP_X_DECL_FUNC :: "string \<Rightarrow> string \<Rightarrow> string \<Rightarrow> vzp_tu \<Rightarrow> vzp_tu" where
  "VZP_X_DECL_FUNC type name args tu = tu\<lparr>tu_decls := tu_decls tu @ [Decl_func type name args]\<rparr>"

definition VZP_X_SYM_FILENAME :: "vzp_env \<Rightarrow> nat \<Rightarrow> int \<Rightarrow> string \<Rightarrow> string option \<Rightarrow> vzp_tu \<Rightarrow> vzp_tu" where
  "VZP_X_SYM_FILENAME env line vis name fn tu =
     (case VZP_X_SYMBOL_ID env line tu of
        (ident, tu) \<Rightarrow> tu\<lparr>tu_meta := tu_meta tu @ [(ident, Meta_symbol \<lparr>vs_header = VZP_X_HEADER env line VZP_TAG_SYMBOL,
                       vs_target_filename = fn, vs_symbol = name, vs_visibility = vis\<rparr>)]\<rparr>)"

definition VZP_X_SYM :: "vzp_env \<Rightarrow> nat \<Rightarrow> int \<Rightarrow> string \<Rightarrow> vzp_tu \<Rightarrow> vzp_tu" where
  "VZP_X_SYM env line vis name = VZP_X_SYM_FILENAME env line vis name None"

definition VZP_X_GET_HANDLER :: "string \<Rightarrow> string \<Rightarrow> string" where
  "VZP_X_GET_HANDLER prefix n = VZP_X_PASTE prefix n []"

definition VZP_X_STATIC_VAR_REF_2 :: "vzp_env \<Rightarrow> nat \<Rightarrow> string \<Rightarrow> string \<Rightarrow> vzp_tu \<Rightarrow> vzp_tu option" where
  "VZP_X_STATIC_VAR_REF_2 env line type name tu = do {
     tu \<leftarrow> VZP_X_DECL_VAR env line type name tu;
     Some (VZP_X_SYM env line VZP_VIS_STATIC name tu) }"

definition VZP_X_STATIC_VAR_REF_3 :: "vzp_env \<Rightarrow> nat \<Rightarrow> string \<Rightarrow> string \<Rightarrow> string \<Rightarrow> vzp_tu \<Rightarrow> vzp_tu option" where
  "VZP_X_STATIC_VAR_REF_3 env line type name filename tu = do {
     tu \<leftarrow> VZP_X_DECL_VAR env line type name tu;
     Some (VZP_X_SYM_FILENAME env line VZP_VIS_STATIC name (Some filename) tu) }"

definition VZP_X_STATIC_FUNC_REF_3 :: "vzp_env \<Rightarrow> nat \<Rightarrow> string \<Rightarrow> string \<Rightarrow> string \<Rightarrow> vzp_tu \<Rightarrow> vzp_tu option" where
  "VZP_X_STATIC_FUNC_REF_3 env line type name args tu =
     Some (VZP_X_SYM env line VZP_VIS_STATIC name (VZP_X_DECL_FUNC type name args tu))"

definition VZP_X_STATIC_FUNC_REF_4 ::
    "vzp_env \<Rightarrow> nat \<Rightarrow> string \<Rightarrow> string \<Rightarrow> string \<Rightarrow> string \<Rightarrow> vzp_tu \<Rightarrow> vzp_tu option" where
  "VZP_X_STATIC_FUNC_REF_4 env line type name args filename tu =
     Some (VZP_X_SYM_FILENAME env line VZP_VIS_STATIC name (Some filename) (VZP_X_DECL_FUNC type name args tu))"

text \<open>The call of the handler whose name has been put together.\<close>

definition VZP_X_CALL :: "vzp_env \<Rightarrow> nat \<Rightarrow> string \<Rightarrow> string list \<Rightarrow> vzp_tu \<Rightarrow> vzp_tu option" where
  "VZP_X_CALL env line prefix args tu = do {
     n \<leftarrow> VZP_X_COUNT args;
     let handler = VZP_X_GET_HANDLER prefix n;
     (case args of
        [a, b] \<Rightarrow> if handler = ''VZP_X_STATIC_VAR_REF_2'' then VZP_X_STATIC_VAR_REF_2 env line a b tu else None
      | [a, b, c] \<Rightarrow> if handler = ''VZP_X_STATIC_VAR_REF_3'' then VZP_X_STATIC_VAR_REF_3 env line a b c tu
                     else if handler = ''VZP_X_STATIC_FUNC_REF_3'' then VZP_X_STATIC_FUNC_REF_3 env line a b c tu else None
      | [a, b, c, d] \<Rightarrow> if handler = ''VZP_X_STATIC_FUNC_REF_4'' then VZP_X_STATIC_FUNC_REF_4 env line a b c d tu else None
      | _ \<Rightarrow> None) }"

section \<open>The macros of the author\<close>

definition VZP_FILE :: "vzp_env \<Rightarrow> nat \<Rightarrow> string \<Rightarrow> vzp_tu \<Rightarrow> vzp_tu" where
  "VZP_FILE env line name tu =
     (case VZP_X_FILE_ID env line tu of
        (ident, tu) \<Rightarrow> tu\<lparr>tu_meta := tu_meta tu @ [(ident, Meta_file \<lparr>vf_header = VZP_X_HEADER env line VZP_TAG_FILE,
                       vf_target_filename = name\<rparr>)]\<rparr>)"

definition VZP_STATIC_SYM_ALIAS :: "vzp_env \<Rightarrow> nat \<Rightarrow> string \<Rightarrow> string \<Rightarrow> vzp_tu \<Rightarrow> vzp_tu" where
  "VZP_STATIC_SYM_ALIAS env line patch_sym target_sym tu =
     (case VZP_X_ALIAS_ID env line tu of
        (ident, tu) \<Rightarrow> tu\<lparr>tu_meta := tu_meta tu @ [(ident, Meta_alias \<lparr>va_header = VZP_X_HEADER env line VZP_TAG_ALIAS,
                       va_patch_symbol = patch_sym, va_target_symbol = target_sym\<rparr>)]\<rparr>)"

definition VZP_STATIC_VAR_REF :: "vzp_env \<Rightarrow> nat \<Rightarrow> string \<Rightarrow> string \<Rightarrow> string list \<Rightarrow> vzp_tu \<Rightarrow> vzp_tu option" where
  "VZP_STATIC_VAR_REF env line type name rest = VZP_X_CALL env line ''VZP_X_STATIC_VAR_REF_'' (type # name # rest)"

definition VZP_INTERNAL_VAR_REF :: "vzp_env \<Rightarrow> nat \<Rightarrow> string \<Rightarrow> string \<Rightarrow> vzp_tu \<Rightarrow> vzp_tu option" where
  "VZP_INTERNAL_VAR_REF env line type name tu = do {
     tu \<leftarrow> VZP_X_DECL_VAR env line type name tu;
     Some (VZP_X_SYM env line VZP_VIS_INTERNAL name tu) }"

definition VZP_HIDDEN_VAR_REF :: "vzp_env \<Rightarrow> nat \<Rightarrow> string \<Rightarrow> string \<Rightarrow> vzp_tu \<Rightarrow> vzp_tu option" where
  "VZP_HIDDEN_VAR_REF env line type name tu = do {
     tu \<leftarrow> VZP_X_DECL_VAR env line type name tu;
     Some (VZP_X_SYM env line VZP_VIS_HIDDEN name tu) }"

definition VZP_PROTECTED_VAR_REF :: "vzp_env \<Rightarrow> nat \<Rightarrow> string \<Rightarrow> string \<Rightarrow> vzp_tu \<Rightarrow> vzp_tu option" where
  "VZP_PROTECTED_VAR_REF env line type name tu = do {
     tu \<leftarrow> VZP_X_DECL_VAR env line type name tu;
     Some (VZP_X_SYM env line VZP_VIS_PROTECTED name tu) }"

definition VZP_STATIC_FUNC_REF ::
    "vzp_env \<Rightarrow> nat \<Rightarrow> string \<Rightarrow> string \<Rightarrow> string \<Rightarrow> string list \<Rightarrow> vzp_tu \<Rightarrow> vzp_tu option" where
  "VZP_STATIC_FUNC_REF env line type name args rest =
     VZP_X_CALL env line ''VZP_X_STATIC_FUNC_REF_'' (type # name # args # rest)"

definition VZP_INTERNAL_FUNC_REF :: "vzp_env \<Rightarrow> nat \<Rightarrow> string \<Rightarrow> string \<Rightarrow> string \<Rightarrow> vzp_tu \<Rightarrow> vzp_tu" where
  "VZP_INTERNAL_FUNC_REF env line type name args tu =
     VZP_X_SYM env line VZP_VIS_INTERNAL name (VZP_X_DECL_FUNC type name args tu)"

definition VZP_HIDDEN_FUNC_REF :: "vzp_env \<Rightarrow> nat \<Rightarrow> string \<Rightarrow> string \<Rightarrow> string \<Rightarrow> vzp_tu \<Rightarrow> vzp_tu" where
  "VZP_HIDDEN_FUNC_REF env line type name args tu =
     VZP_X_SYM env line VZP_VIS_HIDDEN name (VZP_X_DECL_FUNC type name args tu)"

definition VZP_PROTECTED_FUNC_REF :: "vzp_env \<Rightarrow> nat \<Rightarrow> string \<Rightarrow> string \<Rightarrow> string \<Rightarrow> vzp_tu \<Rightarrow> vzp_tu" where
  "VZP_PROTECTED_FUNC_REF env line type name args tu =
     VZP_X_SYM env line VZP_VIS_PROTECTED name (VZP_X_DECL_FUNC type name args tu)"

section \<open>What a sequence of uses leaves behind\<close>

datatype vzp_vis = Vis_static "string option" | Vis_internal | Vis_hidden | Vis_protected

datatype vzp_use =
    Use_file string
  | Use_alias string string
  | Use_var vzp_vis string string
  | Use_func vzp_vis string string string

fun expand_use :: "vzp_env \<Rightarrow> nat \<Rightarrow> vzp_use \<Rightarrow> vzp_tu \<Rightarrow> vzp_tu option" where
  "expand_use env line (Use_file name) tu = Some (VZP_FILE env line name tu)"
| "expand_use env line (Use_alias p t) tu = Some (VZP_STATIC_SYM_ALIAS env line p t tu)"
| "expand_use env line (Use_var (Vis_static fn) type name) tu =
     VZP_STATIC_VAR_REF env line type name (case fn of None \<Rightarrow> [] | Some f \<Rightarrow> [f]) tu"
| "expand_use env line (Use_var Vis_internal type name) tu = VZP_INTERNAL_VAR_REF env line type name tu"
| "expand_use env line (Use_var Vis_hidden type name) tu = VZP_HIDDEN_VAR_REF env line type name tu"
| "expand_use env line (Use_var Vis_protected type name) tu = VZP_PROTECTED_VAR_REF env line type name tu"
| "expand_use env line (Use_func (Vis_static fn) type name args) tu =
     VZP_STATIC_FUNC_REF env line type name args (case fn of None \<Rightarrow> [] | Some f \<Rightarrow> [f]) tu"
| "expand_use env line (Use_func Vis_internal type name args) tu = Some (VZP_INTERNAL_FUNC_REF env line type name args tu)"
| "expand_use env line (Use_func Vis_hidden type name args) tu = Some (VZP_HIDDEN_FUNC_REF env line type name args tu)"
| "expand_use env line (Use_func Vis_protected type name args) tu = Some (VZP_PROTECTED_FUNC_REF env line type name args tu)"

fun expand_uses :: "vzp_env \<Rightarrow> (nat \<times> vzp_use) list \<Rightarrow> vzp_tu \<Rightarrow> vzp_tu option" where
  "expand_uses env [] tu = Some tu"
| "expand_uses env ((line, u) # us) tu = do { tu \<leftarrow> expand_use env line u tu; expand_uses env us tu }"

text \<open>The reference: the entry, the kind of its name, and the declaration of each use.\<close>

fun vis_code :: "vzp_vis \<Rightarrow> int" where
  "vis_code (Vis_static fn) = 100" | "vis_code Vis_internal = 1" | "vis_code Vis_hidden = 2" | "vis_code Vis_protected = 3"

fun vis_file :: "vzp_vis \<Rightarrow> string option" where
  "vis_file (Vis_static fn) = fn" | "vis_file vis = None"

definition symbol_entry :: "vzp_env \<Rightarrow> nat \<Rightarrow> vzp_vis \<Rightarrow> string \<Rightarrow> vzp_meta" where
  "symbol_entry env line vis name = Meta_symbol \<lparr>vs_header = \<lparr>vh_tag = 2, vh_filename = vzp_FILE env, vh_line = line\<rparr>,
     vs_target_filename = vis_file vis, vs_symbol = name, vs_visibility = vis_code vis\<rparr>"

fun use_entry :: "vzp_env \<Rightarrow> nat \<Rightarrow> vzp_use \<Rightarrow> vzp_meta" where
  "use_entry env line (Use_file name) =
     Meta_file \<lparr>vf_header = \<lparr>vh_tag = 1, vh_filename = vzp_FILE env, vh_line = line\<rparr>, vf_target_filename = name\<rparr>"
| "use_entry env line (Use_alias p t) =
     Meta_alias \<lparr>va_header = \<lparr>vh_tag = 3, vh_filename = vzp_FILE env, vh_line = line\<rparr>, va_patch_symbol = p, va_target_symbol = t\<rparr>"
| "use_entry env line (Use_var vis type name) = symbol_entry env line vis name"
| "use_entry env line (Use_func vis type name args) = symbol_entry env line vis name"

fun use_kind :: "vzp_use \<Rightarrow> string" where
  "use_kind (Use_file name) = ''file_''" | "use_kind (Use_alias p t) = ''alias_''" | "use_kind u = ''symbol_''"

text \<open>A variable is static where that is allowed and its line has not opted out, and extern otherwise.\<close>

definition linkage :: "vzp_env \<Rightarrow> nat \<Rightarrow> string" where
  "linkage env line =
     (if VZP_NO_STATIC env line \<noteq> Some ''1'' then if VZP_ALLOW_STATIC env then ''static'' else ''extern''
      else if VZP_ALLOW_STATIC env then ''extern'' else ''BAD_LINKAGE'')"

fun use_decls :: "vzp_env \<Rightarrow> nat \<times> vzp_use \<Rightarrow> vzp_decl list" where
  "use_decls env (line, Use_var vis type name) = [Decl_var (linkage env line) type name]"
| "use_decls env (line, Use_func vis type name args) = [Decl_func type name args]"
| "use_decls env (line, u) = []"

fun uses_meta :: "vzp_env \<Rightarrow> nat option \<Rightarrow> (nat \<times> vzp_use) list \<Rightarrow> (string \<times> vzp_meta) list" where
  "uses_meta env c [] = []"
| "uses_meta env c ((line, u) # us) =
     (VZP_PREFIX env @ use_kind u @ dec_string (case c of None \<Rightarrow> line | Some n \<Rightarrow> n), use_entry env line u)
     # uses_meta env (map_option Suc c) us"

section \<open>The macros compute what they are for\<close>

lemma count_arguments: "length args \<le> 4 \<Longrightarrow> VZP_X_COUNT args = Some (dec_string (length args))"
proof -
  assume "length args \<le> 4"
  then consider "length args = 0" | "length args = 1" | "length args = 2" | "length args = 3" | "length args = 4" by linarith
  then show ?thesis
    by cases (simp_all add: VZP_X_COUNT_def VZP_X_AT_POS_def nth_append dec_string.simps hexd_def)
qed

text \<open>With five arguments and more the macro answers with the fifth of them.\<close>

lemma count_too_many: "4 < length args \<Longrightarrow> VZP_X_COUNT args = Some (args ! 4)"
  by (simp add: VZP_X_COUNT_def VZP_X_AT_POS_def nth_append)

lemma linkage_correct: "VZP_X_LINKAGE env line = Some (linkage env line)"
proof -
  have one: "VZP_X_COND m a b = Some (if m = ''1'' then a else b)" for m a b
    by (auto simp: VZP_X_COND_def VZP_X_VALUE_def VZP_X_JOIN_2_def VZP_X_PASTE_def count_arguments VZP_X_COND_SELECT_def
        VZP_X_COND_1_def VZP_X_COND_2_def dec_string.simps hexd_def)
  then show ?thesis
    by (auto simp: VZP_X_LINKAGE_def linkage_def VZP_STATIC_ALT_LINKAGE_def VZP_STATIC_DEF_LINKAGE_def VZP_X_JOIN_2_def
        VZP_X_PASTE_def split: option.splits)
qed

lemmas vzp_names = VZP_X_FILE_ID_def VZP_X_ALIAS_ID_def VZP_X_SYMBOL_ID_def VZP_X_CREATE_ID_def VZP_X_NEXT_NUM_def VZP_X_PASTE_def

lemmas vzp_symbols = VZP_X_SYM_def VZP_X_SYM_FILENAME_def VZP_X_DECL_VAR_def VZP_X_DECL_FUNC_def VZP_X_HEADER_def symbol_entry_def
  VZP_TAG_FILE_def VZP_TAG_SYMBOL_def VZP_TAG_ALIAS_def VZP_VIS_STATIC_def VZP_VIS_INTERNAL_def VZP_VIS_HIDDEN_def VZP_VIS_PROTECTED_def

lemma static_var_ref:
  "VZP_STATIC_VAR_REF env line type name [] = VZP_X_STATIC_VAR_REF_2 env line type name"
  "VZP_STATIC_VAR_REF env line type name [fn] = VZP_X_STATIC_VAR_REF_3 env line type name fn"
  "VZP_STATIC_VAR_REF env line type name (fn # fn' # rest) tu = None"
  by (auto simp: VZP_STATIC_VAR_REF_def VZP_X_CALL_def count_arguments VZP_X_GET_HANDLER_def VZP_X_PASTE_def dec_string.simps
      hexd_def fun_eq_iff split: bind_splits list.splits)

lemma static_func_ref:
  "VZP_STATIC_FUNC_REF env line type name args [] = VZP_X_STATIC_FUNC_REF_3 env line type name args"
  "VZP_STATIC_FUNC_REF env line type name args [fn] = VZP_X_STATIC_FUNC_REF_4 env line type name args fn"
  "VZP_STATIC_FUNC_REF env line type name args (fn # fn' # rest) tu = None"
  by (auto simp: VZP_STATIC_FUNC_REF_def VZP_X_CALL_def count_arguments VZP_X_GET_HANDLER_def VZP_X_PASTE_def dec_string.simps
      hexd_def fun_eq_iff split: bind_splits list.splits)

lemma expand_use_spec:
  "expand_use env line u tu = Some \<lparr>tu_counter = map_option Suc (tu_counter tu), tu_decls = tu_decls tu @ use_decls env (line, u),
     tu_meta = tu_meta tu @ uses_meta env (tu_counter tu) [(line, u)]\<rparr>"
proof (cases u)
  case (Use_var vis type name)
  then show ?thesis
    by (cases vis) (auto simp: vzp_names vzp_symbols linkage_correct static_var_ref VZP_X_STATIC_VAR_REF_2_def
        VZP_X_STATIC_VAR_REF_3_def VZP_INTERNAL_VAR_REF_def VZP_HIDDEN_VAR_REF_def VZP_PROTECTED_VAR_REF_def split: option.splits)
next
  case (Use_func vis type name args)
  then show ?thesis
    by (cases vis) (auto simp: vzp_names vzp_symbols static_func_ref VZP_X_STATIC_FUNC_REF_3_def
        VZP_X_STATIC_FUNC_REF_4_def VZP_INTERNAL_FUNC_REF_def VZP_HIDDEN_FUNC_REF_def VZP_PROTECTED_FUNC_REF_def split: option.splits)
qed (auto simp: vzp_names vzp_symbols VZP_FILE_def VZP_STATIC_SYM_ALIAS_def split: option.splits)

lemma expand_uses_spec:
  "expand_uses env us tu = Some \<lparr>tu_counter = map_option ((+) (length us)) (tu_counter tu),
     tu_decls = tu_decls tu @ concat (map (use_decls env) us), tu_meta = tu_meta tu @ uses_meta env (tu_counter tu) us\<rparr>"
proof (induction us arbitrary: tu)
  case (Cons a us)
  then show ?case by (cases a) (simp add: expand_use_spec option.map_comp comp_def del: use_decls.simps)
qed (simp add: option.map_ident[unfolded id_def] plus_nat.add_0 cong: option.map_cong)

lemma dec_string_inj: "dec_string m = dec_string n \<longleftrightarrow> m = n"
  by (metis dec_string_value)

lemma meta_names:
  "c = None \<Longrightarrow> fst ` set (uses_meta env c us) = (\<lambda>(line, u). VZP_PREFIX env @ use_kind u @ dec_string line) ` set us"
  "\<lbrakk>i \<in> fst ` set (uses_meta env (Some n) us)\<rbrakk> \<Longrightarrow> \<exists>u m. n \<le> m \<and> i = VZP_PREFIX env @ use_kind u @ dec_string m"
proof (induction us arbitrary: c n)
  case (Cons a us)
  {
    case 1
    with Cons.IH(1)[of None] show ?case by (cases a) auto
  next
    case 2
    then consider "\<exists>u. i = VZP_PREFIX env @ use_kind u @ dec_string n" | "i \<in> fst ` set (uses_meta env (Some (Suc n)) us)"
      by (cases a) auto
    then show ?case by cases (use Cons.IH(2)[of "Suc n"] Suc_leD in blast)+
  }
qed auto

lemma use_kind_name: "use_kind u @ dec_string m = use_kind v @ dec_string n \<longleftrightarrow> use_kind u = use_kind v \<and> m = n"
  by (cases u; cases v) (auto simp: dec_string_inj)

text \<open>The names are all different: always with \<open>__COUNTER__\<close>, and without it when no two uses share a line.\<close>

lemma meta_names_distinct:
  "c \<noteq> None \<or> distinct (map fst us) \<Longrightarrow> distinct (map fst (uses_meta env c us))"
proof (induction us arbitrary: c)
  case (Cons a us)
  obtain line u where a: "a = (line, u)" by fastforce
  show ?case
  proof (cases c)
    case None
    with Cons.prems a have "line \<notin> fst ` set us" "distinct (map fst us)" by auto
    with None a Cons.IH[of None] show ?thesis
      by (auto simp: meta_names(1) use_kind_name image_iff)
  next
    case (Some n)
    have "VZP_PREFIX env @ use_kind u @ dec_string n \<notin> fst ` set (uses_meta env (Some (Suc n)) us)"
      using meta_names(2)[of _ env "Suc n" us] by (fastforce simp: use_kind_name)
    with Some a Cons.IH[of "Some (Suc n)"] show ?thesis by simp
  qed
qed simp

text \<open>
  C39: The annotations of a patch source are all recorded. Any sequence of uses of the macros expands,
  and the section \<open>vzp_meta\<close> holds one entry for each use, in order, with the tag, the file and
  line, the visibility and the names that were written; the entries have different names, and each
  variable and function is declared, a variable with the linkage its line asks for.
\<close>

theorem annotations_recorded:
  assumes "tu_counter tu \<noteq> None \<or> distinct (map fst us)" "tu_meta tu = []" "tu_decls tu = []"
  shows "\<exists>tu'. expand_uses env us tu = Some tu' \<and> map snd (tu_meta tu') = map (\<lambda>(line, u). use_entry env line u) us
    \<and> distinct (map fst (tu_meta tu')) \<and> tu_decls tu' = concat (map (use_decls env) us)"
proof -
  have "map snd (uses_meta env c us) = map (\<lambda>(line, u). use_entry env line u) us" for c
    by (induction us arbitrary: c) auto
  with meta_names_distinct[OF assms(1)] assms show ?thesis by (simp add: expand_uses_spec)
qed

theorem annotations_recorded_witness:
  "\<exists>tu'. expand_uses \<lparr>VZP_PREFIX = vzpatch_prefix, VZP_ALLOW_STATIC = False, VZP_NO_STATIC = (\<lambda>line. None), vzp_FILE = ''p.c''\<rparr>
       [(3, Use_file ''lib.c''), (4, Use_var (Vis_static (Some ''a.c'')) ''int'' ''count''), (4, Use_alias ''f'' ''g'')]
       \<lparr>tu_counter = Some 0, tu_decls = [], tu_meta = []\<rparr> = Some tu'
     \<and> map snd (tu_meta tu') =
        [Meta_file \<lparr>vf_header = \<lparr>vh_tag = 1, vh_filename = ''p.c'', vh_line = 3\<rparr>, vf_target_filename = ''lib.c''\<rparr>,
         Meta_symbol \<lparr>vs_header = \<lparr>vh_tag = 2, vh_filename = ''p.c'', vh_line = 4\<rparr>, vs_target_filename = Some ''a.c'',
           vs_symbol = ''count'', vs_visibility = 100\<rparr>,
         Meta_alias \<lparr>va_header = \<lparr>vh_tag = 3, vh_filename = ''p.c'', vh_line = 4\<rparr>, va_patch_symbol = ''f'', va_target_symbol = ''g''\<rparr>]
     \<and> distinct (map fst (tu_meta tu')) \<and> tu_decls tu' = [Decl_var ''extern'' ''int'' ''count'']"
  using annotations_recorded[of "\<lparr>tu_counter = Some 0, tu_decls = [], tu_meta = []\<rparr>"
    "[(3, Use_file ''lib.c''), (4, Use_var (Vis_static (Some ''a.c'')) ''int'' ''count''), (4, Use_alias ''f'' ''g'')]"
    "\<lparr>VZP_PREFIX = vzpatch_prefix, VZP_ALLOW_STATIC = False, VZP_NO_STATIC = (\<lambda>line. None), vzp_FILE = ''p.c''\<rparr>"]
  by (simp add: linkage_def symbol_entry_def)

end
