(* ===== verification/Compiler.thy ===== *)
theory Compiler
  imports Nsb_Prelude
begin

text \<open>
  The arithmetic macros of \<open>patcher/include/compiler.h\<close> on 64 bit words, which is the type of
  every address and size they are applied to. The rounding macros work on powers of two only;
  the lemmas relate them to rounding of numbers and to one another.
\<close>

unbundle bit_operations_syntax

definition round_mask :: "u64 \<Rightarrow> u64" where
  "round_mask y = y - 1"

definition round_up :: "u64 \<Rightarrow> u64 \<Rightarrow> u64" where
  "round_up x y = ((x - 1) OR round_mask y) + 1"

definition round_down :: "u64 \<Rightarrow> u64 \<Rightarrow> u64" where
  "round_down x y = x AND NOT (round_mask y)"

definition DIV_ROUND_UP :: "u64 \<Rightarrow> u64 \<Rightarrow> u64" where
  "DIV_ROUND_UP n d = (n + d - 1) div d"

definition ALIGN :: "u64 \<Rightarrow> u64 \<Rightarrow> u64" where
  "ALIGN x a = (x + a - 1) AND NOT (a - 1)"

definition is_log2 :: "u64 \<Rightarrow> bool" where
  "is_log2 v \<longleftrightarrow> v AND (v - 1) = 0"

section \<open>Powers of two\<close>

lemma unsigned_2p: "uint (2 ^ k :: u64) = take_bit 64 (2 ^ k)" "unat (2 ^ k :: u64) = take_bit 64 (2 ^ k)"
proof -
  have "uint (of_int (2 ^ k) :: u64) = take_bit 64 (2 ^ k)" "unat (of_nat (2 ^ k) :: u64) = take_bit 64 (2 ^ k)"
    by (simp_all only: unsigned_of_int unsigned_of_nat) simp_all
  then show "uint (2 ^ k :: u64) = take_bit 64 (2 ^ k)" "unat (2 ^ k :: u64) = take_bit 64 (2 ^ k)" by simp_all
qed

lemma exponent_small: "2 ^ k \<le> unat (v :: u64) \<Longrightarrow> k < 64"
proof -
  assume "2 ^ k \<le> unat v"
  also have "unat v < 2 ^ 64" using unsigned_less[of v] by simp
  finally show ?thesis by (rule power_less_imp_less_exp[rotated]) simp
qed

lemma bit_between:
  fixes v :: u64
  assumes "2 ^ k \<le> unat v" "unat v < 2 ^ Suc k"
  shows "bit v k"
proof -
  have "unat v div 2 ^ k = 1" using assms by (intro div_nat_eqI) simp_all
  then have "bit (unat v) k" by (simp add: bit_iff_odd)
  moreover have "k < 64" by (rule exponent_small[OF assms(1)])
  ultimately show ?thesis by (simp add: bit_unsigned_iff)
qed

lemma is_log2_iff: "is_log2 v \<longleftrightarrow> v = 0 \<or> (\<exists>k < 64. v = 2 ^ k)"
proof
  assume l: "is_log2 v"
  show "v = 0 \<or> (\<exists>k < 64. v = 2 ^ k)"
  proof (cases "v = 0")
    case False
    then have pos: "0 < unat v" by (simp add: unat_gt_0)
    then obtain k where k: "2 ^ k \<le> unat v" "unat v < 2 ^ Suc k"
      using ex_power_ivl1[of 2 "unat v"] by auto
    have "unat v = 2 ^ k"
    proof (rule ccontr)
      assume "unat v \<noteq> 2 ^ k"
      then have "bit (v - 1) k" using k pos by (intro bit_between) (simp_all add: unat_sub_if' word_le_nat_alt Suc_le_eq unat_minus_one False)
      with bit_between[OF k] l show False by (metis bit_and_iff is_log2_def bit_0_eq bot_apply bot_bool_def)
    qed
    then have "v = of_nat (2 ^ k)" by (metis of_nat_unat ucast_id)
    with exponent_small[OF k(1)] show ?thesis by (intro disjI2 exI[of _ k]) simp
  qed simp
next
  assume "v = 0 \<or> (\<exists>k < 64. v = 2 ^ k)"
  then show "is_log2 v"
  proof
    assume "\<exists>k < 64. v = 2 ^ k"
    then obtain k where "v = 2 ^ k" by blast
    then have "v - 1 = mask k" by (simp add: mask_eq_exp_minus_1)
    moreover have "(2 ^ k :: u64) AND mask k = 0"
      by (rule bit_eqI) (auto simp: bit_exp_iff bit_mask_iff bit_and_iff)
    ultimately show ?thesis using \<open>v = 2 ^ k\<close> by (simp add: is_log2_def)
  qed (simp add: is_log2_def)
qed

section \<open>Rounding\<close>

lemma clear_low: "(v :: u64) AND NOT (mask k) = v - take_bit k v"
proof -
  have "(v AND NOT (mask k)) + take_bit k v = (v AND NOT (mask k)) OR take_bit k v"
    by (intro disjunctive_add) (simp add: bit_simps)
  also have "\<dots> = v" by (rule bit_eqI) (auto simp: bit_simps)
  finally show ?thesis by (simp add: eq_diff_eq)
qed

lemma set_low: "(v :: u64) OR mask k = (v AND NOT (mask k)) + mask k"
proof -
  have "(v AND NOT (mask k)) + mask k = (v AND NOT (mask k)) OR mask k"
    by (intro disjunctive_add) (simp add: bit_simps)
  also have "\<dots> = v OR mask k" by (rule bit_eqI) (auto simp: bit_simps)
  finally show ?thesis by simp
qed

lemma unat_clear_low: "unat ((v :: u64) AND NOT (mask k)) = unat v div 2 ^ k * 2 ^ k"
proof -
  have "take_bit k v \<le> v" by (simp add: word_le_nat_alt unsigned_take_bit_eq)
  then have "unat (v - take_bit k v) = unat v - unat v mod 2 ^ k"
    by (simp add: unat_sub unsigned_take_bit_eq flip: take_bit_eq_mod)
  then show ?thesis by (simp add: clear_low minus_mod_eq_div_mult)
qed

lemma round_down_eq: "unat (round_down x (2 ^ k)) = unat x div 2 ^ k * 2 ^ k"
  by (simp add: round_down_def round_mask_def unat_clear_low flip: mask_eq_exp_minus_1)

lemma clear_low_add: "((v :: u64) + 2 ^ k) AND NOT (mask k) = (v AND NOT (mask k)) + 2 ^ k"
proof -
  let ?m = "min k 64"
  have "take_bit ?m (uint (2 ^ k :: u64)) = take_bit ?m (2 ^ k)"
    unfolding unsigned_2p by (simp add: min.assoc)
  also have "\<dots> = 0" by (simp add: take_bit_eq_0_iff le_imp_power_dvd)
  finally have "take_bit ?m (uint v + uint (2 ^ k :: u64)) = take_bit ?m (uint v)"
    using take_bit_add[of ?m "uint v" "uint (2 ^ k :: u64)"] by simp
  moreover have "uint (v + 2 ^ k) = take_bit 64 (uint v + uint (2 ^ k :: u64))"
    by (simp add: uint_word_ariths take_bit_eq_mod)
  moreover have "take_bit 64 (uint v) = uint v"
    using unsigned_less[of v, where ?'a = int] by (intro take_bit_int_eq_self) simp_all
  then have "take_bit k (uint v) = take_bit ?m (uint v)" by (metis take_bit_take_bit)
  ultimately have "take_bit k (v + 2 ^ k) = take_bit k v"
    by (simp add: word_uint_eq_iff unsigned_take_bit_eq)
  then show ?thesis by (simp add: clear_low)
qed

lemma ALIGN_eq: "ALIGN x (2 ^ k) = round_up x (2 ^ k)"
proof -
  have "ALIGN x (2 ^ k) = ((x - 1) + 2 ^ k) AND NOT (mask k)"
    by (simp add: ALIGN_def mask_eq_exp_minus_1 algebra_simps)
  moreover have "round_up x (2 ^ k) = ((x - 1) AND NOT (mask k)) + 2 ^ k"
    by (simp add: round_up_def round_mask_def set_low flip: mask_eq_exp_minus_1)
       (simp add: mask_eq_exp_minus_1)
  ultimately show ?thesis by (simp add: clear_low_add)
qed


lemma unat_2p: "k < 64 \<Longrightarrow> unat (2 ^ k :: u64) = 2 ^ k"
  by (simp add: unsigned_2p take_bit_nat_eq_self)

text \<open>Where nothing overflows, rounding up gives the least multiple that is not below the argument.\<close>

lemma round_up_eq:
  assumes "k < 64" "unat x + 2 ^ k \<le> 2 ^ 64"
  shows "unat (round_up x (2 ^ k)) = (unat x + 2 ^ k - 1) div 2 ^ k * 2 ^ k"
proof -
  have "unat (x + (2 ^ k - 1)) = unat x + (2 ^ k - 1)"
    using assms by (subst unat_add_lem[THEN iffD1]) (simp_all add: unat_minus_one unat_2p)
  moreover have "ALIGN x (2 ^ k) = (x + (2 ^ k - 1)) AND NOT (mask k)"
    by (simp add: ALIGN_def mask_eq_exp_minus_1 add_diff_eq)
  ultimately show ?thesis by (simp add: unat_clear_low flip: ALIGN_eq)
qed

lemma DIV_ROUND_UP_eq:
  assumes "0 < d" "unat n + unat d \<le> 2 ^ 64"
  shows "unat (DIV_ROUND_UP n d) = (unat n + unat d - 1) div unat d"
proof -
  have "unat (d - 1) = unat d - 1" using assms(1) by (simp add: unat_minus_one word_gt_0)
  then have "unat (n + (d - 1)) = unat n + (unat d - 1)"
    using assms by (subst unat_add_lem[THEN iffD1]) (simp_all add: word_less_nat_alt)
  with assms(1) show ?thesis by (simp add: DIV_ROUND_UP_def unat_div algebra_simps word_less_nat_alt)
qed

end
