(* ===== verification/Nsb_Context.thy ===== *)
theory Nsb_Context
  imports List_Head
begin

text \<open>
  The data of the patcher: the structures of \<open>patcher/include\<close> (\<open>context.h\<close>, \<open>vma.h\<close>,
  \<open>dl_map.h\<close>, \<open>elf.h\<close>, \<open>service.h\<close>, \<open>process.c\<close>) as records, and the state every
  effectful function is run on.

  \<^item> Objects that the code shares through pointers (\<open>vma_area\<close>, \<open>dl_map\<close>, \<open>elf_info_s\<close>,
    \<open>patch_s\<close>) live in one store per type, addressed by \<open>ptr\<close>; pointer equality of the
    source is equality of \<open>ptr\<close>s, and a nullable pointer is a \<open>ptr option\<close>. A
    \<open>struct list_head\<close> anchor is the list of the objects on it (see \<open>List_Head\<close>).
    Objects that are never shared (threads, jumps, symbols) are list elements.
  \<^item> What the program calls but does not define (libcompel and ptrace, libelf,
    libunwind, protobuf-c, the file and socket calls of the operating system, the
    allocator) is the parameter \<open>ext\<close>: one function per call, over an arbitrary type
    \<open>'w\<close> of the outside world. An opened ELF descriptor is the record \<open>Elf\<close> of what
    libelf answers about it.
  \<^item> A function of the program maps a state to \<open>Some (result, new state)\<close>, or to \<open>None\<close>
    when it dereferences a null pointer, leaves an array or never returns. Memory is
    never reused: \<open>free\<close> has no effect in the model.
\<close>

type_synonym pid = int

section \<open>Memory areas and loaded objects\<close>

abbreviation (input) PROT_READ :: u32 where "PROT_READ \<equiv> 1"
abbreviation (input) PROT_WRITE :: u32 where "PROT_WRITE \<equiv> 2"
abbreviation (input) PROT_EXEC :: u32 where "PROT_EXEC \<equiv> 4"
abbreviation (input) MAP_SHARED :: u32 where "MAP_SHARED \<equiv> 1"
abbreviation (input) MAP_PRIVATE :: u32 where "MAP_PRIVATE \<equiv> 2"
abbreviation (input) MAP_FIXED :: u32 where "MAP_FIXED \<equiv> 0x10"
abbreviation (input) MAP_ANONYMOUS :: u32 where "MAP_ANONYMOUS \<equiv> 0x20"

record vma_area =
  vaddr :: u64
  vlen :: u64
  vflags :: u32
  vprot :: u32
  voffset :: u64
  vpath :: "string option"
  vmap_file :: "string option"
  vdlm :: "ptr option"

definition vma_length :: "vma_area \<Rightarrow> u64" where "vma_length vma = vlen vma"
definition vma_start :: "vma_area \<Rightarrow> u64" where "vma_start vma = vaddr vma"
definition vma_end :: "vma_area \<Rightarrow> u64" where "vma_end vma = vaddr vma + vlen vma"
definition vma_prot :: "vma_area \<Rightarrow> u32" where "vma_prot vma = vprot vma"
definition vma_flags :: "vma_area \<Rightarrow> u32" where "vma_flags vma = vflags vma"
definition vma_offset :: "vma_area \<Rightarrow> u64" where "vma_offset vma = voffset vma"

lemmas vma_accessors = vma_length_def vma_start_def vma_end_def vma_prot_def vma_flags_def vma_offset_def

record dl_map =
  dl_path :: "string option"
  dl_vmas :: "ptr list"
  dl_ei :: ptr
  exec_vma :: "ptr option"

section \<open>ELF files, as libelf shows them\<close>

record Elf_Phdr =
  p_type :: u32
  p_flags :: u32
  p_offset :: u64
  p_vaddr :: u64
  p_filesz :: u64

record Elf_Shdr =
  sh_name :: u32
  sh_addr :: u64
  sh_offset :: u64
  sh_size :: u64
  sh_entsize :: u64

record Elf_Sym =
  st_name :: u32
  st_info :: u8
  st_value :: u64
  st_size :: u64

record Elf_Rela =
  r_offset :: u64
  r_info :: u64
  r_addend :: u64

record Elf_Dyn =
  d_tag :: u64
  d_val :: u64

text \<open>
  An ELF descriptor: the answers of \<open>elf_kind\<close>, \<open>elf_getphdrnum\<close>, \<open>gelf_getphdr\<close>, the sections
  that \<open>elf_nextscn\<close> enumerates, \<open>gelf_getshdr\<close>, \<open>elf_getscn\<close>, \<open>elf_getshdrstrndx\<close>, the type
  field of \<open>gelf_getehdr\<close>, \<open>elf_strptr\<close>, \<open>elf_getdata\<close>, \<open>gelf_getsym\<close>, \<open>gelf_getrela\<close>,
  \<open>gelf_getdyn\<close> and (descriptor size and offset) \<open>gelf_getnote\<close>, and the positive error number of libelf. \<open>None\<close> is the failure
  value of the call.
\<close>

record Elf =
  elf_kind :: nat
  elf_getphdrnum :: "nat option"
  gelf_getphdr :: "nat \<Rightarrow> Elf_Phdr option"
  elf_scns :: "nat list"
  gelf_getshdr :: "nat \<Rightarrow> Elf_Shdr option"
  elf_getscn :: "nat \<Rightarrow> bool"
  elf_getshdrstrndx :: "nat option"
  gelf_getehdr :: "u16 option"
  elf_strptr :: "nat \<Rightarrow> u64 \<Rightarrow> string option"
  elf_getdata :: "nat \<Rightarrow> byte list option"
  gelf_getsym :: "nat \<Rightarrow> u64 \<Rightarrow> Elf_Sym option"
  gelf_getrela :: "nat \<Rightarrow> nat \<Rightarrow> Elf_Rela option"
  gelf_getdyn :: "nat \<Rightarrow> nat \<Rightarrow> Elf_Dyn option"
  gelf_getnote :: "nat \<Rightarrow> (nat \<times> nat) option"
  elf_errno :: nat

record elf_scn_t =
  scn_ndx :: nat
  nr_ent :: nat

record elf_info_s =
  ei_path :: string
  ei_elf :: Elf
  ei_fd :: int
  ei_shstrndx :: nat
  ei_type :: u16
  ei_strtab :: "nat option"
  ei_rela_plt :: "elf_scn_t option"
  ei_rela_dyn :: "elf_scn_t option"
  ei_dynamic :: "elf_scn_t option"
  ei_dynsym :: "elf_scn_t option"
  ei_dynstr :: "nat option"
  ei_soname :: "string option"
  ei_needed :: "string list"
  ei_bid :: "string option"

section \<open>Patches\<close>

record static_sym_s =
  patch_size :: u32
  patch_address :: u64
  target_value :: u64

record marked_sym_s =
  ms_idx :: u32
  ms_addr :: u64

record func_jump_s =
  fj_name :: string
  func_value :: u64
  func_size :: u32
  patch_value :: u64
  shndx :: u32
  func_addr :: u64
  code :: "byte list"
  func_jump :: "byte list"

record patch_info_s =
  target_bid :: string
  patch_bid :: string
  func_jumps :: "func_jump_s list"
  manual_syms :: "marked_sym_s list"
  global_syms :: "marked_sym_s list"
  static_syms :: "static_sym_s list"

record extern_symbol =
  es_name :: string
  es_rela :: Elf_Rela
  es_sym :: Elf_Sym
  es_dlm :: "ptr option"
  es_address :: u64

record patch_s =
  pi :: patch_info_s
  target_dlm :: "ptr option"
  rela_plt :: "extern_symbol list"
  rela_dyn :: "extern_symbol list"
  patch_dlm :: "ptr option"

section \<open>The process context\<close>

record service =
  sv_name :: string
  sv_pid :: pid
  sv_handle :: u64
  sv_dlm :: "ptr option"
  sv_sock :: int
  sv_runner :: u64
  sv_loaded :: bool

record thread_s =
  t_pid :: pid
  t_seized :: bool

text \<open>The two functions \<open>check_backtrace\<close> can point to.\<close>

datatype check_backtrace_t = Jumps_check_backtrace | Patch_check_backtrace

record process_ctx_s =
  ctx_pid :: pid
  ctx_patchfile :: string
  ctx_dry_run :: bool
  ctx_patch_ei :: "ptr option"
  ctx_check_backtrace :: check_backtrace_t
  ctx_ctl :: bool
  ctx_service :: service
  ctx_vmas :: "ptr list"
  ctx_dl_maps :: "ptr list"
  ctx_applied_patches :: "ptr list"
  ctx_remote_vma :: vma_area
  ctx_needed_list :: "ptr list"
  ctx_threads :: "thread_s list"
  ctx_patch :: "ptr option"

section \<open>The messages of protobuf-c\<close>

record FuncJump =
  pb_name :: string
  pb_func_value :: u64
  pb_func_size :: u32
  pb_patch_value :: u32
  pb_shndx :: u32

record MarkedSym =
  pb_idx :: u32
  pb_addr :: u64

record StaticSym =
  pb_patch_size :: u32
  pb_patch_address :: u64
  pb_target_value :: u64

record BinPatch =
  old_bid :: string
  new_bid :: string
  pb_func_jumps :: "FuncJump list"
  manual_symbols :: "MarkedSym list"
  static_symbols :: "StaticSym list"
  global_symbols :: "MarkedSym list"

section \<open>Calls out of the program\<close>

text \<open>
  What libunwind answers at one cursor position: the results of \<open>unw_get_reg\<close> for the
  instruction and the stack pointer (return code and value), the procedure name, the result
  of \<open>unw_is_signal_frame\<close> and of \<open>unw_step\<close>. Negative codes are errors.
\<close>

record unw_frame =
  unw_ip :: "int \<times> u64"
  unw_sp :: "int \<times> u64"
  unw_name :: string
  unw_signal :: int
  unw_step :: int

record 'w ext =
  x_malloc :: "'w \<Rightarrow> bool \<times> 'w"
  x_poke :: "pid \<Rightarrow> byte list \<Rightarrow> u64 \<Rightarrow> 'w \<Rightarrow> (int \<times> int) \<times> 'w"
  x_peek :: "pid \<Rightarrow> u64 \<Rightarrow> nat \<Rightarrow> 'w \<Rightarrow> (int \<times> int \<times> byte list) \<times> 'w"
  x_syscall :: "nat \<Rightarrow> u64 list \<Rightarrow> 'w \<Rightarrow> (int \<times> int) \<times> 'w"
  x_prepare :: "pid \<Rightarrow> 'w \<Rightarrow> bool \<times> 'w"
  x_cure :: "'w \<Rightarrow> int \<times> 'w"
  x_run_at :: "u64 \<Rightarrow> 'w \<Rightarrow> (int \<times> u64) \<times> 'w"
  x_stop_task :: "pid \<Rightarrow> 'w \<Rightarrow> (int \<times> int) \<times> 'w"
  x_resume_task :: "pid \<Rightarrow> 'w \<Rightarrow> int \<times> 'w"
  x_usleep :: "nat \<Rightarrow> 'w \<Rightarrow> 'w"
  x_readdir :: "string \<Rightarrow> 'w \<Rightarrow> (int + string list \<times> int) \<times> 'w"
  x_maps :: "pid \<Rightarrow> 'w \<Rightarrow> string list option \<times> 'w"
  x_access :: "string \<Rightarrow> 'w \<Rightarrow> bool \<times> 'w"
  x_stat :: "string \<Rightarrow> 'w \<Rightarrow> (int + u32) \<times> 'w"
  x_readlink :: "string \<Rightarrow> 'w \<Rightarrow> (int + string) \<times> 'w"
  x_open :: "string \<Rightarrow> 'w \<Rightarrow> (int + int) \<times> 'w"
  x_lseek :: "int \<Rightarrow> u64 \<Rightarrow> 'w \<Rightarrow> (int + u64) \<times> 'w"
  x_read :: "int \<Rightarrow> nat \<Rightarrow> 'w \<Rightarrow> (int + byte list) \<times> 'w"
  x_close :: "int \<Rightarrow> 'w \<Rightarrow> (int \<times> int) \<times> 'w"
  x_elf_begin :: "int \<Rightarrow> 'w \<Rightarrow> Elf option \<times> 'w"
  x_elf_version :: bool
  x_slack :: "nat \<Rightarrow> byte"
  x_unpack :: "byte list \<Rightarrow> BinPatch option"
  x_unw_init :: "pid \<Rightarrow> 'w \<Rightarrow> (int \<times> (nat \<Rightarrow> unw_frame)) \<times> 'w"
  x_socket :: "'w \<Rightarrow> (int + int) \<times> 'w"
  x_connect :: "int \<Rightarrow> byte list \<Rightarrow> 'w \<Rightarrow> (int \<times> int) \<times> 'w"
  x_send :: "int \<Rightarrow> byte list \<Rightarrow> 'w \<Rightarrow> (int + nat) \<times> 'w"
  x_recv :: "int \<Rightarrow> nat \<Rightarrow> 'w \<Rightarrow> (int + byte list) \<times> 'w"
  x_sendmsg :: "int \<Rightarrow> byte list \<Rightarrow> byte list \<Rightarrow> 'w \<Rightarrow> (int \<times> int) \<times> 'w"

section \<open>The state of the patcher\<close>

record 'w pst =
  world :: 'w
  errno :: int
  brk :: ptr
  vma_of :: "ptr \<Rightarrow> vma_area"
  dlm_of :: "ptr \<Rightarrow> dl_map"
  ei_of :: "ptr \<Rightarrow> elf_info_s"
  patch_of :: "ptr \<Rightarrow> patch_s"
  process_context :: process_ctx_s

text \<open>A call out of the program.\<close>

definition ext_call :: "('w \<Rightarrow> 'r \<times> 'w) \<Rightarrow> 'w pst \<Rightarrow> 'r \<times> 'w pst" where
  "ext_call f s = (case f (world s) of (r, w) \<Rightarrow> (r, s\<lparr>world := w\<rparr>))"

text \<open>A call that reports its failure through \<open>errno\<close>.\<close>

definition sys_call :: "('w \<Rightarrow> (int + 'r) \<times> 'w) \<Rightarrow> 'w pst \<Rightarrow> 'r option \<times> 'w pst" where
  "sys_call f s = (case ext_call f s of
     (Inl e, s) \<Rightarrow> (None, s\<lparr>errno := e\<rparr>) | (Inr r, s) \<Rightarrow> (Some r, s))"

definition xmalloc :: "'w ext \<Rightarrow> 'w pst \<Rightarrow> ptr option \<times> 'w pst" where
  "xmalloc x s = (case ext_call (x_malloc x) s of
     (ok, s) \<Rightarrow> if ok then (Some (brk s), s\<lparr>brk := brk s + 1\<rparr>) else (None, s))"

abbreviation ctx :: "'w pst \<Rightarrow> process_ctx_s" where
  "ctx s \<equiv> process_context s"

definition upd_ctx :: "(process_ctx_s \<Rightarrow> process_ctx_s) \<Rightarrow> 'w pst \<Rightarrow> 'w pst" where
  "upd_ctx f s = s\<lparr>process_context := f (process_context s)\<rparr>"

definition upd_vma :: "ptr \<Rightarrow> (vma_area \<Rightarrow> vma_area) \<Rightarrow> 'w pst \<Rightarrow> 'w pst" where
  "upd_vma p f s = s\<lparr>vma_of := (vma_of s)(p := f (vma_of s p))\<rparr>"

definition upd_dlm :: "ptr \<Rightarrow> (dl_map \<Rightarrow> dl_map) \<Rightarrow> 'w pst \<Rightarrow> 'w pst" where
  "upd_dlm p f s = s\<lparr>dlm_of := (dlm_of s)(p := f (dlm_of s p))\<rparr>"

definition upd_ei :: "ptr \<Rightarrow> (elf_info_s \<Rightarrow> elf_info_s) \<Rightarrow> 'w pst \<Rightarrow> 'w pst" where
  "upd_ei p f s = s\<lparr>ei_of := (ei_of s)(p := f (ei_of s p))\<rparr>"

definition upd_patch :: "ptr \<Rightarrow> (patch_s \<Rightarrow> patch_s) \<Rightarrow> 'w pst \<Rightarrow> 'w pst" where
  "upd_patch p f s = s\<lparr>patch_of := (patch_of s)(p := f (patch_of s p))\<rparr>"

named_theorems pst_simps

lemma upd_ctx_sel [simp]:
  "process_context (upd_ctx f s) = f (process_context s)"
  "world (upd_ctx f s) = world s" "errno (upd_ctx f s) = errno s" "brk (upd_ctx f s) = brk s"
  "vma_of (upd_ctx f s) = vma_of s" "dlm_of (upd_ctx f s) = dlm_of s"
  "ei_of (upd_ctx f s) = ei_of s" "patch_of (upd_ctx f s) = patch_of s"
  by (simp_all add: upd_ctx_def)

lemma upd_vma_sel [simp]:
  "process_context (upd_vma p g s) = process_context s"
  "world (upd_vma p g s) = world s" "errno (upd_vma p g s) = errno s" "brk (upd_vma p g s) = brk s"
  "vma_of (upd_vma p g s) = (vma_of s)(p := g (vma_of s p))" "dlm_of (upd_vma p g s) = dlm_of s"
  "ei_of (upd_vma p g s) = ei_of s" "patch_of (upd_vma p g s) = patch_of s"
  by (simp_all add: upd_vma_def)

lemma upd_dlm_sel [simp]:
  "process_context (upd_dlm p h s) = process_context s"
  "world (upd_dlm p h s) = world s" "errno (upd_dlm p h s) = errno s" "brk (upd_dlm p h s) = brk s"
  "dlm_of (upd_dlm p h s) = (dlm_of s)(p := h (dlm_of s p))" "vma_of (upd_dlm p h s) = vma_of s"
  "ei_of (upd_dlm p h s) = ei_of s" "patch_of (upd_dlm p h s) = patch_of s"
  by (simp_all add: upd_dlm_def)

lemma upd_ei_sel [simp]:
  "process_context (upd_ei p h s) = process_context s"
  "world (upd_ei p h s) = world s" "errno (upd_ei p h s) = errno s" "brk (upd_ei p h s) = brk s"
  "ei_of (upd_ei p h s) = (ei_of s)(p := h (ei_of s p))" "vma_of (upd_ei p h s) = vma_of s"
  "dlm_of (upd_ei p h s) = dlm_of s" "patch_of (upd_ei p h s) = patch_of s"
  by (simp_all add: upd_ei_def)

lemma upd_patch_sel [simp]:
  "process_context (upd_patch p k s) = process_context s"
  "world (upd_patch p k s) = world s" "errno (upd_patch p k s) = errno s" "brk (upd_patch p k s) = brk s"
  "patch_of (upd_patch p k s) = (patch_of s)(p := k (patch_of s p))" "vma_of (upd_patch p k s) = vma_of s"
  "ei_of (upd_patch p k s) = ei_of s" "dlm_of (upd_patch p k s) = dlm_of s"
  by (simp_all add: upd_patch_def)

text \<open>What calls out of the program and the allocator leave alone.\<close>

lemma ext_call_keeps:
  "ext_call f s = (r, t) \<Longrightarrow> vma_of t = vma_of s \<and> dlm_of t = dlm_of s \<and> ei_of t = ei_of s
     \<and> patch_of t = patch_of s \<and> process_context t = process_context s \<and> brk t = brk s \<and> errno t = errno s"
  by (auto simp: ext_call_def split: prod.splits)

lemma sys_call_keeps:
  "sys_call f s = (r, t) \<Longrightarrow> vma_of t = vma_of s \<and> dlm_of t = dlm_of s \<and> ei_of t = ei_of s
     \<and> patch_of t = patch_of s \<and> process_context t = process_context s \<and> brk t = brk s"
  by (auto simp: sys_call_def split: prod.splits sum.splits dest!: ext_call_keeps)

lemma xmalloc_keeps:
  "xmalloc x s = (r, t) \<Longrightarrow> vma_of t = vma_of s \<and> dlm_of t = dlm_of s \<and> ei_of t = ei_of s
     \<and> patch_of t = patch_of s \<and> process_context t = process_context s \<and> errno t = errno s
     \<and> (case r of None \<Rightarrow> brk t = brk s | Some p \<Rightarrow> p = brk s \<and> brk t = brk s + 1)"
  by (auto simp: xmalloc_def split: prod.splits if_splits dest!: ext_call_keeps)

lemma ext_call_frame:
  "ext_call f s = (r, t) \<Longrightarrow> t = s\<lparr>world := world t\<rparr>"
  by (auto simp: ext_call_def split: prod.splits)

end
