(* ===== verification/Alloc.thy ===== *)
theory Alloc
  imports Compiler Nsb_Context
begin

text \<open>
  The rest of \<open>patcher/include/compiler.h\<close> and \<open>patcher/include/xmalloc.h\<close>: the macros with a value,
  beside the rounding macros of \<open>Compiler\<close> and \<open>xmalloc\<close> of \<open>Nsb_Context\<close>. The attributes and
  \<open>barrier\<close> have none.
\<close>

section \<open>Sizes and offsets\<close>

definition ARRAY_SIZE :: "u64 \<Rightarrow> u64 \<Rightarrow> u64" where
  "ARRAY_SIZE size_of_array size_of_element = size_of_array div size_of_element"

text \<open>Whether the translation unit is accepted: an array of negative size is not.\<close>

definition BUILD_BUG_ON :: "bool \<Rightarrow> bool" where
  "BUILD_BUG_ON condition \<longleftrightarrow> 0 \<le> 1 - 2 * (of_bool condition :: int)"

text \<open>A member is the function from the address of a structure to the address of the member.\<close>

definition offsetof :: "(u64 \<Rightarrow> u64) \<Rightarrow> u64" where
  "offsetof member = member 0"

definition container_of :: "u64 \<Rightarrow> (u64 \<Rightarrow> u64) \<Rightarrow> u64" where
  "container_of ptr member = ptr - offsetof member"

lemma ARRAY_SIZE_eq: "unat n * unat e < 2 ^ 64 \<Longrightarrow> e \<noteq> 0 \<Longrightarrow> ARRAY_SIZE (n * e) e = n"
proof -
  assume a: "unat n * unat e < 2 ^ 64" "e \<noteq> 0"
  then have "unat (n * e) = unat n * unat e" by (simp add: unat_word_ariths take_bit_nat_eq_self)
  with a(2) have "unat (n * e div e) = unat n" by (simp add: unat_div_distrib unat_eq_zero)
  then show ?thesis by (simp add: ARRAY_SIZE_def word_unat_eq_iff)
qed

lemma BUILD_BUG_ON_iff: "BUILD_BUG_ON condition \<longleftrightarrow> \<not> condition"
  by (simp add: BUILD_BUG_ON_def)

text \<open>
  The two directions between an entry and its list node: the identification of the two in the
  theories on lists is the choice of this bijection.
\<close>

lemma container_of_member:
  assumes "\<And>p. member p = p + off"
  shows "container_of (member p) member = p" "member (container_of q member) = q" "inj member"
  by (simp_all add: container_of_def offsetof_def assms inj_def)

section \<open>Minimum and maximum\<close>

definition c_min :: "'a::linorder \<Rightarrow> 'a \<Rightarrow> 'a" where
  "c_min x y = (let min1 = x; min2 = y in if min1 < min2 then min1 else min2)"

definition c_max :: "'a::linorder \<Rightarrow> 'a \<Rightarrow> 'a" where
  "c_max x y = (let max1 = x; max2 = y in if max1 > max2 then max1 else max2)"

text \<open>\<open>conv\<close> and \<open>conv'\<close> are the conversions of the arguments to the type that is named.\<close>

definition min_t :: "('a \<Rightarrow> 't::linorder) \<Rightarrow> ('b \<Rightarrow> 't) \<Rightarrow> 'a \<Rightarrow> 'b \<Rightarrow> 't" where
  "min_t conv conv' x y = (let min1 = conv x; min2 = conv' y in if min1 < min2 then min1 else min2)"

definition max_t :: "('a \<Rightarrow> 't::linorder) \<Rightarrow> ('b \<Rightarrow> 't) \<Rightarrow> 'a \<Rightarrow> 'b \<Rightarrow> 't" where
  "max_t conv conv' x y = (let max1 = conv x; max2 = conv' y in if max1 > max2 then max1 else max2)"

text \<open>The other theories write \<open>min\<close> and \<open>max\<close> of HOL for the macros.\<close>

lemma min_max_eq: "c_min = min" "c_max = max" "min_t conv conv' x y = min (conv x) (conv' y)" "max_t conv conv' x y = max (conv x) (conv' y)"
  by (auto simp: c_min_def c_max_def min_t_def max_t_def Let_def fun_eq_iff min_def max_def)

section \<open>Allocation\<close>

text \<open>\<open>xrealloc_safe\<close>: the pointer is replaced only when \<open>realloc\<close> succeeded.\<close>

definition xrealloc_safe :: "ptr option \<Rightarrow> ptr \<Rightarrow> int \<times> ptr" where
  "xrealloc_safe new p = (case new of None \<Rightarrow> (-1, p) | Some q \<Rightarrow> (0, q))"

text \<open>\<open>put\<close> stores a value in a new block.\<close>

definition xmemdup :: "'w ext \<Rightarrow> (ptr \<Rightarrow> 'a \<Rightarrow> 'w pst \<Rightarrow> 'w pst) \<Rightarrow> 'a \<Rightarrow> 'w pst \<Rightarrow> ptr option \<times> 'w pst" where
  "xmemdup x put v s = (case xmalloc x s of (None, s) \<Rightarrow> (None, s) | (Some new, s) \<Rightarrow> (Some new, put new v s))"

lemma xrealloc_safe_cases: "xrealloc_safe new p = (r, q) \<Longrightarrow> r = 0 \<and> new = Some q \<or> r = -1 \<and> new = None \<and> q = p"
  by (auto simp: xrealloc_safe_def split: option.splits)

lemma xmemdup_copies:
  assumes "xmemdup x (\<lambda>p v. upd_vma p (\<lambda>_. v)) v s = (Some new, t)"
  shows "new = brk s" "vma_of t new = v" "p < brk s \<Longrightarrow> vma_of t p = vma_of s p"
proof -
  from assms obtain u where "xmalloc x s = (Some new, u)" "t = upd_vma new (\<lambda>_. v) u"
    by (auto simp: xmemdup_def split: prod.splits option.splits)
  with xmalloc_keeps[of x s "Some new" u] show "new = brk s" "vma_of t new = v" "p < brk s \<Longrightarrow> vma_of t p = vma_of s p"
    by simp_all
qed

text \<open>The old value of the pointer, and the new one.\<close>

definition xptr_pull_s :: "u64 \<Rightarrow> u64 \<Rightarrow> u64 \<times> u64" where
  "xptr_pull_s m s = (m, m + s)"

fun xptr_pulls :: "u64 \<Rightarrow> u64 list \<Rightarrow> u64 list" where
  "xptr_pulls m [] = []"
| "xptr_pulls m (s # ss) = (case xptr_pull_s m s of (p, m) \<Rightarrow> p # xptr_pulls m ss)"

text \<open>
  A tree that is allocated with a single \<open>xmalloc\<close> of the sum of its sizes: the pieces that are
  pulled lie inside the block one behind the other, so they do not overlap.
\<close>

lemma xptr_pulls_bounds:
  assumes "unat m + sum_list (map unat ss) < 2 ^ 64" "i < length ss"
  shows "unat (xptr_pulls m ss ! i) = unat m + sum_list (map unat (take i ss))"
  using assms
proof (induction ss arbitrary: m i)
  case (Cons s ss)
  have "unat (m + s) = unat m + unat s" using Cons.prems(1) by (simp add: unat_word_ariths take_bit_nat_eq_self)
  with Cons.IH[of "m + s" "i - 1"] Cons.prems show ?case by (cases i) (simp_all add: xptr_pull_s_def)
qed simp

lemma xptr_pulls_disjoint:
  assumes "unat m + sum_list (map unat ss) < 2 ^ 64" "i < j" "j < length ss"
  shows "unat (xptr_pulls m ss ! i) + unat (ss ! i) \<le> unat (xptr_pulls m ss ! j)"
    and "unat (xptr_pulls m ss ! j) + unat (ss ! j) \<le> unat m + sum_list (map unat ss)"
proof -
  have sums: "sum_list (map unat (take i ss)) + unat (ss ! i) \<le> sum_list (map unat (take j ss))" if "i < j" "j \<le> length ss" for i j
  proof -
    have "take j ss = take i ss @ ss ! i # drop (Suc i) (take j ss)" using id_take_nth_drop[of i "take j ss"] that by simp
    then have "sum_list (map unat (take j ss)) = sum_list (map unat (take i ss @ ss ! i # drop (Suc i) (take j ss)))"
      by (rule arg_cong)
    then show ?thesis by simp
  qed
  show "unat (xptr_pulls m ss ! i) + unat (ss ! i) \<le> unat (xptr_pulls m ss ! j)"
    using sums[of i j] xptr_pulls_bounds[OF assms(1)] assms by simp
  show "unat (xptr_pulls m ss ! j) + unat (ss ! j) \<le> unat m + sum_list (map unat ss)"
    using sums[of j "length ss"] xptr_pulls_bounds[OF assms(1)] assms by simp
qed

end
