(* ===== verification/List_Walk.thy ===== *)
theory List_Walk
  imports List_Head
begin

text \<open>
  The loops that the traversal macros of \<open>patcher/include/list.h\<close> open, with their bodies. The
  state is arbitrary, \<open>hp\<close> is the heap of list nodes in it; the body gets the current node and
  ends the loop early (\<open>return\<close>, \<open>break\<close>, \<open>goto\<close>) with a value that is not zero. The lemmas
  show that a loop over a well-formed list is \<open>iterate\<close> over the nodes it holds, the form in
  which the other theories write these loops: for the plain macros when the body leaves the list
  as it is, and for the \<open>_safe\<close> macros also when the body takes its node out of the list.
\<close>

section \<open>The loops\<close>

text \<open>
  An entry is identified with its node: \<open>list_entry\<close> moves between the two by a constant. The
  direction is the field that is followed, \<open>fwd\<close> or \<open>bwd\<close>.
\<close>

abbreviation fwd :: "('s \<Rightarrow> heap) \<Rightarrow> 's \<Rightarrow> ptr \<Rightarrow> ptr" where
  "fwd hp \<equiv> (\<lambda>s p. next (hp s p))"

abbreviation bwd :: "('s \<Rightarrow> heap) \<Rightarrow> 's \<Rightarrow> ptr \<Rightarrow> ptr" where
  "bwd hp \<equiv> (\<lambda>s p. prev (hp s p))"

partial_function (option) each_walk ::
  "('s \<Rightarrow> ptr \<Rightarrow> ptr) \<Rightarrow> (ptr \<Rightarrow> 's \<Rightarrow> (int \<times> 's) option) \<Rightarrow> ptr \<Rightarrow> ptr \<Rightarrow> 's \<Rightarrow> (int \<times> 's) option" where
  "each_walk dir body head pos s =
     (if pos = head then Some (0, s)
      else do {
        (ret, s) \<leftarrow> body pos s;
        if ret \<noteq> 0 then Some (ret, s) else each_walk dir body head (dir s pos) s })"

text \<open>The \<open>_safe\<close> form reads the successor \<open>n\<close> before the body runs.\<close>

partial_function (option) safe_walk ::
  "('s \<Rightarrow> ptr \<Rightarrow> ptr) \<Rightarrow> (ptr \<Rightarrow> 's \<Rightarrow> (int \<times> 's) option) \<Rightarrow> ptr \<Rightarrow> ptr \<Rightarrow> ptr \<Rightarrow> 's \<Rightarrow> (int \<times> 's) option" where
  "safe_walk dir body head pos n s =
     (if pos = head then Some (0, s)
      else do {
        (ret, s) \<leftarrow> body pos s;
        if ret \<noteq> 0 then Some (ret, s) else safe_walk dir body head n (dir s n) s })"

type_synonym 's node_body = "ptr \<Rightarrow> 's \<Rightarrow> (int \<times> 's) option"

definition list_for_each_entry :: "('s \<Rightarrow> heap) \<Rightarrow> 's node_body \<Rightarrow> ptr \<Rightarrow> 's \<Rightarrow> (int \<times> 's) option" where
  "list_for_each_entry hp body head s = each_walk (fwd hp) body head (next (hp s head)) s"

definition list_for_each_entry_reverse :: "('s \<Rightarrow> heap) \<Rightarrow> 's node_body \<Rightarrow> ptr \<Rightarrow> 's \<Rightarrow> (int \<times> 's) option" where
  "list_for_each_entry_reverse hp body head s = each_walk (bwd hp) body head (prev (hp s head)) s"

definition list_prepare_entry :: "ptr \<Rightarrow> ptr \<Rightarrow> ptr" where
  "list_prepare_entry pos head = (if pos \<noteq> 0 then pos else head)"

definition list_for_each_entry_continue :: "('s \<Rightarrow> heap) \<Rightarrow> 's node_body \<Rightarrow> ptr \<Rightarrow> ptr \<Rightarrow> 's \<Rightarrow> (int \<times> 's) option" where
  "list_for_each_entry_continue hp body head pos s = each_walk (fwd hp) body head (next (hp s pos)) s"

definition list_for_each_entry_from :: "('s \<Rightarrow> heap) \<Rightarrow> 's node_body \<Rightarrow> ptr \<Rightarrow> ptr \<Rightarrow> 's \<Rightarrow> (int \<times> 's) option" where
  "list_for_each_entry_from hp body head pos s = each_walk (fwd hp) body head pos s"

definition list_for_each_safe :: "('s \<Rightarrow> heap) \<Rightarrow> 's node_body \<Rightarrow> ptr \<Rightarrow> 's \<Rightarrow> (int \<times> 's) option" where
  "list_for_each_safe hp body head s =
     (let pos = next (hp s head); n = next (hp s pos) in safe_walk (fwd hp) body head pos n s)"

definition list_for_each_prev_safe :: "('s \<Rightarrow> heap) \<Rightarrow> 's node_body \<Rightarrow> ptr \<Rightarrow> 's \<Rightarrow> (int \<times> 's) option" where
  "list_for_each_prev_safe hp body head s =
     (let pos = prev (hp s head); n = prev (hp s pos) in safe_walk (bwd hp) body head pos n s)"

definition list_for_each_entry_safe :: "('s \<Rightarrow> heap) \<Rightarrow> 's node_body \<Rightarrow> ptr \<Rightarrow> 's \<Rightarrow> (int \<times> 's) option" where
  "list_for_each_entry_safe hp body head s =
     (let pos = next (hp s head); n = next (hp s pos) in safe_walk (fwd hp) body head pos n s)"

definition list_for_each_entry_safe_continue :: "('s \<Rightarrow> heap) \<Rightarrow> 's node_body \<Rightarrow> ptr \<Rightarrow> ptr \<Rightarrow> 's \<Rightarrow> (int \<times> 's) option" where
  "list_for_each_entry_safe_continue hp body head pos s =
     (let pos = next (hp s pos); n = next (hp s pos) in safe_walk (fwd hp) body head pos n s)"

definition list_for_each_entry_safe_from :: "('s \<Rightarrow> heap) \<Rightarrow> 's node_body \<Rightarrow> ptr \<Rightarrow> ptr \<Rightarrow> 's \<Rightarrow> (int \<times> 's) option" where
  "list_for_each_entry_safe_from hp body head pos s =
     (let n = next (hp s pos) in safe_walk (fwd hp) body head pos n s)"

definition list_for_each_entry_safe_reverse :: "('s \<Rightarrow> heap) \<Rightarrow> 's node_body \<Rightarrow> ptr \<Rightarrow> 's \<Rightarrow> (int \<times> 's) option" where
  "list_for_each_entry_safe_reverse hp body head s =
     (let pos = prev (hp s head); n = prev (hp s pos) in safe_walk (bwd hp) body head pos n s)"

definition list_first_entry :: "heap \<Rightarrow> ptr \<Rightarrow> ptr" where
  "list_first_entry h head = next (h head)"

definition list_safe_reset_next :: "heap \<Rightarrow> ptr \<Rightarrow> ptr" where
  "list_safe_reset_next h pos = next (h pos)"

section \<open>What a body may do\<close>

text \<open>
  \<open>keeps_rest\<close>: when the body runs at the node \<open>p\<close>, the nodes behind \<open>p\<close> stay linked as they are;
  the part up to \<open>p\<close> may change. \<open>keeps_list\<close>: the list stays as it is.
\<close>

definition keeps_rest :: "('s \<Rightarrow> heap) \<Rightarrow> 's node_body \<Rightarrow> ptr \<Rightarrow> bool" where
  "keeps_rest hp body head \<longleftrightarrow> (\<forall>s us p ys ret t. clist (hp s) head (us @ p # ys) \<longrightarrow> body p s = Some (ret, t) \<longrightarrow>
     (\<exists>vs. clist (hp t) head (vs @ ys)))"

definition keeps_list :: "('s \<Rightarrow> heap) \<Rightarrow> 's node_body \<Rightarrow> ptr \<Rightarrow> bool" where
  "keeps_list hp body head \<longleftrightarrow> (\<forall>s us p ys ret t. clist (hp s) head (us @ p # ys) \<longrightarrow> body p s = Some (ret, t) \<longrightarrow>
     clist (hp t) head (us @ p # ys))"

lemma keeps_list_rest: "keeps_list hp body head \<Longrightarrow> keeps_rest hp body head"
  unfolding keeps_list_def keeps_rest_def by (metis append.assoc append_Cons append_Nil)

lemma clist_first: "clist h head (us @ ys) \<Longrightarrow> next (h (last (head # us))) = hd (ys @ [head])"
  using chain_split[of h head us ys head] chain_last_next by (auto simp: clist_def)

lemma clist_next: "clist h head (us @ p # ys) \<Longrightarrow> next (h p) = hd (ys @ [head])"
  using clist_first[of h head "us @ [p]" ys] by simp

lemma clist_not_head: "clist h head (us @ p # ys) \<Longrightarrow> p \<noteq> head"
  by (auto simp: clist_def)

section \<open>Loops are iterations over the nodes\<close>

lemma each_walk_iterate:
  assumes "keeps_list hp body head"
  shows "clist (hp s) head (us @ ys) \<Longrightarrow> each_walk (fwd hp) body head (hd (ys @ [head])) s = iterate body ys s"
proof (induction ys arbitrary: us s)
  case Nil
  then show ?case by (simp add: each_walk.simps)
next
  case (Cons p ys)
  show ?case
  proof (cases "body p s")
    case None
    with clist_not_head[OF Cons.prems] show ?thesis by (simp add: each_walk.simps)
  next
    case (Some a)
    then obtain ret t where b: "body p s = Some (ret, t)" by (cases a) simp
    with assms Cons.prems have "clist (hp t) head (us @ p # ys)" unfolding keeps_list_def by blast
    with Cons.IH[of t "us @ [p]"] b clist_next[OF this] clist_not_head[OF Cons.prems] show ?thesis
      by (subst each_walk.simps) simp
  qed
qed

text \<open>
  For the \<open>_safe\<close> loops the condition on the body may depend on the nodes that are left: \<open>J\<close> is what
  holds before the body runs at the first of them. A body that ends the loop may do anything.
\<close>

definition keeps_rest_on :: "('s \<Rightarrow> ptr list \<Rightarrow> bool) \<Rightarrow> ('s \<Rightarrow> heap) \<Rightarrow> 's node_body \<Rightarrow> ptr \<Rightarrow> bool" where
  "keeps_rest_on J hp body head \<longleftrightarrow> (\<forall>s us p ys t. J s (p # ys) \<longrightarrow> clist (hp s) head (us @ p # ys) \<longrightarrow>
     body p s = Some (0, t) \<longrightarrow> J t ys \<and> (\<exists>vs. clist (hp t) head (vs @ ys)))"

lemma safe_walk_iterate_on:
  assumes "keeps_rest_on J hp body head"
  shows "J s ys \<Longrightarrow> clist (hp s) head (us @ ys) \<Longrightarrow>
    safe_walk (fwd hp) body head (hd (ys @ [head])) (next (hp s (hd (ys @ [head])))) s = iterate body ys s"
proof (induction ys arbitrary: us s)
  case Nil
  then show ?case by (simp add: safe_walk.simps)
next
  case (Cons p ys)
  show ?case
  proof (cases "body p s")
    case None
    with clist_not_head[OF Cons.prems(2)] show ?thesis by (simp add: safe_walk.simps)
  next
    case (Some a)
    then obtain ret t where b: "body p s = Some (ret, t)" by (cases a) simp
    show ?thesis
    proof (cases "ret = 0")
      case True
      with assms Cons.prems b obtain vs where "J t ys" "clist (hp t) head (vs @ ys)" unfolding keeps_rest_on_def by blast
      with Cons.IH[of t vs] b clist_next[OF Cons.prems(2)] clist_not_head[OF Cons.prems(2)] show ?thesis
        by (subst safe_walk.simps) simp
    qed (use b clist_not_head[OF Cons.prems(2)] in \<open>simp add: safe_walk.simps\<close>)
  qed
qed

lemma safe_walk_iterate:
  assumes "keeps_rest hp body head"
  shows "clist (hp s) head (us @ ys) \<Longrightarrow>
    safe_walk (fwd hp) body head (hd (ys @ [head])) (next (hp s (hd (ys @ [head])))) s = iterate body ys s"
  using assms by (intro safe_walk_iterate_on[where J = "\<lambda>_ _. True"]) (simp_all add: keeps_rest_def keeps_rest_on_def)

lemma list_for_each_entry_safe_iterate_on:
  assumes "clist (hp s) head xs" "keeps_rest_on J hp body head" "J s xs"
  shows "list_for_each_entry_safe hp body head s = iterate body xs s"
  using safe_walk_iterate_on[OF assms(2,3), of "[]"] clist_first[of "hp s" head "[]" xs] assms(1)
  by (simp add: list_for_each_entry_safe_def)

text \<open>Backwards: the list of the heap whose two fields are exchanged is the reverse list.\<close>

definition flip_node :: "list_head \<Rightarrow> list_head" where
  "flip_node n = \<lparr>prev = next n, next = prev n\<rparr>"

lemma flip_node_sel [simp]: "next (flip_node n) = prev n" "prev (flip_node n) = next n" "flip_node (flip_node n) = n"
  by (simp_all add: flip_node_def)

lemma chain_flip: "chain h p xs q \<Longrightarrow> chain (\<lambda>a. flip_node (h a)) q (rev xs) p"
  by (induction xs arbitrary: p) (auto simp: chain_append)

lemma clist_flip: "clist h head xs \<Longrightarrow> clist (\<lambda>a. flip_node (h a)) head (rev xs)"
  by (auto simp: clist_def dest: chain_flip)

lemma clist_flip_iff: "clist (\<lambda>a. flip_node (h a)) head xs \<longleftrightarrow> clist h head (rev xs)"
  using clist_flip[of h head "rev xs"] clist_flip[of "\<lambda>a. flip_node (h a)" head xs] by auto

text \<open>
  A body that may run in both directions keeps the nodes on either side of its own; taking the own
  node out is such a body.
\<close>

definition keeps_sides :: "('s \<Rightarrow> heap) \<Rightarrow> 's node_body \<Rightarrow> ptr \<Rightarrow> bool" where
  "keeps_sides hp body head \<longleftrightarrow> (\<forall>s us p ys ret t. clist (hp s) head (us @ p # ys) \<longrightarrow> body p s = Some (ret, t) \<longrightarrow>
     clist (hp t) head (us @ p # ys) \<or> clist (hp t) head (us @ ys))"

lemma keeps_sides_rest: "keeps_sides hp body head \<Longrightarrow> keeps_rest hp body head"
  unfolding keeps_sides_def keeps_rest_def by (metis append.assoc append_Cons append_Nil)

lemma keeps_sides_flip: "keeps_sides hp body head \<Longrightarrow> keeps_sides (\<lambda>s a. flip_node (hp s a)) body head"
  unfolding keeps_sides_def clist_flip_iff by simp

lemma keeps_list_flip: "keeps_list hp body head \<Longrightarrow> keeps_list (\<lambda>s a. flip_node (hp s a)) body head"
  unfolding keeps_list_def clist_flip_iff by simp

lemma list_del_keeps_sides: "keeps_sides id (\<lambda>p h. Some (0, list_del p h)) head"
  by (simp add: keeps_sides_def list_del_clist)

section \<open>The macros\<close>

lemma list_first_entry_clist: "clist h head (p # ys) \<Longrightarrow> list_first_entry h head = p"
  by (simp add: list_first_entry_def clist_def)

text \<open>Continuing from a null entry starts at the head.\<close>

lemma list_prepare_entry_continue:
  "list_for_each_entry_continue hp body head (list_prepare_entry 0 head) s = list_for_each_entry hp body head s"
  by (simp add: list_prepare_entry_def list_for_each_entry_continue_def list_for_each_entry_def)

lemma list_for_each_entry_iterate:
  assumes "clist (hp s) head xs" "keeps_list hp body head"
  shows "list_for_each_entry hp body head s = iterate body xs s"
  using each_walk_iterate[OF assms(2), of s "[]" xs] clist_first[of "hp s" head "[]" xs] assms(1)
  by (simp add: list_for_each_entry_def)

lemma list_for_each_entry_reverse_iterate:
  assumes "clist (hp s) head xs" "keeps_list hp body head"
  shows "list_for_each_entry_reverse hp body head s = iterate body (rev xs) s"
  using list_for_each_entry_iterate[of "\<lambda>s a. flip_node (hp s a)", OF clist_flip[OF assms(1)] keeps_list_flip[OF assms(2)]]
  by (simp add: list_for_each_entry_reverse_def list_for_each_entry_def)

lemma list_for_each_entry_from_iterate:
  assumes "clist (hp s) head (us @ p # ys)" "keeps_list hp body head"
  shows "list_for_each_entry_from hp body head p s = iterate body (p # ys) s"
    and "list_for_each_entry_continue hp body head p s = iterate body ys s"
  using each_walk_iterate[OF assms(2), of s us "p # ys"] each_walk_iterate[OF assms(2), of s "us @ [p]" ys]
    clist_next[OF assms(1)] assms(1)
  by (simp_all add: list_for_each_entry_from_def list_for_each_entry_continue_def)

lemma list_for_each_entry_safe_iterate:
  assumes "clist (hp s) head xs" "keeps_rest hp body head"
  shows "list_for_each_entry_safe hp body head s = iterate body xs s"
    and "list_for_each_safe hp body head s = iterate body xs s"
  using safe_walk_iterate[OF assms(2), of s "[]" xs] clist_first[of "hp s" head "[]" xs] assms(1)
  by (simp_all add: list_for_each_entry_safe_def list_for_each_safe_def)

lemma list_for_each_entry_safe_from_iterate:
  assumes "clist (hp s) head (us @ p # ys)" "keeps_rest hp body head"
  shows "list_for_each_entry_safe_from hp body head p s = iterate body (p # ys) s"
    and "list_for_each_entry_safe_continue hp body head p s = iterate body ys s"
  using safe_walk_iterate[OF assms(2), of s us "p # ys"] safe_walk_iterate[OF assms(2), of s "us @ [p]" ys]
    clist_next[OF assms(1)] assms(1)
  by (simp_all add: list_for_each_entry_safe_from_def list_for_each_entry_safe_continue_def)

lemma list_for_each_entry_safe_reverse_iterate:
  assumes "clist (hp s) head xs" "keeps_sides hp body head"
  shows "list_for_each_entry_safe_reverse hp body head s = iterate body (rev xs) s"
    and "list_for_each_prev_safe hp body head s = iterate body (rev xs) s"
  using list_for_each_entry_safe_iterate(1)[of "\<lambda>s a. flip_node (hp s a)", OF clist_flip[OF assms(1)]
      keeps_sides_rest[OF keeps_sides_flip[OF assms(2)]]]
  by (simp_all add: list_for_each_entry_safe_reverse_def list_for_each_prev_safe_def list_for_each_entry_safe_def)

text \<open>
  With the plain macro a body that takes its node out is wrong: the loop goes on at the address
  that \<open>list_del\<close> leaves in the node.
\<close>

lemma plain_walk_hits_poison:
  assumes "clist h head (p # ys)"
  shows "list_for_each_entry id (\<lambda>p h. Some (0, list_del p h)) head h
    = each_walk (fwd id) (\<lambda>p h. Some (0, list_del p h)) head LIST_POISON1 (list_del p h)"
proof -
  have "next (h head) = p" "p \<noteq> head" using assms by (auto simp: clist_def)
  then show ?thesis using list_del_poisons[of p h]
    unfolding list_for_each_entry_def by (subst each_walk.simps) simp
qed

section \<open>Properties\<close>

text \<open>
  C31: The \<open>list_for_each_entry\<close> loops of the program are iterations over the sequence of nodes a
  list holds: the plain form, forwards and backwards, when its body leaves the list as it is,
  and the \<open>_safe\<close> form also when the body takes its node out of the list or frees it. Every such
  loop ends, with the value of the first body that asks to stop, and visits each node once.
\<close>

theorem list_loops_refine:
  assumes "clist (hp s) head xs"
  shows "(keeps_list hp body head \<longrightarrow> list_for_each_entry hp body head s = iterate body xs s
      \<and> list_for_each_entry_reverse hp body head s = iterate body (rev xs) s)
    \<and> (keeps_rest hp body head \<longrightarrow> list_for_each_entry_safe hp body head s = iterate body xs s)"
  using list_for_each_entry_iterate[of hp, OF assms] list_for_each_entry_reverse_iterate[of hp, OF assms]
    list_for_each_entry_safe_iterate(1)[of hp, OF assms] by blast

lemma iterate_list_del: "iterate (\<lambda>p h. Some (0, list_del p h)) xs h = Some (0, fold list_del xs h)"
  by (induction xs arbitrary: h) simp_all

theorem list_loops_refine_witness:
  "(let h = fold (\<lambda>n. list_add_tail n 1) [2, 3, 4] (INIT_LIST_HEAD 1 (\<lambda>p. \<lparr>prev = 0, next = 0\<rparr>));
        del = (\<lambda>p h. Some (0, list_del p h))
    in clist h 1 [2, 3, 4] \<and> list_for_each_entry_safe id del 1 h = Some (0, fold list_del [2, 3, 4] h)
       \<and> list_empty 1 (fold list_del [2, 3, 4] h))"
proof -
  let ?h = "fold (\<lambda>n. list_add_tail n 1) [2, 3, 4] (INIT_LIST_HEAD 1 (\<lambda>p. \<lparr>prev = 0, next = 0\<rparr>))"
  have c: "clist ?h 1 [2, 3, 4]" using list_h.collect_in_order[OF INIT_LIST_HEAD_clist, of 1 "[2, 3, 4]"] by simp
  from list_loops_refine[of id ?h 1 "[2, 3, 4]"] c keeps_sides_rest[OF list_del_keeps_sides]
  have "list_for_each_entry_safe id (\<lambda>p h. Some (0, list_del p h)) 1 ?h = Some (0, fold list_del [2, 3, 4] ?h)"
    by (auto simp: iterate_list_del simp del: fold_simps)
  then show ?thesis using c list_empty_iff[OF list_h.destroy_all[OF c]] by (simp only: Let_def simp_thms)
qed

end
