(* ===== verification/Nsb_Sim.thy ===== *)
theory Nsb_Sim
  imports Nsb_Context
begin

text \<open>
  A concrete outside world, in which the properties that assume something about the calls
  out of the program are shown to have instances: a memory of bytes that \<open>ptrace\<close> reads
  and writes, the text of \<open>/proc/<pid>/maps\<close>, a set of ELF files, a stack of frames, a
  socket peer that answers from a list. Nothing in the model refers to it.
\<close>

record simw =
  sim_mem :: "u64 \<Rightarrow> byte"
  sim_maps :: "string list"
  sim_files :: "string \<Rightarrow> Elf option"
  sim_opened :: "string list"
  sim_frames :: "nat \<Rightarrow> unw_frame"
  sim_tasks :: "string list"
  sim_replies :: "byte list list"
  sim_sent :: "byte list list"
  sim_sysret :: int
  sim_data :: "byte list"
  sim_unpack :: "byte list \<Rightarrow> BinPatch option"

definition sim_read :: "(u64 \<Rightarrow> byte) \<Rightarrow> u64 \<Rightarrow> nat \<Rightarrow> byte list" where
  "sim_read m a n = map (\<lambda>i. m (a + of_nat i)) [0..<n]"

fun sim_write :: "(u64 \<Rightarrow> byte) \<Rightarrow> u64 \<Rightarrow> byte list \<Rightarrow> u64 \<Rightarrow> byte" where
  "sim_write m a [] = m"
| "sim_write m a (b # bs) = sim_write (m(a := b)) (a + 1) bs"

definition sim_path :: "simw \<Rightarrow> int \<Rightarrow> string" where
  "sim_path w fd = sim_opened w ! nat (fd - 3)"

definition sim_ext :: "simw ext" where
  "sim_ext = \<lparr>
     x_malloc = (\<lambda>w. (True, w)),
     x_poke = (\<lambda>pid bs a w. ((0, 0), w\<lparr>sim_mem := sim_write (sim_mem w) a bs\<rparr>)),
     x_peek = (\<lambda>pid a n w. ((0, 0, sim_read (sim_mem w) a n), w)),
     x_syscall = (\<lambda>nr args w. ((0, sim_sysret w), w)),
     x_prepare = (\<lambda>pid w. (True, w)),
     x_cure = (\<lambda>w. (0, w)),
     x_run_at = (\<lambda>a w. ((0, 0), w)),
     x_stop_task = (\<lambda>pid w. ((1, 0), w)),
     x_resume_task = (\<lambda>pid w. (0, w)),
     x_usleep = (\<lambda>n w. w),
     x_readdir = (\<lambda>path w. (Inr (sim_tasks w, 0), w)),
     x_maps = (\<lambda>pid w. (Some (sim_maps w), w)),
     x_access = (\<lambda>path w. (True, w)),
     x_stat = (\<lambda>path w. (if sim_files w path = None then Inl 2 else Inr 0x8000, w)),
     x_readlink = (\<lambda>path w. (Inr path, w)),
     x_open = (\<lambda>path w. (if sim_files w path = None then Inl 2 else Inr (3 + int (length (sim_opened w))),
                         w\<lparr>sim_opened := sim_opened w @ [path]\<rparr>)),
     x_lseek = (\<lambda>fd off w. (Inr off, w)),
     x_read = (\<lambda>fd n w. (Inr (take n (sim_data w)), w)),
     x_close = (\<lambda>fd w. ((0, 0), w)),
     x_elf_begin = (\<lambda>fd w. (sim_files w (sim_path w fd), w)),
     x_elf_version = True,
     x_slack = (\<lambda>i. 0),
     x_unpack = (\<lambda>bs. None),
     x_unw_init = (\<lambda>pid w. ((0, sim_frames w), w)),
     x_socket = (\<lambda>w. (Inr 7, w)),
     x_connect = (\<lambda>fd addr w. ((0, 0), w)),
     x_send = (\<lambda>fd bs w. (Inr (length bs), w\<lparr>sim_sent := sim_sent w @ [bs]\<rparr>)),
     x_recv = (\<lambda>fd n w. (case sim_replies w of [] \<Rightarrow> Inl 11 | r # rs \<Rightarrow> Inr (take n r),
                         w\<lparr>sim_replies := tl (sim_replies w)\<rparr>)),
     x_sendmsg = (\<lambda>sock data control w. ((1, 0), w)) \<rparr>"

lemma sim_ext_sel [simp]:
  "x_malloc sim_ext w = (True, w)"
  "x_poke sim_ext pid bs a w = ((0, 0), w\<lparr>sim_mem := sim_write (sim_mem w) a bs\<rparr>)"
  "x_peek sim_ext pid a n w = ((0, 0, sim_read (sim_mem w) a n), w)"
  "x_syscall sim_ext nr args w = ((0, sim_sysret w), w)"
  "x_slack sim_ext i = 0"
  "x_maps sim_ext pid w = (Some (sim_maps w), w)"
  "x_access sim_ext path w = (True, w)"
  "x_close sim_ext fd w = ((0, 0), w)"
  "x_unw_init sim_ext pid w = ((0, sim_frames w), w)"
  "x_prepare sim_ext pid w = (True, w)"
  "x_cure sim_ext w = (0, w)"
  "x_run_at sim_ext a w = ((0, 0), w)"
  "x_stop_task sim_ext pid w = ((1, 0), w)"
  "x_resume_task sim_ext pid w = (0, w)"
  "x_usleep sim_ext n w = w"
  "x_readdir sim_ext path w = (Inr (sim_tasks w, 0), w)"
  by (simp_all add: sim_ext_def)

definition sim_vma :: vma_area where
  "sim_vma = \<lparr>vaddr = 0, vlen = 0, vflags = 0, vprot = 0, voffset = 0, vpath = None,
     vmap_file = None, vdlm = None\<rparr>"

definition sim_elf :: Elf where
  "sim_elf = \<lparr>elf_kind = 3, elf_getphdrnum = Some 0, gelf_getphdr = (\<lambda>i. None), elf_scns = [],
     gelf_getshdr = (\<lambda>i. None), elf_getscn = (\<lambda>i. False), elf_getshdrstrndx = Some 0,
     gelf_getehdr = Some 3, elf_strptr = (\<lambda>i off. None), elf_getdata = (\<lambda>i. None),
     gelf_getsym = (\<lambda>i j. None), gelf_getrela = (\<lambda>i j. None), gelf_getdyn = (\<lambda>i j. None),
     gelf_getnote = (\<lambda>i. None), elf_errno = 1\<rparr>"

definition sim_ei :: elf_info_s where
  "sim_ei = \<lparr>ei_path = ''/bin/target'', ei_elf = sim_elf, ei_fd = 3, ei_shstrndx = 0, ei_type = 3,
     ei_strtab = None, ei_rela_plt = None, ei_rela_dyn = None, ei_dynamic = None, ei_dynsym = None,
     ei_dynstr = None, ei_soname = None, ei_needed = [], ei_bid = None\<rparr>"

definition sim_dlm :: dl_map where
  "sim_dlm = \<lparr>dl_path = None, dl_vmas = [], dl_ei = 0, exec_vma = None\<rparr>"

definition sim_pi :: patch_info_s where
  "sim_pi = \<lparr>target_bid = ''aa'', patch_bid = ''bb'', func_jumps = [], manual_syms = [],
     global_syms = [], static_syms = []\<rparr>"

definition sim_patch :: patch_s where
  "sim_patch = \<lparr>pi = sim_pi, target_dlm = None, rela_plt = [], rela_dyn = [], patch_dlm = None\<rparr>"

definition sim_ctx :: process_ctx_s where
  "sim_ctx = \<lparr>ctx_pid = 10, ctx_patchfile = ''p.so'', ctx_dry_run = False, ctx_patch_ei = None,
     ctx_check_backtrace = Jumps_check_backtrace, ctx_ctl = False,
     ctx_service = \<lparr>sv_name = ''nsb_service'', sv_pid = 0, sv_handle = 0, sv_dlm = None, sv_sock = -1,
       sv_runner = 0, sv_loaded = False\<rparr>,
     ctx_vmas = [], ctx_dl_maps = [], ctx_applied_patches = [], ctx_remote_vma = sim_vma,
     ctx_needed_list = [], ctx_threads = [], ctx_patch = None\<rparr>"

definition sim_world :: simw where
  "sim_world = \<lparr>sim_mem = (\<lambda>a. 0x90), sim_maps = [], sim_files = (\<lambda>p. None), sim_opened = [],
     sim_frames = (\<lambda>i. \<lparr>unw_ip = (0, 0), unw_sp = (0, 0), unw_name = [], unw_signal = 0, unw_step = 0\<rparr>),
     sim_tasks = [], sim_replies = [], sim_sent = [], sim_sysret = 0, sim_data = [], sim_unpack = (\<lambda>bs. None)\<rparr>"

definition sim_state :: "simw pst" where
  "sim_state = \<lparr>world = sim_world, errno = 0, brk = 100, vma_of = (\<lambda>p. sim_vma), dlm_of = (\<lambda>p. sim_dlm),
     ei_of = (\<lambda>p. sim_ei), patch_of = (\<lambda>p. sim_patch), process_context = sim_ctx\<rparr>"

lemma sim_state_sel [simp]:
  "world sim_state = sim_world" "errno sim_state = 0" "brk sim_state = 100" "vma_of sim_state p = sim_vma"
  "dlm_of sim_state p = sim_dlm" "ei_of sim_state p = sim_ei" "patch_of sim_state p = sim_patch"
  "process_context sim_state = sim_ctx"
  by (simp_all add: sim_state_def)

lemma length_sim_read [simp]: "length (sim_read m a n) = n"
  by (simp add: sim_read_def)

end
