(* ===== verification/Vma.thy ===== *)
theory Vma
  imports Nsb_Sim
begin

text \<open>
  The memory map of the target process, \<open>patcher/vma.c\<close>: parsing a line of
  \<open>/proc/<pid>/maps\<close> (with the conversions of \<open>sscanf\<close> the format uses), collecting the
  areas into a list ordered by start address, and the iterators over that list.
\<close>

section \<open>The conversions of sscanf\<close>

definition is_space :: "char \<Rightarrow> bool" where
  "is_space c \<longleftrightarrow> (let v = of_char c :: nat in v = 32 \<or> (9 \<le> v \<and> v \<le> 13))"

definition skip_ws :: "string \<Rightarrow> string" where
  "skip_ws = dropWhile is_space"

text \<open>
  \<open>%lx\<close> and \<open>%lu\<close>: white space, an optional sign, for base 16 an optional \<open>0x\<close>, at least
  one digit; the value saturates as in \<open>strtoul\<close>. \<open>None\<close> is a matching failure.
\<close>

definition strip_0x :: "nat \<Rightarrow> string \<Rightarrow> string" where
  "strip_0x base cs =
     (case cs of
        c0 # c1 # c2 # _ \<Rightarrow>
          if base = 16 \<and> c0 = CHR ''0'' \<and> (c1 = CHR ''x'' \<or> c1 = CHR ''X'') \<and> is_digit 16 c2
          then drop 2 cs else cs
      | _ \<Rightarrow> cs)"

definition scan_unsigned :: "nat \<Rightarrow> string \<Rightarrow> (u64 \<times> string) option" where
  "scan_unsigned base cs =
     (let cs = skip_ws cs;
          neg = (cs \<noteq> [] \<and> hd cs = CHR ''-'');
          cs = (if cs \<noteq> [] \<and> (hd cs = CHR ''-'' \<or> hd cs = CHR ''+'') then tl cs else cs);
          cs = strip_0x base cs;
          ds = takeWhile (is_digit base) cs;
          v = digits_value base ds
      in if ds = [] then None
         else Some (if 2 ^ 64 \<le> v then - 1 else if neg then - of_nat v else of_nat v,
                    drop (length ds) cs))"

definition scan_char :: "string \<Rightarrow> (char \<times> string) option" where
  "scan_char cs = (case cs of [] \<Rightarrow> None | c # cs \<Rightarrow> Some (c, cs))"

definition scan_lit :: "char \<Rightarrow> string \<Rightarrow> string option" where
  "scan_lit l cs = (case cs of [] \<Rightarrow> None | c # cs \<Rightarrow> if c = l then Some cs else None)"

text \<open>
  \<open>sscanf(line, "%lx-%lx %c%c%c%c %lx %x:%x %lu %n", ...)\<close> when all ten conversions
  succeed: start, end, the four permission characters, the offset, and what is left of
  the line where \<open>%n\<close> is stored. The device numbers and the inode are not used.
\<close>

definition sscanf_maps :: "string \<Rightarrow> (u64 \<times> u64 \<times> char \<times> char \<times> char \<times> char \<times> u64 \<times> string) option" where
  "sscanf_maps line = do {
     (start, cs) \<leftarrow> scan_unsigned 16 line;
     cs \<leftarrow> scan_lit (CHR ''-'') cs;
     (end, cs) \<leftarrow> scan_unsigned 16 cs;
     (r, cs) \<leftarrow> scan_char (skip_ws cs);
     (w, cs) \<leftarrow> scan_char cs;
     (x, cs) \<leftarrow> scan_char cs;
     (p, cs) \<leftarrow> scan_char cs;
     (off, cs) \<leftarrow> scan_unsigned 16 cs;
     (dev_maj, cs) \<leftarrow> scan_unsigned 16 cs;
     cs \<leftarrow> scan_lit (CHR '':'') cs;
     (dev_min, cs) \<leftarrow> scan_unsigned 16 cs;
     (ino, cs) \<leftarrow> scan_unsigned 10 cs;
     Some (start, end, r, w, x, p, off, skip_ws cs) }"

definition null_vma :: vma_area where
  "null_vma = \<lparr>vaddr = 0, vlen = 0, vflags = 0, vprot = 0, voffset = 0, vpath = None,
     vmap_file = None, vdlm = None\<rparr>"

section \<open>Parsing\<close>

definition parse_vma :: "string \<Rightarrow> int \<times> vma_area" where
  "parse_vma line =
     (case sscanf_maps line of
        None \<Rightarrow> (- EINVAL, null_vma)
      | Some (start, end, r, w, x, p, off, rest) \<Rightarrow>
          let prot = 0;
              prot = (if r = CHR ''r'' then prot OR PROT_READ else prot);
              prot = (if w = CHR ''w'' then prot OR PROT_WRITE else prot);
              prot = (if x = CHR ''x'' then prot OR PROT_EXEC else prot);
              vma = null_vma\<lparr>vaddr := start, voffset := off, vlen := end - start, vprot := prot\<rparr>
          in if p = CHR ''s'' \<or> p = CHR ''p'' then
               (0, vma\<lparr>vflags := if p = CHR ''s'' then MAP_SHARED else MAP_PRIVATE,
                       vpath := if rest \<noteq> [] then Some rest else None\<rparr>)
             else (- EINVAL, vma))"

definition map_file_name :: "pid \<Rightarrow> vma_area \<Rightarrow> string" where
  "map_file_name pid vma = ''/proc/'' @ int_string pid @ ''/map_files/''
     @ hex_string (unat (vma_start vma)) @ ''-'' @ hex_string (unat (vma_end vma))"

text \<open>
  The new area, or the error. The duplicated strings are values here; a failing
  \<open>xstrdup\<close> is a failing allocation.
\<close>

definition create_vma :: "'w ext \<Rightarrow> pid \<Rightarrow> vma_area \<Rightarrow> 'w pst \<Rightarrow> (int \<times> ptr) \<times> 'w pst" where
  "create_vma x pid template s =
     (case xmalloc x s of
        (None, s) \<Rightarrow> ((- ENOMEM, 0), s)
      | (Some p, s) \<Rightarrow>
          let s = upd_vma p (\<lambda>_. template\<lparr>vdlm := None\<rparr>) s;
              (path_ok, s) = (if vpath template \<noteq> None
                              then (case xmalloc x s of (q, s) \<Rightarrow> (q \<noteq> None, s)) else (True, s))
          in if \<not> path_ok then ((- ENOMEM, 0), s)
             else let map_file = map_file_name pid (vma_of s p);
                      (exists, s) = ext_call (x_access x map_file) s
                  in if \<not> exists then ((0, p), s)
                     else case xmalloc x s of
                            (None, s) \<Rightarrow> ((- ENOMEM, 0), s)
                          | (Some _, s) \<Rightarrow> ((0, p), upd_vma p (\<lambda>v. v\<lparr>vmap_file := Some map_file\<rparr>) s))"

section \<open>The list of areas\<close>

definition iterate_vmas :: "ptr list \<Rightarrow> (ptr \<Rightarrow> 's \<Rightarrow> (int \<times> 's) option) \<Rightarrow> 's \<Rightarrow> (int \<times> 's) option" where
  "iterate_vmas head actor s = iterate actor head s"

definition first_vma :: "ptr list \<Rightarrow> ptr option" where
  "first_vma vmas = (if vmas = [] then None else Some (hd vmas))"

definition last_vma :: "ptr list \<Rightarrow> ptr option" where
  "last_vma vmas = (if vmas = [] then None else Some (last vmas))"

text \<open>
  The successor on the list the area is on. For the last area the C function returns the
  list anchor itself, cast to a \<open>vma_area\<close>: \<open>None\<close> here.
\<close>

definition next_vma :: "ptr list \<Rightarrow> ptr \<Rightarrow> ptr option" where
  "next_vma vmas vma =
     (case dropWhile (\<lambda>p. p \<noteq> vma) vmas of _ # nxt # _ \<Rightarrow> Some nxt | _ \<Rightarrow> None)"

definition insert_before :: "ptr \<Rightarrow> ptr \<Rightarrow> ptr list \<Rightarrow> ptr list" where
  "insert_before vma new xs = takeWhile (\<lambda>p. p \<noteq> vma) xs @ new # dropWhile (\<lambda>p. p \<noteq> vma) xs"

text \<open>The list being walked is the state of the iteration: \<open>add_vma\<close> links the new area in.\<close>

definition add_vma :: "(ptr \<Rightarrow> vma_area) \<Rightarrow> ptr \<Rightarrow> ptr \<Rightarrow> ptr list \<Rightarrow> (int \<times> ptr list) option" where
  "add_vma vm new_vma vma xs =
     (if vma_start (vm vma) < vma_start (vm new_vma) then Some (0, xs)
      else Some (1, insert_before vma new_vma xs))"

definition add_vma_sorted :: "(ptr \<Rightarrow> vma_area) \<Rightarrow> ptr list \<Rightarrow> ptr \<Rightarrow> (int \<times> ptr list) option" where
  "add_vma_sorted vm head vma =
     (case last_vma head of
        None \<Rightarrow> Some (0, head @ [vma])
      | Some lvma \<Rightarrow>
          if vma_start (vm lvma) < vma_start (vm vma) then Some (0, head @ [vma])
          else do {
            (ret, head) \<leftarrow> iterate_vmas head (add_vma vm vma) head;
            Some (if ret = 1 then 0 else if ret < 0 then ret else - EFAULT, head) })"

text \<open>The result is the error, what is left on the source list, and the target list.\<close>

fun splice_vma_lists_sorted ::
    "(ptr \<Rightarrow> vma_area) \<Rightarrow> ptr list \<Rightarrow> ptr list \<Rightarrow> (int \<times> ptr list \<times> ptr list) option" where
  "splice_vma_lists_sorted vm [] to = Some (0, [], to)"
| "splice_vma_lists_sorted vm (vma # from) to = do {
     (err, to) \<leftarrow> add_vma_sorted vm to vma;
     if err \<noteq> 0 then Some (err, from, to) else splice_vma_lists_sorted vm from to }"

section \<open>Collecting\<close>

text \<open>
  The loop over the lines that \<open>fgets\<close> returns; the last character of each is cut off.
  The actor may keep data of its own (\<open>'d\<close>) beside the state.
\<close>

fun iter_map_lines ::
    "(vma_area \<Rightarrow> 's \<Rightarrow> (int \<times> 's) option) \<Rightarrow> int \<Rightarrow> string list \<Rightarrow> 's \<Rightarrow> (int \<times> 's) option" where
  "iter_map_lines actor ret [] s = Some (ret, s)"
| "iter_map_lines actor ret (buf # bufs) s =
     (case parse_vma (butlast buf) of (ret, tmp) \<Rightarrow>
        if ret \<noteq> 0 then Some (ret, s)
        else do {
          (ret, s) \<leftarrow> actor tmp s;
          if ret \<noteq> 0 then Some (ret, s) else iter_map_lines actor ret bufs s })"

definition iter_map_files ::
    "'w ext \<Rightarrow> pid \<Rightarrow> (pid \<Rightarrow> vma_area \<Rightarrow> 'w pst \<times> 'd \<Rightarrow> (int \<times> 'w pst \<times> 'd) option)
      \<Rightarrow> 'w pst \<times> 'd \<Rightarrow> (int \<times> 'w pst \<times> 'd) option" where
  "iter_map_files x pid actor sd =
     (case sd of (s, d) \<Rightarrow>
        case ext_call (x_maps x pid) s of
          (None, s) \<Rightarrow> Some (-1, s, d)
        | (Some bufs, s) \<Rightarrow> iter_map_lines (actor pid) (-1) bufs (s, d))"

definition collect_vma ::
    "'w ext \<Rightarrow> pid \<Rightarrow> vma_area \<Rightarrow> 'w pst \<times> ptr list \<Rightarrow> (int \<times> 'w pst \<times> ptr list) option" where
  "collect_vma x pid template sd =
     (case sd of (s, head) \<Rightarrow>
        case create_vma x pid template s of ((err, vma), s) \<Rightarrow>
          if err \<noteq> 0 then Some (err, s, head)
          else do {
            (err, head) \<leftarrow> add_vma_sorted (vma_of s) head vma;
            Some (err, s, head) })"

definition collect_one_vma ::
    "'w ext \<Rightarrow> pid \<Rightarrow> vma_area \<Rightarrow> 'w pst \<times> ptr list \<Rightarrow> (int \<times> 'w pst \<times> ptr list) option" where
  "collect_one_vma x pid vma sd = collect_vma x pid vma sd"

definition collect_vmas :: "'w ext \<Rightarrow> pid \<Rightarrow> 'w pst \<times> ptr list \<Rightarrow> (int \<times> 'w pst \<times> ptr list) option" where
  "collect_vmas x pid sd = iter_map_files x pid (collect_one_vma x) sd"

definition compare_vma_path ::
    "'w ext \<Rightarrow> string \<Rightarrow> pid \<Rightarrow> vma_area \<Rightarrow> 'w pst \<times> ptr list \<Rightarrow> (int \<times> 'w pst \<times> ptr list) option" where
  "compare_vma_path x path pid vma sd =
     (case vpath vma of
        None \<Rightarrow> Some (0, sd)
      | Some p \<Rightarrow> if p \<noteq> path then Some (0, sd) else collect_vma x pid vma sd)"

definition collect_vmas_by_path ::
    "'w ext \<Rightarrow> pid \<Rightarrow> string \<Rightarrow> 'w pst \<times> ptr list \<Rightarrow> (int \<times> 'w pst \<times> ptr list) option" where
  "collect_vmas_by_path x pid path sd = iter_map_files x pid (compare_vma_path x path) sd"


section \<open>Sorted insertion\<close>

interpretation vmas_iter: iterator "\<lambda>xs actor s. iterate_vmas xs actor s"
  unfolding iterate_vmas_def by unfold_locales simp_all

text \<open>The list with the new element before the first one that is not below it.\<close>

definition insert_at_key :: "('a \<Rightarrow> 'k::linorder) \<Rightarrow> 'a \<Rightarrow> 'a list \<Rightarrow> 'a list" where
  "insert_at_key key y xs = takeWhile (\<lambda>x. key x < key y) xs @ y # dropWhile (\<lambda>x. key x < key y) xs"

lemma mset_insert_at_key [simp]: "mset (insert_at_key key y xs) = add_mset y (mset xs)"
proof -
  have "mset (takeWhile (\<lambda>x. key x < key y) xs) + mset (dropWhile (\<lambda>x. key x < key y) xs) = mset xs"
    by (metis mset_append takeWhile_dropWhile_id)
  then show ?thesis by (simp add: insert_at_key_def)
qed

lemma sorted_insert_at_key:
  assumes "sorted (map key xs)"
  shows "sorted (map key (insert_at_key key y xs))"
  using assms
proof (induction xs)
  case Nil
  show ?case by (simp add: insert_at_key_def)
next
  case (Cons x xs)
  have set_ins: "set (insert_at_key key y xs) = insert y (set xs)"
    by (metis mset_insert_at_key set_mset_add_mset_insert set_mset_mset)
  show ?case
  proof (cases "key x < key y")
    case True
    then have "insert_at_key key y (x # xs) = x # insert_at_key key y xs"
      by (simp add: insert_at_key_def)
    with Cons True set_ins show ?thesis by auto
  next
    case False
    with Cons.prems show ?thesis by (auto simp: insert_at_key_def)
  qed
qed

text \<open>
  The contract of the two insertion routines of the program (\<open>add_vma_sorted\<close> on the list
  of areas of the process, \<open>add_dl_vma_sorted\<close> on the areas of one ELF object), and what a
  client that inserts one element after the other may rely on.
\<close>

locale sorted_insert =
  fixes key :: "'a \<Rightarrow> 'k::linorder"
    and ins :: "'a list \<Rightarrow> 'a \<Rightarrow> (int \<times> 'a list) option"
  assumes ins_sorted: "sorted (map key xs) \<Longrightarrow> ins xs y = Some (0, insert_at_key key y xs)"
begin

fun ins_all :: "'a list \<Rightarrow> 'a list \<Rightarrow> (int \<times> 'a list) option" where
  "ins_all xs [] = Some (0, xs)"
| "ins_all xs (y # ys) = do {
     (err, xs) \<leftarrow> ins xs y;
     if err \<noteq> 0 then Some (err, xs) else ins_all xs ys }"

lemma ins_keeps_sorted:
  assumes "sorted (map key xs)"
  shows "\<exists>zs. ins xs y = Some (0, zs) \<and> sorted (map key zs) \<and> mset zs = add_mset y (mset xs)"
  using assms by (simp add: ins_sorted sorted_insert_at_key)

lemma ins_all_sorted:
  assumes "sorted (map key xs)"
  shows "\<exists>zs. ins_all xs ys = Some (0, zs) \<and> sorted (map key zs) \<and> mset zs = mset xs + mset ys"
  using assms
proof (induction ys arbitrary: xs)
  case Nil
  then show ?case by simp
next
  case (Cons y ys)
  from Cons.IH[OF sorted_insert_at_key[OF Cons.prems, of y]] Cons.prems
  show ?case by (simp add: ins_sorted)
qed

end

lemma insert_before_first:
  assumes "\<forall>x \<in> set pre. \<not> P x" "P y"
  shows "insert_before y new (pre @ y # post) = pre @ new # y # post"
proof -
  have "\<forall>x \<in> set pre. x \<noteq> y" using assms by auto
  then have "takeWhile (\<lambda>p. p \<noteq> y) (pre @ y # post) = pre"
    and "dropWhile (\<lambda>p. p \<noteq> y) (pre @ y # post) = y # post"
    by (auto simp: takeWhile_append2 dropWhile_append2)
  then show ?thesis by (simp add: insert_before_def)
qed

lemma iterate_add_vma:
  assumes "pre @ xs = l" "\<forall>x \<in> set pre. vma_start (vm x) < vma_start (vm v)"
    "\<exists>x \<in> set xs. \<not> vma_start (vm x) < vma_start (vm v)"
  shows "iterate (add_vma vm v) xs l = Some (1, insert_at_key (\<lambda>p. vma_start (vm p)) v l)"
  using assms
proof (induction xs arbitrary: pre)
  case Nil
  then show ?case by simp
next
  case (Cons x xs)
  show ?case
  proof (cases "vma_start (vm x) < vma_start (vm v)")
    case True
    with Cons.prems Cons.IH[of "pre @ [x]"] show ?thesis by (simp add: add_vma_def)
  next
    case False
    with Cons.prems have "insert_before x v l = insert_at_key (\<lambda>p. vma_start (vm p)) v l"
      using insert_before_first[of pre "\<lambda>p. \<not> vma_start (vm p) < vma_start (vm v)" x v xs]
      by (auto simp: insert_at_key_def takeWhile_append2 dropWhile_append2)
    with False show ?thesis by (simp add: add_vma_def)
  qed
qed

lemma sorted_last_max:
  "sorted (map key xs) \<Longrightarrow> x \<in> set xs \<Longrightarrow> key x \<le> key (last xs)"
  by (induction xs) auto

text \<open>Insertion never fails, on a sorted list or not.\<close>

lemma add_vma_sorted_total:
  "\<exists>zs. add_vma_sorted vm xs v = Some (0, zs) \<and> mset zs = add_mset v (mset xs)"
proof (cases "xs = [] \<or> vma_start (vm (last xs)) < vma_start (vm v)")
  case True
  then show ?thesis by (auto simp: add_vma_sorted_def last_vma_def)
next
  case False
  then have "iterate (add_vma vm v) xs xs = Some (1, insert_at_key (\<lambda>p. vma_start (vm p)) v xs)"
    by (intro iterate_add_vma[of "[]"]) (auto intro: bexI[of _ "last xs"])
  with False show ?thesis by (auto simp: add_vma_sorted_def last_vma_def iterate_vmas_def)
qed

lemma add_vma_sorted_eq:
  assumes "sorted (map (\<lambda>p. vma_start (vm p)) xs)"
  shows "add_vma_sorted vm xs v = Some (0, insert_at_key (\<lambda>p. vma_start (vm p)) v xs)"
proof (cases "xs = [] \<or> vma_start (vm (last xs)) < vma_start (vm v)")
  case True
  then have all: "\<forall>x \<in> set xs. vma_start (vm x) < vma_start (vm v)"
    using sorted_last_max[OF assms] by fastforce
  with True show ?thesis
    by (auto simp: add_vma_sorted_def last_vma_def insert_at_key_def
        takeWhile_eq_all_conv[THEN iffD2] dropWhile_eq_Nil_conv[THEN iffD2])
next
  case False
  then have "iterate (add_vma vm v) xs xs = Some (1, insert_at_key (\<lambda>p. vma_start (vm p)) v xs)"
    by (intro iterate_add_vma[of "[]"]) (auto intro: bexI[of _ "last xs"])
  with False show ?thesis by (auto simp: add_vma_sorted_def last_vma_def iterate_vmas_def)
qed

interpretation vma_list: sorted_insert "\<lambda>p. vma_start (vm p)" "add_vma_sorted vm" for vm
  by unfold_locales (rule add_vma_sorted_eq)

lemma splice_eq_ins_all:
  "splice_vma_lists_sorted vm from to
    = do { (err, to') \<leftarrow> vma_list.ins_all vm to from; Some (err, [], to') }"
proof (induction "from" arbitrary: to)
  case Nil
  show ?case by simp
next
  case (Cons v "from")
  obtain zs where "add_vma_sorted vm to v = Some (0, zs)" using add_vma_sorted_total by blast
  with Cons show ?case by simp
qed

section \<open>Collecting keeps the list sorted\<close>


lemma create_vma_spec:
  assumes "create_vma x pid template s = ((err, p), t)"
  shows "brk s \<le> brk t \<and> (\<forall>q < brk s. vma_of t q = vma_of s q)
    \<and> (err = 0 \<longrightarrow> p = brk s \<and> p < brk t
        \<and> (vma_of t p)\<lparr>vmap_file := None\<rparr> = template\<lparr>vdlm := None, vmap_file := None\<rparr>
        \<and> vmap_file (vma_of t p) \<in> {vmap_file template, Some (map_file_name pid template)})"
proof -
  have [simp]: "map_file_name pid (template\<lparr>vdlm := None\<rparr>) = map_file_name pid template"
    by (simp add: map_file_name_def vma_accessors)
  show ?thesis
    using assms
    by (auto simp: create_vma_def Let_def split: prod.splits if_splits option.splits
        dest!: xmalloc_keeps ext_call_keeps)
qed

definition vmas_ok :: "'w pst \<times> ptr list \<Rightarrow> bool" where
  "vmas_ok sd \<longleftrightarrow> (case sd of (s, head) \<Rightarrow>
     sorted (map (\<lambda>p. vma_start (vma_of s p)) head) \<and> (\<forall>p \<in> set head. p < brk s) \<and> distinct head)"

text \<open>An area without what \<open>create_vma\<close> adds to the parsed line.\<close>

definition parsed_part :: "vma_area \<Rightarrow> vma_area" where
  "parsed_part vma = vma\<lparr>vdlm := None, vmap_file := None\<rparr>"

lemma parsed_part_eq:
  "v\<lparr>vmap_file := None\<rparr> = t\<lparr>vdlm := None, vmap_file := None\<rparr> \<Longrightarrow> parsed_part v = parsed_part t"
  by (simp add: parsed_part_def) (metis vma_area.surjective vma_area.update_convs(7,8))

lemma collect_vma_spec:
  assumes "collect_vma x pid template (s, head) = Some (err, s', head')" "vmas_ok (s, head)"
  shows "vmas_ok (s', head')
    \<and> (\<forall>p \<in> set head. vma_of s' p = vma_of s p)
    \<and> (err = 0 \<longrightarrow> (\<exists>p. mset head' = add_mset p (mset head)
                     \<and> parsed_part (vma_of s' p) = parsed_part template))"
proof -
  obtain e p t where cr: "create_vma x pid template s = ((e, p), t)" by (metis prod.exhaust)
  note c = create_vma_spec[OF cr]
  have old: "\<forall>q \<in> set head. q < brk s \<and> vma_of t q = vma_of s q"
    using assms(2) c by (auto simp: vmas_ok_def)
  have keys: "map (\<lambda>q. vma_start (vma_of t q)) head = map (\<lambda>q. vma_start (vma_of s q)) head"
    using old by auto
  have srt: "sorted (map (\<lambda>q. vma_start (vma_of t q)) head)"
    unfolding keys using assms(2) by (simp add: vmas_ok_def)
  show ?thesis
  proof (cases "e = 0")
    case False
    with assms(1) cr have "s' = t" "head' = head" "err = e" by (auto simp: collect_vma_def)
    with False c old srt assms(2) show ?thesis by (auto simp: vmas_ok_def)
  next
    case True
    with cr obtain zs where ins: "add_vma_sorted (vma_of t) head p = Some (0, zs)"
      and z: "sorted (map (\<lambda>q. vma_start (vma_of t q)) zs)" "mset zs = add_mset p (mset head)"
      using vma_list.ins_keeps_sorted[OF srt] by blast
    from assms(1) cr True ins have eq: "s' = t" "head' = zs" "err = 0"
      by (auto simp: collect_vma_def)
    have p: "p = brk s" "p < brk t" "parsed_part (vma_of t p) = parsed_part template"
      using c True by (auto intro: parsed_part_eq)
    have "p \<notin> set head" using old p by auto
    moreover have "distinct head" using assms(2) by (simp add: vmas_ok_def)
    ultimately have "distinct zs"
      using z(2) by (metis distinct.simps(2) mset.simps(2) mset_eq_imp_distinct_iff)
    moreover have "set zs = insert p (set head)" using z(2) by (metis list.set(2) mset.simps(2) mset_eq_setD)
    ultimately have "vmas_ok (t, zs)"
      using z(1) p c old by (auto simp: vmas_ok_def intro: order.strict_trans2)
    with eq p old z(2) show ?thesis by auto
  qed
qed

lemma image_mset_cong_old:
  "\<forall>p \<in> set xs. f p = g p \<Longrightarrow> image_mset f (mset xs) = image_mset g (mset xs)"
  by (rule image_mset_cong) auto

lemma iter_map_lines_invariant:
  assumes "iter_map_lines actor ret bufs s = Some (r, t)" "I s"
    and step: "\<And>vma s e t. I s \<Longrightarrow> actor vma s = Some (e, t) \<Longrightarrow> I t"
  shows "I t"
  using assms(1,2)
proof (induction bufs arbitrary: ret s)
  case (Cons buf bufs)
  obtain p vma where p: "parse_vma (butlast buf) = (p, vma)" by fastforce
  show ?case
  proof (cases "p = 0")
    case True
    obtain e u where a: "actor vma s = Some (e, u)"
      using Cons.prems(1) p True by (cases "actor vma s") auto
    with step[OF Cons.prems(2) a] Cons.prems(1) Cons.IH[of e u] p True show ?thesis by (auto split: if_splits)
  qed (use Cons.prems p in simp)
qed simp

lemma iter_collect_spec:
  assumes "iter_map_lines (collect_one_vma x pid) ret0 bufs (s, head) = Some (ret, s', head')"
    "vmas_ok (s, head)"
  shows "vmas_ok (s', head') \<and> (\<forall>p \<in> set head. vma_of s' p = vma_of s p)
    \<and> (ret = 0 \<longrightarrow> image_mset (\<lambda>p. parsed_part (vma_of s' p)) (mset head')
         = image_mset (\<lambda>p. parsed_part (vma_of s p)) (mset head)
           + image_mset (\<lambda>buf. parsed_part (snd (parse_vma (butlast buf)))) (mset bufs))"
  using assms
proof (induction bufs arbitrary: s head ret0)
  case Nil
  then show ?case by auto
next
  case (Cons buf bufs)
  obtain r tmp where pv: "parse_vma (butlast buf) = (r, tmp)" by fastforce
  show ?case
  proof (cases "r = 0")
    case False
    with Cons.prems pv show ?thesis by simp
  next
    case True
    with Cons.prems(1) pv obtain e s1 h1 where
      act: "collect_vma x pid tmp (s, head) = Some (e, s1, h1)"
      and rest: "(if e \<noteq> 0 then Some (e, s1, h1)
        else iter_map_lines (collect_one_vma x pid) e bufs (s1, h1)) = Some (ret, s', head')"
      by (auto simp: collect_one_vma_def[of x pid tmp] split: bind_splits)
    note c = collect_vma_spec[OF act Cons.prems(2)]
    show ?thesis
    proof (cases "e = 0")
      case False
      with rest c show ?thesis by auto
    next
      case True
      with rest have r: "iter_map_lines (collect_one_vma x pid) e bufs (s1, h1) = Some (ret, s', head')"
        by simp
      note ih = Cons.IH[OF r conjunct1[OF c]]
      from c True obtain p where p: "mset h1 = add_mset p (mset head)"
        "parsed_part (vma_of s1 p) = parsed_part tmp" by auto
      have sub: "set head \<subseteq> set h1" using p(1) by (metis set_mset_mset subsetI set_mset_add_mset_insert insertI2)
      have "image_mset (\<lambda>p. parsed_part (vma_of s1 p)) (mset head)
          = image_mset (\<lambda>p. parsed_part (vma_of s p)) (mset head)"
        using c by (intro image_mset_cong_old) auto
      with ih p c sub pv show ?thesis by auto
    qed
  qed
qed

section \<open>Parsing what the kernel prints\<close>

text \<open>
  A line of \<open>/proc/<pid>/maps\<close> as proc(5) documents it and the kernel prints it: addresses and
  offset as \<open>%08lx\<close>, device numbers as \<open>%02x:%02x\<close>, the inode as \<open>%lu\<close>, and
  the path, if there is one, after some blanks.
\<close>

definition perm_char :: "u32 \<Rightarrow> u32 \<Rightarrow> char \<Rightarrow> char" where
  "perm_char prot flag c = (if prot AND flag \<noteq> 0 then c else CHR ''-'')"

definition hex_pad :: "nat \<Rightarrow> nat \<Rightarrow> string" where
  "hex_pad k n = replicate (k - length (hex_string n)) (CHR ''0'') @ hex_string n"

definition maps_line :: "nat \<Rightarrow> nat \<Rightarrow> nat \<Rightarrow> nat \<Rightarrow> vma_area \<Rightarrow> string" where
  "maps_line maj mi ino blanks vma =
     hex_pad 8 (unat (vma_start vma)) @ ''-'' @ hex_pad 8 (unat (vma_end vma)) @ '' ''
     @ [perm_char (vma_prot vma) PROT_READ (CHR ''r''), perm_char (vma_prot vma) PROT_WRITE (CHR ''w''),
        perm_char (vma_prot vma) PROT_EXEC (CHR ''x''),
        if vma_flags vma = MAP_SHARED then CHR ''s'' else CHR ''p'']
     @ '' '' @ hex_pad 8 (unat (vma_offset vma)) @ '' '' @ hex_pad 2 maj @ '':'' @ hex_pad 2 mi @ '' ''
     @ dec_string ino @ replicate blanks (CHR '' '')
     @ (case vpath vma of None \<Rightarrow> [] | Some p \<Rightarrow> p)"

lemma is_digit_not: 
  "\<not> is_digit b (CHR '' '')" "\<not> is_digit b (CHR ''-'')" "\<not> is_digit b (CHR '':'')"
  "\<not> is_digit b (CHR ''x'')" "\<not> is_digit b (CHR ''X'')" "\<not> is_digit b (CHR ''+'')"
  by (simp_all add: is_digit_def digit_val_def)

lemma digit_not_space: "is_digit b c \<Longrightarrow> \<not> is_space c"
  by (auto simp: is_digit_def digit_val_def is_space_def Let_def split: if_splits)

lemma strip_0x_id:
  assumes "\<And>c. c \<in> set (take 1 (drop 1 cs)) \<Longrightarrow> c \<noteq> CHR ''x'' \<and> c \<noteq> CHR ''X''"
  shows "strip_0x b cs = cs"
  using assms by (auto simp: strip_0x_def split: list.splits)

lemma skip_ws_digit: "cs \<noteq> [] \<Longrightarrow> is_digit b (hd cs) \<Longrightarrow> skip_ws cs = cs"
  by (cases cs) (auto simp: skip_ws_def dest: digit_not_space)

lemma skip_ws_blanks: "skip_ws (replicate n (CHR '' '') @ cs) = skip_ws cs"
  by (induction n) (auto simp: skip_ws_def is_space_def)

lemma skip_ws_blank: "skip_ws (CHR '' '' # cs) = skip_ws cs"
  using skip_ws_blanks[of 1 cs] by simp

text \<open>A run of digits followed by a separator is one number.\<close>

lemma scan_unsigned_digits:
  assumes "ds \<noteq> []" "\<And>c. c \<in> set ds \<Longrightarrow> is_digit b c" "digits_value b ds < 2 ^ 64"
    and rest: "rest = [] \<or> hd rest \<in> {CHR ''-'', CHR '' '', CHR '':''}"
  shows "scan_unsigned b (ds @ rest) = Some (of_nat (digits_value b ds), rest)"
proof -
  from assms(1,2) have hd: "is_digit b (hd ds)" by simp
  have nx: "c \<noteq> CHR ''x'' \<and> c \<noteq> CHR ''X''" if "c \<in> set (take 1 (drop 1 (ds @ rest)))" for c
  proof -
    from that assms(1) have "c \<in> set ds \<or> (rest \<noteq> [] \<and> c = hd rest)"
      by (cases ds; cases rest) (auto simp: take_Cons' split: if_splits dest: in_set_takeD)
    then show ?thesis
    proof
      assume "c \<in> set ds"
      then have "is_digit b c" by (rule assms(2))
      then show ?thesis using is_digit_not[of b] by auto
    qed (use rest in auto)
  qed
  have s: "strip_0x b (ds @ rest) = ds @ rest" by (rule strip_0x_id) (rule nx)
  have nsign: "hd ds \<noteq> CHR ''-''" "hd ds \<noteq> CHR ''+''" using hd is_digit_not by metis+
  have tw: "takeWhile (is_digit b) (ds @ rest) = ds"
    using assms(2) rest is_digit_not by (cases rest) (auto simp: takeWhile_append2)
  show ?thesis
    using assms(1,3) hd nsign
    by (simp add: scan_unsigned_def skip_ws_digit s tw)
qed

lemma scan_unsigned_blank: "scan_unsigned b (CHR '' '' # cs) = scan_unsigned b cs"
  by (simp add: scan_unsigned_def skip_ws_blank)

lemma digits_value_zeros: "digits_value b (replicate k (CHR ''0'') @ ds) = digits_value b ds"
  by (induction k) (auto simp: digits_value_def digit_val_def)

lemma scan_hex_pad:
  assumes "n < 2 ^ 64" "rest = [] \<or> hd rest \<in> {CHR ''-'', CHR '' '', CHR '':''}"
  shows "scan_unsigned 16 (hex_pad k n @ rest) = Some (of_nat n, rest)"
proof -
  have "is_digit 16 c" if "c \<in> set (hex_pad k n)" for c
    using that hex_string_digits by (auto simp: hex_pad_def is_digit_def digit_val_def)
  moreover have "digits_value 16 (hex_pad k n) = n"
    by (simp add: hex_pad_def digits_value_zeros hex_string_value)
  ultimately show ?thesis
    using scan_unsigned_digits[of "hex_pad k n" 16 rest] assms by (simp add: hex_pad_def)
qed

lemma scan_hex:
  assumes "n < 2 ^ 64" "rest = [] \<or> hd rest \<in> {CHR ''-'', CHR '' '', CHR '':''}"
  shows "scan_unsigned 16 (hex_string n @ rest) = Some (of_nat n, rest)"
  using scan_hex_pad[OF assms, of 0] by (simp add: hex_pad_def)

lemma scan_dec:
  assumes "n < 2 ^ 64" "rest = [] \<or> hd rest \<in> {CHR ''-'', CHR '' '', CHR '':''}"
  shows "scan_unsigned 10 (dec_string n @ rest) = Some (of_nat n, rest)"
  using scan_unsigned_digits[of "dec_string n" 10 rest] assms
  by (simp add: dec_string_digits dec_string_value)

definition maps_area :: "vma_area \<Rightarrow> bool" where
  "maps_area vma \<longleftrightarrow> vma_prot vma < 8 \<and> vma_flags vma \<in> {MAP_SHARED, MAP_PRIVATE}
     \<and> (case vpath vma of None \<Rightarrow> True | Some p \<Rightarrow> p \<noteq> [] \<and> \<not> is_space (hd p))
     \<and> vmap_file vma = None \<and> vdlm vma = None"

lemma word_lt_8:
  assumes "(w :: u32) < 8" shows "w \<in> {0, 1, 2, 3, 4, 5, 6, 7}"
proof -
  have "unat w < 8" using assms by (simp add: word_less_nat_alt)
  then have "unat w \<in> {0, 1, 2, 3, 4, 5, 6, 7}" by auto
  then have "w \<in> of_nat ` {0, 1, 2, 3, 4, 5, 6, 7}" by (intro image_eqI[of w of_nat "unat w"]) simp_all
  then show ?thesis by simp
qed

lemma parse_prot:
  assumes "prot < 8"
  shows "(let p = 0;
      p = (if perm_char prot PROT_READ (CHR ''r'') = CHR ''r'' then p OR PROT_READ else p);
      p = (if perm_char prot PROT_WRITE (CHR ''w'') = CHR ''w'' then p OR PROT_WRITE else p)
     in if perm_char prot PROT_EXEC (CHR ''x'') = CHR ''x'' then p OR PROT_EXEC else p) = prot"
  using word_lt_8[OF assms] by (auto simp: perm_char_def)

lemma skip_ws_path:
  "p = [] \<or> \<not> is_space (hd p) \<Longrightarrow> skip_ws (replicate n (CHR '' '') @ p) = p"
  by (simp add: skip_ws_blanks) (cases p; simp add: skip_ws_def)

lemma sscanf_maps_line:
  assumes "maj < 2 ^ 64" "mi < 2 ^ 64" "ino < 2 ^ 64"
    "(blanks = 0 \<longrightarrow> p = []) \<and> (p = [] \<or> \<not> is_space (hd p))"
    "p = (case vpath vma of None \<Rightarrow> [] | Some p \<Rightarrow> p)"
  shows "sscanf_maps (maps_line maj mi ino blanks vma) =
    Some (vma_start vma, vma_end vma, perm_char (vma_prot vma) PROT_READ (CHR ''r''),
      perm_char (vma_prot vma) PROT_WRITE (CHR ''w''), perm_char (vma_prot vma) PROT_EXEC (CHR ''x''),
      if vma_flags vma = MAP_SHARED then CHR ''s'' else CHR ''p'', vma_offset vma, p)"
proof -
  have h: "unat (w :: u64) < 2 ^ 64" for w using unsigned_less[of w] by simp
  have np: "\<not> is_space (perm_char prot b c)" if "c = CHR ''r''" for prot b c
    using that by (simp add: perm_char_def is_space_def)
  have sk: "skip_ws (perm_char prot b (CHR ''r'') # cs) = perm_char prot b (CHR ''r'') # cs" for prot b cs
    by (simp add: skip_ws_def np)
  have d: "replicate blanks (CHR '' '') @ p = [] \<or> hd (replicate blanks (CHR '' '') @ p) \<in> {CHR ''-'', CHR '' '', CHR '':''}"
    using assms(4) by (cases blanks) auto
  have sd: "scan_unsigned 10 (dec_string ino @ replicate blanks (CHR '' '') @ p)
      = Some (of_nat ino, replicate blanks (CHR '' '') @ p)"
    by (rule scan_dec[OF assms(3) d])
  have sp: "skip_ws (replicate blanks (CHR '' '') @ p) = p" by (rule skip_ws_path) (use assms(4) in simp)
  show ?thesis
    unfolding sscanf_maps_def maps_line_def assms(5)[symmetric]
    by (simp add: scan_hex_pad h[simplified] scan_lit_def scan_unsigned_blank skip_ws_blank sk scan_char_def
        assms(1,2)[simplified] sd sp del: replicate.simps)
qed

lemma parse_maps_line:
  assumes "maps_area vma" "maj < 2 ^ 64" "mi < 2 ^ 64" "ino < 2 ^ 64" "vpath vma \<noteq> None \<longrightarrow> 0 < blanks"
  shows "parse_vma (maps_line maj mi ino blanks vma) = (0, vma)"
proof -
  define p where "p = (case vpath vma of None \<Rightarrow> [] | Some p \<Rightarrow> p)"
  have p: "(blanks = 0 \<longrightarrow> p = []) \<and> (p = [] \<or> \<not> is_space (hd p))"
    and path: "(if p \<noteq> [] then Some p else None) = vpath vma"
    using assms(1,5) by (auto simp: p_def maps_area_def split: option.splits)
  note scan = sscanf_maps_line[OF assms(2-4) p p_def]
  have prot: "vprot vma < 8" and fl: "vflags vma = 1 \<or> vflags vma = 2"
    using assms(1) by (auto simp: maps_area_def vma_accessors)
  show ?thesis
    unfolding parse_vma_def scan
    using assms(1) fl path parse_prot[OF prot]
    by (auto simp: Let_def null_vma_def vma_accessors maps_area_def)
qed

text \<open>
  C26: Parsing a line that the kernel prints for a memory area gives back that area: its
  bounds, protection, flags, file offset and path. The line has the kernel's format, with the device
  numbers in at least two digits (\<open>08:02\<close>, and \<open>00:00\<close> for an anonymous area); the
  area may have any of the protection bits for reading, writing and executing, is shared or private, and
  has no path or one that does not begin with a blank.
\<close>

theorem parse_vma_maps_line:
  assumes "maps_area vma" "maj < 2 ^ 64" "mi < 2 ^ 64" "ino < 2 ^ 64" "vpath vma \<noteq> None \<longrightarrow> 0 < blanks"
  shows "parse_vma (maps_line maj mi ino blanks vma) = (0, vma)"
  using assms by (rule parse_maps_line)

definition libc_text :: vma_area where
  "libc_text = \<lparr>vaddr = 0x7f0000001000, vlen = 0x2000, vflags = MAP_PRIVATE, vprot = 5, voffset = 0x1000,
     vpath = Some ''/lib/libc.so'', vmap_file = None, vdlm = None\<rparr>"

definition anon_area :: vma_area where
  "anon_area = \<lparr>vaddr = 0x1c5a000, vlen = 0x21000, vflags = MAP_PRIVATE, vprot = 3, voffset = 0,
     vpath = None, vmap_file = None, vdlm = None\<rparr>"

lemma kernel_lines:
  "maps_line 8 2 1234 5 libc_text = ''7f0000001000-7f0000003000 r-xp 00001000 08:02 1234     /lib/libc.so''"
  "maps_line 0 0 0 1 anon_area = ''01c5a000-01c7b000 rw-p 00000000 00:00 0 ''"
  by (simp_all add: maps_line_def hex_pad_def hex_string.simps dec_string.simps hexd_def perm_char_def libc_text_def anon_area_def vma_accessors replicate_numeral_eq)

theorem parse_vma_maps_line_witness:
  "parse_vma ''7f0000001000-7f0000003000 r-xp 00001000 08:02 1234     /lib/libc.so'' = (0, libc_text)
   \<and> parse_vma ''01c5a000-01c7b000 rw-p 00000000 00:00 0 '' = (0, anon_area)"
proof
  show "parse_vma ''7f0000001000-7f0000003000 r-xp 00001000 08:02 1234     /lib/libc.so'' = (0, libc_text)"
    unfolding kernel_lines(1)[symmetric]
    by (rule parse_vma_maps_line) (simp_all add: maps_area_def libc_text_def vma_accessors is_space_def)
  show "parse_vma ''01c5a000-01c7b000 rw-p 00000000 00:00 0 '' = (0, anon_area)"
    unfolding kernel_lines(2)[symmetric]
    by (rule parse_vma_maps_line) (simp_all add: maps_area_def anon_area_def vma_accessors)
qed

lemma iter_collect_total:
  "\<exists>ret s' head'. iter_map_lines (collect_one_vma x pid) ret0 bufs (s, head) = Some (ret, s', head')"
proof (induction bufs arbitrary: s head ret0)
  case Nil
  then show ?case by simp
next
  case (Cons buf bufs)
  obtain r tmp where pv: "parse_vma (butlast buf) = (r, tmp)" by fastforce
  obtain e p t where cr: "create_vma x pid tmp s = ((e, p), t)" by (metis prod.exhaust)
  obtain zs where ins: "add_vma_sorted (vma_of t) head p = Some (0, zs)"
    using add_vma_sorted_total by blast
  have "\<exists>e s1 h1. collect_one_vma x pid tmp (s, head) = Some (e, s1, h1)"
    using cr ins by (cases "e = 0") (auto simp: collect_one_vma_def collect_vma_def)
  then obtain e s1 h1 where "collect_one_vma x pid tmp (s, head) = Some (e, s1, h1)" by blast
  then show ?case using pv Cons.IH[of e s1 h1] by (cases "r = 0"; cases "e = 0") auto
qed

text \<open>
  C24: Collecting the memory map of a process always returns. Whatever happens on the
  way, the list of areas is ordered by start address and free of duplicates; when the
  result is 0, the list holds exactly the areas of the lines that were read.
\<close>

theorem collect_vmas_sorted:
  assumes "x_maps x pid (world s) = (Some bufs, w)"
  shows "\<exists>ret s' head. collect_vmas x pid (s, []) = Some (ret, s', head) \<and> vmas_ok (s', head)
    \<and> (ret = 0 \<longrightarrow> mset (map (\<lambda>p. parsed_part (vma_of s' p)) head)
          = mset (map (\<lambda>buf. parsed_part (snd (parse_vma (butlast buf)))) bufs))"
proof -
  obtain ret s' head where it: "iter_map_lines (collect_one_vma x pid) (-1) bufs (s\<lparr>world := w\<rparr>, [])
      = Some (ret, s', head)"
    using iter_collect_total by blast
  from assms it have "collect_vmas x pid (s, []) = Some (ret, s', head)"
    by (simp add: collect_vmas_def iter_map_files_def ext_call_def)
  with iter_collect_spec[OF it] show ?thesis by (simp add: vmas_ok_def)
qed

definition sim_line :: "u64 \<Rightarrow> string" where
  "sim_line a = maps_line 8 2 1234 5 (libc_text\<lparr>vaddr := a\<rparr>) @ [CHR 0x0A]"

lemma parse_sim_line: "parse_vma (butlast (sim_line a)) = (0, libc_text\<lparr>vaddr := a\<rparr>)"
  unfolding sim_line_def butlast_snoc
  by (rule parse_maps_line) (simp_all add: maps_area_def libc_text_def vma_accessors is_space_def)

lemmas collect_eval = collect_vmas_def iter_map_files_def ext_call_def collect_one_vma_def
  collect_vma_def create_vma_def xmalloc_def add_vma_sorted_def last_vma_def iterate_vmas_def add_vma_def
  insert_before_def parse_sim_line libc_text_def vma_accessors

theorem collect_vmas_sorted_witness:
  "(let s = sim_state\<lparr>world := sim_world\<lparr>sim_maps := [sim_line 0x7000, sim_line 0x1000]\<rparr>\<rparr>
    in map_option (\<lambda>(ret, s', head). (ret, map (\<lambda>p. vaddr (vma_of s' p)) head)) (collect_vmas sim_ext 10 (s, []))
         = Some (0, [0x1000, 0x7000])
       \<and> (\<exists>ret s' head. collect_vmas sim_ext 10 (s, []) = Some (ret, s', head) \<and> vmas_ok (s', head)
            \<and> (ret = 0 \<longrightarrow> mset (map (\<lambda>p. parsed_part (vma_of s' p)) head)
                 = mset (map (\<lambda>buf. parsed_part (snd (parse_vma (butlast buf)))) [sim_line 0x7000, sim_line 0x1000]))))"
  unfolding Let_def
proof
  let ?s = "sim_state\<lparr>world := sim_world\<lparr>sim_maps := [sim_line 0x7000, sim_line 0x1000]\<rparr>\<rparr>"
  show "map_option (\<lambda>(ret, s', head). (ret, map (\<lambda>p. vaddr (vma_of s' p)) head)) (collect_vmas sim_ext 10 (?s, []))
      = Some (0, [0x1000, 0x7000])"
    by (simp add: collect_eval)
qed (rule collect_vmas_sorted, simp)

text \<open>
  Moving the areas of one list to another, ordered list always succeeds, empties the
  first list, and leaves the second ordered and holding the areas of both.
\<close>

lemma splice_vma_lists_sorted_correct:
  assumes "sorted (map (\<lambda>p. vma_start (vm p)) to)"
  shows "\<exists>zs. splice_vma_lists_sorted vm from to = Some (0, [], zs)
    \<and> sorted (map (\<lambda>p. vma_start (vm p)) zs) \<and> mset zs = mset to + mset from"
  using vma_list.ins_all_sorted[OF assms, of "from"] by (auto simp: splice_eq_ins_all)

lemma splice_vma_lists_sorted_correct_witness:
  "(let vm = (\<lambda>p. sim_vma\<lparr>vaddr := [40, 20, 10, 30] ! p\<rparr>)
    in splice_vma_lists_sorted vm [0, 3] [2, 1] = Some (0, [], [2, 1, 3, 0])
       \<and> (\<exists>zs. splice_vma_lists_sorted vm [0, 3] [2, 1] = Some (0, [], zs)
            \<and> sorted (map (\<lambda>p. vma_start (vm p)) zs) \<and> mset zs = mset [2, 1] + mset [0, 3]))"
  unfolding Let_def
proof
  let ?vm = "\<lambda>p. sim_vma\<lparr>vaddr := [40, 20, 10, 30] ! p\<rparr>"
  show "splice_vma_lists_sorted ?vm [0, 3] [2, 1] = Some (0, [], [2, 1, 3, 0])"
    by (simp add: add_vma_sorted_def last_vma_def iterate_vmas_def add_vma_def insert_before_def vma_accessors)
qed (rule splice_vma_lists_sorted_correct, simp add: vma_accessors)

end
