(* ===== verification/Util.thy ===== *)
theory Util
  imports Nsb_Sim
begin

text \<open>
  The file helpers of \<open>patcher/util.c\<close>. A directory is what \<open>readdir_r\<close> returns: the names
  of its entries and the error code after the last one.
\<close>

abbreviation (input) S_IFMT :: u32 where "S_IFMT \<equiv> 0xf000"
abbreviation (input) S_IFREG :: u32 where "S_IFREG \<equiv> 0x8000"

definition read_file :: "'w ext \<Rightarrow> string \<Rightarrow> u64 \<Rightarrow> nat \<Rightarrow> 'w pst \<Rightarrow> (int \<times> byte list) \<times> 'w pst" where
  "read_file x path offset len s =
     (case sys_call (x_open x path) s of
        (None, s) \<Rightarrow> ((- errno s, []), s)
      | (Some fd, s) \<Rightarrow>
          let (seek, s) = (if offset \<noteq> 0 then sys_call (x_lseek x fd offset) s else (Some offset, s));
              (r, s) = (if seek \<noteq> Some offset then ((- errno s, []), s)
                        else (case sys_call (x_read x fd len) s of
                                (None, s) \<Rightarrow> ((- errno s, []), s)
                              | (Some buf, s) \<Rightarrow> ((int (length buf), buf), s)));
              (_, s) = ext_call (x_close x fd) s
          in (r, s))"

definition check_file_type :: "'w ext \<Rightarrow> string \<Rightarrow> u32 \<Rightarrow> 'w pst \<Rightarrow> int \<times> 'w pst" where
  "check_file_type x path type s =
     (case sys_call (x_stat x path) s of
        (None, s) \<Rightarrow> (- errno s, s)
      | (Some st_mode, s) \<Rightarrow> (if st_mode AND S_IFMT = type then 1 else 0, s))"

text \<open>The buffer \<open>dirent\<close> of the caller keeps the last entry that was read.\<close>

fun iter_dentries ::
    "(string \<Rightarrow> 's \<Rightarrow> (int \<times> 's) option) \<Rightarrow> string list \<Rightarrow> int \<Rightarrow> string \<Rightarrow> 's \<Rightarrow> (int \<times> string \<times> 's) option" where
  "iter_dentries actor [] fin dirent s = Some (fin, dirent, s)"
| "iter_dentries actor (dentry # dentries) fin dirent s =
     (if dentry = ''.'' \<or> dentry = ''..'' then iter_dentries actor dentries fin dentry s
      else do {
        (err, s) \<leftarrow> actor dentry s;
        if err \<noteq> 0 then Some (err, dentry, s) else iter_dentries actor dentries fin dentry s })"

definition iter_dentry ::
    "'w ext \<Rightarrow> string \<Rightarrow> (string \<Rightarrow> 'w pst \<Rightarrow> (int \<times> 'w pst) option) \<Rightarrow> string \<Rightarrow> 'w pst
      \<Rightarrow> (int \<times> string \<times> 'w pst) option" where
  "iter_dentry x dpath actor dirent s =
     (case sys_call (x_readdir x dpath) s of
        (None, s) \<Rightarrow> Some (- errno s, dirent, s)
      | (Some (dentries, fin), s) \<Rightarrow> iter_dentries actor dentries fin dirent s)"

definition iterate_dir_name ::
    "'w ext \<Rightarrow> string \<Rightarrow> (string \<Rightarrow> 'w pst \<Rightarrow> (int \<times> 'w pst) option) \<Rightarrow> 'w pst \<Rightarrow> (int \<times> 'w pst) option" where
  "iterate_dir_name x dpath actor s = do {
     (err, _, s) \<leftarrow> iter_dentry x dpath actor [] s;
     Some (err, s) }"

text \<open>
  The test \<open>if (!ret)\<close> stands under \<open>if (ret < 0)\<close> and is never true; it is kept as it is. The
  second component of the result is what is copied to \<open>dentry\<close>.
\<close>

definition find_dentry ::
    "'w ext \<Rightarrow> string \<Rightarrow> (string \<Rightarrow> 'w pst \<Rightarrow> (int \<times> 'w pst) option) \<Rightarrow> string \<Rightarrow> 'w pst
      \<Rightarrow> (int \<times> string \<times> 'w pst) option" where
  "find_dentry x dpath actor dentry s = do {
     (ret, dt, s) \<leftarrow> iter_dentry x dpath actor [] s;
     if ret < 0 then (if ret = 0 then Some (- ENOENT, dentry, s) else Some (ret, dentry, s))
     else Some (0, dt, s) }"

section \<open>Iterating over a directory\<close>

lemma iter_dentries_iterate:
  "map_option (\<lambda>(err, _, s). (err, s)) (iter_dentries actor ds 0 d s)
    = iterate actor (filter (\<lambda>d. d \<noteq> ''.'' \<and> d \<noteq> ''..'') ds) s"
proof (induction ds arbitrary: d s)
  case Nil
  show ?case by simp
next
  case (Cons a ds)
  show ?case
  proof (cases "a = ''.'' \<or> a = ''..''")
    case True
    with Cons show ?thesis by auto
  next
    case False
    show ?thesis
    proof (cases "actor a s")
      case None
      with False show ?thesis by simp
    next
      case (Some r)
      with False Cons show ?thesis by (cases r) simp
    qed
  qed
qed

text \<open>The directory iterator is the loop of the other iterators, over all names but the two dots.\<close>

lemma iterate_dir_name_eq:
  assumes "x_readdir x dpath (world s) = (Inr (ds, 0), w)"
  shows "iterate_dir_name x dpath actor s
    = iterate actor (filter (\<lambda>d. d \<noteq> ''.'' \<and> d \<noteq> ''..'') ds) (s\<lparr>world := w\<rparr>)"
proof -
  have "iterate_dir_name x dpath actor s
      = map_option (\<lambda>(err, _, s). (err, s)) (iter_dentries actor ds 0 [] (s\<lparr>world := w\<rparr>))"
    using assms by (simp add: iterate_dir_name_def iter_dentry_def sys_call_def ext_call_def
        map_conv_bind_option case_prod_unfold comp_def)
  then show ?thesis by (simp only: iter_dentries_iterate)
qed

lemma iter_dentries_invariant:
  assumes "iter_dentries actor ds fin d s = Some (err, d', t)" "I s"
    and step: "\<And>d s e t. I s \<Longrightarrow> actor d s = Some (e, t) \<Longrightarrow> I t"
  shows "I t"
  using assms(1,2)
proof (induction ds arbitrary: d s)
  case Nil
  then show ?case by simp
next
  case (Cons a ds)
  show ?case
  proof (cases "a = ''.'' \<or> a = ''..''")
    case True
    then show ?thesis using Cons.prems Cons.IH[of a s] by simp
  next
    case False
    then obtain e u where u: "actor a s = Some (e, u)"
      using Cons.prems(1) by (auto simp: bind_eq_Some_conv)
    have "I u" using step[OF Cons.prems(2) u] .
    then show ?thesis using Cons.prems(1) Cons.IH[of a u] False u by (auto split: if_splits)
  qed
qed

lemma iterate_dir_name_invariant:
  assumes it: "iterate_dir_name x dpath actor s = Some (err, t)" "I s"
    and step: "\<And>d s e t. I s \<Longrightarrow> actor d s = Some (e, t) \<Longrightarrow> I t"
    and ext: "\<And>s w. I s \<Longrightarrow> I (s\<lparr>world := w\<rparr>)"
    and ext_errno: "\<And>s w e. I s \<Longrightarrow> I (s\<lparr>world := w, errno := e\<rparr>)"
  shows "I t"
proof (cases "x_readdir x dpath (world s)")
  case (Pair r w)
  show ?thesis
  proof (cases r)
    case (Inl e)
    then show ?thesis using it Pair ext_errno[OF it(2)] ext[OF it(2)]
      by (auto simp: iterate_dir_name_def iter_dentry_def sys_call_def ext_call_def)
  next
    case (Inr p)
    then obtain d' where "iter_dentries actor (fst p) (snd p) [] (s\<lparr>world := w\<rparr>) = Some (err, d', t)"
      using it(1) Pair
      by (cases p) (auto simp: iterate_dir_name_def iter_dentry_def sys_call_def ext_call_def
          bind_eq_Some_conv)
    then show ?thesis by (rule iter_dentries_invariant[where I = I, OF _ ext[OF it(2)] step])
  qed
qed

lemma iter_dentries_no_match:
  assumes "\<And>d s. d \<in> set ds \<Longrightarrow> actor d s = Some (0, s)"
  shows "iter_dentries actor ds 0 d0 s = Some (0, if ds = [] then d0 else last ds, s)"
  using assms by (induction ds arbitrary: d0) auto

text \<open>
  When no entry of a directory satisfies the search, \<open>find_dentry\<close> still reports
  success and hands out the last name it read, instead of \<open>-ENOENT\<close>.
\<close>

lemma find_dentry_no_match:
  assumes "x_readdir x dpath (world s) = (Inr (ds, 0), w)" "ds \<noteq> []"
    and "\<forall>d \<in> set ds. \<forall>t. actor d t = Some (0, t)"
  shows "find_dentry x dpath actor dentry s = Some (0, last ds, s\<lparr>world := w\<rparr>)"
  using assms iter_dentries_no_match[of ds actor]
  by (simp add: find_dentry_def iter_dentry_def sys_call_def ext_call_def)

lemma find_dentry_no_match_witness:
  "(let s = sim_state\<lparr>world := sim_world\<lparr>sim_tasks := [''1000-2000'', ''2000-3000'']\<rparr>\<rparr>
    in find_dentry sim_ext ''/proc/10/map_files'' (\<lambda>d s. Some (0, s)) [] s = Some (0, ''2000-3000'', s))"
  unfolding Let_def
  by (subst find_dentry_no_match[of _ _ _ "[''1000-2000'', ''2000-3000'']"
        "sim_world\<lparr>sim_tasks := [''1000-2000'', ''2000-3000'']\<rparr>"]) simp_all

end
