(* ===== verification/Protobuf.thy ===== *)
theory Protobuf
  imports Nsb_Sim
begin

text \<open>
  The patch description, \<open>patcher/protobuf.c\<close>: the message that protobuf-c unpacks (its
  wire format is code of that library, the parameter \<open>x_unpack\<close>) is copied into a
  \<open>patch_info_s\<close>, one allocation per object.
\<close>

fun create_each :: "('a \<Rightarrow> 's \<Rightarrow> 'b option \<times> 's) \<Rightarrow> 'a list \<Rightarrow> 's \<Rightarrow> 'b list option \<times> 's" where
  "create_each create [] s = (Some [], s)"
| "create_each create (a # as) s =
     (case create a s of
        (None, s) \<Rightarrow> (None, s)
      | (Some b, s) \<Rightarrow> (case create_each create as s of
                          (None, s) \<Rightarrow> (None, s)
                        | (Some bs, s) \<Rightarrow> (Some (b # bs), s)))"

definition create_funcjump :: "'w ext \<Rightarrow> FuncJump \<Rightarrow> 'w pst \<Rightarrow> func_jump_s option \<times> 'w pst" where
  "create_funcjump x fj s =
     (case xmalloc x s of
        (None, s) \<Rightarrow> (None, s)
      | (Some _, s) \<Rightarrow>
          (case xmalloc x s of
             (None, s) \<Rightarrow> (None, s)
           | (Some _, s) \<Rightarrow>
               (Some \<lparr>fj_name = pb_name fj, func_value = pb_func_value fj, func_size = pb_func_size fj,
                      patch_value = ucast (pb_patch_value fj), shndx = pb_shndx fj, func_addr = 0,
                      code = replicate 8 0, func_jump = replicate 8 0\<rparr>, s)))"

definition set_patch_func_jumps ::
    "'w ext \<Rightarrow> patch_info_s \<Rightarrow> BinPatch \<Rightarrow> 'w pst \<Rightarrow> (int \<times> patch_info_s) \<times> 'w pst" where
  "set_patch_func_jumps x patch_info bp s =
     (case xmalloc x s of
        (None, s) \<Rightarrow> ((- ENOMEM, patch_info), s)
      | (Some _, s) \<Rightarrow>
          (case create_each (create_funcjump x) (pb_func_jumps bp) s of
             (None, s) \<Rightarrow> ((- ENOMEM, patch_info), s)
           | (Some fjs, s) \<Rightarrow> ((0, patch_info\<lparr>func_jumps := fjs\<rparr>), s)))"

definition create_manual_sym :: "'w ext \<Rightarrow> MarkedSym \<Rightarrow> 'w pst \<Rightarrow> marked_sym_s option \<times> 'w pst" where
  "create_manual_sym x ms s =
     (case xmalloc x s of
        (None, s) \<Rightarrow> (None, s)
      | (Some _, s) \<Rightarrow> (Some \<lparr>ms_idx = pb_idx ms, ms_addr = pb_addr ms\<rparr>, s))"

definition set_patch_manual_syms ::
    "'w ext \<Rightarrow> patch_info_s \<Rightarrow> BinPatch \<Rightarrow> 'w pst \<Rightarrow> (int \<times> patch_info_s) \<times> 'w pst" where
  "set_patch_manual_syms x patch_info bp s =
     (case xmalloc x s of
        (None, s) \<Rightarrow> ((- ENOMEM, patch_info), s)
      | (Some _, s) \<Rightarrow>
          (case create_each (create_manual_sym x) (manual_symbols bp) s of
             (None, s) \<Rightarrow> ((- ENOMEM, patch_info), s)
           | (Some ms, s) \<Rightarrow> ((0, patch_info\<lparr>manual_syms := ms\<rparr>), s)))"

definition create_global_sym :: "'w ext \<Rightarrow> MarkedSym \<Rightarrow> 'w pst \<Rightarrow> marked_sym_s option \<times> 'w pst" where
  "create_global_sym x ms s =
     (case xmalloc x s of
        (None, s) \<Rightarrow> (None, s)
      | (Some _, s) \<Rightarrow> (Some \<lparr>ms_idx = pb_idx ms, ms_addr = pb_addr ms\<rparr>, s))"

definition set_patch_global_syms ::
    "'w ext \<Rightarrow> patch_info_s \<Rightarrow> BinPatch \<Rightarrow> 'w pst \<Rightarrow> (int \<times> patch_info_s) \<times> 'w pst" where
  "set_patch_global_syms x patch_info bp s =
     (case xmalloc x s of
        (None, s) \<Rightarrow> ((- ENOMEM, patch_info), s)
      | (Some _, s) \<Rightarrow>
          (case create_each (create_global_sym x) (global_symbols bp) s of
             (None, s) \<Rightarrow> ((- ENOMEM, patch_info), s)
           | (Some gs, s) \<Rightarrow> ((0, patch_info\<lparr>global_syms := gs\<rparr>), s)))"

definition create_static_sym :: "'w ext \<Rightarrow> StaticSym \<Rightarrow> 'w pst \<Rightarrow> static_sym_s option \<times> 'w pst" where
  "create_static_sym x ss s =
     (case xmalloc x s of
        (None, s) \<Rightarrow> (None, s)
      | (Some _, s) \<Rightarrow> (Some \<lparr>patch_size = pb_patch_size ss, patch_address = pb_patch_address ss,
                             target_value = pb_target_value ss\<rparr>, s))"

definition set_patch_static_syms ::
    "'w ext \<Rightarrow> patch_info_s \<Rightarrow> BinPatch \<Rightarrow> 'w pst \<Rightarrow> (int \<times> patch_info_s) \<times> 'w pst" where
  "set_patch_static_syms x patch_info bp s =
     (case xmalloc x s of
        (None, s) \<Rightarrow> ((- ENOMEM, patch_info), s)
      | (Some _, s) \<Rightarrow>
          (case create_each (create_static_sym x) (static_symbols bp) s of
             (None, s) \<Rightarrow> ((- ENOMEM, patch_info), s)
           | (Some ss, s) \<Rightarrow> ((0, patch_info\<lparr>static_syms := ss\<rparr>), s)))"

text \<open>
  On an error the strings are freed; the record keeps the stale pointers, and nothing reads
  them since every caller drops the patch.
\<close>

definition unpack_protobuf_binpatch ::
    "'w ext \<Rightarrow> patch_info_s \<Rightarrow> byte list \<Rightarrow> 'w pst \<Rightarrow> (int \<times> patch_info_s) \<times> 'w pst" where
  "unpack_protobuf_binpatch x patch_info data s =
     (case x_unpack x data of
        None \<Rightarrow> ((- ENOMEM, patch_info), s)
      | Some bp \<Rightarrow>
        (case xmalloc x s of
           (None, s) \<Rightarrow> ((- ENOMEM, patch_info), s)
         | (Some _, s) \<Rightarrow>
           let patch_info = patch_info\<lparr>target_bid := old_bid bp\<rparr> in
           (case xmalloc x s of
              (None, s) \<Rightarrow> ((- ENOMEM, patch_info), s)
            | (Some _, s) \<Rightarrow>
              let patch_info = patch_info\<lparr>patch_bid := new_bid bp\<rparr>;
                  ((e1, patch_info), s) = set_patch_func_jumps x patch_info bp s
              in if e1 \<noteq> 0 then ((- ENOMEM, patch_info), s) else
              let ((e2, patch_info), s) = set_patch_manual_syms x patch_info bp s
              in if e2 \<noteq> 0 then ((- ENOMEM, patch_info), s) else
              let ((e3, patch_info), s) = set_patch_global_syms x patch_info bp s
              in if e3 \<noteq> 0 then ((- ENOMEM, patch_info), s) else
              let ((e4, patch_info), s) = set_patch_static_syms x patch_info bp s
              in if e4 \<noteq> 0 then ((- ENOMEM, patch_info), s) else ((0, patch_info), s))))"

section \<open>What is unpacked\<close>

text \<open>The description a message stands for.\<close>

definition funcjump_of :: "FuncJump \<Rightarrow> func_jump_s" where
  "funcjump_of fj = \<lparr>fj_name = pb_name fj, func_value = pb_func_value fj, func_size = pb_func_size fj,
     patch_value = ucast (pb_patch_value fj), shndx = pb_shndx fj, func_addr = 0,
     code = replicate 8 0, func_jump = replicate 8 0\<rparr>"

definition marked_sym_of :: "MarkedSym \<Rightarrow> marked_sym_s" where
  "marked_sym_of ms = \<lparr>ms_idx = pb_idx ms, ms_addr = pb_addr ms\<rparr>"

definition static_sym_of :: "StaticSym \<Rightarrow> static_sym_s" where
  "static_sym_of ss = \<lparr>patch_size = pb_patch_size ss, patch_address = pb_patch_address ss,
     target_value = pb_target_value ss\<rparr>"

definition patch_info_of :: "BinPatch \<Rightarrow> patch_info_s" where
  "patch_info_of bp = \<lparr>target_bid = old_bid bp, patch_bid = new_bid bp,
     func_jumps = map funcjump_of (pb_func_jumps bp), manual_syms = map marked_sym_of (manual_symbols bp),
     global_syms = map marked_sym_of (global_symbols bp), static_syms = map static_sym_of (static_symbols bp)\<rparr>"

text \<open>An allocator that has memory.\<close>

definition never_oom :: "'w ext \<Rightarrow> bool" where
  "never_oom x \<longleftrightarrow> (\<forall>w. fst (x_malloc x w))"

lemma never_oom_xmalloc: "never_oom x \<Longrightarrow> \<exists>p t. xmalloc x s = (Some p, t)"
  by (auto simp: never_oom_def xmalloc_def ext_call_def split: prod.splits) (metis fst_conv)

definition creates :: "'w ext \<Rightarrow> ('a \<Rightarrow> 'w pst \<Rightarrow> 'b option \<times> 'w pst) \<Rightarrow> ('a \<Rightarrow> 'b) \<Rightarrow> bool" where
  "creates x create f \<longleftrightarrow> (\<forall>a s r t. create a s = (r, t) \<longrightarrow>
     (r = None \<longrightarrow> \<not> never_oom x) \<and> (\<forall>b. r = Some b \<longrightarrow> b = f a))"

lemma creates_each: "creates x create f \<Longrightarrow> creates x (create_each create) (map f)"
  unfolding creates_def
proof (intro allI impI)
  fix as s r t
  assume c: "\<forall>a s r t. create a s = (r, t) \<longrightarrow> (r = None \<longrightarrow> \<not> never_oom x) \<and> (\<forall>b. r = Some b \<longrightarrow> b = f a)"
  show "create_each create as s = (r, t) \<Longrightarrow> (r = None \<longrightarrow> \<not> never_oom x) \<and> (\<forall>b. r = Some b \<longrightarrow> b = map f as)"
  proof (induction as arbitrary: s r t)
    case Nil
    then show ?case by auto
  next
    case (Cons a as)
    obtain r1 t1 where 1: "create a s = (r1, t1)" by fastforce
    obtain r2 t2 where 2: "create_each create as t1 = (r2, t2)" by fastforce
    from Cons.prems 1 2 Cons.IH[OF 2] c show ?case by (cases r1; cases r2) auto
  qed
qed

lemma xmalloc_None: "xmalloc x s = (None, t) \<Longrightarrow> \<not> never_oom x"
  using never_oom_xmalloc[of x s] by auto

lemma creators:
  "creates x (create_funcjump x) funcjump_of"
  "creates x (create_manual_sym x) marked_sym_of"
  "creates x (create_global_sym x) marked_sym_of"
  "creates x (create_static_sym x) static_sym_of"
  by (auto simp: creates_def create_funcjump_def create_manual_sym_def create_global_sym_def
      create_static_sym_def funcjump_of_def marked_sym_of_def static_sym_of_def
      split: prod.splits option.splits dest: xmalloc_None)

lemmas creates_all = creators[THEN creates_each]

lemma createsD:
  assumes "creates x create f" "create a s = (r, t)"
  shows "(r = None \<longrightarrow> \<not> never_oom x) \<and> (\<forall>b. r = Some b \<longrightarrow> b = f a)"
  using assms unfolding creates_def by blast

lemma set_patch_lists:
  "set_patch_func_jumps x p bp s = ((e, p'), t) \<Longrightarrow>
     if e = 0 then p' = p\<lparr>func_jumps := map funcjump_of (pb_func_jumps bp)\<rparr> else e = - ENOMEM \<and> \<not> never_oom x"
  "set_patch_manual_syms x p bp s = ((e, p'), t) \<Longrightarrow>
     if e = 0 then p' = p\<lparr>manual_syms := map marked_sym_of (manual_symbols bp)\<rparr> else e = - ENOMEM \<and> \<not> never_oom x"
  "set_patch_global_syms x p bp s = ((e, p'), t) \<Longrightarrow>
     if e = 0 then p' = p\<lparr>global_syms := map marked_sym_of (global_symbols bp)\<rparr> else e = - ENOMEM \<and> \<not> never_oom x"
  "set_patch_static_syms x p bp s = ((e, p'), t) \<Longrightarrow>
     if e = 0 then p' = p\<lparr>static_syms := map static_sym_of (static_symbols bp)\<rparr> else e = - ENOMEM \<and> \<not> never_oom x"
  unfolding set_patch_func_jumps_def set_patch_manual_syms_def set_patch_global_syms_def set_patch_static_syms_def
  by (auto split: prod.splits option.splits
      dest: xmalloc_None createsD[OF creates_all(1)] createsD[OF creates_all(2)]
        createsD[OF creates_all(3)] createsD[OF creates_all(4)])

text \<open>
  C30: Unpacking a patch description that protobuf-c accepts copies it faithfully: every
  jump, manual, global and static symbol arrives in order with its values, and the only
  other outcome is running out of memory.
\<close>

theorem unpack_protobuf_binpatch_correct:
  assumes "x_unpack x data = Some bp" "unpack_protobuf_binpatch x pinfo data s = ((ret, pinfo'), s')"
  shows "(ret = 0 \<and> pinfo' = patch_info_of bp) \<or> (ret = - ENOMEM \<and> \<not> never_oom x)"
  using assms
  by (auto simp: unpack_protobuf_binpatch_def Let_def patch_info_of_def
      split: prod.splits option.splits if_splits dest!: xmalloc_None set_patch_lists)

definition sim_bp :: BinPatch where
  "sim_bp = \<lparr>old_bid = ''aa'', new_bid = ''bb'',
     pb_func_jumps = [\<lparr>pb_name = ''f'', pb_func_value = 0x40, pb_func_size = 16, pb_patch_value = 0x80, pb_shndx = 5\<rparr>],
     manual_symbols = [\<lparr>pb_idx = 1, pb_addr = 0x200\<rparr>],
     static_symbols = [\<lparr>pb_patch_size = 4, pb_patch_address = 0x90, pb_target_value = 0x300\<rparr>], global_symbols = []\<rparr>"

theorem unpack_protobuf_binpatch_correct_witness:
  "(let x = sim_ext\<lparr>x_unpack := (\<lambda>bs. Some sim_bp)\<rparr>
    in never_oom x \<and> fst (unpack_protobuf_binpatch x sim_pi [1, 2] sim_state) = (0, patch_info_of sim_bp))"
proof -
  let ?x = "sim_ext\<lparr>x_unpack := (\<lambda>bs. Some sim_bp)\<rparr>"
  have n: "never_oom ?x" by (simp add: never_oom_def)
  obtain ret p' s' where u: "unpack_protobuf_binpatch ?x sim_pi [1, 2] sim_state = ((ret, p'), s')"
    by (metis prod.exhaust)
  from unpack_protobuf_binpatch_correct[OF _ u, of sim_bp] n u show ?thesis by simp
qed

end
