(* ===== verification/Elf.thy ===== *)
theory Elf
  imports Util Protobuf
begin

text \<open>
  ELF files, \<open>patcher/elf.c\<close>: opening a file and collecting its SONAME, needed libraries and
  Build ID, looking up sections and dynamic symbols (with the section caches of
  \<open>elf_info_s\<close>), collecting the relocations of a patch and computing their values. Loading
  an ELF into the process (\<open>load_elf\<close>) is in \<open>Elf_Load\<close>, since it uses the process
  primitives. A section is named by its index; a data descriptor by the index of its
  section.
\<close>

section \<open>Names of constants\<close>

definition symbol_bindings :: "string list" where
  "symbol_bindings = [''LOCAL'', ''GLOBAL'', ''WEAK'']"

definition symbol_types :: "string list" where
  "symbol_types = [''NOTYPE'', ''OBJECT'', ''FUNC'', ''SECTION'', ''FILE'', ''COMMON'', ''TLS'']"

definition relocation_types :: "string list" where
  "relocation_types = map (\<lambda>n. ''R_X86_64_'' @ n)
     [''NONE'', ''64'', ''PC32'', ''GOT32'', ''PLT32'', ''COPY'', ''GLOB_DAT'', ''JUMP_SLOT'', ''RELATIVE'',
      ''GOTPCREL'', ''32'', ''32S'', ''16'', ''PC16'', ''8'', ''PC8'', ''DTPMOD64'', ''DTPOFF64'', ''TPOFF64'',
      ''TLSGD'', ''TLSLD'', ''DTPOFF32'', ''GOTTPOFF'', ''TPOFF32'', ''PC64'', ''GOTOFF64'', ''GOTPC32'',
      ''GOT64'', ''GOTPCREL64'', ''GOTPC64'', ''GOTPLT64'', ''PLTOFF64'', ''SIZE32'', ''SIZE64'',
      ''GOTPC32_TLSDESC'', ''TLSDESC_CALL'', ''TLSDESC'', ''IRELATIVE'', ''RELATIVE64'']"

definition segment_types :: "string list" where
  "segment_types = [''PT_NULL'', ''PT_LOAD'', ''PT_DYNAMIC'', ''PT_INTERP'', ''PT_NOTE'', ''PT_SHLIB'',
     ''PT_PHDR'', ''PT_TLS'']"

text \<open>The length of \<open>relocation_types\<close>: \<open>R_X86_64_NUM\<close> of the \<open>elf.h\<close> the tables were written for.\<close>

definition R_X86_64_NUM :: nat where "R_X86_64_NUM = 39"
definition STB_NUM :: nat where "STB_NUM = 3"
definition STT_NUM :: nat where "STT_NUM = 7"

text \<open>\<open>None\<close> is an access outside the array, \<open>Some None\<close> the null pointer.\<close>

definition segment_type :: "int \<Rightarrow> string option option" where
  "segment_type type =
     (if type < int R_X86_64_NUM then
        (if 0 \<le> type \<and> nat type < length segment_types then Some (Some (segment_types ! nat type)) else None)
      else Some None)"

section \<open>Opening a file\<close>

abbreviation (input) ET_DYN :: u16 where "ET_DYN \<equiv> 3"
abbreviation (input) ELF_K_ELF :: nat where "ELF_K_ELF \<equiv> 3"

definition elf_info_fd :: "elf_info_s \<Rightarrow> int" where "elf_info_fd ei = ei_fd ei"
definition elf_path :: "elf_info_s \<Rightarrow> string" where "elf_path ei = ei_path ei"
definition elf_bid :: "elf_info_s \<Rightarrow> string option" where "elf_bid ei = ei_bid ei"
definition elf_get_soname :: "elf_info_s \<Rightarrow> string option" where "elf_get_soname ei = ei_soname ei"
definition elf_needed_list :: "elf_info_s \<Rightarrow> string list" where "elf_needed_list ei = ei_needed ei"
definition elf_type_dyn :: "elf_info_s \<Rightarrow> bool" where "elf_type_dyn ei \<longleftrightarrow> ei_type ei = ET_DYN"

definition elf_soname_needed :: "elf_info_s \<Rightarrow> string \<Rightarrow> bool" where
  "elf_soname_needed ei soname \<longleftrightarrow> list_ex (\<lambda>n. n = soname) (ei_needed ei)"

definition elf_library_status :: "'w ext \<Rightarrow> int" where
  "elf_library_status x = (if x_elf_version x then 0 else - EFAULT)"

definition elf_fd :: "'w ext \<Rightarrow> int \<Rightarrow> 'w pst \<Rightarrow> Elf option \<times> 'w pst" where
  "elf_fd x fd s =
     (case ext_call (x_elf_begin x fd) s of
        (None, s) \<Rightarrow> (None, s)
      | (Some e, s) \<Rightarrow> (if elf_kind e \<noteq> ELF_K_ELF then None else Some e, s))"

definition elf_open :: "'w ext \<Rightarrow> string \<Rightarrow> 'w pst \<Rightarrow> (int \<times> (Elf \<times> int) option) \<times> 'w pst" where
  "elf_open x path s =
     (case sys_call (x_open x path) s of
        (None, s) \<Rightarrow> ((- errno s, None), s)
      | (Some fd, s) \<Rightarrow>
          (case elf_fd x fd s of
             (None, s) \<Rightarrow> (case ext_call (x_close x fd) s of (_, s) \<Rightarrow> ((- EINVAL, None), s))
           | (Some e, s) \<Rightarrow> ((0, Some (e, fd)), s)))"

definition elf_alloc_info :: "'w ext \<Rightarrow> Elf \<Rightarrow> string \<Rightarrow> int \<Rightarrow> 'w pst \<Rightarrow> ptr option \<times> 'w pst" where
  "elf_alloc_info x e path fd s =
     (case xmalloc x s of
        (None, s) \<Rightarrow> (None, s)
      | (Some ei, s) \<Rightarrow>
          (case xmalloc x s of
             (None, s) \<Rightarrow> (None, s)
           | (Some _, s) \<Rightarrow>
               (Some ei, upd_ei ei (\<lambda>_. \<lparr>ei_path = path, ei_elf = e, ei_fd = fd, ei_shstrndx = 0, ei_type = 0,
                  ei_strtab = None, ei_rela_plt = None, ei_rela_dyn = None, ei_dynamic = None,
                  ei_dynsym = None, ei_dynstr = None, ei_soname = None, ei_needed = [], ei_bid = None\<rparr>) s)))"

definition elf_destroy_info :: "'w ext \<Rightarrow> ptr \<Rightarrow> 'w pst \<Rightarrow> 'w pst" where
  "elf_destroy_info x ei s = (case ext_call (x_close x (ei_fd (ei_of s ei))) s of (_, s) \<Rightarrow> s)"

definition is_elf_file :: "'w ext \<Rightarrow> string \<Rightarrow> 'w pst \<Rightarrow> bool \<times> 'w pst" where
  "is_elf_file x path s =
     (case check_file_type x path S_IFREG s of
        (t, s) \<Rightarrow>
          if t = 0 then (False, s)
          else case elf_open x path s of
                 ((err, r), s) \<Rightarrow>
                   (case r of
                      Some (e, fd) \<Rightarrow> if err = 0 then (case ext_call (x_close x fd) s of (_, s) \<Rightarrow> (True, s)) else (False, s)
                    | None \<Rightarrow> (err = 0, s)))"

section \<open>Sections\<close>

definition get_section_name :: "elf_info_s \<Rightarrow> nat \<Rightarrow> string option" where
  "get_section_name ei scn =
     (case gelf_getshdr (ei_elf ei) scn of
        None \<Rightarrow> None
      | Some shdr \<Rightarrow> elf_strptr (ei_elf ei) (ei_shstrndx ei) (ucast (sh_name shdr)))"

fun find_section_in :: "(nat \<Rightarrow> int) \<Rightarrow> nat list \<Rightarrow> nat option" where
  "find_section_in compare [] = None"
| "find_section_in compare (scn # scns) =
     (let ret = compare scn in
      if ret < 0 then None else if ret \<noteq> 0 then Some scn else find_section_in compare scns)"

definition find_section :: "elf_info_s \<Rightarrow> (elf_info_s \<Rightarrow> nat \<Rightarrow> int) \<Rightarrow> nat option" where
  "find_section ei compare = find_section_in (compare ei) (elf_scns (ei_elf ei))"

definition scn_compare_name :: "string \<Rightarrow> elf_info_s \<Rightarrow> nat \<Rightarrow> int" where
  "scn_compare_name name ei scn =
     (case get_section_name ei scn of None \<Rightarrow> - EINVAL | Some sname \<Rightarrow> if sname = name then 1 else 0)"

definition elf_get_section_by_name :: "elf_info_s \<Rightarrow> string \<Rightarrow> nat option" where
  "elf_get_section_by_name ei name = find_section ei (scn_compare_name name)"

definition elf_has_section :: "elf_info_s \<Rightarrow> string \<Rightarrow> bool" where
  "elf_has_section ei name \<longleftrightarrow> elf_get_section_by_name ei name \<noteq> None"

definition get_section_addr :: "elf_info_s \<Rightarrow> nat \<Rightarrow> int" where
  "get_section_addr ei scn =
     (case gelf_getshdr (ei_elf ei) scn of None \<Rightarrow> - EINVAL | Some shdr \<Rightarrow> sint (sh_addr shdr))"

definition scn_compare_addr :: "int \<Rightarrow> elf_info_s \<Rightarrow> nat \<Rightarrow> int" where
  "scn_compare_addr addr ei scn =
     (let saddr = get_section_addr ei scn in
      if saddr < 0 then to_int saddr else if saddr = addr then 1 else 0)"

definition elf_get_section_by_addr :: "elf_info_s \<Rightarrow> u64 \<Rightarrow> nat option" where
  "elf_get_section_by_addr ei addr = find_section ei (scn_compare_addr (sint addr))"

definition elf_get_section_by_ndx :: "elf_info_s \<Rightarrow> u16 \<Rightarrow> nat option" where
  "elf_get_section_by_ndx ei ndx = (if elf_getscn (ei_elf ei) (unat ndx) then Some (unat ndx) else None)"

text \<open>A zero entry size divides by zero.\<close>

definition sect_nr_ent :: "elf_info_s \<Rightarrow> nat \<Rightarrow> int option" where
  "sect_nr_ent ei scn =
     (case gelf_getshdr (ei_elf ei) scn of
        None \<Rightarrow> Some (int (elf_errno (ei_elf ei)))
      | Some shdr \<Rightarrow> if sh_entsize shdr = 0 then None else Some (to_int (uint (sh_size shdr div sh_entsize shdr))))"

definition elf_create_scn ::
    "'w ext \<Rightarrow> elf_info_s \<Rightarrow> string \<Rightarrow> 'w pst \<Rightarrow> ((int \<times> elf_scn_t option) \<times> 'w pst) option" where
  "elf_create_scn x ei sname s =
     (case elf_get_section_by_name ei sname of
        None \<Rightarrow> Some ((- ENOENT, None), s)
      | Some scn \<Rightarrow>
          (case elf_getdata (ei_elf ei) scn of
             None \<Rightarrow> Some ((- ENODATA, None), s)
           | Some _ \<Rightarrow> do {
               n \<leftarrow> sect_nr_ent ei scn;
               if n < 0 then Some ((n, None), s)
               else case xmalloc x s of
                      (None, s) \<Rightarrow> Some ((- ENOMEM, None), s)
                    | (Some _, s) \<Rightarrow> Some ((0, Some \<lparr>scn_ndx = scn, nr_ent = nat n\<rparr>), s) }))"

text \<open>
  The four cached sections share one shape: create the section when the cache is empty,
  return null on an error.
\<close>

definition elf_set_scn ::
    "(elf_info_s \<Rightarrow> elf_scn_t option) \<Rightarrow> (elf_scn_t option \<Rightarrow> elf_info_s \<Rightarrow> elf_info_s) \<Rightarrow> string
      \<Rightarrow> 'w ext \<Rightarrow> ptr \<Rightarrow> 'w pst \<Rightarrow> (elf_scn_t option \<times> 'w pst) option" where
  "elf_set_scn get put sname x ei s =
     (if get (ei_of s ei) = None then do {
        ((err, escn), s) \<leftarrow> elf_create_scn x (ei_of s ei) sname s;
        if err \<noteq> 0 then Some (None, s) else Some (escn, upd_ei ei (put escn) s) }
      else Some (get (ei_of s ei), s))"

definition elf_set_dynamic_scn :: "'w ext \<Rightarrow> ptr \<Rightarrow> 'w pst \<Rightarrow> (elf_scn_t option \<times> 'w pst) option" where
  "elf_set_dynamic_scn = elf_set_scn ei_dynamic (\<lambda>escn ei. ei\<lparr>ei_dynamic := escn\<rparr>) ''.dynamic''"

definition elf_set_dynsym_scn :: "'w ext \<Rightarrow> ptr \<Rightarrow> 'w pst \<Rightarrow> (elf_scn_t option \<times> 'w pst) option" where
  "elf_set_dynsym_scn = elf_set_scn ei_dynsym (\<lambda>escn ei. ei\<lparr>ei_dynsym := escn\<rparr>) ''.dynsym''"

definition elf_set_rela_plt_scn :: "'w ext \<Rightarrow> ptr \<Rightarrow> 'w pst \<Rightarrow> (elf_scn_t option \<times> 'w pst) option" where
  "elf_set_rela_plt_scn = elf_set_scn ei_rela_plt (\<lambda>escn ei. ei\<lparr>ei_rela_plt := escn\<rparr>) ''.rela.plt''"

definition elf_set_rela_dyn_scn :: "'w ext \<Rightarrow> ptr \<Rightarrow> 'w pst \<Rightarrow> (elf_scn_t option \<times> 'w pst) option" where
  "elf_set_rela_dyn_scn = elf_set_scn ei_rela_dyn (\<lambda>escn ei. ei\<lparr>ei_rela_dyn := escn\<rparr>) ''.rela.dyn''"

section \<open>The Build ID\<close>

definition hex_byte :: "byte \<Rightarrow> string" where
  "hex_byte b = [hexd (unat b div 16), hexd (unat b mod 16)]"

text \<open>\<open>None\<close>: the note lies outside the data of its section.\<close>

definition get_build_id :: "'w ext \<Rightarrow> elf_info_s \<Rightarrow> nat \<Rightarrow> 'w pst \<Rightarrow> (string option \<times> 'w pst) option" where
  "get_build_id x ei bid_scn s =
     (case elf_getdata (ei_elf ei) bid_scn of
        None \<Rightarrow> Some (None, s)
      | Some data \<Rightarrow>
          (case gelf_getnote (ei_elf ei) bid_scn of
             None \<Rightarrow> Some (None, s)
           | Some (n_descsz, doff) \<Rightarrow>
               (case xmalloc x s of
                  (None, s) \<Rightarrow> Some (None, s)
                | (Some _, s) \<Rightarrow>
                    if doff + n_descsz \<le> length data
                    then Some (Some (concat (map hex_byte (take n_descsz (drop doff data)))), s) else None)))"

definition elf_get_bid :: "'w ext \<Rightarrow> elf_info_s \<Rightarrow> 'w pst \<Rightarrow> (string option \<times> 'w pst) option" where
  "elf_get_bid x ei s =
     (case elf_get_section_by_name ei ''.note.gnu.build-id'' of
        None \<Rightarrow> Some (None, s)
      | Some bid_scn \<Rightarrow> get_build_id x ei bid_scn s)"

section \<open>The dynamic section\<close>

abbreviation (input) DT_NULL :: u64 where "DT_NULL \<equiv> 0"
abbreviation (input) DT_NEEDED :: u64 where "DT_NEEDED \<equiv> 1"
abbreviation (input) DT_STRTAB :: u64 where "DT_STRTAB \<equiv> 5"
abbreviation (input) DT_SYMTAB :: u64 where "DT_SYMTAB \<equiv> 6"
abbreviation (input) DT_SONAME :: u64 where "DT_SONAME \<equiv> 14"

definition find_soname :: "Elf_Dyn \<Rightarrow> int" where
  "find_soname d = (if d_tag d \<noteq> DT_SONAME then 0 else 1)"

definition find_strtab :: "Elf_Dyn \<Rightarrow> int" where
  "find_strtab d = (if d_tag d \<noteq> DT_STRTAB then 0 else 1)"

fun find_dyn_in :: "(nat \<Rightarrow> Elf_Dyn option) \<Rightarrow> (Elf_Dyn \<Rightarrow> int) \<Rightarrow> nat list \<Rightarrow> int \<times> Elf_Dyn option" where
  "find_dyn_in getdyn compare [] = (- ENOENT, None)"
| "find_dyn_in getdyn compare (i # is) =
     (case getdyn i of
        None \<Rightarrow> (- EINVAL, None)
      | Some dyn \<Rightarrow> let ret = compare dyn in if ret \<noteq> 0 then (ret, Some dyn) else find_dyn_in getdyn compare is)"

definition find_dyn ::
    "'w ext \<Rightarrow> ptr \<Rightarrow> (Elf_Dyn \<Rightarrow> int) \<Rightarrow> 'w pst \<Rightarrow> ((int \<times> Elf_Dyn option) \<times> 'w pst) option" where
  "find_dyn x ei compare s = do {
     (scn, s) \<leftarrow> elf_set_dynamic_scn x ei s;
     case scn of
       None \<Rightarrow> Some ((- ENOENT, None), s)
     | Some scn \<Rightarrow> Some (find_dyn_in (gelf_getdyn (ei_elf (ei_of s ei)) (scn_ndx scn)) compare [0..<nr_ent scn], s) }"

definition elf_get_strtab_scn :: "'w ext \<Rightarrow> ptr \<Rightarrow> 'w pst \<Rightarrow> (nat option \<times> 'w pst) option" where
  "elf_get_strtab_scn x ei s =
     (if ei_strtab (ei_of s ei) = None then do {
        ((err, dyn), s) \<leftarrow> find_dyn x ei find_strtab s;
        if err < 0 then Some (None, s)
        else do {
          dyn \<leftarrow> dyn;
          let scn = elf_get_section_by_addr (ei_of s ei) (d_val dyn) in
          Some (scn, upd_ei ei (\<lambda>i. i\<lparr>ei_strtab := scn\<rparr>) s) } }
      else Some (ei_strtab (ei_of s ei), s))"

text \<open>\<open>__elf_get_soname\<close>; \<open>*soname\<close> is the field of the same structure.\<close>

definition elf_do_get_soname :: "'w ext \<Rightarrow> ptr \<Rightarrow> 'w pst \<Rightarrow> (int \<times> 'w pst) option" where
  "elf_do_get_soname x ei s =
     (if \<not> elf_type_dyn (ei_of s ei) then Some (0, s)
      else do {
        (strtab_scn, s) \<leftarrow> elf_get_strtab_scn x ei s;
        case strtab_scn of
          None \<Rightarrow> Some (- EINVAL, s)
        | Some strtab_scn \<Rightarrow> do {
            ((err, dyn), s) \<leftarrow> find_dyn x ei find_soname s;
            if err < 0 then (if err = - ENOENT then Some (0, s) else Some (err, s))
            else do {
              dyn \<leftarrow> dyn;
              case elf_strptr (ei_elf (ei_of s ei)) strtab_scn (d_val dyn) of
                None \<Rightarrow> Some (- EINVAL, s)
              | Some name \<Rightarrow>
                  (case xmalloc x s of
                     (None, s) \<Rightarrow> Some (- ENOMEM, s)
                   | (Some _, s) \<Rightarrow> Some (0, upd_ei ei (\<lambda>i. i\<lparr>ei_soname := Some name\<rparr>) s)) } } })"

fun iter_dyn_in ::
    "(Elf_Dyn \<Rightarrow> 's \<Rightarrow> (int \<times> 's) option) \<Rightarrow> (nat \<Rightarrow> Elf_Dyn option) \<Rightarrow> nat list \<Rightarrow> 's \<Rightarrow> (int \<times> 's) option" where
  "iter_dyn_in actor getdyn [] s = Some (0, s)"
| "iter_dyn_in actor getdyn (i # is) s =
     (case getdyn i of
        None \<Rightarrow> Some (- EINVAL, s)
      | Some dyn \<Rightarrow> do {
          (ret, s) \<leftarrow> actor dyn s;
          if ret \<noteq> 0 then Some (ret, s) else iter_dyn_in actor getdyn is s })"

definition iter_dyn_sym ::
    "'w ext \<Rightarrow> ptr \<Rightarrow> (Elf_Dyn \<Rightarrow> 'w pst \<Rightarrow> (int \<times> 'w pst) option) \<Rightarrow> 'w pst \<Rightarrow> (int \<times> 'w pst) option" where
  "iter_dyn_sym x ei actor s = do {
     (scn, s) \<leftarrow> elf_set_dynamic_scn x ei s;
     case scn of
       None \<Rightarrow> Some (- ENOENT, s)
     | Some scn \<Rightarrow> iter_dyn_in actor (gelf_getdyn (ei_elf (ei_of s ei)) (scn_ndx scn)) [0..<nr_ent scn] s }"

definition collect_needed_dyn :: "'w ext \<Rightarrow> ptr \<Rightarrow> Elf_Dyn \<Rightarrow> 'w pst \<Rightarrow> (int \<times> 'w pst) option" where
  "collect_needed_dyn x ei d s =
     (if d_tag d \<noteq> DT_NEEDED then Some (0, s)
      else do {
        (strtab_scn, s) \<leftarrow> elf_get_strtab_scn x ei s;
        case strtab_scn of
          None \<Rightarrow> Some (- EINVAL, s)
        | Some strtab_scn \<Rightarrow>
            (case elf_strptr (ei_elf (ei_of s ei)) strtab_scn (d_val d) of
               None \<Rightarrow> Some (- EINVAL, s)
             | Some needed \<Rightarrow>
                 (case xmalloc x s of
                    (None, s) \<Rightarrow> Some (- ENOMEM, s)
                  | (Some _, s) \<Rightarrow>
                      (case xmalloc x s of
                         (None, s) \<Rightarrow> Some (- ENOMEM, s)
                       | (Some _, s) \<Rightarrow> Some (0, upd_ei ei (\<lambda>i. i\<lparr>ei_needed := ei_needed i @ [needed]\<rparr>) s)))) })"

definition elf_collect_needed :: "'w ext \<Rightarrow> ptr \<Rightarrow> 'w pst \<Rightarrow> (int \<times> 'w pst) option" where
  "elf_collect_needed x ei s =
     (if ei_needed (ei_of s ei) = [] then iter_dyn_sym x ei (collect_needed_dyn x ei) s else Some (0, s))"

text \<open>The new object, or the error. \<open>elf_end\<close> has no effect here; on \<open>end_elf\<close> the file stays open.\<close>

definition elf_create_info :: "'w ext \<Rightarrow> string \<Rightarrow> 'w pst \<Rightarrow> ((int \<times> ptr) \<times> 'w pst) option" where
  "elf_create_info x path s =
     (case elf_open x path s of
        ((err, r), s) \<Rightarrow>
          if err \<noteq> 0 then Some ((err, 0), s)
          else do {
            (e, fd) \<leftarrow> r;
            case elf_alloc_info x e path fd s of
              (None, s) \<Rightarrow> Some ((- ENOMEM, 0), s)
            | (Some ei, s) \<Rightarrow>
                (case elf_getshdrstrndx e of
                   None \<Rightarrow> Some ((- EINVAL, 0), elf_destroy_info x ei s)
                 | Some ndx \<Rightarrow>
                     let s = upd_ei ei (\<lambda>i. i\<lparr>ei_shstrndx := ndx\<rparr>) s in
                     (case gelf_getehdr e of
                        None \<Rightarrow> Some ((- EINVAL, 0), elf_destroy_info x ei s)
                      | Some e_type \<Rightarrow>
                          let s = upd_ei ei (\<lambda>i. i\<lparr>ei_type := e_type\<rparr>) s in do {
                          (err, s) \<leftarrow> elf_do_get_soname x ei s;
                          if err \<noteq> 0 then Some ((err, 0), elf_destroy_info x ei s)
                          else do {
                            (err, s) \<leftarrow> elf_collect_needed x ei s;
                            if err \<noteq> 0 then Some ((err, 0), elf_destroy_info x ei s)
                            else do {
                              (bid, s) \<leftarrow> elf_get_bid x (ei_of s ei) s;
                              Some ((0, ei), upd_ei ei (\<lambda>i. i\<lparr>ei_bid := bid\<rparr>) s) } } })) })"

definition elf_build_id :: "'w ext \<Rightarrow> string \<Rightarrow> 'w pst \<Rightarrow> (string option \<times> 'w pst) option" where
  "elf_build_id x path s = do {
     ((err, ei), s) \<leftarrow> elf_create_info x path s;
     if err \<noteq> 0 then Some (None, s)
     else case ei_bid (ei_of s ei) of
            None \<Rightarrow> Some (None, elf_destroy_info x ei s)
          | Some b \<Rightarrow> (case xmalloc x s of
                         (None, s) \<Rightarrow> Some (None, elf_destroy_info x ei s)
                       | (Some _, s) \<Rightarrow> Some (Some b, elf_destroy_info x ei s)) }"

section \<open>Dynamic symbols\<close>

definition get_symbol_name :: "Elf_Sym \<Rightarrow> elf_info_s \<Rightarrow> nat \<Rightarrow> int \<times> string option" where
  "get_symbol_name symb ei strscn =
     (if st_name symb \<noteq> 0 then
        (case elf_strptr (ei_elf ei) strscn (ucast (st_name symb)) of
           None \<Rightarrow> (- EINVAL, None) | Some name \<Rightarrow> (0, Some name))
      else (0, None))"

definition dynsym_name :: "Elf_Sym \<Rightarrow> ptr \<Rightarrow> 'w pst \<Rightarrow> (int \<times> string option) \<times> 'w pst" where
  "dynsym_name symb ei s =
     (let s = (if ei_dynstr (ei_of s ei) = None
               then upd_ei ei (\<lambda>i. i\<lparr>ei_dynstr := elf_get_section_by_name i ''.dynstr''\<rparr>) s else s)
      in case ei_dynstr (ei_of s ei) of
           None \<Rightarrow> ((- EINVAL, None), s)
         | Some dynstr \<Rightarrow> (get_symbol_name symb (ei_of s ei) dynstr, s))"

fun find_sym_in ::
    "(nat \<Rightarrow> Elf_Sym option) \<Rightarrow> (Elf_Sym \<Rightarrow> 's \<Rightarrow> (int \<times> 's) option) \<Rightarrow> nat list \<Rightarrow> 's
      \<Rightarrow> ((int \<times> Elf_Sym option) \<times> 's) option" where
  "find_sym_in getsym compare [] s = Some ((- ENOENT, None), s)"
| "find_sym_in getsym compare (i # is) s =
     (case getsym i of
        None \<Rightarrow> Some ((- ENOENT, None), s)
      | Some symb \<Rightarrow> do {
          (ret, s) \<leftarrow> compare symb s;
          if ret \<noteq> 0 then Some ((ret, Some symb), s) else find_sym_in getsym compare is s })"

definition find_sym ::
    "ptr \<Rightarrow> elf_scn_t \<Rightarrow> (Elf_Sym \<Rightarrow> 'w pst \<Rightarrow> (int \<times> 'w pst) option) \<Rightarrow> 'w pst
      \<Rightarrow> ((int \<times> Elf_Sym option) \<times> 'w pst) option" where
  "find_sym ei escn compare s =
     find_sym_in (\<lambda>i. gelf_getsym (ei_elf (ei_of s ei)) (scn_ndx escn) (of_nat i)) compare [0..<nr_ent escn] s"

definition find_dyn_sym ::
    "'w ext \<Rightarrow> ptr \<Rightarrow> (Elf_Sym \<Rightarrow> 'w pst \<Rightarrow> (int \<times> 'w pst) option) \<Rightarrow> 'w pst
      \<Rightarrow> ((int \<times> Elf_Sym option) \<times> 'w pst) option" where
  "find_dyn_sym x ei compare s = do {
     (escn, s) \<leftarrow> elf_set_dynsym_scn x ei s;
     case escn of
       None \<Rightarrow> Some ((- ENOENT, None), s)
     | Some escn \<Rightarrow> find_sym ei escn compare s }"

text \<open>A name of zero would be passed to \<open>strcmp\<close> as a null pointer; the first test excludes it.\<close>

definition compare_sym_name :: "ptr \<Rightarrow> string \<Rightarrow> Elf_Sym \<Rightarrow> 'w pst \<Rightarrow> (int \<times> 'w pst) option" where
  "compare_sym_name ei symname symb s =
     (if st_name symb = 0 then Some (0, s)
      else if st_size symb = 0 then Some (0, s)
      else case dynsym_name symb ei s of
             ((err, name), s) \<Rightarrow>
               if err \<noteq> 0 then Some (err, s)
               else do { name \<leftarrow> name; Some (if name = symname then 1 else 0, s) })"

definition elf_find_dsym_by_name ::
    "'w ext \<Rightarrow> ptr \<Rightarrow> string \<Rightarrow> 'w pst \<Rightarrow> ((int \<times> Elf_Sym option) \<times> 'w pst) option" where
  "elf_find_dsym_by_name x ei symname s = find_dyn_sym x ei (compare_sym_name ei symname) s"

definition elf_dsym_offset :: "'w ext \<Rightarrow> ptr \<Rightarrow> string \<Rightarrow> 'w pst \<Rightarrow> (int \<times> 'w pst) option" where
  "elf_dsym_offset x ei name s = do {
     ((err, symb), s) \<leftarrow> elf_find_dsym_by_name x ei name s;
     if err < 0 then Some (err, s) else do { symb \<leftarrow> symb; Some (sint (st_value symb), s) } }"

definition elf_dyn_sym_value :: "'w ext \<Rightarrow> ptr \<Rightarrow> string \<Rightarrow> 'w pst \<Rightarrow> (int \<times> 'w pst) option" where
  "elf_dyn_sym_value x ei name s = do {
     ((err, symb), s) \<leftarrow> elf_find_dsym_by_name x ei name s;
     if err < 0 then Some (if err \<noteq> - ENOENT then err else 0, s)
     else do { symb \<leftarrow> symb; Some (sint (st_value symb), s) } }"

definition elf_contains_sym :: "'w ext \<Rightarrow> ptr \<Rightarrow> string \<Rightarrow> 'w pst \<Rightarrow> (int \<times> 'w pst) option" where
  "elf_contains_sym x ei symname s = do {
     ((err, symb), s) \<leftarrow> elf_find_dsym_by_name x ei symname s;
     Some (if err = 0 then 1 else if err = - ENOENT then 0 else err, s) }"

definition elf_section_virt_base :: "elf_info_s \<Rightarrow> u16 \<Rightarrow> int" where
  "elf_section_virt_base ei ndx =
     (case elf_get_section_by_ndx ei ndx of
        None \<Rightarrow> - EINVAL
      | Some scn \<Rightarrow>
          (case gelf_getshdr (ei_elf ei) scn of
             None \<Rightarrow> - EINVAL
           | Some shdr \<Rightarrow> sint (sh_addr shdr - sh_offset shdr)))"

section \<open>Relocations\<close>

definition GELF_R_SYM :: "u64 \<Rightarrow> u64" where "GELF_R_SYM info = drop_bit 32 info"
definition GELF_R_TYPE :: "u64 \<Rightarrow> u32" where "GELF_R_TYPE info = ucast info"

definition es_r_info :: "extern_symbol \<Rightarrow> u64" where "es_r_info es = r_info (es_rela es)"
definition es_r_type :: "extern_symbol \<Rightarrow> u32" where "es_r_type es = GELF_R_TYPE (es_r_info es)"
definition es_r_sym :: "extern_symbol \<Rightarrow> u32" where "es_r_sym es = ucast (GELF_R_SYM (es_r_info es))"
definition es_r_addend :: "extern_symbol \<Rightarrow> u64" where "es_r_addend es = r_addend (es_rela es)"
definition es_r_offset :: "extern_symbol \<Rightarrow> u64" where "es_r_offset es = r_offset (es_rela es)"
definition es_s_name :: "extern_symbol \<Rightarrow> u32" where "es_s_name es = st_name (es_sym es)"
definition es_s_value :: "extern_symbol \<Rightarrow> u64" where "es_s_value es = st_value (es_sym es)"
definition es_s_size :: "extern_symbol \<Rightarrow> u64" where "es_s_size es = st_size (es_sym es)"
definition es_s_bind :: "extern_symbol \<Rightarrow> u8" where "es_s_bind es = drop_bit 4 (st_info (es_sym es))"
definition es_s_type :: "extern_symbol \<Rightarrow> u8" where "es_s_type es = st_info (es_sym es) AND 0xf"
definition elf_glob_sym :: "extern_symbol \<Rightarrow> bool" where "elf_glob_sym es \<longleftrightarrow> es_s_bind es = 1"
definition elf_weak_sym :: "extern_symbol \<Rightarrow> bool" where "elf_weak_sym es \<longleftrightarrow> es_s_bind es = 2"

definition es_type :: "extern_symbol \<Rightarrow> string option" where
  "es_type es = (if unat (es_s_type es) < STT_NUM then Some (symbol_types ! unat (es_s_type es)) else None)"

definition es_binding :: "extern_symbol \<Rightarrow> string option" where
  "es_binding es = (if unat (es_s_bind es) < STB_NUM then Some (symbol_bindings ! unat (es_s_bind es)) else None)"

text \<open>The type is stored in an \<open>unsigned char\<close>.\<close>

definition es_relocation :: "extern_symbol \<Rightarrow> string option" where
  "es_relocation es =
     (let type = ucast (es_r_type es) :: u8 in
      if unat type < R_X86_64_NUM then Some (relocation_types ! unat type) else None)"

definition create_ext_sym ::
    "'w ext \<Rightarrow> string \<Rightarrow> Elf_Rela \<Rightarrow> Elf_Sym \<Rightarrow> 'w pst \<Rightarrow> extern_symbol option \<times> 'w pst" where
  "create_ext_sym x name rela symb s =
     (case xmalloc x s of
        (None, s) \<Rightarrow> (None, s)
      | (Some _, s) \<Rightarrow>
          (case xmalloc x s of
             (None, s) \<Rightarrow> (None, s)
           | (Some _, s) \<Rightarrow> (Some \<lparr>es_name = name, es_rela = rela, es_sym = symb, es_dlm = None, es_address = 0\<rparr>, s)))"

fun iter_rela_in ::
    "(Elf_Rela \<Rightarrow> 's \<Rightarrow> (int \<times> 's) option) \<Rightarrow> (nat \<Rightarrow> Elf_Rela option) \<Rightarrow> nat list \<Rightarrow> 's \<Rightarrow> (int \<times> 's) option" where
  "iter_rela_in actor getrela [] s = Some (0, s)"
| "iter_rela_in actor getrela (i # is) s =
     (case getrela i of
        None \<Rightarrow> Some (- EINVAL, s)
      | Some rela \<Rightarrow> do {
          (ret, s) \<leftarrow> actor rela s;
          if ret \<noteq> 0 then Some (ret, s) else iter_rela_in actor getrela is s })"

definition iter_rela ::
    "ptr \<Rightarrow> elf_scn_t \<Rightarrow> (Elf_Rela \<Rightarrow> 'w pst \<times> 'd \<Rightarrow> (int \<times> 'w pst \<times> 'd) option) \<Rightarrow> 'w pst \<times> 'd
      \<Rightarrow> (int \<times> 'w pst \<times> 'd) option" where
  "iter_rela ei escn actor sd =
     iter_rela_in actor (gelf_getrela (ei_elf (ei_of (fst sd) ei)) (scn_ndx escn)) [0..<nr_ent escn] sd"

definition collect_es ::
    "'w ext \<Rightarrow> ptr \<Rightarrow> Elf_Rela \<Rightarrow> 'w pst \<times> extern_symbol list \<Rightarrow> (int \<times> 'w pst \<times> extern_symbol list) option" where
  "collect_es x ei rela sd =
     (case sd of (s, head) \<Rightarrow> do {
        (escn, s) \<leftarrow> elf_set_dynsym_scn x ei s;
        case escn of
          None \<Rightarrow> Some (- EINVAL, s, head)
        | Some escn \<Rightarrow>
            (case gelf_getsym (ei_elf (ei_of s ei)) (scn_ndx escn) (GELF_R_SYM (r_info rela)) of
               None \<Rightarrow> Some (- ENOENT, s, head)
             | Some symb \<Rightarrow>
                 if st_name symb = 0 then Some (0, s, head)
                 else case dynsym_name symb ei s of
                        ((err, name), s) \<Rightarrow>
                          if err \<noteq> 0 then Some (err, s, head)
                          else do {
                            name \<leftarrow> name;
                            case create_ext_sym x name rela symb s of
                              (None, s) \<Rightarrow> Some (- ENOMEM, s, head)
                            | (Some es, s) \<Rightarrow> Some (0, s, head @ [es]) }) })"

definition elf_collect_rela ::
    "'w ext \<Rightarrow> ptr \<Rightarrow> elf_scn_t \<Rightarrow> 'w pst \<times> extern_symbol list \<Rightarrow> (int \<times> 'w pst \<times> extern_symbol list) option" where
  "elf_collect_rela x ei escn sd = do {
     (err, s, head) \<leftarrow> iter_rela ei escn (collect_es x ei) sd;
     if err \<noteq> 0 then Some (err, s, []) else Some (0, s, head) }"

definition elf_rela_plt ::
    "'w ext \<Rightarrow> ptr \<Rightarrow> 'w pst \<times> extern_symbol list \<Rightarrow> (int \<times> 'w pst \<times> extern_symbol list) option" where
  "elf_rela_plt x ei sd = do {
     (escn, s) \<leftarrow> elf_set_rela_plt_scn x ei (fst sd);
     case escn of None \<Rightarrow> Some (- ENOENT, s, snd sd) | Some escn \<Rightarrow> elf_collect_rela x ei escn (s, snd sd) }"

definition elf_rela_dyn ::
    "'w ext \<Rightarrow> ptr \<Rightarrow> 'w pst \<times> extern_symbol list \<Rightarrow> (int \<times> 'w pst \<times> extern_symbol list) option" where
  "elf_rela_dyn x ei sd = do {
     (escn, s) \<leftarrow> elf_set_rela_dyn_scn x ei (fst sd);
     case escn of None \<Rightarrow> Some (- ENOENT, s, snd sd) | Some escn \<Rightarrow> elf_collect_rela x ei escn (s, snd sd) }"

abbreviation (input) R_X86_64_64 :: u32 where "R_X86_64_64 \<equiv> 1"
abbreviation (input) R_X86_64_GLOB_DAT :: u32 where "R_X86_64_GLOB_DAT \<equiv> 6"
abbreviation (input) R_X86_64_JUMP_SLOT :: u32 where "R_X86_64_JUMP_SLOT \<equiv> 7"

text \<open>All other types, known and unknown, end in the same error.\<close>

definition elf_reloc_sym :: "extern_symbol \<Rightarrow> u64 \<Rightarrow> int \<times> extern_symbol" where
  "elf_reloc_sym es address =
     (if es_r_type es = R_X86_64_GLOB_DAT \<or> es_r_type es = R_X86_64_JUMP_SLOT
      then (0, es\<lparr>es_address := address\<rparr>)
      else if es_r_type es = R_X86_64_64
      then (0, es\<lparr>es_address := address + es_r_addend es\<rparr>)
      else (- ENOTSUP, es))"

abbreviation (input) VZPATCH_SECTION :: string where "VZPATCH_SECTION \<equiv> ''vzpatch''"

definition elf_info_binpatch ::
    "'w ext \<Rightarrow> patch_info_s \<Rightarrow> elf_info_s \<Rightarrow> 'w pst \<Rightarrow> (int \<times> patch_info_s) \<times> 'w pst" where
  "elf_info_binpatch x pinfo ei s =
     (case elf_get_section_by_name ei VZPATCH_SECTION of
        None \<Rightarrow> ((- EINVAL, pinfo), s)
      | Some scn \<Rightarrow>
          (case gelf_getshdr (ei_elf ei) scn of
             None \<Rightarrow> ((- EINVAL, pinfo), s)
           | Some shdr \<Rightarrow>
               if sh_size shdr = 0 then ((- EINVAL, pinfo), s)
               else case elf_getdata (ei_elf ei) scn of
                      None \<Rightarrow> ((- ENODATA, pinfo), s)
                    | Some edata \<Rightarrow>
                        (case xmalloc x s of
                           (None, s) \<Rightarrow> ((- ENOMEM, pinfo), s)
                         | (Some _, s) \<Rightarrow> unpack_protobuf_binpatch x pinfo edata s)))"

section \<open>What the ELF routines leave alone\<close>

text \<open>
  A routine that works on the object \<open>ei\<close> only fills its caches: the file, the header fields
  and all other objects stay as they are, and memory only grows.
\<close>

definition ei_frame :: "ptr \<Rightarrow> 'w pst \<Rightarrow> 'w pst \<Rightarrow> bool" where
  "ei_frame ei s t \<longleftrightarrow> (\<forall>q. q \<noteq> ei \<longrightarrow> ei_of t q = ei_of s q)
     \<and> ei_path (ei_of t ei) = ei_path (ei_of s ei) \<and> ei_elf (ei_of t ei) = ei_elf (ei_of s ei)
     \<and> ei_fd (ei_of t ei) = ei_fd (ei_of s ei) \<and> ei_type (ei_of t ei) = ei_type (ei_of s ei)
     \<and> ei_shstrndx (ei_of t ei) = ei_shstrndx (ei_of s ei)
     \<and> vma_of t = vma_of s \<and> dlm_of t = dlm_of s \<and> patch_of t = patch_of s
     \<and> process_context t = process_context s \<and> brk s \<le> brk t"

lemma ei_frame_refl [simp]: "ei_frame ei s s"
  by (simp add: ei_frame_def)

lemma ei_frame_trans: "ei_frame ei s t \<Longrightarrow> ei_frame ei t u \<Longrightarrow> ei_frame ei s u"
  by (simp add: ei_frame_def)

lemma ei_frame_xmalloc: "xmalloc x s = (r, t) \<Longrightarrow> ei_frame ei s t"
  by (auto simp: ei_frame_def dest!: xmalloc_keeps split: option.splits)

lemma ei_frame_ext_call: "ext_call f s = (r, t) \<Longrightarrow> ei_frame ei s t"
  by (auto simp: ei_frame_def dest!: ext_call_keeps)

lemma ei_frame_upd:
  "ei_path (f (ei_of s ei)) = ei_path (ei_of s ei) \<Longrightarrow> ei_elf (f (ei_of s ei)) = ei_elf (ei_of s ei)
    \<Longrightarrow> ei_fd (f (ei_of s ei)) = ei_fd (ei_of s ei) \<Longrightarrow> ei_type (f (ei_of s ei)) = ei_type (ei_of s ei)
    \<Longrightarrow> ei_shstrndx (f (ei_of s ei)) = ei_shstrndx (ei_of s ei) \<Longrightarrow> ei_frame ei s (upd_ei ei f s)"
  by (simp add: ei_frame_def)

lemma elf_create_scn_frame:
  "elf_create_scn x e n s = Some (r, t) \<Longrightarrow> ei_frame ei s t"
  by (auto simp: elf_create_scn_def split: option.splits bind_splits if_splits prod.splits
      dest!: ei_frame_xmalloc)

lemma elf_set_scn_frame:
  assumes "elf_set_scn get put n x ei s = Some (r, t)"
    and "\<And>v i. ei_path (put v i) = ei_path i \<and> ei_elf (put v i) = ei_elf i \<and> ei_fd (put v i) = ei_fd i
           \<and> ei_type (put v i) = ei_type i \<and> ei_shstrndx (put v i) = ei_shstrndx i"
  shows "ei_frame ei s t"
proof (cases "get (ei_of s ei) = None")
  case False
  with assms(1) show ?thesis by (auto simp: elf_set_scn_def)
next
  case True
  with assms(1) obtain err escn u where c: "elf_create_scn x (ei_of s ei) n s = Some ((err, escn), u)"
    and t: "t = u \<or> t = upd_ei ei (put escn) u"
    by (auto simp: elf_set_scn_def split: bind_splits if_splits)
  have "ei_frame ei u (upd_ei ei (put escn) u)" by (rule ei_frame_upd) (simp_all add: assms(2))
  with t elf_create_scn_frame[OF c] show ?thesis by (auto intro: ei_frame_trans)
qed

lemma elf_set_scn_frames:
  "elf_set_dynamic_scn x ei s = Some (r, t) \<Longrightarrow> ei_frame ei s t"
  "elf_set_dynsym_scn x ei s = Some (r, t) \<Longrightarrow> ei_frame ei s t"
  "elf_set_rela_plt_scn x ei s = Some (r, t) \<Longrightarrow> ei_frame ei s t"
  "elf_set_rela_dyn_scn x ei s = Some (r, t) \<Longrightarrow> ei_frame ei s t"
  unfolding elf_set_dynamic_scn_def elf_set_dynsym_scn_def elf_set_rela_plt_scn_def elf_set_rela_dyn_scn_def
  by (erule elf_set_scn_frame; simp)+

lemma find_dyn_frame: "find_dyn x ei cmp s = Some (r, t) \<Longrightarrow> ei_frame ei s t"
  by (auto simp: find_dyn_def split: bind_splits option.splits dest: elf_set_scn_frames)

lemma elf_get_strtab_scn_frame:
  assumes "elf_get_strtab_scn x ei s = Some (r, t)"
  shows "ei_frame ei s t"
proof (cases "ei_strtab (ei_of s ei)")
  case (Some a)
  with assms show ?thesis by (auto simp: elf_get_strtab_scn_def)
next
  case None
  with assms obtain d u where f: "find_dyn x ei find_strtab s = Some (d, u)"
    by (auto simp: elf_get_strtab_scn_def split: bind_splits)
  with None assms have "t = u \<or> (\<exists>scn. t = upd_ei ei (\<lambda>i. i\<lparr>ei_strtab := scn\<rparr>) u)"
    by (cases d) (auto simp: elf_get_strtab_scn_def Let_def split: bind_splits if_splits)
  then obtain scn where t: "t = u \<or> t = upd_ei ei (\<lambda>i. i\<lparr>ei_strtab := scn\<rparr>) u" by blast
  have "ei_frame ei u (upd_ei ei (\<lambda>i. i\<lparr>ei_strtab := scn\<rparr>) u)" by (rule ei_frame_upd) simp_all
  with t find_dyn_frame[OF f] show ?thesis by (auto intro: ei_frame_trans)
qed

lemma elf_do_get_soname_frame:
  assumes "elf_do_get_soname x ei s = Some (r, t)"
  shows "ei_frame ei s t"
proof (cases "elf_type_dyn (ei_of s ei)")
  case False
  with assms show ?thesis by (auto simp: elf_do_get_soname_def)
next
  case True
  with assms obtain scn u where u: "elf_get_strtab_scn x ei s = Some (scn, u)"
    by (auto simp: elf_do_get_soname_def split: bind_splits)
  show ?thesis
  proof (cases scn)
    case None
    with True assms u elf_get_strtab_scn_frame[OF u] show ?thesis by (auto simp: elf_do_get_soname_def)
  next
    case (Some a)
    with True assms u obtain d v where v: "find_dyn x ei find_soname u = Some (d, v)"
      by (auto simp: elf_do_get_soname_def split: bind_splits)
    have "ei_frame ei v (upd_ei ei (\<lambda>i. i\<lparr>ei_soname := n\<rparr>) v)" for n v
      by (rule ei_frame_upd) simp_all
    then have "ei_frame ei v t" using True assms u v Some
      by (auto simp: elf_do_get_soname_def split: bind_splits if_splits option.splits prod.splits
          dest!: ei_frame_xmalloc[where ei = ei] intro: ei_frame_trans)
    with elf_get_strtab_scn_frame[OF u] find_dyn_frame[OF v] show ?thesis by (blast intro: ei_frame_trans)
  qed
qed

lemma collect_needed_dyn_frame:
  assumes "collect_needed_dyn x ei d s = Some (r, t)"
  shows "ei_frame ei s t"
proof (cases "d_tag d = DT_NEEDED")
  case False
  with assms show ?thesis by (auto simp: collect_needed_dyn_def)
next
  case True
  with assms obtain scn u where u: "elf_get_strtab_scn x ei s = Some (scn, u)"
    by (auto simp: collect_needed_dyn_def split: bind_splits)
  have upd: "ei_frame ei v (upd_ei ei (\<lambda>i. i\<lparr>ei_needed := ei_needed i @ [n]\<rparr>) v)" for n v
    by (rule ei_frame_upd) simp_all
  have "ei_frame ei u t" using True assms u
    by (auto simp: collect_needed_dyn_def split: bind_splits if_splits option.splits prod.splits
        dest!: ei_frame_xmalloc[where ei = ei] intro: ei_frame_trans)
      (rule ei_frame_trans[OF _ upd], erule (1) ei_frame_trans)
  with elf_get_strtab_scn_frame[OF u] show ?thesis by (blast intro: ei_frame_trans)
qed

lemma iter_dyn_in_frame:
  "iter_dyn_in (collect_needed_dyn x ei) g is s = Some (r, t) \<Longrightarrow> ei_frame ei s t"
proof (induction "is" arbitrary: s)
  case Nil
  then show ?case by simp
next
  case (Cons i "is")
  then show ?case
    by (auto split: option.splits bind_splits if_splits dest!: collect_needed_dyn_frame
        intro: ei_frame_trans)
qed

lemma elf_collect_needed_frame:
  "elf_collect_needed x ei s = Some (r, t) \<Longrightarrow> ei_frame ei s t"
  by (auto simp: elf_collect_needed_def iter_dyn_sym_def split: if_splits bind_splits option.splits
      dest!: elf_set_scn_frames iter_dyn_in_frame intro: ei_frame_trans)

lemma elf_get_bid_frame: "elf_get_bid x e s = Some (r, t) \<Longrightarrow> ei_frame ei s t"
  by (auto simp: elf_get_bid_def get_build_id_def split: if_splits option.splits prod.splits
      dest!: ei_frame_xmalloc)

section \<open>Creating the description of a file\<close>

lemma elf_fd_frame: "elf_fd x fd s = (r, t) \<Longrightarrow> ei_frame ei s t"
  by (auto simp: elf_fd_def split: prod.splits option.splits if_splits dest!: ei_frame_ext_call)

lemma sys_call_frame: "sys_call f s = (r, t) \<Longrightarrow> ei_frame ei s t"
  by (auto simp: ei_frame_def dest!: sys_call_keeps)

lemma elf_open_frame: "elf_open x path s = (r, t) \<Longrightarrow> ei_frame ei s t"
  by (auto simp: elf_open_def split: prod.splits option.splits
      dest!: elf_fd_frame[where ei = ei] ei_frame_ext_call[where ei = ei] sys_call_frame[where ei = ei]
      intro: ei_frame_trans; meson ei_frame_trans)

lemma is_elf_file_frame: "is_elf_file x path s = (r, t) \<Longrightarrow> ei_frame ei s t"
  by (auto simp: is_elf_file_def check_file_type_def split: prod.splits option.splits if_splits
      dest!: elf_open_frame[where ei = ei] ei_frame_ext_call[where ei = ei] sys_call_frame[where ei = ei]
      intro: ei_frame_trans; meson ei_frame_trans)

lemma elf_destroy_info_frame: "ei_frame p s (elf_destroy_info x ei s)"
  unfolding elf_destroy_info_def by (cases "ext_call (x_close x (ei_fd (ei_of s ei))) s")
    (auto dest: ei_frame_ext_call)

text \<open>
  The caller of \<open>elf_create_info\<close> sees one new object, described by the file, and no other
  change of the program's data.
\<close>

definition ei_fresh :: "'w pst \<Rightarrow> 'w pst \<Rightarrow> bool" where
  "ei_fresh s t \<longleftrightarrow> (\<forall>q < brk s. ei_of t q = ei_of s q)
     \<and> vma_of t = vma_of s \<and> dlm_of t = dlm_of s \<and> patch_of t = patch_of s
     \<and> process_context t = process_context s \<and> brk s \<le> brk t"

lemma ei_fresh_refl [simp]: "ei_fresh s s"
  by (simp add: ei_fresh_def)

lemma ei_fresh_trans: "ei_fresh s t \<Longrightarrow> ei_fresh t u \<Longrightarrow> ei_fresh s u"
  by (auto simp: ei_fresh_def)

lemma ei_fresh_frame: "ei_frame ei s t \<Longrightarrow> brk s0 \<le> ei \<Longrightarrow> brk s0 \<le> brk s \<Longrightarrow> ei_fresh s0 s \<Longrightarrow> ei_fresh s0 t"
  by (auto simp: ei_fresh_def ei_frame_def)

lemma ei_fresh_upd: "brk s0 \<le> ei \<Longrightarrow> ei_fresh s0 s \<Longrightarrow> ei_fresh s0 (upd_ei ei f s)"
  by (auto simp: ei_fresh_def)

lemma ei_frame_imp_fresh: "ei_frame (brk s) s t \<Longrightarrow> ei_fresh s t"
  by (auto simp: ei_fresh_def ei_frame_def)

lemma elf_alloc_info_spec:
  assumes "elf_alloc_info x e path fd s = (r, t)"
  shows "ei_fresh s t \<and> (\<forall>ei. r = Some ei \<longrightarrow> ei = brk s \<and> ei < brk t \<and> ei_path (ei_of t ei) = path
    \<and> ei_elf (ei_of t ei) = e \<and> ei_fd (ei_of t ei) = fd \<and> ei_needed (ei_of t ei) = []
    \<and> ei_strtab (ei_of t ei) = None \<and> ei_dynamic (ei_of t ei) = None)"
  using assms
  by (auto simp: elf_alloc_info_def ei_fresh_def split: prod.splits option.splits dest!: xmalloc_keeps)

lemma elf_create_info_fresh:
  assumes "elf_create_info x path s = Some ((err, ei), t)"
  shows "ei_fresh s t \<and> (err = 0 \<longrightarrow> brk s \<le> ei \<and> ei < brk t \<and> ei_path (ei_of t ei) = path)"
proof -
  obtain e1 r s1 where op: "elf_open x path s = ((e1, r), s1)" by (metis prod.exhaust)
  have f1: "ei_fresh s s1" "brk s \<le> brk s1" using elf_open_frame[OF op, of "brk s"]
    by (auto intro: ei_frame_imp_fresh simp: ei_frame_def)
  show ?thesis
  proof (cases "e1 = 0 \<and> r \<noteq> None")
    case False
    with assms op f1 show ?thesis by (auto simp: elf_create_info_def split: if_splits bind_splits)
  next
    case True
    then obtain e fd where r: "r = Some (e, fd)" by auto
    obtain al s2 where al: "elf_alloc_info x e path fd s1 = (al, s2)" by fastforce
    note as = elf_alloc_info_spec[OF al]
    have f2: "ei_fresh s s2" using f1 as by (blast intro: ei_fresh_trans)
    show ?thesis
    proof (cases al)
      case None
      with assms op True r al f2 show ?thesis by (auto simp: elf_create_info_def)
    next
      case (Some p)
      with as f1 f2 have p: "brk s \<le> p" "p < brk s2" "ei_path (ei_of s2 p) = path" by auto
      define I where "I = (\<lambda>u. ei_fresh s u \<and> p < brk u \<and> ei_path (ei_of u p) = path)"
      have i2: "I s2" using f2 p by (simp add: I_def)
      have iupd: "I (upd_ei q f u)" if "q = p" "I u" "\<And>i. ei_path (f i) = ei_path i" for f u q
        using that p by (auto simp: I_def intro: ei_fresh_upd)
      have ifr: "I v" if "ei_frame q u v" "q = p" "I u" for u v q
        using that p ei_fresh_frame[of p u v s] by (auto simp: I_def ei_frame_def ei_fresh_def)
      have ides: "I (elf_destroy_info x p u)" if "I u" for u
        using ifr[OF elf_destroy_info_frame refl that] .
      note steps = ifr[OF elf_do_get_soname_frame] ifr[OF elf_collect_needed_frame] ifr[OF elf_get_bid_frame]
      have "I t \<and> (err = 0 \<longrightarrow> ei = p)"
        using assms op True r al Some i2
        by (auto simp: elf_create_info_def Let_def split: option.splits bind_splits if_splits
            intro!: ides iupd elim!: steps)
      then show ?thesis using p(1) by (auto simp: I_def)
    qed
  qed
qed

text \<open>A shared object with a dynamic section, one symbol and a Build ID.\<close>

definition demo_elf :: Elf where
  "demo_elf = sim_elf\<lparr>elf_scns := [1, 2, 3, 4], elf_getshdrstrndx := Some 9,
     gelf_getshdr := (\<lambda>i. Some \<lparr>sh_name = of_nat i, sh_addr = 0x1000 * of_nat i, sh_offset = 0,
        sh_size = if i = 1 then 0x40 else 0x30, sh_entsize = if i = 1 then 0x10 else 0x18\<rparr>),
     elf_strptr := (\<lambda>scn off.
        if scn = 9 then Some ([[], ''.dynamic'', ''.dynsym'', ''.dynstr'', ''.note.gnu.build-id''] ! unat off)
        else if scn = 3 then Some ([[], ''libc.so.6'', ''libdemo.so'', ''foo''] ! unat off) else None),
     elf_getdata := (\<lambda>i. Some (replicate 16 0 @ [0xab, 0x01])),
     gelf_getdyn := (\<lambda>scn i. Some ([\<lparr>d_tag = 5, d_val = 0x3000\<rparr>, \<lparr>d_tag = 1, d_val = 1\<rparr>,
        \<lparr>d_tag = 14, d_val = 2\<rparr>, \<lparr>d_tag = 0, d_val = 0\<rparr>] ! i)),
     gelf_getsym := (\<lambda>scn i. Some ([\<lparr>st_name = 0, st_info = 0, st_value = 0, st_size = 0\<rparr>,
        \<lparr>st_name = 3, st_info = 0x12, st_value = 0x1234, st_size = 16\<rparr>] ! unat i)),
     gelf_getnote := (\<lambda>i. Some (2, 16))\<rparr>"

definition demo_ei :: elf_info_s where
  "demo_ei = \<lparr>ei_path = ''demo.so'', ei_elf = demo_elf, ei_fd = 3, ei_shstrndx = 9, ei_type = 3,
     ei_strtab = Some 3, ei_rela_plt = None, ei_rela_dyn = None,
     ei_dynamic = Some \<lparr>scn_ndx = 1, nr_ent = 4\<rparr>, ei_dynsym = None, ei_dynstr = None,
     ei_soname = Some ''libdemo.so'', ei_needed = [''libc.so.6''], ei_bid = Some ''ab01''\<rparr>"

definition demo_world :: simw where
  "demo_world = sim_world\<lparr>sim_files := (\<lambda>p. if p = ''demo.so'' then Some demo_elf else None)\<rparr>"

lemmas section_eval = elf_get_section_by_name_def find_section_def scn_compare_name_def
  get_section_name_def elf_get_section_by_addr_def scn_compare_addr_def get_section_addr_def

lemma elf_create_info_demo:
  "map_option (\<lambda>((err, ei), t). (err, ei, ei_of t ei)) (elf_create_info sim_ext ''demo.so'' (sim_state\<lparr>world := demo_world\<rparr>))
    = Some (0, 100, demo_ei)"
  by (simp add: elf_create_info_def elf_open_def elf_fd_def sys_call_def ext_call_def sim_ext_def demo_world_def
      sim_path_def sim_world_def elf_alloc_info_def xmalloc_def elf_do_get_soname_def elf_type_dyn_def
      elf_get_strtab_scn_def find_dyn_def elf_set_dynamic_scn_def elf_set_scn_def elf_create_scn_def
      section_eval demo_elf_def sim_elf_def sect_nr_ent_def upd_ei_def find_strtab_def find_soname_def
      elf_collect_needed_def iter_dyn_sym_def collect_needed_dyn_def elf_get_bid_def get_build_id_def
      hex_byte_def hexd_def demo_ei_def upt_rec Let_def)

text \<open>
  Opening an ELF file for inspection never disturbs what the patcher already knows:
  the description is a new object (on success it carries the path of the file), and every
  older description, memory area, loaded object, patch and the process context are as
  before, on every path through \<open>elf_create_info\<close>.
\<close>

lemma elf_create_info_frame:
  assumes "elf_create_info x path s = Some ((err, ei), t)"
  shows "(\<forall>q < brk s. ei_of t q = ei_of s q) \<and> vma_of t = vma_of s \<and> dlm_of t = dlm_of s
    \<and> patch_of t = patch_of s \<and> process_context t = process_context s
    \<and> (err = 0 \<longrightarrow> brk s \<le> ei \<and> ei < brk t \<and> ei_path (ei_of t ei) = path)"
  using elf_create_info_fresh[OF assms] by (simp add: ei_fresh_def)

lemma elf_create_info_frame_witness:
  "(let s = sim_state\<lparr>world := demo_world\<rparr> in
    \<exists>t. elf_create_info sim_ext ''demo.so'' s = Some ((0, 100), t)
      \<and> (\<forall>q < 100. ei_of t q = ei_of s q) \<and> ei_path (ei_of t 100) = ''demo.so'')"
proof -
  let ?s = "sim_state\<lparr>world := demo_world\<rparr>"
  obtain t where t: "elf_create_info sim_ext ''demo.so'' ?s = Some ((0, 100), t)"
    using elf_create_info_demo by (auto split: prod.splits)
  show ?thesis unfolding Let_def using t elf_create_info_frame[OF t] by auto
qed

section \<open>Needed libraries\<close>

text \<open>The names that the \<open>DT_NEEDED\<close> entries refer to, in order.\<close>

definition needed_names :: "Elf \<Rightarrow> nat \<Rightarrow> Elf_Dyn list \<Rightarrow> string list" where
  "needed_names e strtab ds =
     map (\<lambda>d. the (elf_strptr e strtab (d_val d))) (filter (\<lambda>d. d_tag d = DT_NEEDED) ds)"

lemma collect_needed_dyn_spec:
  assumes "collect_needed_dyn x ei d s = Some (0, t)" "ei_strtab (ei_of s ei) = Some st"
  shows "ei_needed (ei_of t ei) = ei_needed (ei_of s ei) @ needed_names (ei_elf (ei_of s ei)) st [d]
    \<and> ei_strtab (ei_of t ei) = Some st"
  using assms
  by (auto simp: collect_needed_dyn_def elf_get_strtab_scn_def needed_names_def
      split: if_splits option.splits prod.splits dest!: xmalloc_keeps)

lemma iter_needed_spec:
  assumes "iter_dyn_in (collect_needed_dyn x ei) g is s = Some (0, t)" "ei_strtab (ei_of s ei) = Some st"
  shows "(\<forall>i \<in> set is. g i \<noteq> None)
    \<and> ei_needed (ei_of t ei) = ei_needed (ei_of s ei)
        @ needed_names (ei_elf (ei_of s ei)) st (map (\<lambda>i. the (g i)) is)"
  using assms
proof (induction "is" arbitrary: s)
  case Nil
  then show ?case by (simp add: needed_names_def)
next
  case (Cons i "is")
  from Cons.prems(1) obtain d u where d: "g i = Some d" and u: "collect_needed_dyn x ei d s = Some (0, u)"
    and rest: "iter_dyn_in (collect_needed_dyn x ei) g is u = Some (0, t)"
    by (auto split: option.splits bind_splits if_splits)
  note c = collect_needed_dyn_spec[OF u Cons.prems(2)]
  have "ei_elf (ei_of u ei) = ei_elf (ei_of s ei)"
    using collect_needed_dyn_frame[OF u] by (simp add: ei_frame_def)
  with Cons.IH[OF rest] c d show ?case by (simp add: needed_names_def)
qed

text \<open>
  The list of needed libraries of an object is exactly the names its \<open>DT_NEEDED\<close>
  entries refer to, in the order of the dynamic section.
\<close>

lemma elf_collect_needed_correct:
  assumes "elf_collect_needed x ei s = Some (0, t)" "ei_needed (ei_of s ei) = []"
    and "ei_dynamic (ei_of s ei) = Some scn" "ei_strtab (ei_of s ei) = Some strtab"
  shows "ei_needed (ei_of t ei) = needed_names (ei_elf (ei_of s ei)) strtab
    (map (\<lambda>i. the (gelf_getdyn (ei_elf (ei_of s ei)) (scn_ndx scn) i)) [0..<nr_ent scn])"
proof -
  have "iter_dyn_in (collect_needed_dyn x ei) (gelf_getdyn (ei_elf (ei_of s ei)) (scn_ndx scn)) [0..<nr_ent scn] s
      = Some (0, t)"
    using assms by (simp add: elf_collect_needed_def iter_dyn_sym_def elf_set_dynamic_scn_def elf_set_scn_def)
  from iter_needed_spec[OF this assms(4)] assms(2) show ?thesis by simp
qed

lemma elf_collect_needed_correct_witness:
  "(let s = sim_state\<lparr>ei_of := (\<lambda>p. demo_ei\<lparr>ei_needed := []\<rparr>)\<rparr> in
    \<exists>t. elf_collect_needed sim_ext 5 s = Some (0, t) \<and> ei_needed (ei_of t 5) = [''libc.so.6'']
      \<and> needed_names demo_elf 3 (map (\<lambda>i. the (gelf_getdyn demo_elf 1 i)) [0..<4]) = [''libc.so.6''])"
proof -
  let ?s = "sim_state\<lparr>ei_of := (\<lambda>p. demo_ei\<lparr>ei_needed := []\<rparr>)\<rparr>"
  have "map_option fst (elf_collect_needed sim_ext 5 ?s) = Some 0"
    by (simp add: elf_collect_needed_def iter_dyn_sym_def elf_set_dynamic_scn_def elf_set_scn_def
        collect_needed_dyn_def elf_get_strtab_scn_def demo_ei_def demo_elf_def xmalloc_def ext_call_def upt_rec)
  then obtain t where t: "elf_collect_needed sim_ext 5 ?s = Some (0, t)" by auto
  have n: "needed_names demo_elf 3 (map (\<lambda>i. the (gelf_getdyn demo_elf 1 i)) [0..<4]) = [''libc.so.6'']"
    by (simp add: needed_names_def demo_elf_def upt_rec)
  show ?thesis
    unfolding Let_def using t n elf_collect_needed_correct[OF t, of "\<lparr>scn_ndx = 1, nr_ent = 4\<rparr>" 3]
    by (simp add: demo_ei_def)
qed

section \<open>Build IDs\<close>

lemma hexd_inj: "d < 16 \<Longrightarrow> e < 16 \<Longrightarrow> hexd d = hexd e \<Longrightarrow> d = e"
  by (metis digit_val_hexd option.inject)

lemma hex_byte_inj: "hex_byte a = hex_byte b \<Longrightarrow> a = b"
proof -
  assume h: "hex_byte a = hex_byte b"
  have lt: "unat c div 16 < 16" for c :: byte
    using unsigned_less[of c, where 'a = nat] by (simp add: less_mult_imp_div_less)
  from h have "unat a div 16 = unat b div 16" "unat a mod 16 = unat b mod 16"
    by (auto simp: hex_byte_def intro: hexd_inj lt)
  then have "unat a = unat b" by (metis div_mod_decomp)
  then show "a = b" by (simp add: word_unat_eq_iff)
qed

lemma concat_hex_inj: "concat (map hex_byte as) = concat (map hex_byte bs) \<Longrightarrow> as = bs"
proof (induction "as" arbitrary: bs)
  case Nil
  then show ?case by (cases bs) (auto simp: hex_byte_def)
next
  case (Cons a "as")
  then obtain b bs' where bs: "bs = b # bs'" by (cases bs) (auto simp: hex_byte_def)
  from Cons.prems bs have "hex_byte a = hex_byte b" "concat (map hex_byte as) = concat (map hex_byte bs')"
    by (simp_all add: hex_byte_def[of a] hex_byte_def[of b])
  with Cons.IH bs hex_byte_inj show ?case by blast
qed

text \<open>
  C29: The textual Build ID identifies the note of the file: it has two digits per byte of
  the note's descriptor, and two files get the same text only when the descriptors are the
  same bytes. This is what comparing Build IDs with \<open>strcmp\<close> relies on.
\<close>

theorem get_build_id_faithful:
  assumes "get_build_id x e1 scn1 s1 = Some (Some bid, t1)" "get_build_id x e2 scn2 s2 = Some (Some bid, t2)"
    and "gelf_getnote (ei_elf e1) scn1 = Some (n1, off1)" "elf_getdata (ei_elf e1) scn1 = Some data1"
    and "gelf_getnote (ei_elf e2) scn2 = Some (n2, off2)" "elf_getdata (ei_elf e2) scn2 = Some data2"
  shows "take n1 (drop off1 data1) = take n2 (drop off2 data2) \<and> length bid = 2 * n1 \<and> n1 = n2"
proof -
  from assms have b1: "bid = concat (map hex_byte (take n1 (drop off1 data1)))" and l1: "off1 + n1 \<le> length data1"
    and b2: "bid = concat (map hex_byte (take n2 (drop off2 data2)))" and l2: "off2 + n2 \<le> length data2"
    by (auto simp: get_build_id_def split: prod.splits option.splits if_splits)
  have eq: "take n1 (drop off1 data1) = take n2 (drop off2 data2)"
    using b1 b2 by (metis concat_hex_inj)
  have "length (concat (map hex_byte bs)) = 2 * length bs" for bs
    by (induction bs) (auto simp: hex_byte_def)
  with b1 l1 have "length bid = 2 * n1" by simp
  moreover have "n1 = n2" using arg_cong[OF eq, of length] l1 l2 by simp
  ultimately show ?thesis using eq by simp
qed

theorem get_build_id_faithful_witness:
  "(\<exists>t. get_build_id sim_ext demo_ei 4 sim_state = Some (Some ''ab01'', t))
    \<and> take 2 (drop 16 (replicate 16 0 @ [0xab, 0x01 :: byte])) = take 2 (drop 16 (replicate 16 0 @ [0xab, 0x01]))
    \<and> length ''ab01'' = 2 * 2 \<and> (2 :: nat) = 2"
proof -
  have "map_option fst (get_build_id sim_ext demo_ei 4 sim_state) = Some (Some ''ab01'')"
    by (simp add: get_build_id_def demo_ei_def demo_elf_def xmalloc_def ext_call_def hex_byte_def hexd_def)
  then obtain t where t: "get_build_id sim_ext demo_ei 4 sim_state = Some (Some ''ab01'', t)" by auto
  from get_build_id_faithful[OF t t] t show ?thesis by (simp add: demo_ei_def demo_elf_def)
qed

section \<open>Symbol lookup\<close>

definition sym_named :: "Elf \<Rightarrow> nat \<Rightarrow> string \<Rightarrow> Elf_Sym \<Rightarrow> bool" where
  "sym_named e dynstr name symb \<longleftrightarrow> st_name symb \<noteq> 0 \<and> st_size symb \<noteq> 0
     \<and> elf_strptr e dynstr (ucast (st_name symb)) = Some name"

text \<open>A symbol table all of whose entries and names libelf can read.\<close>

definition readable_syms :: "Elf \<Rightarrow> nat \<Rightarrow> elf_scn_t \<Rightarrow> bool" where
  "readable_syms e dynstr escn \<longleftrightarrow> (\<forall>i < nr_ent escn. \<exists>symb. gelf_getsym e (scn_ndx escn) (of_nat i) = Some symb
     \<and> (st_name symb \<noteq> 0 \<longrightarrow> elf_strptr e dynstr (ucast (st_name symb)) \<noteq> None))"

text \<open>
  The symbol table and its string table, cached or found in the file by the names of their
  sections.
\<close>

definition dynsym_table :: "elf_info_s \<Rightarrow> elf_scn_t option" where
  "dynsym_table i =
     (case ei_dynsym i of
        Some escn \<Rightarrow> Some escn
      | None \<Rightarrow>
          (case elf_get_section_by_name i ''.dynsym'' of
             None \<Rightarrow> None
           | Some scn \<Rightarrow>
               (case elf_getdata (ei_elf i) scn of
                  None \<Rightarrow> None
                | Some _ \<Rightarrow> (case sect_nr_ent i scn of
                      None \<Rightarrow> None
                    | Some n \<Rightarrow> if n < 0 then None else Some \<lparr>scn_ndx = scn, nr_ent = nat n\<rparr>))))"

definition dynstr_section :: "elf_info_s \<Rightarrow> nat option" where
  "dynstr_section i = (case ei_dynstr i of Some scn \<Rightarrow> Some scn | None \<Rightarrow> elf_get_section_by_name i ''.dynstr'')"

text \<open>
  A lookup fills the caches of the object and changes nothing else; memory is allocated when the
  symbol table was not cached.
\<close>

definition fills_caches :: "ptr \<Rightarrow> elf_scn_t \<Rightarrow> nat \<Rightarrow> 'w pst \<Rightarrow> 'w pst \<Rightarrow> bool" where
  "fills_caches ei escn dynstr s t \<longleftrightarrow> (\<exists>w b d. d \<in> {ei_dynstr (ei_of s ei), Some dynstr}
     \<and> t = s\<lparr>world := w, brk := b, ei_of := (ei_of s)(ei := (ei_of s ei)\<lparr>ei_dynsym := Some escn, ei_dynstr := d\<rparr>)\<rparr>
     \<and> brk s \<le> b \<and> (ei_dynsym (ei_of s ei) \<noteq> None \<longrightarrow> w = world s \<and> b = brk s))"

lemma section_by_name_cache [simp]:
  "elf_get_section_by_name (i\<lparr>ei_dynstr := d\<rparr>) name = elf_get_section_by_name i name"
  "elf_get_section_by_name (i\<lparr>ei_dynsym := e\<rparr>) name = elf_get_section_by_name i name"
  by (simp_all add: elf_get_section_by_name_def find_section_def scn_compare_name_def[abs_def] get_section_name_def cong: option.case_cong)

lemma set_dynsym_spec:
  assumes "dynsym_table (ei_of s ei) = Some escn" "ei_dynsym (ei_of s ei) = None \<longrightarrow> fst (x_malloc x (world s))"
  shows "\<exists>w b. elf_set_dynsym_scn x ei s = Some (Some escn, s\<lparr>world := w, brk := b,
      ei_of := (ei_of s)(ei := (ei_of s ei)\<lparr>ei_dynsym := Some escn\<rparr>)\<rparr>)
    \<and> brk s \<le> b \<and> (ei_dynsym (ei_of s ei) \<noteq> None \<longrightarrow> w = world s \<and> b = brk s)"
proof (cases "ei_dynsym (ei_of s ei)")
  case (Some e)
  with assms(1) have e: "ei_dynsym (ei_of s ei) = Some escn" by (simp add: dynsym_table_def)
  then have i: "(ei_of s ei)\<lparr>ei_dynsym := Some escn\<rparr> = ei_of s ei" by simp
  from e show ?thesis
    by (intro exI[of _ "world s"] exI[of _ "brk s"]) (simp add: elf_set_dynsym_scn_def elf_set_scn_def i)
next
  case None
  with assms(2) obtain w where w: "x_malloc x (world s) = (True, w)" by (cases "x_malloc x (world s)") auto
  from None assms(1) w show ?thesis
    by (intro exI[of _ w] exI[of _ "brk s + 1"])
      (auto simp: dynsym_table_def elf_set_dynsym_scn_def elf_set_scn_def elf_create_scn_def xmalloc_def ext_call_def upd_ei_def
        split: option.splits if_splits)
qed

text \<open>Comparing a name may fill the cache of the string table.\<close>

definition dynstr_cached :: "ptr \<Rightarrow> nat \<Rightarrow> 'w pst \<Rightarrow> 'w pst set" where
  "dynstr_cached ei dynstr s = {s, upd_ei ei (\<lambda>i. i\<lparr>ei_dynstr := Some dynstr\<rparr>) s}"

lemma compare_sym_name_spec:
  assumes "dynstr_section (ei_of s ei) = Some dynstr" "u \<in> dynstr_cached ei dynstr s"
    and "st_name symb \<noteq> 0 \<longrightarrow> elf_strptr (ei_elf (ei_of s ei)) dynstr (ucast (st_name symb)) \<noteq> None"
  shows "\<exists>v \<in> dynstr_cached ei dynstr s. compare_sym_name ei name symb u
    = Some (if sym_named (ei_elf (ei_of s ei)) dynstr name symb then 1 else 0, v)"
  using assms
  by (cases "ei_dynstr (ei_of s ei)")
    (auto simp: compare_sym_name_def dynsym_name_def get_symbol_name_def sym_named_def dynstr_cached_def dynstr_section_def
      upd_ei_def)

lemma find_sym_in_spec:
  assumes "dynstr_section (ei_of s ei) = Some dynstr" "e = ei_elf (ei_of s ei)" "u \<in> dynstr_cached ei dynstr s"
    and "\<forall>i \<in> set is. \<exists>symb. g i = Some symb
           \<and> (st_name symb \<noteq> 0 \<longrightarrow> elf_strptr e dynstr (ucast (st_name symb)) \<noteq> None)"
  shows "\<exists>v \<in> dynstr_cached ei dynstr s. find_sym_in g (compare_sym_name ei name) is u
    = Some (case find (\<lambda>i. sym_named e dynstr name (the (g i))) is of
              None \<Rightarrow> (- ENOENT, None) | Some i \<Rightarrow> (1, g i), v)"
  using assms(3,4)
proof (induction "is" arbitrary: u)
  case (Cons i "is")
  then obtain symb where symb: "g i = Some symb"
    "st_name symb \<noteq> 0 \<longrightarrow> elf_strptr e dynstr (ucast (st_name symb)) \<noteq> None" by auto
  from compare_sym_name_spec[OF assms(1) Cons.prems(1), of symb name] symb(2) assms(2) obtain v where
    v: "v \<in> dynstr_cached ei dynstr s"
    "compare_sym_name ei name symb u = Some (if sym_named e dynstr name symb then 1 else 0, v)" by auto
  from Cons.IH[OF v(1)] Cons.prems(2) v symb(1) show ?case by auto
qed auto

lemma find_map: "find P (map f xs) = map_option f (find (\<lambda>i. P (f i)) xs)"
  by (induction xs) auto

text \<open>
  C27: Looking up a dynamic symbol gives the value of the first entry of the symbol table
  that has this name and a size; when there is none, the result is 0. The symbol table and
  its string table are those the object has cached from an earlier lookup or, at the first
  lookup, the sections \<open>.dynsym\<close> and \<open>.dynstr\<close> of the file. The lookup
  fills the two caches and changes no other state (the caches alone when the object was looked up
  before). It is assumed that both sections exist, that libelf can read every entry and every name of
  the symbol table, and that the memory for the cache can be allocated.
\<close>

theorem elf_dyn_sym_value_first:
  assumes "dynsym_table (ei_of s ei) = Some escn" "dynstr_section (ei_of s ei) = Some dynstr"
    and "ei_dynsym (ei_of s ei) = None \<longrightarrow> fst (x_malloc x (world s))"
    and "readable_syms (ei_elf (ei_of s ei)) dynstr escn"
  shows "\<exists>t. fills_caches ei escn dynstr s t \<and> elf_dyn_sym_value x ei name s = Some
    (case find (sym_named (ei_elf (ei_of s ei)) dynstr name)
            (map (\<lambda>i. the (gelf_getsym (ei_elf (ei_of s ei)) (scn_ndx escn) (of_nat i))) [0..<nr_ent escn]) of
       None \<Rightarrow> 0 | Some symb \<Rightarrow> sint (st_value symb), t)"
proof -
  let ?e = "ei_elf (ei_of s ei)"
  let ?g = "\<lambda>i. gelf_getsym ?e (scn_ndx escn) (of_nat i)"
  from set_dynsym_spec[OF assms(1,3)] obtain w b u where
    set: "elf_set_dynsym_scn x ei s = Some (Some escn, u)"
    and u: "u = s\<lparr>world := w, brk := b, ei_of := (ei_of s)(ei := (ei_of s ei)\<lparr>ei_dynsym := Some escn\<rparr>)\<rparr>"
    "brk s \<le> b" "ei_dynsym (ei_of s ei) \<noteq> None \<longrightarrow> w = world s \<and> b = brk s" by blast
  have "dynstr_section (ei_of u ei) = Some dynstr" "ei_elf (ei_of u ei) = ?e" "u \<in> dynstr_cached ei dynstr u"
    using assms(2) u(1) by (simp_all add: dynstr_section_def dynstr_cached_def cong: option.case_cong)
  with find_sym_in_spec[of u ei dynstr ?e u "[0..<nr_ent escn]" ?g name] assms(4) obtain t where
    t: "t \<in> dynstr_cached ei dynstr u" and
    f: "find_sym_in ?g (compare_sym_name ei name) [0..<nr_ent escn] u
      = Some (case find (\<lambda>i. sym_named ?e dynstr name (the (?g i))) [0..<nr_ent escn] of
                None \<Rightarrow> (- ENOENT, None) | Some i \<Rightarrow> (1, ?g i), t)"
    by (auto simp: readable_syms_def)
  have "\<exists>d \<in> {ei_dynstr (ei_of s ei), Some dynstr}. t = s\<lparr>world := w, brk := b,
      ei_of := (ei_of s)(ei := (ei_of s ei)\<lparr>ei_dynsym := Some escn, ei_dynstr := d\<rparr>)\<rparr>"
    using t u(1) by (auto simp: dynstr_cached_def upd_ei_def)
  then have "fills_caches ei escn dynstr s t" using u(2,3) unfolding fills_caches_def by blast
  moreover have "(?g i \<bind> k) = k (the (?g i))" if "find P [0..<nr_ent escn] = Some i"
    for P i and k :: "Elf_Sym \<Rightarrow> (int \<times> 'a pst) option"
  proof -
    have "?g i \<noteq> None" using that assms(4) by (auto simp: readable_syms_def find_Some_iff)
    then show ?thesis by auto
  qed
  ultimately show ?thesis
    using set f \<open>ei_elf (ei_of u ei) = ?e\<close>
    by (intro exI[of _ t]) (auto simp: elf_dyn_sym_value_def elf_find_dsym_by_name_def find_dyn_sym_def
        find_sym_def find_map split: option.splits)
qed

theorem elf_dyn_sym_value_first_witness:
  "(let s = sim_state\<lparr>ei_of := (\<lambda>p. demo_ei)\<rparr>
    in ei_dynsym (ei_of s 5) = None \<and> ei_dynstr (ei_of s 5) = None
       \<and> (\<exists>t. fills_caches 5 \<lparr>scn_ndx = 2, nr_ent = 2\<rparr> 3 s t \<and> elf_dyn_sym_value sim_ext 5 ''foo'' s = Some (0x1234, t)))"
proof -
  let ?s = "sim_state\<lparr>ei_of := (\<lambda>p. demo_ei)\<rparr>"
  have r: "readable_syms demo_elf 3 \<lparr>scn_ndx = 2, nr_ent = 2\<rparr>"
    by (auto simp: readable_syms_def demo_elf_def less_Suc_eq numeral_2_eq_2)
  have e: "ei_elf demo_ei = demo_elf" "ei_dynsym demo_ei = None" "ei_dynstr demo_ei = None"
    by (simp_all add: demo_ei_def)
  have "dynsym_table demo_ei = Some \<lparr>scn_ndx = 2, nr_ent = 2\<rparr>" "dynstr_section demo_ei = Some 3"
    by (simp_all add: dynsym_table_def dynstr_section_def section_eval sect_nr_ent_def demo_ei_def demo_elf_def sim_elf_def)
  with elf_dyn_sym_value_first[of ?s 5 "\<lparr>scn_ndx = 2, nr_ent = 2\<rparr>" 3 sim_ext "''foo''"] r e
  have "\<exists>t. fills_caches 5 \<lparr>scn_ndx = 2, nr_ent = 2\<rparr> 3 ?s t \<and> elf_dyn_sym_value sim_ext 5 ''foo'' ?s = Some (0x1234, t)"
    by (simp add: demo_elf_def sym_named_def upt_rec)
  with e show ?thesis by (simp add: Let_def)
qed

end
