(* ===== verification/X86_64.thy ===== *)
theory X86_64
  imports Nsb_Prelude
begin

text \<open>
  The instruction encoder \<open>patcher/x86_64.c\<close>: the reachable range of a relative jump,
  the five-byte \<open>jmp rel32\<close> that redirects a patched function, and the call stub that
  runs a function of the target process. A code buffer is the list of its bytes. The
  decoders \<open>jmp_target\<close>, \<open>call_target\<close> and \<open>mov_imm64\<close> state what the processor does with
  the bytes; they are specification, not code of the program.
\<close>

definition X86_64_JUMP_RANGE :: u64 where
  "X86_64_JUMP_RANGE = push_bit 30 2"

definition X86_64_CALL_MAX_SIZE :: u64 where
  "X86_64_CALL_MAX_SIZE = 102"

definition x86_jump_min_address :: "u64 \<Rightarrow> u64" where
  "x86_jump_min_address address =
     (if address > X86_64_JUMP_RANGE then address - X86_64_JUMP_RANGE else 0)"

definition x86_jump_max_address :: "u64 \<Rightarrow> u64" where
  "x86_jump_max_address address = address + X86_64_JUMP_RANGE"

definition labs :: "u64 \<Rightarrow> u64" where
  "labs x = (if sint x < 0 then - x else x)"

text \<open>The error code, or the 32-bit value stored through \<open>buf\<close>.\<close>

definition ip_gen_offset :: "u64 \<Rightarrow> u64 \<Rightarrow> nat \<Rightarrow> int + u32" where
  "ip_gen_offset next_ip tgt_pos addr_size =
     (if addr_size \<noteq> 4 then Inl (- ENOTSUP)
      else let offset = tgt_pos - next_ip in
        if labs offset AND NOT 0x7fffffff \<noteq> 0 then Inl (- EINVAL)
        else Inr (ucast offset))"

text \<open>A store past the end of the buffer is \<open>None\<close>.\<close>

definition x86_modify_instruction ::
    "byte list \<Rightarrow> nat \<Rightarrow> nat \<Rightarrow> u64 \<Rightarrow> u64 \<Rightarrow> (int \<times> byte list) option" where
  "x86_modify_instruction buf op_size addr_size cur_pos tgt_pos =
     (let instr_size = op_size + addr_size in
      case ip_gen_offset (cur_pos + of_nat instr_size) tgt_pos addr_size of
        Inl err \<Rightarrow> Some (-1, buf)
      | Inr off \<Rightarrow>
          if length buf < op_size + 4 then None
          else Some (int instr_size,
                     take op_size buf @ le_bytes 4 (ucast off) @ drop (op_size + 4) buf))"

definition x86_jmpq_instruction :: "byte list \<Rightarrow> u64 \<Rightarrow> u64 \<Rightarrow> (int \<times> byte list) option" where
  "x86_jmpq_instruction buf cur_pos tgt_pos =
     (if length buf < 5 then Some (- ENOSPC, buf)
      else x86_modify_instruction ((replicate (length buf) 0x90)[0 := 0xe9]) 1 4 cur_pos tgt_pos)"

definition mov_reg :: "byte \<Rightarrow> byte \<Rightarrow> u64 \<Rightarrow> byte list" where
  "mov_reg prefix reg imm = [prefix, reg] @ le_bytes 8 imm"

text \<open>
  The blob is a static object, but every byte of it that is returned is written on the
  way: the result depends on the arguments only.
\<close>

definition x86_64_call ::
    "u64 \<Rightarrow> u64 \<Rightarrow> u64 \<Rightarrow> u64 \<Rightarrow> u64 \<Rightarrow> u64 \<Rightarrow> u64 \<Rightarrow> u64 \<Rightarrow> (int \<times> byte list) option" where
  "x86_64_call call where_pos arg0 arg1 arg2 arg3 arg4 arg5 =
     (let movs = mov_reg 0x49 0xb9 arg5 @ mov_reg 0x49 0xb8 arg4 @ mov_reg 0x48 0xb9 arg3
               @ mov_reg 0x48 0xba arg2 @ mov_reg 0x48 0xbe arg1 @ mov_reg 0x48 0xbf arg0
      in do {
        (size, cmd) \<leftarrow> x86_modify_instruction [0xe8, 0, 0, 0, 0] 1 4
                         (where_pos + of_nat (length movs)) call;
        if size < 0 then Some (size, [])
        else let blob = movs @ cmd @ [0xcc] in Some (int (length blob), blob) })"

definition x86_64_dlopen :: "u64 \<Rightarrow> u64 \<Rightarrow> u64 \<Rightarrow> (int \<times> byte list) option" where
  "x86_64_dlopen dlopen_addr name_addr where_pos =
     x86_64_call dlopen_addr where_pos name_addr 1 0 0 0 0"

definition x86_64_dlclose :: "u64 \<Rightarrow> u64 \<Rightarrow> u64 \<Rightarrow> (int \<times> byte list) option" where
  "x86_64_dlclose dlclose_addr handle where_pos =
     x86_64_call dlclose_addr where_pos handle 0 0 0 0 0"

section \<open>What the processor does with the bytes\<close>

definition rel32_target :: "byte \<Rightarrow> byte list \<Rightarrow> u64 \<Rightarrow> u64 option" where
  "rel32_target opcode bs pos =
     (if length bs < 5 \<or> hd bs \<noteq> opcode then None
      else Some (pos + 5 + scast (ucast (le_word (take 4 (tl bs))) :: u32)))"

definition jmp_target :: "byte list \<Rightarrow> u64 \<Rightarrow> u64 option" where
  "jmp_target = rel32_target 0xe9"

definition call_target :: "byte list \<Rightarrow> u64 \<Rightarrow> u64 option" where
  "call_target = rel32_target 0xe8"

definition mov_imm64 :: "byte list \<Rightarrow> (byte \<times> byte \<times> u64) option" where
  "mov_imm64 bs = (if length bs < 10 then None else Some (bs ! 0, bs ! 1, le_word (take 8 (drop 2 bs))))"

section \<open>Offsets that fit into 32 bits\<close>

lemma and_not_mask31_eq_0: "(w :: u64) AND NOT 0x7fffffff = 0 \<longleftrightarrow> unat w < 2 ^ 31"
proof -
  have m: "(0x7fffffff :: u64) = mask 31" by (simp add: mask_eq_exp_minus_1)
  have "w AND NOT 0x7fffffff = 0 \<longleftrightarrow> take_bit 31 w = w"
    unfolding m by (auto simp: bit_eq_iff bit_simps)
  also have "\<dots> \<longleftrightarrow> unat w < 2 ^ 31"
    by (metis unsigned_take_bit_eq take_bit_nat_eq_self_iff word_unat_eq_iff)
  finally show ?thesis .
qed

lemma unat_labs: "int (unat (labs x)) = \<bar>sint x\<bar>"
proof -
  have x: "uint x < 2^64" "0 \<le> uint x" using uint_lt2p[of x] by auto
  then show ?thesis
    by (auto simp: labs_def sint_u64 uint_word_ariths zmod_zminus1_eq_if)
qed

lemma offset_fits_iff: "labs x AND NOT 0x7fffffff = 0 \<longleftrightarrow> \<bar>sint x\<bar> < 2 ^ 31"
proof -
  have "unat (labs x) < 2 ^ 31 \<longleftrightarrow> int (unat (labs x)) < int (2 ^ 31)"
    by (simp only: of_nat_less_iff)
  then show ?thesis unfolding and_not_mask31_eq_0 unat_labs by simp
qed

lemma ip_gen_offset_4:
  "ip_gen_offset next_ip tgt 4 =
     (if \<bar>sint (tgt - next_ip)\<bar> < 2 ^ 31 then Inr (ucast (tgt - next_ip)) else Inl (- EINVAL))"
  by (auto simp: ip_gen_offset_def Let_def offset_fits_iff[simplified])

lemma ucast_take_32: "(ucast (take_bit 32 (ucast (x :: u32) :: u64)) :: u32) = x"
  by (rule bit_eqI) (auto simp: bit_simps)

lemma rel32_roundtrip:
  fixes tgt cur :: u64
  assumes "\<bar>sint (tgt - (cur + 5))\<bar> < 2 ^ 31"
  shows "cur + 5 + scast (ucast (le_word (le_bytes 4 (ucast (ucast (tgt - (cur + 5)) :: u32)))) :: u32) = tgt"
  using scast_ucast_fits[OF assms] by (simp add: ucast_take_32)

lemma x86_modify_instruction_5:
  assumes "length buf \<ge> 5" and "buf ! 0 = opc"
  shows "x86_modify_instruction buf 1 4 cur tgt =
     (if \<bar>sint (tgt - (cur + 5))\<bar> < 2 ^ 31
      then Some (5, opc # le_bytes 4 (ucast (ucast (tgt - (cur + 5)) :: u32)) @ drop 5 buf)
      else Some (-1, buf))"
  using assms by (cases buf) (auto simp: x86_modify_instruction_def ip_gen_offset_4 Let_def)

lemma rel32_target_encoded:
  "\<bar>sint (tgt - (cur + 5))\<bar> < 2 ^ 31 \<Longrightarrow>
   rel32_target opc (opc # le_bytes 4 (ucast (ucast (tgt - (cur + 5)) :: u32)) @ rest) cur = Some tgt"
  using rel32_roundtrip[of tgt cur] by (simp add: rel32_target_def)

section \<open>Properties\<close>

lemma x86_jmpq_instruction_eq:
  assumes "length buf \<ge> 5"
  shows "x86_jmpq_instruction buf cur tgt =
    (if \<bar>sint (tgt - (cur + 5))\<bar> < 2 ^ 31
     then Some (5, 0xe9 # le_bytes 4 (ucast (ucast (tgt - (cur + 5)) :: u32))
                    @ replicate (length buf - 5) 0x90)
     else Some (-1, 0xe9 # replicate (length buf - 1) 0x90))"
proof -
  obtain n where n: "length buf = Suc n" "n \<ge> 4" using assms by (cases "length buf") auto
  have "x86_modify_instruction (0xe9 # replicate n 0x90) 1 4 cur tgt =
     (if \<bar>sint (tgt - (cur + 5))\<bar> < 2 ^ 31
      then Some (5, 0xe9 # le_bytes 4 (ucast (ucast (tgt - (cur + 5)) :: u32))
                     @ drop 5 (0xe9 # replicate n 0x90))
      else Some (-1, 0xe9 # replicate n 0x90))"
    by (rule x86_modify_instruction_5) (use n in auto)
  with n show ?thesis by (simp add: x86_jmpq_instruction_def numeral_eq_Suc)
qed

text \<open>
The jump written over a patched function really goes to the new function: when
\<open>x86_jmpq_instruction\<close> reports success for a buffer, the first five bytes decode, at the
address of the old function, as a jump to the new one; the report is 5, the buffer keeps its
length, and the bytes behind the instruction are NOPs.
\<close>
lemma jmpq_instruction_redirects:
  assumes "x86_jmpq_instruction buf cur tgt = Some (r, code)" and "0 \<le> r"
  shows "r = 5 \<and> length code = length buf \<and> jmp_target code cur = Some tgt
    \<and> drop 5 code = replicate (length buf - 5) 0x90"
proof -
  have len: "length buf \<ge> 5" using assms by (auto simp: x86_jmpq_instruction_def split: if_splits)
  note eq = x86_jmpq_instruction_eq[OF this, of cur tgt]
  from eq assms have fits: "\<bar>sint (tgt - (cur + 5))\<bar> < 2 ^ 31" by (auto split: if_splits)
  with eq assms have code: "r = 5" "code = 0xe9 # le_bytes 4 (ucast (ucast (tgt - (cur + 5)) :: u32))
                    @ replicate (length buf - 5) 0x90"
    by auto
  then show ?thesis
    using len fits by (simp add: jmp_target_def rel32_target_encoded del: le_bytes.simps)
qed

lemma jmpq_instruction_redirects_witness:
  "x86_jmpq_instruction (replicate 8 0) 0x401000 0x7f0000 = Some (5, [0xe9, 0xfb, 0xef, 0x3e, 0, 0x90, 0x90, 0x90])
   \<and> jmp_target [0xe9, 0xfb, 0xef, 0x3e, 0, 0x90, 0x90, 0x90] 0x401000 = Some 0x7f0000"
proof -
  have eq: "x86_jmpq_instruction (replicate 8 0) 0x401000 0x7f0000
      = Some (5, [0xe9, 0xfb, 0xef, 0x3e, 0, 0x90, 0x90, 0x90])"
    by (simp add: x86_jmpq_instruction_eq byte_eval)
  have "(0 :: int) \<le> 5" by simp
  with eq jmpq_instruction_redirects[OF eq] show ?thesis by blast
qed

text \<open>
The encoder always returns, never writes past the buffer, and succeeds exactly when the
buffer has room for the five bytes and the distance to the end of the instruction is less than
2 GB in either direction.
\<close>
lemma jmpq_instruction_total:
  "\<exists>r code. x86_jmpq_instruction buf cur tgt = Some (r, code) \<and> length code = length buf
     \<and> (0 \<le> r \<longleftrightarrow> 5 \<le> length buf \<and> \<bar>sint (tgt - (cur + 5))\<bar> < 2 ^ 31)"
proof (cases "5 \<le> length buf")
  case True
  then show ?thesis by (auto simp: x86_jmpq_instruction_eq)
next
  case False
  then show ?thesis by (simp add: x86_jmpq_instruction_def)
qed

lemma x86_64_call_eq:
  "x86_64_call call w a0 a1 a2 a3 a4 a5 =
    (if \<bar>sint (call - (w + 60 + 5))\<bar> < 2 ^ 31
     then Some (66, (mov_reg 0x49 0xb9 a5 @ mov_reg 0x49 0xb8 a4 @ mov_reg 0x48 0xb9 a3
               @ mov_reg 0x48 0xba a2 @ mov_reg 0x48 0xbe a1 @ mov_reg 0x48 0xbf a0)
               @ (0xe8 # le_bytes 4 (ucast (ucast (call - (w + 60 + 5)) :: u32))) @ [0xcc])
     else Some (-1, []))"
  unfolding x86_64_call_def Let_def
  by (subst x86_modify_instruction_5[where opc = "0xe8"]) (simp_all add: mov_reg_def)

text \<open>
C22: The call stub: when it is built, it is 66 bytes long (which fits the
\<open>X86_64_CALL_MAX_SIZE\<close> bytes the caller reserves), loads the six arguments into the registers
of the x86-64 calling convention, calls the requested function when it is placed at the address
it was built for, and ends in \<open>int3\<close>.
\<close>
theorem call_stub_correct:
  assumes "x86_64_call call w a0 a1 a2 a3 a4 a5 = Some (sz, code)" and "0 \<le> sz"
  shows "sz = 66 \<and> length code = 66 \<and> of_nat (length code) \<le> X86_64_CALL_MAX_SIZE
    \<and> mov_imm64 code = Some (0x49, 0xb9, a5)
    \<and> mov_imm64 (drop 10 code) = Some (0x49, 0xb8, a4)
    \<and> mov_imm64 (drop 20 code) = Some (0x48, 0xb9, a3)
    \<and> mov_imm64 (drop 30 code) = Some (0x48, 0xba, a2)
    \<and> mov_imm64 (drop 40 code) = Some (0x48, 0xbe, a1)
    \<and> mov_imm64 (drop 50 code) = Some (0x48, 0xbf, a0)
    \<and> call_target (drop 60 code) (w + 60) = Some call
    \<and> drop 65 code = [0xcc]"
proof -
  from assms have fits: "\<bar>sint (call - (w + 60 + 5))\<bar> < 2 ^ 31"
    by (auto simp: x86_64_call_eq split: if_splits)
  with assms have code: "code = (mov_reg 0x49 0xb9 a5 @ mov_reg 0x49 0xb8 a4 @ mov_reg 0x48 0xb9 a3
               @ mov_reg 0x48 0xba a2 @ mov_reg 0x48 0xbe a1 @ mov_reg 0x48 0xbf a0)
               @ (0xe8 # le_bytes 4 (ucast (ucast (call - (w + 60 + 5)) :: u32))) @ [0xcc]"
    and sz: "sz = 66" by (auto simp: x86_64_call_eq)
  have "call_target (drop 60 code) (w + 60) = Some call"
    using rel32_target_encoded[OF fits, of "0xe8" "[0xcc]"] by (simp add: code mov_reg_def call_target_def)
  then show ?thesis
    by (simp add: sz, simp add: code mov_reg_def mov_imm64_def X86_64_CALL_MAX_SIZE_def)
qed

theorem call_stub_correct_witness:
  "\<exists>sz code. x86_64_call 0x5000 0x1000 1 2 3 4 5 6 = Some (sz, code) \<and> length code = 66
     \<and> call_target (drop 60 code) (0x1000 + 60) = Some 0x5000"
proof -
  have "\<bar>sint (0x5000 - (0x1000 + 60 + 5) :: u64)\<bar> < 2 ^ 31" by simp
  then obtain code where eq: "x86_64_call 0x5000 0x1000 1 2 3 4 5 6 = Some (66, code)"
    unfolding x86_64_call_eq by (metis (no_types))
  have "(0 :: int) \<le> 66" by simp
  with eq call_stub_correct[OF eq] show ?thesis by blast
qed

end
