(* ===== verification/Dl_Map.thy ===== *)
theory Dl_Map
  imports Vma Elf X86_64
begin

text \<open>
  The loaded ELF objects of the target process, \<open>patcher/dl_map.c\<close>: grouping the memory
  areas by the file they map, the queries over the resulting list, symbol addresses, and
  the range a jump from the object can reach. Reading through the null pointer that
  \<open>first_dl_vma\<close> and \<open>last_dl_vma\<close> return for an object without areas is \<open>None\<close>.
\<close>

section \<open>One object\<close>

definition first_dl_vma :: "dl_map \<Rightarrow> ptr option" where
  "first_dl_vma dlm = (if dl_vmas dlm = [] then None else Some (hd (dl_vmas dlm)))"

definition last_dl_vma :: "dl_map \<Rightarrow> ptr option" where
  "last_dl_vma dlm = (if dl_vmas dlm = [] then None else Some (last (dl_vmas dlm)))"

definition dl_map_start :: "(ptr \<Rightarrow> vma_area) \<Rightarrow> dl_map \<Rightarrow> u64 option" where
  "dl_map_start vm dlm = map_option (\<lambda>p. vma_start (vm p)) (first_dl_vma dlm)"

definition dl_map_end :: "(ptr \<Rightarrow> vma_area) \<Rightarrow> dl_map \<Rightarrow> u64 option" where
  "dl_map_end vm dlm = map_option (\<lambda>p. vma_end (vm p)) (last_dl_vma dlm)"

definition dlm_load_base :: "'w pst \<Rightarrow> dl_map \<Rightarrow> u64 option" where
  "dlm_load_base s dlm =
     (if elf_type_dyn (ei_of s (dl_ei dlm)) then map_option (\<lambda>p. vma_start (vma_of s p)) (exec_vma dlm)
      else Some 0)"

definition alloc_dl_map :: "'w ext \<Rightarrow> ptr \<Rightarrow> string option \<Rightarrow> 'w pst \<Rightarrow> ptr option \<times> 'w pst" where
  "alloc_dl_map x ei path s =
     (case xmalloc x s of
        (None, s) \<Rightarrow> (None, s)
      | (Some dlm, s) \<Rightarrow>
          (Some dlm, upd_dlm dlm (\<lambda>_. \<lparr>dl_path = path, dl_vmas = [], dl_ei = ei, exec_vma = None\<rparr>) s))"

definition create_dl_map_by_vma :: "'w ext \<Rightarrow> ptr \<Rightarrow> 'w pst \<Rightarrow> ((int \<times> ptr) \<times> 'w pst) option" where
  "create_dl_map_by_vma x vma s = do {
     map_file \<leftarrow> vmap_file (vma_of s vma);
     ((err, ei), s) \<leftarrow> elf_create_info x map_file s;
     if err \<noteq> 0 then Some ((err, 0), s)
     else case alloc_dl_map x ei (vpath (vma_of s vma)) s of
            (None, s) \<Rightarrow> Some ((- ENOMEM, 0), elf_destroy_info x ei s)
          | (Some dlm, s) \<Rightarrow> Some ((0, dlm), s) }"

definition iterate_dl_vmas :: "dl_map \<Rightarrow> (ptr \<Rightarrow> 's \<Rightarrow> (int \<times> 's) option) \<Rightarrow> 's \<Rightarrow> (int \<times> 's) option" where
  "iterate_dl_vmas dlm actor s = iterate actor (dl_vmas dlm) s"

definition add_dl_vma :: "(ptr \<Rightarrow> vma_area) \<Rightarrow> ptr \<Rightarrow> ptr \<Rightarrow> ptr list \<Rightarrow> (int \<times> ptr list) option" where
  "add_dl_vma vm new_vma vma xs =
     (if vma_start (vm vma) < vma_start (vm new_vma) then Some (0, xs)
      else Some (1, insert_before vma new_vma xs))"

text \<open>The linking half of \<open>add_dl_vma_sorted\<close>, on the list of the object.\<close>

definition link_dl_vma :: "(ptr \<Rightarrow> vma_area) \<Rightarrow> dl_map \<Rightarrow> ptr \<Rightarrow> (int \<times> ptr list) option" where
  "link_dl_vma vm dlm vma =
     (case last_dl_vma dlm of
        None \<Rightarrow> Some (0, dl_vmas dlm @ [vma])
      | Some lvma \<Rightarrow>
          if vma_start (vm lvma) < vma_start (vm vma) then Some (0, dl_vmas dlm @ [vma])
          else do {
            (ret, xs) \<leftarrow> iterate_dl_vmas dlm (add_dl_vma vm vma) (dl_vmas dlm);
            Some (if ret = 1 then 0 else if ret < 0 then ret else - EFAULT, xs) })"

definition add_dl_vma_sorted :: "ptr \<Rightarrow> ptr \<Rightarrow> 'w pst \<Rightarrow> (int \<times> 'w pst) option" where
  "add_dl_vma_sorted dlm vma s =
     (if vma_prot (vma_of s vma) AND PROT_EXEC \<noteq> 0 \<and> exec_vma (dlm_of s dlm) \<noteq> None
      then Some (- EINVAL, s)
      else let s = (if vma_prot (vma_of s vma) AND PROT_EXEC \<noteq> 0
                    then upd_dlm dlm (\<lambda>d. d\<lparr>exec_vma := Some vma\<rparr>) s else s)
           in do {
             (ret, xs) \<leftarrow> link_dl_vma (vma_of s) (dlm_of s dlm) vma;
             Some (ret, upd_dlm dlm (\<lambda>d. d\<lparr>dl_vmas := xs\<rparr>) s) })"

section \<open>The list of objects\<close>

text \<open>
  The state of the collection: the program state, the list being built (\<open>None\<close> for
  \<open>create_dl_map\<close>, which has no list) and the object of the previous area.
\<close>

type_synonym dl_info = "ptr list option \<times> ptr option"

definition collect_dl_map_vma ::
    "'w ext \<Rightarrow> ptr \<Rightarrow> 'w pst \<times> dl_info \<Rightarrow> (int \<times> 'w pst \<times> dl_info) option" where
  "collect_dl_map_vma x vma sd =
     (case sd of (s, head, cur) \<Rightarrow>
        case vmap_file (vma_of s vma) of
          None \<Rightarrow> Some (0, s, head, cur)
        | Some map_file \<Rightarrow>
            (case is_elf_file x map_file s of
               (False, s) \<Rightarrow> Some (0, s, head, cur)
             | (True, s) \<Rightarrow> do {
                 same \<leftarrow> (case cur of
                            None \<Rightarrow> Some False
                          | Some d \<Rightarrow> do {
                              dpath \<leftarrow> dl_path (dlm_of s d);
                              path \<leftarrow> vpath (vma_of s vma);
                              Some (dpath = path) });
                 ((err, dlm), s) \<leftarrow> (if same then Some ((0, the cur), s) else create_dl_map_by_vma x vma s);
                 if err \<noteq> 0 then Some (err, s, head, cur)
                 else let head = (if same then head else map_option (\<lambda>h. h @ [dlm]) head);
                          s = upd_vma vma (\<lambda>v. v\<lparr>vdlm := Some dlm\<rparr>) s
                      in do {
                        (err, s) \<leftarrow> add_dl_vma_sorted dlm vma s;
                        Some (err, s, head, Some dlm) } }))"

definition collect_dl_maps :: "'w ext \<Rightarrow> ptr list \<Rightarrow> ptr list \<Rightarrow> 'w pst \<Rightarrow> (int \<times> 'w pst \<times> ptr list) option" where
  "collect_dl_maps x vmas head s = do {
     (err, s, head', _) \<leftarrow> iterate_vmas vmas (collect_dl_map_vma x) (s, Some head, None);
     Some (err, s, the head') }"

text \<open>On success the object of the last area, null when there was none.\<close>

definition create_dl_map :: "'w ext \<Rightarrow> ptr list \<Rightarrow> 'w pst \<Rightarrow> ((int \<times> ptr option) \<times> 'w pst) option" where
  "create_dl_map x vmas s = do {
     (err, s, _, dlm) \<leftarrow> iterate_vmas vmas (collect_dl_map_vma x) (s, None, None);
     if err \<noteq> 0 then Some ((err, None), s) else Some ((0, dlm), s) }"

fun find_dl_map :: "ptr list \<Rightarrow> (ptr \<Rightarrow> int option) \<Rightarrow> ptr option option" where
  "find_dl_map [] actor = Some None"
| "find_dl_map (dlm # dlms) actor = do {
     ret \<leftarrow> actor dlm;
     if ret < 0 then Some None else if ret \<noteq> 0 then Some (Some dlm) else find_dl_map dlms actor }"

definition compare_bid :: "'w pst \<Rightarrow> string \<Rightarrow> ptr \<Rightarrow> int option" where
  "compare_bid s bid dlm =
     (case elf_bid (ei_of s (dl_ei (dlm_of s dlm))) of
        None \<Rightarrow> Some 0
      | Some b \<Rightarrow> Some (if b = bid then 1 else 0))"

definition find_dl_map_by_bid :: "'w pst \<Rightarrow> ptr list \<Rightarrow> string \<Rightarrow> ptr option option" where
  "find_dl_map_by_bid s dl_maps bid = find_dl_map dl_maps (compare_bid s bid)"

definition compare_addr :: "'w pst \<Rightarrow> u64 \<Rightarrow> ptr \<Rightarrow> int option" where
  "compare_addr s addr dlm = do {
     start \<leftarrow> dl_map_start (vma_of s) (dlm_of s dlm);
     if addr < start then Some 0
     else do {
       end \<leftarrow> dl_map_end (vma_of s) (dlm_of s dlm);
       if addr > end then Some 0 else Some 1 } }"

definition find_dl_map_by_addr :: "'w pst \<Rightarrow> ptr list \<Rightarrow> u64 \<Rightarrow> ptr option option" where
  "find_dl_map_by_addr s dl_maps addr = find_dl_map dl_maps (compare_addr s addr)"

definition iterate_dl_maps :: "ptr list \<Rightarrow> (ptr \<Rightarrow> 's \<Rightarrow> (int \<times> 's) option) \<Rightarrow> 's \<Rightarrow> (int \<times> 's) option" where
  "iterate_dl_maps head actor s = iterate actor head s"

section \<open>Symbols\<close>

text \<open>The state of the search is the program state and \<open>si->value\<close>.\<close>

definition dlm_find_sym ::
    "'w ext \<Rightarrow> string \<Rightarrow> ptr \<Rightarrow> 'w pst \<times> u64 \<Rightarrow> (int \<times> 'w pst \<times> u64) option" where
  "dlm_find_sym x name dlm sv =
     (case sv of (s, v) \<Rightarrow> do {
        (value, s) \<leftarrow> elf_dyn_sym_value x (dl_ei (dlm_of s dlm)) name s;
        if value \<le> 0 then Some (to_int value, s, v)
        else do {
          start \<leftarrow> dl_map_start (vma_of s) (dlm_of s dlm);
          Some (1, s, start + of_int value) } })"

definition dl_map_symbol_value :: "'w ext \<Rightarrow> ptr \<Rightarrow> string \<Rightarrow> 'w pst \<Rightarrow> (int \<times> 'w pst) option" where
  "dl_map_symbol_value x dlm name s = do {
     (ret, s, value) \<leftarrow> dlm_find_sym x name dlm (s, 0);
     Some (if ret = 1 then sint value else if ret < 0 then ret else - ENOENT, s) }"

definition dl_get_symbol_value :: "'w ext \<Rightarrow> ptr list \<Rightarrow> string \<Rightarrow> 'w pst \<Rightarrow> (int \<times> 'w pst) option" where
  "dl_get_symbol_value x dl_maps name s = do {
     (ret, s, value) \<leftarrow> iterate_dl_maps dl_maps (dlm_find_sym x name) (s, 0);
     Some (if ret < 0 then ret else if ret = 0 then - ENOENT else sint value, s) }"

section \<open>Jump range\<close>

definition dl_map_jump_hint :: "'w pst \<Rightarrow> dl_map \<Rightarrow> u64 option" where
  "dl_map_jump_hint s dlm =
     (if \<not> elf_type_dyn (ei_of s (dl_ei dlm)) then dl_map_end (vma_of s) dlm
      else map_option x86_jump_min_address (dl_map_end (vma_of s) dlm))"

definition dl_map_check_jump_range :: "(ptr \<Rightarrow> vma_area) \<Rightarrow> dl_map \<Rightarrow> u64 \<Rightarrow> int option" where
  "dl_map_check_jump_range vm dlm base = do {
     lvma \<leftarrow> last_dl_vma dlm;
     if base < x86_jump_min_address (vma_end (vm lvma)) then Some (- ERANGE)
     else do {
       fvma \<leftarrow> first_dl_vma dlm;
       if base > x86_jump_max_address (vma_start (vm fvma)) then Some (- ERANGE) else Some 0 } }"

section \<open>The iterators and the ordered insertion\<close>

interpretation dl_vmas_iter: iterator "\<lambda>xs actor s. iterate_dl_vmas (d\<lparr>dl_vmas := xs\<rparr>) actor s" for d
  unfolding iterate_dl_vmas_def by unfold_locales (simp_all cong: if_cong)

interpretation dl_maps_iter: iterator "\<lambda>xs actor s. iterate_dl_maps xs actor s"
  unfolding iterate_dl_maps_def by unfold_locales simp_all

lemma link_dl_vma_eq: "link_dl_vma vm dlm v = add_vma_sorted vm (dl_vmas dlm) v"
proof -
  have "add_dl_vma vm = add_vma vm" by (intro ext) (simp add: add_dl_vma_def add_vma_def)
  then show ?thesis
    by (simp add: link_dl_vma_def add_vma_sorted_def last_dl_vma_def last_vma_def iterate_dl_vmas_def
        iterate_vmas_def)
qed

interpretation dl_vma_list:
    sorted_insert "\<lambda>p. vma_start (vm p)" "\<lambda>xs v. link_dl_vma vm (d\<lparr>dl_vmas := xs\<rparr>) v" for vm d
  by unfold_locales (simp add: link_dl_vma_eq add_vma_sorted_eq)

text \<open>
  An object in order: its areas are sorted by address, and \<open>exec_vma\<close> is the one executable
  area among them.
\<close>

definition is_exec :: "vma_area \<Rightarrow> bool" where
  "is_exec vma \<longleftrightarrow> vma_prot vma AND PROT_EXEC \<noteq> 0"

definition dlm_ok :: "(ptr \<Rightarrow> vma_area) \<Rightarrow> dl_map \<Rightarrow> bool" where
  "dlm_ok vm dlm \<longleftrightarrow> sorted (map (\<lambda>p. vma_start (vm p)) (dl_vmas dlm))
     \<and> {p \<in> set (dl_vmas dlm). is_exec (vm p)} = set_option (exec_vma dlm)"

lemma dlm_ok_cong:
  "(\<And>p. vma_start (vm' p) = vma_start (vm p) \<and> vma_prot (vm' p) = vma_prot (vm p)) \<Longrightarrow> dlm_ok vm' dlm = dlm_ok vm dlm"
  by (simp add: dlm_ok_def is_exec_def)

lemma dlm_ok_empty [simp]: "dl_vmas d = [] \<Longrightarrow> exec_vma d = None \<Longrightarrow> dlm_ok vm d"
  by (simp add: dlm_ok_def)

lemma add_dl_vma_sorted_cases:
  assumes ok: "dlm_ok (vma_of s) (dlm_of s d)"
  shows "(is_exec (vma_of s v) \<and> exec_vma (dlm_of s d) \<noteq> None \<and> add_dl_vma_sorted d v s = Some (- EINVAL, s))
    \<or> (\<exists>d'. add_dl_vma_sorted d v s = Some (0, s\<lparr>dlm_of := (dlm_of s)(d := d')\<rparr>)
          \<and> dlm_ok (vma_of s) d' \<and> mset (dl_vmas d') = add_mset v (mset (dl_vmas (dlm_of s d)))
          \<and> dl_path d' = dl_path (dlm_of s d) \<and> dl_ei d' = dl_ei (dlm_of s d))"
proof (cases "is_exec (vma_of s v) \<and> exec_vma (dlm_of s d) \<noteq> None")
  case True
  then show ?thesis by (auto simp: add_dl_vma_sorted_def is_exec_def)
next
  case False
  define d1 where "d1 = (if is_exec (vma_of s v) then (dlm_of s d)\<lparr>exec_vma := Some v\<rparr> else dlm_of s d)"
  let ?key = "\<lambda>p. vma_start (vma_of s p)"
  have srt: "sorted (map ?key (dl_vmas d1))" using ok by (simp add: d1_def dlm_ok_def)
  from dl_vma_list.ins_keeps_sorted[OF srt, of d1] obtain zs where
    z: "link_dl_vma (vma_of s) d1 v = Some (0, zs)" "sorted (map ?key zs)" "mset zs = add_mset v (mset (dl_vmas d1))"
    by auto
  let ?d' = "d1\<lparr>dl_vmas := zs\<rparr>"
  have st: "(if vma_prot (vma_of s v) AND PROT_EXEC \<noteq> 0 then upd_dlm d (\<lambda>d. d\<lparr>exec_vma := Some v\<rparr>) s else s)
      = s\<lparr>dlm_of := (dlm_of s)(d := d1)\<rparr>"
    by (simp add: d1_def is_exec_def upd_dlm_def)
  have add: "add_dl_vma_sorted d v s = Some (0, s\<lparr>dlm_of := (dlm_of s)(d := ?d')\<rparr>)"
    using False z(1) unfolding add_dl_vma_sorted_def st Let_def
    by (auto simp: is_exec_def upd_dlm_def)
  have set: "set zs = insert v (set (dl_vmas (dlm_of s d)))"
    using z(3) by (metis (no_types, lifting) d1_def list.set(2) mset.simps(2) mset_eq_setD dl_map.ext_inject
        dl_map.surjective dl_map.update_convs(4))
  have "dlm_ok (vma_of s) ?d'"
    using False ok z(2) set by (auto simp: dlm_ok_def d1_def)
  with add z(3) show ?thesis by (auto simp: d1_def)
qed

text \<open>
  Adding an area to a loaded object keeps the object in order: the areas stay sorted
  by address, and \<open>exec_vma\<close> stays the only executable area. A second executable area is
  refused with \<open>-EINVAL\<close> and changes nothing; every other area is linked in.
\<close>

lemma add_dl_vma_sorted_correct:
  assumes "dlm_ok (vma_of s) (dlm_of s d)"
  shows "\<exists>ret t. add_dl_vma_sorted d v s = Some (ret, t) \<and> dlm_ok (vma_of t) (dlm_of t d)
    \<and> (if is_exec (vma_of s v) \<and> exec_vma (dlm_of s d) \<noteq> None then ret = - EINVAL \<and> t = s
       else ret = 0 \<and> mset (dl_vmas (dlm_of t d)) = add_mset v (mset (dl_vmas (dlm_of s d))))"
proof (cases "is_exec (vma_of s v) \<and> exec_vma (dlm_of s d) \<noteq> None")
  case True
  with assms show ?thesis by (auto simp: add_dl_vma_sorted_def is_exec_def)
next
  case False
  with add_dl_vma_sorted_cases[OF assms, of v] show ?thesis by auto
qed

definition two_areas :: "simw pst" where
  "two_areas = sim_state\<lparr>vma_of := (\<lambda>p. sim_vma\<lparr>vaddr := 0x1000 * of_nat p, vlen := 0x1000, vprot := if p = 2 then 5 else 1\<rparr>),
     dlm_of := (\<lambda>d. sim_dlm\<lparr>dl_vmas := [2, 4], exec_vma := Some 2\<rparr>)\<rparr>"

lemma two_areas_ok: "dlm_ok (vma_of two_areas) (dlm_of two_areas d)"
  by (auto simp: dlm_ok_def two_areas_def sim_dlm_def sim_vma_def is_exec_def vma_accessors)

lemma add_dl_vma_sorted_correct_witness:
  "\<exists>t. add_dl_vma_sorted 0 3 two_areas = Some (0, t) \<and> dl_vmas (dlm_of t 0) = [2, 3, 4]
     \<and> dlm_ok (vma_of t) (dlm_of t 0)"
proof -
  have "map_option (\<lambda>(r, t). (r, dl_vmas (dlm_of t 0))) (add_dl_vma_sorted 0 3 two_areas) = Some (0, [2, 3, 4])"
    by (simp add: add_dl_vma_sorted_def link_dl_vma_def last_dl_vma_def iterate_dl_vmas_def add_dl_vma_def
        insert_before_def two_areas_def vma_accessors sim_dlm_def sim_vma_def)
  with add_dl_vma_sorted_correct[OF two_areas_ok, of 0 3] show ?thesis by auto
qed

section \<open>Collecting the objects\<close>

definition link_inv :: "'w pst \<Rightarrow> ptr list \<Rightarrow> ptr option \<Rightarrow> bool" where
  "link_inv s head cur \<longleftrightarrow> distinct head \<and> set_option cur \<subseteq> set head
     \<and> (\<forall>d \<in> set head. d < brk s \<and> dlm_ok (vma_of s) (dlm_of s d)
           \<and> (\<forall>v \<in> set (dl_vmas (dlm_of s d)). vdlm (vma_of s v) = Some d))"

lemma link_inv_frame:
  "ei_frame ei s t \<Longrightarrow> link_inv s head cur \<Longrightarrow> link_inv t head cur"
  by (auto simp: link_inv_def ei_frame_def)

lemma create_dl_map_by_vma_spec:
  assumes "create_dl_map_by_vma x v s = Some ((err, p), t)"
  shows "vma_of t = vma_of s \<and> brk s \<le> brk t \<and> (\<forall>q < brk s. dlm_of t q = dlm_of s q)
    \<and> (err = 0 \<longrightarrow> brk s \<le> p \<and> p < brk t \<and> dl_vmas (dlm_of t p) = [] \<and> exec_vma (dlm_of t p) = None)"
proof -
  from assms obtain mf e ei u where ci: "elf_create_info x mf s = Some ((e, ei), u)"
    and rest: "(if e \<noteq> 0 then Some ((e, 0), u)
       else case alloc_dl_map x ei (vpath (vma_of u v)) u of
            (None, s) \<Rightarrow> Some ((- ENOMEM, 0), elf_destroy_info x ei s)
          | (Some dlm, s) \<Rightarrow> Some ((0, dlm), s)) = Some ((err, p), t)"
    by (auto simp: create_dl_map_by_vma_def split: bind_splits)
  note f = elf_create_info_fresh[OF ci]
  have des: "vma_of (elf_destroy_info x ei w) = vma_of w \<and> dlm_of (elf_destroy_info x ei w) = dlm_of w
      \<and> brk (elf_destroy_info x ei w) = brk w" for w
    by (auto simp: elf_destroy_info_def split: prod.splits dest!: ext_call_keeps)
  show ?thesis
    using rest f
    by (auto simp: ei_fresh_def alloc_dl_map_def des split: if_splits prod.splits option.splits
        dest!: xmalloc_keeps)
qed

text \<open>Linking an area that is on no object yet to an object of the list.\<close>

lemma link_area:
  assumes inv: "link_inv s head (Some d)" and new: "vdlm (vma_of s v) = None"
    and add: "add_dl_vma_sorted d v (upd_vma v (\<lambda>a. a\<lparr>vdlm := Some d\<rparr>) s) = Some (err, t)"
  shows "link_inv t head (Some d) \<and> (\<forall>u. u \<noteq> v \<longrightarrow> vma_of t u = vma_of s u) \<and> vdlm (vma_of t v) = Some d
    \<and> (err = 0 \<longrightarrow> v \<in> set (dl_vmas (dlm_of t d)))
    \<and> (\<forall>q. set (dl_vmas (dlm_of s q)) \<subseteq> set (dl_vmas (dlm_of t q)))"
proof -
  let ?s = "upd_vma v (\<lambda>a. a\<lparr>vdlm := Some d\<rparr>) s"
  have okc: "dlm_ok (vma_of ?s) m = dlm_ok (vma_of s) m" for m
    by (rule dlm_ok_cong) (simp add: vma_accessors)
  have fresh: "v \<notin> set (dl_vmas (dlm_of s q))" if "q \<in> set head" for q
    using inv new that by (auto simp: link_inv_def)
  have d: "d \<in> set head" using inv by (simp add: link_inv_def)
  have ok: "dlm_ok (vma_of ?s) (dlm_of ?s d)" using inv d okc by (simp add: link_inv_def)
  from add_dl_vma_sorted_cases[OF ok, of v] show ?thesis
  proof
    assume "is_exec (vma_of ?s v) \<and> exec_vma (dlm_of ?s d) \<noteq> None \<and> add_dl_vma_sorted d v ?s = Some (- EINVAL, ?s)"
    with add have t: "t = ?s" and "err = - EINVAL" by auto
    moreover have "link_inv ?s head (Some d)"
      using inv okc fresh by (auto simp: link_inv_def)
    ultimately show ?thesis by auto
  next
    assume "\<exists>d'. add_dl_vma_sorted d v ?s = Some (0, ?s\<lparr>dlm_of := (dlm_of ?s)(d := d')\<rparr>)
      \<and> dlm_ok (vma_of ?s) d' \<and> mset (dl_vmas d') = add_mset v (mset (dl_vmas (dlm_of ?s d)))
      \<and> dl_path d' = dl_path (dlm_of ?s d) \<and> dl_ei d' = dl_ei (dlm_of ?s d)"
    then obtain d' where a: "add_dl_vma_sorted d v ?s = Some (0, ?s\<lparr>dlm_of := (dlm_of ?s)(d := d')\<rparr>)"
      and ok': "dlm_ok (vma_of ?s) d'" and m: "mset (dl_vmas d') = add_mset v (mset (dl_vmas (dlm_of s d)))"
      by auto
    from m have st: "set (dl_vmas d') = insert v (set (dl_vmas (dlm_of s d)))"
      by (metis list.set(2) mset.simps(2) mset_eq_setD)
    from a add have t: "t = ?s\<lparr>dlm_of := (dlm_of ?s)(d := d')\<rparr>" and "err = 0" by auto
    have "link_inv t head (Some d)"
      using inv okc fresh ok' st unfolding t link_inv_def by auto
    with t st show ?thesis by auto
  qed
qed

definition linked :: "'w pst \<Rightarrow> ptr list \<Rightarrow> ptr \<Rightarrow> bool" where
  "linked s head v \<longleftrightarrow> (\<forall>d. vdlm (vma_of s v) = Some d \<longrightarrow> d \<in> set head \<and> v \<in> set (dl_vmas (dlm_of s d)))"

definition grows :: "'w pst \<Rightarrow> ptr list \<Rightarrow> 'w pst \<Rightarrow> ptr list \<Rightarrow> bool" where
  "grows s head t head' \<longleftrightarrow> set head \<subseteq> set head'
     \<and> (\<forall>d \<in> set head. set (dl_vmas (dlm_of s d)) \<subseteq> set (dl_vmas (dlm_of t d)))"

lemma collect_step:
  assumes step: "collect_dl_map_vma x v (s, Some head, cur) = Some (err, t, head', cur')"
    and inv: "link_inv s head cur" and new: "vdlm (vma_of s v) = None"
  shows "\<exists>h. head' = Some h \<and> link_inv t h cur' \<and> (\<forall>u. u \<noteq> v \<longrightarrow> vma_of t u = vma_of s u)
    \<and> grows s head t h \<and> (err = 0 \<longrightarrow> linked t h v)"
proof (cases "vmap_file (vma_of s v)")
  case None
  with step inv new show ?thesis by (auto simp: collect_dl_map_vma_def grows_def linked_def)
next
  case (Some mf)
  obtain b s1 where el: "is_elf_file x mf s = (b, s1)" by fastforce
  note fr = is_elf_file_frame[OF el, of 0]
  have inv1: "link_inv s1 head cur" using link_inv_frame[OF fr inv] .
  have same1: "vma_of s1 = vma_of s" "dlm_of s1 = dlm_of s" using fr by (simp_all add: ei_frame_def)
  show ?thesis
  proof (cases b)
    case False
    with step Some el inv1 same1 new show ?thesis
      by (auto simp: collect_dl_map_vma_def grows_def linked_def)
  next
    case True
    let ?E = "case cur of None \<Rightarrow> Some False
      | Some d \<Rightarrow> do { dpath \<leftarrow> dl_path (dlm_of s1 d); path \<leftarrow> vpath (vma_of s1 v); Some (dpath = path) }"
    have st: "(do { same \<leftarrow> ?E;
          ((err, dlm), s) \<leftarrow> (if same then Some ((0, the cur), s1) else create_dl_map_by_vma x v s1);
          if err \<noteq> 0 then Some (err, s, Some head, cur)
          else do { (err, s) \<leftarrow> add_dl_vma_sorted dlm v (upd_vma v (\<lambda>a. a\<lparr>vdlm := Some dlm\<rparr>) s);
                    Some (err, s, if same then Some head else map_option (\<lambda>h. h @ [dlm]) (Some head), Some dlm) } })
        = Some (err, t, head', cur')"
      using step Some el True unfolding collect_dl_map_vma_def Let_def by simp
    then obtain same where so: "?E = Some same" by (cases ?E) simp_all
    then have sm: "same \<longrightarrow> cur \<noteq> None" by (auto split: option.splits)
    obtain e d s2 where
      mk: "(if same then Some ((0, the cur), s1) else create_dl_map_by_vma x v s1) = Some ((e, d), s2)"
      using st unfolding so by (auto split: bind_splits)
    have rest: "(if e \<noteq> 0 then Some (e, s2, Some head, cur)
         else do { (err, s) \<leftarrow> add_dl_vma_sorted d v (upd_vma v (\<lambda>a. a\<lparr>vdlm := Some d\<rparr>) s2);
                   Some (err, s, if same then Some head else map_option (\<lambda>h. h @ [d]) (Some head), Some d) })
        = Some (err, t, head', cur')"
      using st unfolding so mk bind.bind_lunit by simp
    have cr: "vma_of s2 = vma_of s \<and> (\<forall>q \<in> set head. dlm_of s2 q = dlm_of s q)
      \<and> link_inv s2 head cur
      \<and> (e = 0 \<longrightarrow> link_inv s2 (if same then head else head @ [d]) (Some d))"
    proof (cases same)
      case True
      with mk sm inv1 same1 show ?thesis by (auto simp: link_inv_def)
    next
      case False
      with mk have "create_dl_map_by_vma x v s1 = Some ((e, d), s2)" by simp
      from create_dl_map_by_vma_spec[OF this] inv1 same1 False show ?thesis
        by (auto simp: link_inv_def)
    qed
    show ?thesis
    proof (cases "e = 0")
      case False
      with rest cr show ?thesis by (auto simp: grows_def)
    next
      case True
      with rest have
        add: "add_dl_vma_sorted d v (upd_vma v (\<lambda>a. a\<lparr>vdlm := Some d\<rparr>) s2) = Some (err, t)"
        and out: "head' = Some (if same then head else head @ [d])" "cur' = Some d"
        by (auto split: bind_splits if_splits)
      from cr True have i2: "link_inv s2 (if same then head else head @ [d]) (Some d)"
        and n2: "vdlm (vma_of s2 v) = None" using new by auto
      note l = link_area[OF i2 n2 add]
      from i2 have dh: "d \<in> set (if same then head else head @ [d])" by (simp add: link_inv_def)
      have "\<forall>q \<in> set head. set (dl_vmas (dlm_of s q)) \<subseteq> set (dl_vmas (dlm_of t q))" using cr l by metis
      then have g: "grows s head t (if same then head else head @ [d])" by (auto simp: grows_def)
      have o: "head' = Some (if same then head else head @ [d])" using out by simp
      have "\<forall>u. u \<noteq> v \<longrightarrow> vma_of t u = vma_of s u" using l cr by simp
      moreover have "err = 0 \<longrightarrow> linked t (if same then head else head @ [d]) v"
        using l dh by (simp add: linked_def)
      ultimately show ?thesis using o g l out(2) by blast
    qed
  qed
qed

lemma linked_grows:
  "linked s h v \<Longrightarrow> grows s h t h' \<Longrightarrow> vma_of t v = vma_of s v \<Longrightarrow> linked t h' v"
  by (auto simp: linked_def grows_def)

lemma grows_trans: "grows s h t h' \<Longrightarrow> grows t h' u h'' \<Longrightarrow> grows s h u h''"
  unfolding grows_def by blast

lemma collect_all:
  assumes "iterate (collect_dl_map_vma x) vmas (s, Some head, cur) = Some (err, t, head', cur')"
    and "link_inv s head cur" "distinct vmas" "\<forall>v \<in> set vmas. vdlm (vma_of s v) = None"
  shows "\<exists>h. head' = Some h \<and> link_inv t h cur' \<and> grows s head t h
    \<and> (\<forall>u. u \<notin> set vmas \<longrightarrow> vma_of t u = vma_of s u) \<and> (err = 0 \<longrightarrow> (\<forall>v \<in> set vmas. linked t h v))"
  using assms
proof (induction vmas arbitrary: s head cur)
  case Nil
  then show ?case by (auto simp: grows_def)
next
  case (Cons v vmas)
  from Cons.prems(1) obtain e s1 h1 c1 where
    st: "collect_dl_map_vma x v (s, Some head, cur) = Some (e, s1, h1, c1)"
    and rest: "(if e \<noteq> 0 then Some (e, s1, h1, c1) else iterate (collect_dl_map_vma x) vmas (s1, h1, c1))
      = Some (err, t, head', cur')"
    by (auto split: bind_splits)
  from collect_step[OF st Cons.prems(2)] Cons.prems(4) obtain h where
    h: "h1 = Some h" "link_inv s1 h c1" "\<forall>u. u \<noteq> v \<longrightarrow> vma_of s1 u = vma_of s u" "grows s head s1 h"
    "e = 0 \<longrightarrow> linked s1 h v" by auto
  show ?case
  proof (cases "e = 0")
    case False
    with rest h show ?thesis by auto
  next
    case True
    have "\<forall>w \<in> set vmas. vdlm (vma_of s1 w) = None" using Cons.prems(3,4) h(3) by auto
    with Cons.IH[of s1 h c1] rest True h Cons.prems(3) obtain h' where
      h': "head' = Some h'" "link_inv t h' cur'" "grows s1 h t h'"
      "\<forall>u. u \<notin> set vmas \<longrightarrow> vma_of t u = vma_of s1 u" "err = 0 \<longrightarrow> (\<forall>w \<in> set vmas. linked t h' w)"
      by auto
    have "linked t h' v" using linked_grows[OF _ h'(3)] h(5) True h'(4) Cons.prems(3) by auto
    with h' h(3,4) show ?thesis by (auto intro: grows_trans)
  qed
qed

text \<open>
  The areas that belong to an ELF file, split into runs: the objects correspond to the runs, in
  order; an object holds the areas of its run and has their path; neighbouring runs have
  different paths. The last object is the current one.
\<close>

definition in_runs :: "'w pst \<Rightarrow> ptr \<Rightarrow> ptr list \<Rightarrow> bool" where
  "in_runs s d run \<longleftrightarrow> run \<noteq> [] \<and> mset (dl_vmas (dlm_of s d)) = mset run
     \<and> (\<forall>v \<in> set run. vpath (vma_of s v) = dl_path (dlm_of s d))"

definition grouped :: "'w pst \<Rightarrow> ptr list \<Rightarrow> ptr list list \<Rightarrow> bool" where
  "grouped s head runs \<longleftrightarrow> list_all2 (in_runs s) head runs \<and> distinct_adj (map (\<lambda>d. dl_path (dlm_of s d)) head)"

definition current :: "ptr list \<Rightarrow> ptr option" where
  "current head = (if head = [] then None else Some (last head))"

lemma create_dl_map_by_vma_path:
  assumes "create_dl_map_by_vma x v s = Some ((0, p), t)"
  shows "dl_path (dlm_of t p) = vpath (vma_of s v)"
  using assms
  by (auto simp: create_dl_map_by_vma_def alloc_dl_map_def split: bind_splits if_splits option.splits prod.splits
      dest!: elf_create_info_frame)

text \<open>An area is skipped, joins the current object, or opens a new one.\<close>

lemma collect_dl_map_vma_cases:
  assumes "collect_dl_map_vma x v (s, Some head, cur) = Some (0, t, head', cur')"
  obtains (skip) "vma_of t = vma_of s" "dlm_of t = dlm_of s" "head' = Some head" "cur' = cur"
      "\<forall>mf. vmap_file (vma_of s v) = Some mf \<longrightarrow> \<not> fst (is_elf_file x mf s)"
    | (same) mf u d where "vmap_file (vma_of s v) = Some mf" "fst (is_elf_file x mf s)" "ei_frame 0 s u" "cur = Some d"
      "vpath (vma_of s v) = dl_path (dlm_of s d)"
      "add_dl_vma_sorted d v (upd_vma v (\<lambda>a. a\<lparr>vdlm := Some d\<rparr>) u) = Some (0, t)" "head' = Some head" "cur' = Some d"
    | (new) mf u d w where "vmap_file (vma_of s v) = Some mf" "fst (is_elf_file x mf s)" "ei_frame 0 s u"
      "\<forall>c. cur = Some c \<longrightarrow> vpath (vma_of s v) \<noteq> dl_path (dlm_of s c)"
      "create_dl_map_by_vma x v u = Some ((0, d), w)"
      "add_dl_vma_sorted d v (upd_vma v (\<lambda>a. a\<lparr>vdlm := Some d\<rparr>) w) = Some (0, t)" "head' = Some (head @ [d])" "cur' = Some d"
proof (cases "vmap_file (vma_of s v)")
  case None
  with assms show ?thesis by (intro skip) (auto simp: collect_dl_map_vma_def)
next
  case (Some mf)
  obtain b u where el: "is_elf_file x mf s = (b, u)" by fastforce
  note fr = is_elf_file_frame[OF el, of 0]
  then have su: "vma_of u = vma_of s" "dlm_of u = dlm_of s" by (simp_all add: ei_frame_def)
  show ?thesis
  proof (cases b)
    case False
    with assms Some el su show ?thesis by (intro skip) (auto simp: collect_dl_map_vma_def)
  next
    case True
    show ?thesis
    proof (cases "\<exists>d. cur = Some d \<and> vpath (vma_of s v) = dl_path (dlm_of s d)")
      case same1: True
      then obtain d where d: "cur = Some d" "vpath (vma_of s v) = dl_path (dlm_of s d)" by blast
      show ?thesis
        by (rule same[OF Some _ fr d]) (use assms Some el True d su in \<open>auto simp: collect_dl_map_vma_def Let_def split: bind_splits\<close>)
    next
      case new1: False
      then have ne: "\<forall>c. cur = Some c \<longrightarrow> vpath (vma_of s v) \<noteq> dl_path (dlm_of s c)" by blast
      with assms Some el True su obtain d w where
        "create_dl_map_by_vma x v u = Some ((0, d), w)"
        "add_dl_vma_sorted d v (upd_vma v (\<lambda>a. a\<lparr>vdlm := Some d\<rparr>) w) = Some (0, t)" "head' = Some (head @ [d])" "cur' = Some d"
        by (cases cur) (auto simp: collect_dl_map_vma_def Let_def split: bind_splits if_splits)
      from new[OF Some _ fr ne this] el True show ?thesis by simp
    qed
  qed
qed

text \<open>What linking an area leaves of the other objects and areas.\<close>

lemma link_area_frame:
  assumes ok: "dlm_ok (vma_of s) (dlm_of s d)"
    and add: "add_dl_vma_sorted d v (upd_vma v (\<lambda>a. a\<lparr>vdlm := Some d\<rparr>) s) = Some (0, t)"
  shows "mset (dl_vmas (dlm_of t d)) = add_mset v (mset (dl_vmas (dlm_of s d)))"
    and "dl_path (dlm_of t q) = dl_path (dlm_of s q)" "q \<noteq> d \<Longrightarrow> dlm_of t q = dlm_of s q"
    and "vpath (vma_of t u) = vpath (vma_of s u)" "vmap_file (vma_of t u) = vmap_file (vma_of s u)" "vdlm (vma_of t v) = Some d"
proof -
  let ?s = "upd_vma v (\<lambda>a. a\<lparr>vdlm := Some d\<rparr>) s"
  have "dlm_ok (vma_of ?s) (dlm_of s d) = dlm_ok (vma_of s) (dlm_of s d)"
    by (rule dlm_ok_cong) (simp add: vma_accessors)
  with add_dl_vma_sorted_cases[of ?s d v] add ok obtain d' where t: "t = ?s\<lparr>dlm_of := (dlm_of ?s)(d := d')\<rparr>"
    and d': "mset (dl_vmas d') = add_mset v (mset (dl_vmas (dlm_of s d)))" "dl_path d' = dl_path (dlm_of s d)" by auto
  then show "mset (dl_vmas (dlm_of t d)) = add_mset v (mset (dl_vmas (dlm_of s d)))"
    "dl_path (dlm_of t q) = dl_path (dlm_of s q)" "q \<noteq> d \<Longrightarrow> dlm_of t q = dlm_of s q"
    "vpath (vma_of t u) = vpath (vma_of s u)" "vmap_file (vma_of t u) = vmap_file (vma_of s u)" "vdlm (vma_of t v) = Some d"
    by auto
qed

lemma in_runs_cong:
  assumes "dlm_of t d = dlm_of s d" "\<And>u. vpath (vma_of t u) = vpath (vma_of s u)"
  shows "in_runs t d = in_runs s d"
  using assms by (simp add: in_runs_def fun_eq_iff)

lemma group_step:
  assumes step: "collect_dl_map_vma x v (s, Some head, current head) = Some (0, t, head', cur')"
    and inv: "link_inv s head (current head)" and new: "vdlm (vma_of s v) = None" and g: "grouped s head runs"
  shows "\<exists>h runs'. head' = Some h \<and> cur' = current h \<and> grouped t h runs'
    \<and> concat runs' = concat runs @ filter (\<lambda>v. vdlm (vma_of t v) \<noteq> None) [v]
    \<and> (vdlm (vma_of t v) \<noteq> None \<longleftrightarrow> (\<exists>mf. vmap_file (vma_of s v) = Some mf \<and> fst (is_elf_file x mf s)))
    \<and> (\<forall>u. vmap_file (vma_of t u) = vmap_file (vma_of s u))"
  using step
proof (cases rule: collect_dl_map_vma_cases)
  case skip
  with g new show ?thesis
    by (intro exI[of _ head] exI[of _ runs]) (auto simp: grouped_def in_runs_def[abs_def])
next
  case (same mf u d)
  from same(3,4) inv have u: "vma_of u = vma_of s" "dlm_of u = dlm_of s" and d: "head \<noteq> []" "d = last head"
    by (auto simp: ei_frame_def current_def split: if_splits)
  define hs where "hs = butlast head"
  have h: "head = hs @ [d]" using d by (simp add: hs_def)
  have dn: "d \<notin> set hs" and "dlm_ok (vma_of u) (dlm_of u d)" using inv h u by (auto simp: link_inv_def)
  note l = link_area_frame[OF this(2) same(6)]
  from g h obtain rs r where r: "runs = rs @ [r]" "list_all2 (in_runs s) hs rs" "in_runs s d r"
    by (auto simp: grouped_def list_all2_append1 list_all2_Cons1)
  have keep: "in_runs t z = in_runs s z" if "z \<in> set hs" for z
  proof -
    have "z \<noteq> d" using that dn by blast
    from in_runs_cong[of t z s] l(3)[OF this] l(4) u show ?thesis by simp
  qed
  have "list_all2 (in_runs t) hs rs"
    using r(2) by (rule list.rel_mono_strong) (simp add: keep)
  moreover have "in_runs t d (r @ [v])"
    using r(3) l(1,2,4) same(5) u by (auto simp: in_runs_def)
  ultimately have "grouped t head (rs @ [r @ [v]])"
    using g h l(2) u by (simp add: grouped_def list_all2_appendI)
  then show ?thesis
    using same l(5,6) d r(1) u by (intro exI[of _ head] exI[of _ "rs @ [r @ [v]]"]) (auto simp: current_def)
next
  case (new mf u d w)
  from new(3) have u: "vma_of u = vma_of s" "dlm_of u = dlm_of s" "brk u = brk u" and bu: "brk s \<le> brk u"
    by (auto simp: ei_frame_def)
  note c = create_dl_map_by_vma_spec[OF new(5)] create_dl_map_by_vma_path[OF new(5)]
  have dn: "d \<notin> set head" and old: "\<forall>q \<in> set head. dlm_of w q = dlm_of s q"
    using c(1) inv u bu by (auto simp: link_inv_def)
  have "dlm_ok (vma_of w) (dlm_of w d)" using c(1) by (simp add: dlm_ok_def)
  note l = link_area_frame[OF this new(6)]
  have keep: "in_runs t z = in_runs s z" if "z \<in> set head" for z
  proof -
    have "z \<noteq> d" using that dn by blast
    from in_runs_cong[of t z s] l(3)[OF this] l(4) that old c(1) u show ?thesis by simp
  qed
  from g have "list_all2 (in_runs s) head runs" by (simp add: grouped_def)
  then have "list_all2 (in_runs t) head runs"
    by (rule list.rel_mono_strong) (simp add: keep)
  moreover have "in_runs t d [v]" using l(1,2,4) c u by (auto simp: in_runs_def)
  moreover have "distinct_adj (map (\<lambda>d. dl_path (dlm_of t d)) (head @ [d]))"
  proof -
    have m: "map (\<lambda>d. dl_path (dlm_of t d)) head = map (\<lambda>d. dl_path (dlm_of s d)) head"
      using l(2) old by simp
    have "head \<noteq> [] \<longrightarrow> dl_path (dlm_of s (last head)) \<noteq> dl_path (dlm_of t d)"
      using new(4) l(2) c(2) u by (auto simp: current_def)
    with g show ?thesis unfolding map_append m by (auto simp: grouped_def distinct_adj_append_iff last_map)
  qed
  ultimately have "grouped t (head @ [d]) (runs @ [[v]])"
    by (simp add: grouped_def list_all2_appendI)
  then show ?thesis
    using new l(5,6) u c(1) by (intro exI[of _ "head @ [d]"] exI[of _ "runs @ [[v]]"]) (auto simp: current_def)
qed

lemma collect_groups:
  assumes "iterate (collect_dl_map_vma x) vmas (s, Some head, current head) = Some (0, t, head', cur')"
    and "link_inv s head (current head)" "distinct vmas" "\<forall>v \<in> set vmas. vdlm (vma_of s v) = None" "grouped s head runs"
  shows "\<exists>h runs'. head' = Some h \<and> grouped t h runs'
    \<and> concat runs' = concat runs @ filter (\<lambda>v. vdlm (vma_of t v) \<noteq> None) vmas
    \<and> (\<forall>u. vmap_file (vma_of t u) = vmap_file (vma_of s u))
    \<and> ((\<forall>mf u. fst (is_elf_file x mf u) = is_elf mf) \<longrightarrow>
         (\<forall>v \<in> set vmas. vdlm (vma_of t v) \<noteq> None \<longleftrightarrow> (\<exists>mf. vmap_file (vma_of s v) = Some mf \<and> is_elf mf)))"
  using assms
proof (induction vmas arbitrary: s head runs)
  case Nil
  then show ?case by auto
next
  case (Cons v vmas)
  from Cons.prems(1) obtain s1 h1 c1 where
    st: "collect_dl_map_vma x v (s, Some head, current head) = Some (0, s1, h1, c1)"
    and rest: "iterate (collect_dl_map_vma x) vmas (s1, h1, c1) = Some (0, t, head', cur')"
    by (auto split: bind_splits if_splits)
  from collect_step[OF st Cons.prems(2)] Cons.prems(4) obtain h where
    h: "h1 = Some h" "link_inv s1 h c1" "\<forall>u. u \<noteq> v \<longrightarrow> vma_of s1 u = vma_of s u" by auto
  from group_step[OF st Cons.prems(2) _ Cons.prems(5)] Cons.prems(4) h(1) obtain runs1 where
    r: "c1 = current h" "grouped s1 h runs1" "concat runs1 = concat runs @ filter (\<lambda>v. vdlm (vma_of s1 v) \<noteq> None) [v]"
    "vdlm (vma_of s1 v) \<noteq> None \<longleftrightarrow> (\<exists>mf. vmap_file (vma_of s v) = Some mf \<and> fst (is_elf_file x mf s))"
    "\<forall>u. vmap_file (vma_of s1 u) = vmap_file (vma_of s u)" by auto
  have new: "\<forall>w \<in> set vmas. vdlm (vma_of s1 w) = None" using Cons.prems(3,4) h(3) by auto
  note r0 = rest[unfolded h(1) r(1)] and l0 = h(2)[unfolded r(1)]
  have "vma_of t v = vma_of s1 v" using collect_all[OF r0 l0 _ new] Cons.prems(3) by auto
  with Cons.IH[OF r0 l0 _ new r(2)] Cons.prems(3) r(3-5) show ?case by (auto simp: h(3))
qed

text \<open>
  C25: Grouping the areas of a process by the ELF file they map. Every object on the list of
  objects is in order and its areas point back to it. When the collection succeeds, the areas
  that were given an object split into runs, in the order of the areas, one for each object on the list and
  in its order: an object holds exactly the areas of its run, all of which have the path of
  the object, and neighbouring objects have different paths. An area without a map file is given no object; where the
  test for an ELF file does not change its mind, the areas given an object are exactly those whose
  map file passes it.
\<close>

theorem collect_dl_maps_linked:
  assumes "collect_dl_maps x vmas [] s = Some (err, t, head)"
    and "distinct vmas" "\<forall>v \<in> set vmas. vdlm (vma_of s v) = None"
  shows "distinct head
    \<and> (\<forall>d \<in> set head. dlm_ok (vma_of t) (dlm_of t d) \<and> (\<forall>v \<in> set (dl_vmas (dlm_of t d)). vdlm (vma_of t v) = Some d))
    \<and> (err = 0 \<longrightarrow>
        (\<exists>runs. concat runs = filter (\<lambda>v. vdlm (vma_of t v) \<noteq> None) vmas \<and> grouped t head runs)
      \<and> (\<forall>v \<in> set vmas. \<forall>d. vdlm (vma_of t v) = Some d \<longrightarrow> d \<in> set head \<and> v \<in> set (dl_vmas (dlm_of t d)))
      \<and> ((\<forall>mf u. fst (is_elf_file x mf u) = is_elf mf) \<longrightarrow>
           (\<forall>v \<in> set vmas. vdlm (vma_of t v) \<noteq> None \<longleftrightarrow> (\<exists>mf. vmap_file (vma_of s v) = Some mf \<and> is_elf mf))))"
proof -
  from assms(1) obtain h' c where it: "iterate (collect_dl_map_vma x) vmas (s, Some [], None) = Some (err, t, h', c)"
    and hd: "head = the h'"
    by (auto simp: collect_dl_maps_def iterate_vmas_def split: bind_splits)
  have inv: "link_inv s [] None" by (simp add: link_inv_def)
  from collect_all[OF it inv assms(2,3)] obtain h where
    h: "h' = Some h" "link_inv t h c" "err = 0 \<longrightarrow> (\<forall>v \<in> set vmas. linked t h v)" by blast
  have hh: "head = h" using h hd by simp
  have "(\<exists>runs. concat runs = filter (\<lambda>v. vdlm (vma_of t v) \<noteq> None) vmas \<and> grouped t head runs)
      \<and> ((\<forall>mf u. fst (is_elf_file x mf u) = is_elf mf) \<longrightarrow>
           (\<forall>v \<in> set vmas. vdlm (vma_of t v) \<noteq> None \<longleftrightarrow> (\<exists>mf. vmap_file (vma_of s v) = Some mf \<and> is_elf mf)))" if "err = 0"
    using collect_groups[of x vmas s "[]" t h' c "[]" is_elf] it inv assms(2,3) that hh h(1)
    by (auto simp: current_def grouped_def)
  with hh h(2,3) show ?thesis unfolding link_inv_def linked_def by blast
qed

definition demo_areas :: "simw pst" where
  "demo_areas = sim_state\<lparr>world := demo_world,
     vma_of := (\<lambda>p. sim_vma\<lparr>vaddr := 0x1000 * of_nat p, vlen := 0x1000, vprot := if p = 2 then 5 else 1,
        vpath := Some (if p < 3 then ''/lib/demo.so'' else ''/lib/other.so''), vmap_file := Some ''demo.so''\<rparr>)\<rparr>"

theorem collect_dl_maps_linked_witness:
  "\<exists>t d e. collect_dl_maps sim_ext [1, 2, 3] [] demo_areas = Some (0, t, [d, e])
     \<and> dl_vmas (dlm_of t d) = [1, 2] \<and> dl_vmas (dlm_of t e) = [3] \<and> vdlm (vma_of t 2) = Some d
     \<and> dl_path (dlm_of t d) \<noteq> dl_path (dlm_of t e)
     \<and> (\<exists>runs. concat runs = filter (\<lambda>v. vdlm (vma_of t v) \<noteq> None) [1, 2, 3] \<and> grouped t [d, e] runs)"
proof -
  have "map_option (\<lambda>(err, t, head). (err, map (\<lambda>d. dl_vmas (dlm_of t d)) head))
      (collect_dl_maps sim_ext [1, 2, 3] [] demo_areas) = Some (0, [[1, 2], [3]])"
  by (simp add: collect_dl_maps_def iterate_vmas_def collect_dl_map_vma_def demo_areas_def is_elf_file_def
      check_file_type_def create_dl_map_by_vma_def alloc_dl_map_def add_dl_vma_sorted_def link_dl_vma_def
      last_dl_vma_def iterate_dl_vmas_def add_dl_vma_def insert_before_def vma_accessors sim_vma_def
      elf_create_info_def elf_open_def elf_fd_def sys_call_def ext_call_def sim_ext_def demo_world_def
      sim_path_def sim_world_def elf_alloc_info_def xmalloc_def elf_do_get_soname_def elf_type_dyn_def
      elf_get_strtab_scn_def find_dyn_def elf_set_dynamic_scn_def elf_set_scn_def elf_create_scn_def
      section_eval demo_elf_def sim_elf_def sect_nr_ent_def upd_ei_def upd_vma_def upd_dlm_def find_strtab_def find_soname_def
      elf_collect_needed_def iter_dyn_sym_def collect_needed_dyn_def elf_get_bid_def get_build_id_def
      upt_rec Let_def)
  then obtain t d e where c: "collect_dl_maps sim_ext [1, 2, 3] [] demo_areas = Some (0, t, [d, e])"
    and l: "dl_vmas (dlm_of t d) = [1, 2]" "dl_vmas (dlm_of t e) = [3]" by (auto simp: map_eq_Cons_conv)
  have "distinct [1, 2, 3 :: ptr]" "\<forall>v \<in> set [1, 2, 3]. vdlm (vma_of demo_areas v) = None"
    by (simp_all add: demo_areas_def sim_vma_def)
  note r = collect_dl_maps_linked[OF c this]
  have ptr2: "vdlm (vma_of t 2) = Some d" using r l(1) by simp
  have "\<exists>runs. concat runs = filter (\<lambda>v. vdlm (vma_of t v) \<noteq> None) [1, 2, 3] \<and> grouped t [d, e] runs"
    by (rule r[THEN conjunct2, THEN conjunct2, THEN mp, OF refl, THEN conjunct1])
  then obtain runs where runs: "concat runs = filter (\<lambda>v. vdlm (vma_of t v) \<noteq> None) [1, 2, 3]" "grouped t [d, e] runs"
    by (elim exE conjE)
  have "dl_path (dlm_of t d) \<noteq> dl_path (dlm_of t e)" using runs(2) by (simp add: grouped_def)
  with c l ptr2 runs show ?thesis by blast
qed

section \<open>Jumps between an object and its patch\<close>

lemma sint_diff:
  fixes x y :: u64
  assumes "\<bar>uint x - uint y\<bar> < 2 ^ 63"
  shows "sint (x - y) = uint x - uint y"
proof -
  have b: "0 \<le> uint x" "uint x < 2^64" "0 \<le> uint y" "uint y < 2^64"
    using uint_lt2p[of x] uint_lt2p[of y] by auto
  show ?thesis
  proof (cases "uint y \<le> uint x")
    case True
    then have "uint (x - y) = uint x - uint y" by (simp add: uint_sub_if')
    with assms True show ?thesis by (simp add: sint_u64)
  next
    case False
    then have "uint (x - y) = uint x - uint y + 2 ^ 64" by (simp add: uint_sub_if')
    with assms False show ?thesis by (simp add: sint_u64)
  qed
qed

lemma uint_add_small: "uint (x :: u64) + uint y < 2 ^ 64 \<Longrightarrow> uint (x + y) = uint x + uint y"
  by (simp add: uint_word_ariths mod_pos_pos_trivial)

lemma check_jump_range_bounds:
  assumes "dl_map_check_jump_range vm dlm base = Some 0"
    and "dl_map_start vm dlm = Some start" "dl_map_end vm dlm = Some fin" "uint start + 2 ^ 31 < 2 ^ 64"
  shows "uint fin - 2 ^ 31 \<le> uint base \<and> uint base \<le> uint start + 2 ^ 31"
proof -
  have R: "X86_64_JUMP_RANGE = 0x80000000" by (simp add: X86_64_JUMP_RANGE_def push_bit_eq_mult)
  from assms have "\<not> base < x86_jump_min_address fin" "\<not> base > x86_jump_max_address start"
    by (auto simp: dl_map_check_jump_range_def dl_map_start_def dl_map_end_def split: if_splits)
  moreover have "uint (start + 0x80000000) = uint start + 0x80000000"
    using assms(4) by (subst uint_add_small) auto
  moreover have "uint fin - 2 ^ 31 \<le> uint (x86_jump_min_address fin)"
    by (auto simp: x86_jump_min_address_def R word_less_def uint_sub_if')
  ultimately show ?thesis
    by (auto simp: x86_jump_max_address_def R word_less_def not_less)
qed

text \<open>
  C10: The range check is sufficient for the jumps of a patch. When both ends of the place
  chosen for the patch pass \<open>dl_map_check_jump_range\<close>, every function of the target that has
  room for the five bytes can be redirected to every address of the patch behind its first
  byte: encoding the jump succeeds, and the jump goes there.
\<close>

theorem jump_range_check_sufficient:
  assumes "dl_map_check_jump_range vm dlm hole = Some 0"
    and "dl_map_check_jump_range vm dlm (hole + load_size) = Some 0"
    and "dl_map_start vm dlm = Some start" "dl_map_end vm dlm = Some fin"
    and "uint start + 2 ^ 31 < 2 ^ 64" "uint hole + uint load_size < 2 ^ 64"
    and "start \<le> func" "uint func + 5 \<le> uint fin"
    and "hole < tgt" "uint tgt \<le> uint hole + uint load_size" "5 \<le> length buf"
  shows "\<exists>code. x86_jmpq_instruction buf func tgt = Some (5, code) \<and> jmp_target code func = Some tgt"
proof -
  note b1 = check_jump_range_bounds[OF assms(1,3,4,5)]
  note b2 = check_jump_range_bounds[OF assms(2,3,4,5)]
  have hs: "uint (hole + load_size) = uint hole + uint load_size" by (rule uint_add_small) fact
  have fin: "uint fin < 2 ^ 64" using uint_lt2p[of fin] by simp
  have f5: "uint (func + 5) = uint func + 5"
    using assms(8) fin by (subst uint_add_small) auto
  have d: "\<bar>uint tgt - uint (func + 5)\<bar> < 2 ^ 31"
    using b1 b2 hs f5 assms(7-10) by (auto simp: word_le_def word_less_def)
  then have "\<bar>sint (tgt - (func + 5))\<bar> < 2 ^ 31" using sint_diff[of tgt "func + 5"] by simp
  with assms(11) show ?thesis
    by (simp add: x86_jmpq_instruction_eq jmp_target_def rel32_target_encoded del: le_bytes.simps)
qed

theorem jump_range_check_sufficient_witness:
  "(let vm = (\<lambda>p. sim_vma\<lparr>vaddr := 0x400000, vlen := 0x2000\<rparr>); dlm = sim_dlm\<lparr>dl_vmas := [1]\<rparr>
    in dl_map_check_jump_range vm dlm 0x402000 = Some 0 \<and> dl_map_check_jump_range vm dlm (0x402000 + 0x1000) = Some 0
       \<and> (\<exists>code. x86_jmpq_instruction (replicate 8 0) 0x400100 0x402010 = Some (5, code)
            \<and> jmp_target code 0x400100 = Some 0x402010))"
proof -
  let ?vm = "\<lambda>p. sim_vma\<lparr>vaddr := 0x400000, vlen := 0x2000\<rparr>" and ?d = "sim_dlm\<lparr>dl_vmas := [1]\<rparr>"
  have c: "dl_map_check_jump_range ?vm ?d 0x402000 = Some 0" "dl_map_check_jump_range ?vm ?d (0x402000 + 0x1000) = Some 0"
    by (simp_all add: dl_map_check_jump_range_def last_dl_vma_def first_dl_vma_def vma_accessors
        x86_jump_min_address_def x86_jump_max_address_def X86_64_JUMP_RANGE_def)
  have se: "dl_map_start ?vm ?d = Some 0x400000" "dl_map_end ?vm ?d = Some 0x402000"
    by (simp_all add: dl_map_start_def dl_map_end_def last_dl_vma_def first_dl_vma_def vma_accessors)
  have "\<exists>code. x86_jmpq_instruction (replicate 8 0) 0x400100 0x402010 = Some (5, code)
            \<and> jmp_target code 0x400100 = Some 0x402010"
    by (rule jump_range_check_sufficient[OF c se]) simp_all
  with c show ?thesis by (simp add: Let_def)
qed

section \<open>Finding an object\<close>

lemma find_dl_map_first:
  assumes "\<And>d. d \<in> set ds \<Longrightarrow> actor d = Some (if P d then 1 else 0)"
  shows "find_dl_map ds actor = Some (find P ds)"
  using assms by (induction ds) auto

lemma find_dl_map_by_bid_eq:
  "find_dl_map_by_bid s ds bid = Some (find (\<lambda>d. elf_bid (ei_of s (dl_ei (dlm_of s d))) = Some bid) ds)"
  unfolding find_dl_map_by_bid_def
  by (rule find_dl_map_first) (auto simp: compare_bid_def split: option.splits)

text \<open>
  Looking up the object an address belongs to never fails on a list of objects that
  have areas: it gives the first object whose range holds the address. The upper bound is
  included, so the address right behind an object counts as belonging to it.
\<close>

lemma find_dl_map_by_addr_first:
  assumes "\<forall>d \<in> set ds. dl_vmas (dlm_of s d) \<noteq> []"
  shows "find_dl_map_by_addr s ds a = Some (find (\<lambda>d.
      vma_start (vma_of s (hd (dl_vmas (dlm_of s d)))) \<le> a \<and> a \<le> vma_end (vma_of s (last (dl_vmas (dlm_of s d))))) ds)"
  unfolding find_dl_map_by_addr_def
  by (rule find_dl_map_first)
    (use assms in \<open>auto simp: compare_addr_def dl_map_start_def dl_map_end_def first_dl_vma_def last_dl_vma_def
       not_less not_le\<close>)

lemma find_dl_map_by_addr_first_witness:
  "find_dl_map_by_addr two_areas [7, 8] 0x5000 = Some (Some 7)"
  by (subst find_dl_map_by_addr_first)
    (simp_all add: two_areas_def sim_dlm_def sim_vma_def vma_accessors)

end
