(* ===== verification/Process_IO.thy ===== *)
theory Process_IO
  imports Dl_Map Compiler
begin

text \<open>
  The primitives of \<open>patcher/process.c\<close> that act on the target process: reading and writing
  its memory with ptrace, running system calls and code in it through libcompel, and the
  mapping and file calls built on them. A remote system call without a compel control
  structure dereferences a null pointer (\<open>None\<close>).
\<close>

text \<open>
  Several callers pass a size that is rounded up to eight behind the end of the object;
  the bytes that are read there are the parameter \<open>x_slack\<close>.
\<close>

definition padded :: "'w ext \<Rightarrow> byte list \<Rightarrow> byte list" where
  "padded x bs = bs @ map (x_slack x) [0..<unat (round_up (of_nat (length bs)) 8) - length bs]"

lemma length_padded:
  assumes "length bs < 2 ^ 64 - 8"
  shows "length (padded x bs) = (length bs + 7) div 8 * 8"
proof -
  have u: "unat (of_nat (length bs) :: u64) = length bs"
    using assms by (simp add: unsigned_of_nat take_bit_nat_eq_self)
  have "unat (round_up (of_nat (length bs)) (2 ^ 3)) = (unat (of_nat (length bs) :: u64) + 2 ^ 3 - 1) div 2 ^ 3 * 2 ^ 3"
    using assms by (intro round_up_eq) (simp_all add: u)
  moreover have "length bs \<le> (length bs + 7) div 8 * 8" by simp
  ultimately show ?thesis by (simp add: padded_def u)
qed

definition c_string :: "string \<Rightarrow> byte list" where
  "c_string cs = map of_char cs @ [0]"

section \<open>Memory\<close>

definition process_write_data :: "'w ext \<Rightarrow> u64 \<Rightarrow> byte list \<Rightarrow> 'w pst \<Rightarrow> int \<times> 'w pst" where
  "process_write_data x addr data s =
     (case ext_call (x_poke x (ctx_pid (ctx s)) data addr) s of
        ((err, e), s) \<Rightarrow>
          if err \<noteq> 0 then
            let s = s\<lparr>errno := e\<rparr> in (if err = -1 then (- EINVAL, s) else (- errno s, s))
          else (0, s))"

text \<open>The error and the bytes that were read.\<close>

definition process_read_data :: "'w ext \<Rightarrow> u64 \<Rightarrow> nat \<Rightarrow> 'w pst \<Rightarrow> (int \<times> byte list) \<times> 'w pst" where
  "process_read_data x addr len s =
     (case ext_call (x_peek x (ctx_pid (ctx s)) addr len) s of
        ((err, e, data), s) \<Rightarrow>
          if err \<noteq> 0 then
            let s = s\<lparr>errno := e\<rparr> in (if err = -1 then ((- EINVAL, data), s) else ((- errno s, data), s))
          else ((0, data), s))"

definition map_flags :: "u32 \<Rightarrow> string" where
  "map_flags flags =
     (let buf = (if flags AND MAP_SHARED \<noteq> 0 then ''MAP_SHARED'' else ''MAP_PRIVATE'');
          buf = (if flags AND MAP_FIXED \<noteq> 0 then buf @ '' | MAP_FIXED'' else buf)
      in if flags AND MAP_ANONYMOUS \<noteq> 0 then buf @ '' | MAP_ANONYMOUS'' else buf)"

definition map_prot :: "u32 \<Rightarrow> string" where
  "map_prot prot =
     (let buf = ''---'';
          buf = (if prot AND PROT_READ \<noteq> 0 then buf[0 := CHR ''r''] else buf);
          buf = (if prot AND PROT_WRITE \<noteq> 0 then buf[1 := CHR ''w''] else buf)
      in if prot AND PROT_EXEC \<noteq> 0 then buf[2 := CHR ''x''] else buf)"

section \<open>System calls in the target\<close>

abbreviation (input) NR_open :: nat where "NR_open \<equiv> 2"
abbreviation (input) NR_close :: nat where "NR_close \<equiv> 3"
abbreviation (input) NR_mmap :: nat where "NR_mmap \<equiv> 9"
abbreviation (input) NR_munmap :: nat where "NR_munmap \<equiv> 11"

definition process_syscall :: "'w ext \<Rightarrow> nat \<Rightarrow> u64 list \<Rightarrow> 'w pst \<Rightarrow> (int \<times> 'w pst) option" where
  "process_syscall x nr args s =
     (if \<not> ctx_ctl (ctx s) then None
      else case ext_call (x_syscall x nr args) s of
             ((ret, sret), s) \<Rightarrow>
               if ret < 0 then Some (ret, s)
               else if sret < 0 then Some (-1, s\<lparr>errno := - sret\<rparr>)
               else Some (sret, s))"

definition process_map_vma :: "'w ext \<Rightarrow> int \<Rightarrow> vma_area \<Rightarrow> 'w pst \<Rightarrow> (int \<times> 'w pst) option" where
  "process_map_vma x fd vma s =
     (if sv_loaded (ctx_service (ctx s)) then Some (- EBUSY, s)
      else do {
        (addr, s) \<leftarrow> process_syscall x NR_mmap
           [vma_start vma, vma_length vma, ucast (vma_prot vma), ucast (vma_flags vma), of_int fd, vma_offset vma] s;
        Some (if addr < 0 then - errno s else addr, s) })"

definition process_unmap_vma :: "'w ext \<Rightarrow> vma_area \<Rightarrow> 'w pst \<Rightarrow> (int \<times> 'w pst) option" where
  "process_unmap_vma x vma s =
     (if sv_loaded (ctx_service (ctx s)) then Some (- EBUSY, s)
      else do {
        (ret, s) \<leftarrow> process_syscall x NR_munmap [vma_start vma, vma_length vma, 0, 0, 0, 0] s;
        Some (if to_int ret < 0 then - errno s else 0, s) })"

definition process_close_file :: "'w ext \<Rightarrow> int \<Rightarrow> 'w pst \<Rightarrow> (int \<times> 'w pst) option" where
  "process_close_file x fd s = do {
     (ret, s) \<leftarrow> process_syscall x NR_close [of_int fd, 0, 0, 0, 0, 0] s;
     Some (if to_int ret < 0 then - errno s else 0, s) }"

definition process_do_open_file :: "'w ext \<Rightarrow> string \<Rightarrow> u64 \<Rightarrow> u64 \<Rightarrow> 'w pst \<Rightarrow> (int \<times> 'w pst) option" where
  "process_do_open_file x path flags mode s =
     (case process_write_data x (vma_start (ctx_remote_vma (ctx s))) (padded x (c_string path)) s of
        (err, s) \<Rightarrow>
          if err \<noteq> 0 then Some (err, s)
          else do {
            (ret, s) \<leftarrow> process_syscall x NR_open [vma_start (ctx_remote_vma (ctx s)), flags, mode, 0, 0, 0] s;
            Some (if to_int ret < 0 then - errno s else to_int ret, s) })"

definition process_open_file :: "'w ext \<Rightarrow> string \<Rightarrow> u64 \<Rightarrow> u64 \<Rightarrow> 'w pst \<Rightarrow> (int \<times> 'w pst) option" where
  "process_open_file x path flags mode s = process_do_open_file x path flags mode s"

definition process_exec_code :: "'w ext \<Rightarrow> u64 \<Rightarrow> byte list \<Rightarrow> 'w pst \<Rightarrow> (int \<times> 'w pst) option" where
  "process_exec_code x addr blob s =
     (case process_write_data x addr (padded x blob) s of
        (err, s) \<Rightarrow>
          if err \<noteq> 0 then Some (err, s)
          else if \<not> ctx_ctl (ctx s) then None
          else case ext_call (x_run_at x addr) s of
                 ((err, ax), s) \<Rightarrow> if err \<noteq> 0 then Some (err, s) else Some (sint ax, s))"

section \<open>Joining and leaving the process\<close>

definition process_unlink :: "'w ext \<Rightarrow> 'w pst \<Rightarrow> (int \<times> 'w pst) option" where
  "process_unlink x s =
     (if \<not> ctx_ctl (ctx s) then Some (0, s)
      else do {
        (err, s) \<leftarrow> process_unmap_vma x (ctx_remote_vma (ctx s)) s;
        if err \<noteq> 0 then Some (err, s)
        else Some (ext_call (x_cure x) s) })"

text \<open>The result is compared with \<open>MAP_FAILED\<close>, -1.\<close>

definition process_link :: "'w ext \<Rightarrow> 'w pst \<Rightarrow> (int \<times> 'w pst) option" where
  "process_link x s =
     (case ext_call (x_prepare x (ctx_pid (ctx s))) s of
        (ctl, s) \<Rightarrow>
          let s = upd_ctx (\<lambda>c. c\<lparr>ctx_ctl := ctl\<rparr>) s in
          if \<not> ctl then Some (-1, s)
          else do {
            (addr, s) \<leftarrow> process_map_vma x (-1) (ctx_remote_vma (ctx s)) s;
            if addr = -1 then
              (case ext_call (x_cure x) s of (_, s) \<Rightarrow> Some (-1, upd_ctx (\<lambda>c. c\<lparr>ctx_ctl := False\<rparr>) s))
            else Some (0, upd_ctx (\<lambda>c. c\<lparr>ctx_remote_vma := (ctx_remote_vma c)\<lparr>vaddr := of_int addr\<rparr>\<rparr>) s) })"

section \<open>Mapping the areas of an object\<close>

definition unmap_dl_vma :: "'w ext \<Rightarrow> ptr \<Rightarrow> 'w pst \<Rightarrow> (int \<times> 'w pst) option" where
  "unmap_dl_vma x vma s = process_unmap_vma x (vma_of s vma) s"

text \<open>The loop of \<open>process_mmap_dlm_manual\<close>; \<open>done\<close> holds the areas already mapped, last first.\<close>

fun unmap_mapped :: "'w ext \<Rightarrow> ptr list \<Rightarrow> 'w pst \<Rightarrow> 'w pst option" where
  "unmap_mapped x [] s = Some s"
| "unmap_mapped x (vma # vmas) s = do {
     (_, s) \<leftarrow> process_unmap_vma x (vma_of s vma) s;
     unmap_mapped x vmas s }"

fun map_dl_vmas :: "'w ext \<Rightarrow> int \<Rightarrow> ptr list \<Rightarrow> ptr list \<Rightarrow> 'w pst \<Rightarrow> (int \<times> 'w pst) option" where
  "map_dl_vmas x fd mapped [] s = do {
     (_, s) \<leftarrow> process_close_file x fd s;
     Some (0, s) }"
| "map_dl_vmas x fd mapped (vma # vmas) s = do {
     (addr, s) \<leftarrow> process_map_vma x fd (vma_of s vma) s;
     if addr < 0 then do {
       s \<leftarrow> unmap_mapped x mapped s;
       Some (to_int addr, s) }
     else map_dl_vmas x fd (vma # mapped) vmas s }"

definition process_mmap_dlm_manual :: "'w ext \<Rightarrow> dl_map \<Rightarrow> 'w pst \<Rightarrow> (int \<times> 'w pst) option" where
  "process_mmap_dlm_manual x dlm s = do {
     path \<leftarrow> dl_path dlm;
     (fd, s) \<leftarrow> process_open_file x path 0 0 s;
     if fd < 0 then Some (fd, s) else map_dl_vmas x fd [] (dl_vmas dlm) s }"

section \<open>The calls that reach the target\<close>

text \<open>
  To speak about the order of the system calls that a routine runs in the target, the
  world is extended by a log: \<open>logged x\<close> answers like \<open>x\<close> and records each call with its
  result in the target.
\<close>

type_synonym sys_event = "nat \<times> u64 list \<times> int"
type_synonym 'w lw = "'w \<times> sys_event list"

definition lift :: "('w \<Rightarrow> 'r \<times> 'w) \<Rightarrow> 'w lw \<Rightarrow> 'r \<times> 'w lw" where
  "lift f = (\<lambda>(w, l). case f w of (r, w) \<Rightarrow> (r, (w, l)))"

definition logged :: "'w ext \<Rightarrow> 'w lw ext" where
  "logged x = \<lparr>
     x_malloc = lift (x_malloc x), x_poke = (\<lambda>p b a. lift (x_poke x p b a)), x_peek = (\<lambda>p a n. lift (x_peek x p a n)),
     x_syscall = (\<lambda>nr args (w, l). case x_syscall x nr args w of (r, w) \<Rightarrow> (r, (w, l @ [(nr, args, snd r)]))),
     x_prepare = (\<lambda>p. lift (x_prepare x p)), x_cure = lift (x_cure x), x_run_at = (\<lambda>a. lift (x_run_at x a)),
     x_stop_task = (\<lambda>p. lift (x_stop_task x p)), x_resume_task = (\<lambda>p. lift (x_resume_task x p)),
     x_usleep = (\<lambda>n (w, l). (x_usleep x n w, l)), x_readdir = (\<lambda>p. lift (x_readdir x p)),
     x_maps = (\<lambda>p. lift (x_maps x p)), x_access = (\<lambda>p. lift (x_access x p)), x_stat = (\<lambda>p. lift (x_stat x p)),
     x_readlink = (\<lambda>p. lift (x_readlink x p)), x_open = (\<lambda>p. lift (x_open x p)),
     x_lseek = (\<lambda>f off. lift (x_lseek x f off)), x_read = (\<lambda>f n. lift (x_read x f n)), x_close = (\<lambda>f. lift (x_close x f)),
     x_elf_begin = (\<lambda>f. lift (x_elf_begin x f)), x_elf_version = x_elf_version x, x_slack = x_slack x,
     x_unpack = x_unpack x, x_unw_init = (\<lambda>p. lift (x_unw_init x p)), x_socket = lift (x_socket x),
     x_connect = (\<lambda>f p. lift (x_connect x f p)), x_send = (\<lambda>f b. lift (x_send x f b)),
     x_recv = (\<lambda>f n. lift (x_recv x f n)), x_sendmsg = (\<lambda>f d c. lift (x_sendmsg x f d c))\<rparr>"

definition calls :: "'w lw pst \<Rightarrow> sys_event list" where
  "calls s = snd (world s)"

text \<open>What a routine that runs one system call or touches memory leaves alone.\<close>

definition io_frame :: "'w pst \<Rightarrow> 'w pst \<Rightarrow> bool" where
  "io_frame s t \<longleftrightarrow> vma_of t = vma_of s \<and> dlm_of t = dlm_of s \<and> ei_of t = ei_of s \<and> patch_of t = patch_of s
     \<and> process_context t = process_context s \<and> brk t = brk s"

lemma io_frame_refl [simp]: "io_frame s s"
  by (simp add: io_frame_def)

lemma io_frame_trans: "io_frame s t \<Longrightarrow> io_frame t u \<Longrightarrow> io_frame s u"
  by (simp add: io_frame_def)

lemma io_frame_ext_call: "ext_call f s = (r, t) \<Longrightarrow> io_frame s t"
  by (auto simp: io_frame_def dest!: ext_call_keeps)

lemma io_frame_errno [simp]: "io_frame s (t\<lparr>errno := e\<rparr>) = io_frame s t"
  by (simp add: io_frame_def)

lemma process_write_data_frame: "process_write_data x a d s = (r, t) \<Longrightarrow> io_frame s t"
  by (auto simp: process_write_data_def Let_def split: prod.splits if_splits dest!: io_frame_ext_call)

lemma process_read_data_frame: "process_read_data x a n s = (r, t) \<Longrightarrow> io_frame s t"
  by (auto simp: process_read_data_def Let_def split: prod.splits if_splits dest!: io_frame_ext_call)

lemma process_syscall_frame: "process_syscall x nr args s = Some (r, t) \<Longrightarrow> io_frame s t"
  by (auto simp: process_syscall_def split: prod.splits if_splits dest!: io_frame_ext_call)

lemma process_map_vma_frame: "process_map_vma x fd v s = Some (r, t) \<Longrightarrow> io_frame s t"
  by (auto simp: process_map_vma_def split: bind_splits if_splits dest!: process_syscall_frame)

lemma process_unmap_vma_frame: "process_unmap_vma x v s = Some (r, t) \<Longrightarrow> io_frame s t"
  by (auto simp: process_unmap_vma_def split: bind_splits if_splits dest!: process_syscall_frame)

lemma process_close_file_frame: "process_close_file x fd s = Some (r, t) \<Longrightarrow> io_frame s t"
  by (auto simp: process_close_file_def split: bind_splits if_splits dest!: process_syscall_frame)

lemma process_open_file_frame: "process_open_file x p f m s = Some (r, t) \<Longrightarrow> io_frame s t"
  by (auto simp: process_open_file_def process_do_open_file_def split: prod.splits bind_splits if_splits
      dest!: process_syscall_frame process_write_data_frame intro: io_frame_trans)

lemma process_exec_code_frame: "process_exec_code x a c s = Some (r, t) \<Longrightarrow> io_frame s t"
  by (auto simp: process_exec_code_def split: prod.splits if_splits
      dest!: io_frame_ext_call process_write_data_frame intro: io_frame_trans)

lemmas io_frames = process_write_data_frame process_read_data_frame process_syscall_frame
  process_map_vma_frame process_unmap_vma_frame process_close_file_frame process_open_file_frame
  process_exec_code_frame io_frame_ext_call

definition open_call :: "u64 \<Rightarrow> int \<Rightarrow> sys_event" where
  "open_call path fd = (NR_open, [path, 0, 0, 0, 0, 0], fd)"

definition mmap_call :: "int \<Rightarrow> vma_area \<Rightarrow> int \<Rightarrow> sys_event" where
  "mmap_call fd vma a = (NR_mmap, [vma_start vma, vma_length vma, ucast (vma_prot vma), ucast (vma_flags vma),
     of_int fd, vma_offset vma], a)"

definition munmap_call :: "vma_area \<Rightarrow> int \<Rightarrow> sys_event" where
  "munmap_call vma r = (NR_munmap, [vma_start vma, vma_length vma, 0, 0, 0, 0], r)"

definition close_call :: "int \<Rightarrow> int \<Rightarrow> sys_event" where
  "close_call fd r = (NR_close, [of_int fd, 0, 0, 0, 0, 0], r)"

text \<open>
  A run of mapping the areas \<open>vs\<close>, the areas \<open>mapped\<close> having been mapped before. Either every mapping
  succeeds, the descriptor is closed and the result is 0; or mapping number \<open>k\<close> is the first that the target
  answers with an error, the areas mapped before are unmapped, the last one first, and the
  result is that error.
\<close>

definition mapping_run :: "(ptr \<Rightarrow> vma_area) \<Rightarrow> int \<Rightarrow> ptr list \<Rightarrow> ptr list \<Rightarrow> sys_event list \<Rightarrow> int \<Rightarrow> bool" where
  "mapping_run vm fd mapped vs log r \<longleftrightarrow>
     (\<exists>as c. length as = length vs \<and> (\<forall>a \<in> set as. 0 \<le> a) \<and> r = 0
        \<and> log = map2 (\<lambda>v. mmap_call fd (vm v)) vs as @ [close_call fd c])
     \<or> (\<exists>k as e us. k < length vs \<and> length as = k \<and> (\<forall>a \<in> set as. 0 \<le> a) \<and> e < 0 \<and> r = e
        \<and> length us = k + length mapped
        \<and> log = map2 (\<lambda>v. mmap_call fd (vm v)) (take k vs) as @ mmap_call fd (vm (vs ! k)) e
                # map2 (\<lambda>v. munmap_call (vm v)) (rev (take k vs) @ mapped) us)"

text \<open>
  What is assumed of compel and the kernel: a system call in the target is run, an error is a code between
  1 and 4095, and a new descriptor is an \<open>int\<close>.
\<close>

definition syscalls_run :: "'w ext \<Rightarrow> bool" where
  "syscalls_run x \<longleftrightarrow> (\<forall>nr args w ret sret w'. x_syscall x nr args w = ((ret, sret), w') \<longrightarrow>
     0 \<le> ret \<and> -4095 \<le> sret \<and> (nr = NR_open \<longrightarrow> sret < 2 ^ 31))"

lemma process_syscall_result:
  assumes "syscalls_run x" "process_syscall (logged x) nr args s = Some (r, t)"
  shows "\<exists>a. calls t = calls s @ [(nr, args, a)] \<and> -4095 \<le> a \<and> (nr = NR_open \<longrightarrow> a < 2 ^ 31)
    \<and> (if a < 0 then r = -1 \<and> errno t = - a else r = a)"
proof -
  obtain w l where wl: "world s = (w, l)" by fastforce
  obtain ret a w' where c: "x_syscall x nr args w = ((ret, a), w')" by (metis prod.exhaust)
  from assms(1) c have "0 \<le> ret" "-4095 \<le> a" "nr = NR_open \<longrightarrow> a < 2 ^ 31" unfolding syscalls_run_def by blast+
  with assms(2) wl c show ?thesis
    by (intro exI[of _ a]) (auto simp: process_syscall_def ext_call_def logged_def calls_def split: if_splits)
qed

lemma map_unmap_result:
  assumes "syscalls_run x" "\<not> sv_loaded (ctx_service (ctx s))"
  shows "process_map_vma (logged x) fd v s = Some (a, t) \<Longrightarrow> calls t = calls s @ [mmap_call fd v a] \<and> -4095 \<le> a"
    "process_unmap_vma (logged x) v s = Some (r, t) \<Longrightarrow> \<exists>e. calls t = calls s @ [munmap_call v e]"
  using assms(2)
  by (auto simp: process_map_vma_def process_unmap_vma_def mmap_call_def munmap_call_def
      split: bind_splits dest!: process_syscall_result[OF assms(1)] split: if_splits)

lemma write_data_calls: "process_write_data (logged x) a d s = (r, t) \<Longrightarrow> calls t = calls s"
  by (auto simp: process_write_data_def ext_call_def logged_def lift_def calls_def Let_def
      split: prod.splits if_splits)

lemma unmap_mapped_calls:
  assumes "syscalls_run x" "unmap_mapped (logged x) vs s = Some t" "\<not> sv_loaded (ctx_service (ctx s))"
  shows "(\<exists>us. length us = length vs \<and> calls t = calls s @ map2 (\<lambda>v. munmap_call (vma_of s v)) vs us) \<and> io_frame s t"
  using assms(2,3)
proof (induction vs arbitrary: s)
  case Nil
  then show ?case by simp
next
  case (Cons v vs)
  then obtain r u where u: "process_unmap_vma (logged x) (vma_of s v) s = Some (r, u)"
    and rest: "unmap_mapped (logged x) vs u = Some t" by (auto split: bind_splits)
  have f: "io_frame s u" using process_unmap_vma_frame[OF u] .
  then have "\<not> sv_loaded (ctx_service (ctx u))" using Cons.prems(2) by (simp add: io_frame_def)
  from Cons.IH[OF rest this] obtain us where us: "length us = length vs"
    "calls t = calls u @ map2 (\<lambda>v. munmap_call (vma_of u v)) vs us" "io_frame u t" by blast
  from map_unmap_result(2)[OF assms(1) Cons.prems(2) u] obtain e where "calls u = calls s @ [munmap_call (vma_of s v) e]" by blast
  with us f show ?case by (intro conjI exI[of _ "e # us"]) (auto simp: io_frame_def)
qed

lemma mapping_run_fails:
  assumes "length us = length mapped" "a < 0"
  shows "mapping_run vm fd mapped (v # vs) (mmap_call fd (vm v) a # map2 (\<lambda>v. munmap_call (vm v)) mapped us) a"
  unfolding mapping_run_def using assms
  by (intro disjI2 exI[of _ 0] exI[of _ "[]"] exI[of _ a] exI[of _ us]) simp

lemma mapping_run_Cons:
  assumes "mapping_run vm fd (v # mapped) vs log r" "0 \<le> a"
  shows "mapping_run vm fd mapped (v # vs) (mmap_call fd (vm v) a # log) r"
proof -
  from assms(1) consider as c where "length as = length vs" "\<forall>a \<in> set as. 0 \<le> a" "r = 0"
      "log = map2 (\<lambda>v. mmap_call fd (vm v)) vs as @ [close_call fd c]"
    | k as e us where "k < length vs" "length as = k" "\<forall>a \<in> set as. 0 \<le> a" "e < 0" "r = e"
      "length us = k + length (v # mapped)"
      "log = map2 (\<lambda>v. mmap_call fd (vm v)) (take k vs) as @ mmap_call fd (vm (vs ! k)) e
         # map2 (\<lambda>v. munmap_call (vm v)) (rev (take k vs) @ v # mapped) us"
    unfolding mapping_run_def by blast
  then show ?thesis
  proof cases
    case (1 as c)
    with assms(2) show ?thesis unfolding mapping_run_def
      by (intro disjI1 exI[of _ "a # as"] exI[of _ c]) auto
  next
    case (2 k as e us)
    with assms(2) show ?thesis unfolding mapping_run_def
      by (intro disjI2 exI[of _ "Suc k"] exI[of _ "a # as"] exI[of _ e] exI[of _ us]) auto
  qed
qed

lemma map_dl_vmas_run:
  assumes "syscalls_run x" "map_dl_vmas (logged x) fd mapped vs s = Some (r, t)" "\<not> sv_loaded (ctx_service (ctx s))"
  shows "\<exists>log. calls t = calls s @ log \<and> mapping_run (vma_of s) fd mapped vs log r"
  using assms(2,3)
proof (induction vs arbitrary: s mapped)
  case Nil
  then obtain q u where c: "process_close_file (logged x) fd s = Some (q, u)" and "r = 0" "t = u" by (auto split: bind_splits)
  from c obtain e where "calls u = calls s @ [close_call fd e]"
    by (auto simp: process_close_file_def close_call_def split: bind_splits dest!: process_syscall_result[OF assms(1)])
  with \<open>r = 0\<close> \<open>t = u\<close> show ?case by (auto simp: mapping_run_def)
next
  case (Cons v vs)
  then obtain a u where u: "process_map_vma (logged x) fd (vma_of s v) s = Some (a, u)"
    and rest: "(if a < 0 then do { s \<leftarrow> unmap_mapped (logged x) mapped u; Some (to_int a, s) }
       else map_dl_vmas (logged x) fd (v # mapped) vs u) = Some (r, t)" by (auto split: bind_splits)
  have f: "io_frame s u" using process_map_vma_frame[OF u] .
  then have nl: "\<not> sv_loaded (ctx_service (ctx u))" and vu: "vma_of u = vma_of s" using Cons.prems(2) by (simp_all add: io_frame_def)
  note c = map_unmap_result(1)[OF assms(1) Cons.prems(2) u]
  show ?case
  proof (cases "a < 0")
    case True
    with rest obtain t' where t': "unmap_mapped (logged x) mapped u = Some t'" "t = t'" "r = to_int a" by (auto split: bind_splits)
    from unmap_mapped_calls[OF assms(1) t'(1) nl] vu obtain us where us: "length us = length mapped"
      "calls t = calls u @ map2 (\<lambda>v. munmap_call (vma_of s v)) mapped us" using t'(2) by auto
    have "r = a" using t'(3) True c by simp
    with us c mapping_run_fails[OF us(1) True, of "vma_of s" fd v vs] show ?thesis
      by (intro exI[of _ "mmap_call fd (vma_of s v) a # map2 (\<lambda>v. munmap_call (vma_of s v)) mapped us"]) simp
  next
    case False
    with rest have "map_dl_vmas (logged x) fd (v # mapped) vs u = Some (r, t)" by simp
    from Cons.IH[OF this nl] vu obtain log where "calls t = calls u @ log" "mapping_run (vma_of s) fd (v # mapped) vs log r" by auto
    with c False mapping_run_Cons[of "vma_of s" fd v mapped vs log r a] show ?thesis by auto
  qed
qed

text \<open>A failing \<open>ptrace_poke_area\<close> leaves an error code in \<open>errno\<close>.\<close>

definition poke_errno :: "'w ext \<Rightarrow> bool" where
  "poke_errno x \<longleftrightarrow> (\<forall>pid bs a w r e w'. x_poke x pid bs a w = ((r, e), w') \<longrightarrow> r \<noteq> 0 \<longrightarrow> 0 < e)"

lemma poke_errno_logged: "poke_errno x \<Longrightarrow> poke_errno (logged x)"
  by (auto simp: poke_errno_def logged_def lift_def split: prod.splits)

lemma write_data_err: "poke_errno x \<Longrightarrow> process_write_data x a d s = (r, t) \<Longrightarrow> r \<le> 0"
  by (auto simp: process_write_data_def ext_call_def poke_errno_def Let_def split: prod.splits if_splits)
    (metis less_imp_le)


definition sim_linked :: "simw lw pst" where
  "sim_linked = \<lparr>world = (sim_world\<lparr>sim_sysret := 7\<rparr>, []), errno = 0, brk = 100,
     vma_of = (\<lambda>p. sim_vma\<lparr>vaddr := 0x1000 * of_nat p, vlen := 0x1000\<rparr>), dlm_of = (\<lambda>p. sim_dlm),
     ei_of = (\<lambda>p. sim_ei), patch_of = (\<lambda>p. sim_patch), process_context = sim_ctx\<lparr>ctx_ctl := True\<rparr>\<rparr>"

text \<open>A target in which the area at 0x3000 cannot be mapped.\<close>

definition full_ext :: "simw ext" where
  "full_ext = sim_ext\<lparr>x_syscall := (\<lambda>nr args w. ((0, if nr = NR_mmap \<and> hd args = 0x3000 then - ENOMEM else 7), w))\<rparr>"


text \<open>
  \<open>process_link\<close> compares the result of \<open>process_map_vma\<close> with \<open>MAP_FAILED\<close>, but that
  function returns \<open>-errno\<close>: when the mapping fails with an error other than 1, the link is
  reported as a success and the error code becomes the address of the remote area.
\<close>

lemma process_link_misses_map_failure:
  assumes "x_prepare x (ctx_pid (ctx s)) (world s) = (True, w1)" "\<not> sv_loaded (ctx_service (ctx s))"
    and "x_syscall x NR_mmap (fst (snd (mmap_call (-1) (ctx_remote_vma (ctx s)) (- e)))) w1 = ((0, - e), w2)" "1 < e"
  shows "\<exists>t. process_link x s = Some (0, t) \<and> vma_start (ctx_remote_vma (ctx t)) = of_int (- e)"
  using assms
  by (auto simp: process_link_def process_map_vma_def process_syscall_def ext_call_def mmap_call_def vma_accessors Let_def)

lemma process_link_misses_map_failure_witness:
  "\<exists>t. process_link sim_ext (sim_state\<lparr>world := sim_world\<lparr>sim_sysret := - ENOMEM\<rparr>\<rparr>) = Some (0, t)
     \<and> vma_start (ctx_remote_vma (ctx t)) = - 12"
  using process_link_misses_map_failure[of sim_ext "sim_state\<lparr>world := sim_world\<lparr>sim_sysret := - ENOMEM\<rparr>\<rparr>" _ 12]
  by (simp add: sim_ctx_def)

end
