(* ===== verification/Backtrace.thy ===== *)
theory Backtrace
  imports Nsb_Sim
begin

text \<open>
  Stack unwinding, \<open>patcher/backtrace.c\<close>. A remote cursor of libunwind is the sequence of
  what it answers at each position; the walk records the frames until the outermost one,
  or gives up after \<open>MAX_DEPTH\<close> frames. The checks decide whether a recorded frame lies in a
  range of addresses. (When the first \<open>unw_step\<close> fails, the warning prints a field of the
  first entry of an empty list; what is printed is not modelled.)
\<close>

definition MAX_DEPTH :: nat where "MAX_DEPTH = 64"

record backtrace_frame_s =
  bf_ip :: u64
  bf_sp :: u64
  bf_sigframe :: bool
  bf_name :: "string option"

text \<open>A backtrace: \<open>depth\<close> is the length of the list \<open>calls\<close>.\<close>

type_synonym backtrace_s = "backtrace_frame_s list"

definition create_frame ::
    "'w ext \<Rightarrow> u64 \<Rightarrow> u64 \<Rightarrow> bool \<Rightarrow> string \<Rightarrow> 'w pst \<Rightarrow> backtrace_frame_s option \<times> 'w pst" where
  "create_frame x ip sp sigframe name s =
     (case xmalloc x s of
        (None, s) \<Rightarrow> (None, s)
      | (Some _, s) \<Rightarrow>
          let bf = \<lparr>bf_ip = ip, bf_sp = sp, bf_sigframe = sigframe, bf_name = None\<rparr> in
          if name \<noteq> [] then
            (case xmalloc x s of
               (None, s) \<Rightarrow> (None, s)
             | (Some _, s) \<Rightarrow> (Some (bf\<lparr>bf_name := Some name\<rparr>), s))
          else (Some bf, s))"

text \<open>On every error the frames are freed: the list is empty.\<close>

function do_backtrace ::
    "'w ext \<Rightarrow> (nat \<Rightarrow> unw_frame) \<Rightarrow> nat \<Rightarrow> backtrace_s \<Rightarrow> 'w pst \<Rightarrow> (int \<times> backtrace_s) \<times> 'w pst" where
  "do_backtrace x cursor n calls s =
     (let f = cursor n in
      case unw_ip f of (ret, ip) \<Rightarrow>
        if ret < 0 then ((ret, []), s)
        else case unw_sp f of (ret, sp) \<Rightarrow>
               if ret < 0 then ((ret, []), s)
               else if unw_signal f < 0 then ((unw_signal f, []), s)
               else if unw_step f < 0 then ((- EAGAIN, []), s)
               else if unw_step f = 0 then ((0, calls), s)
               else if MAX_DEPTH < length calls then ((- EAGAIN, []), s)
               else case create_frame x ip sp (unw_signal f \<noteq> 0) (unw_name f) s of
                      (None, s) \<Rightarrow> ((- ENOMEM, []), s)
                    | (Some bf, s) \<Rightarrow> do_backtrace x cursor (n + 1) (calls @ [bf]) s)"
  by pat_completeness auto
termination
  by (relation "measure (\<lambda>(x, cursor, n, calls, s). MAX_DEPTH + 1 - length calls)") auto

declare do_backtrace.simps [simp del]

text \<open>
  The error and, when it is 0, the backtrace. A failing \<open>unw_create_addr_space\<close> or
  \<open>_UPT_create\<close> (\<open>-EFAULT\<close>) and a failing \<open>unw_init_remote\<close> are the negative codes of \<open>x_unw_init\<close>.
\<close>

definition pid_backtrace :: "'w ext \<Rightarrow> pid \<Rightarrow> 'w pst \<Rightarrow> (int \<times> backtrace_s) \<times> 'w pst" where
  "pid_backtrace x pid s =
     (case xmalloc x s of
        (None, s) \<Rightarrow> ((- ENOMEM, []), s)
      | (Some _, s) \<Rightarrow>
          (case ext_call (x_unw_init x pid) s of
             ((err, cursor), s) \<Rightarrow> if err < 0 then ((err, []), s) else do_backtrace x cursor 0 [] s))"

fun bt_check_range :: "backtrace_s \<Rightarrow> u64 \<Rightarrow> u64 \<Rightarrow> bool \<Rightarrow> backtrace_frame_s option" where
  "bt_check_range [] start end strict = None"
| "bt_check_range (bf # calls) start end strict =
     (if bf_sigframe bf then Some bf
      else let hit = (if strict then start \<le> bf_ip bf \<and> bf_ip bf \<le> end
                      else start < bf_ip bf \<and> bf_ip bf < end)
           in if hit then Some bf else bt_check_range calls start end strict)"

definition backtrace_check_func :: "func_jump_s \<Rightarrow> backtrace_s \<Rightarrow> u64 \<Rightarrow> int" where
  "backtrace_check_func fj bt target_base =
     (let func_start = target_base + func_value fj;
          func_end = func_start + ucast (func_size fj)
      in if bt_check_range bt func_start func_end False = None then 0 else - EAGAIN)"

definition backtrace_check_range :: "backtrace_s \<Rightarrow> u64 \<Rightarrow> u64 \<Rightarrow> int" where
  "backtrace_check_range bt start end =
     (if bt_check_range bt start end True = None then 0 else - EAGAIN)"

section \<open>What the checks mean\<close>

definition in_range :: "bool \<Rightarrow> u64 \<Rightarrow> u64 \<Rightarrow> u64 \<Rightarrow> bool" where
  "in_range strict start fin ip \<longleftrightarrow> (if strict then start \<le> ip \<and> ip \<le> fin else start < ip \<and> ip < fin)"

lemma bt_check_range_None:
  "bt_check_range bt start fin strict = None
    \<longleftrightarrow> (\<forall>bf \<in> set bt. \<not> bf_sigframe bf \<and> \<not> in_range strict start fin (bf_ip bf))"
  by (induction bt) (auto simp: Let_def in_range_def)

lemma backtrace_check_func_0:
  "backtrace_check_func fj bt base = 0 \<longleftrightarrow>
     (\<forall>bf \<in> set bt. \<not> bf_sigframe bf
        \<and> \<not> in_range False (base + func_value fj) (base + func_value fj + ucast (func_size fj)) (bf_ip bf))"
  by (auto simp: backtrace_check_func_def Let_def bt_check_range_None[symmetric])

lemma backtrace_check_range_0:
  "backtrace_check_range bt start fin = 0 \<longleftrightarrow>
     (\<forall>bf \<in> set bt. \<not> bf_sigframe bf \<and> \<not> in_range True start fin (bf_ip bf))"
  by (auto simp: backtrace_check_range_def bt_check_range_None[symmetric])

section \<open>What the walk records\<close>

definition frame_of :: "unw_frame \<Rightarrow> backtrace_frame_s" where
  "frame_of f = \<lparr>bf_ip = snd (unw_ip f), bf_sp = snd (unw_sp f), bf_sigframe = (unw_signal f \<noteq> 0),
     bf_name = (if unw_name f = [] then None else Some (unw_name f))\<rparr>"

lemma create_frame_cases:
  "fst (create_frame x ip sp sg name s) \<in>
     {None, Some \<lparr>bf_ip = ip, bf_sp = sp, bf_sigframe = sg, bf_name = (if name = [] then None else Some name)\<rparr>}"
  by (auto simp: create_frame_def Let_def split: prod.splits option.splits)

text \<open>When the walk succeeds, it has recorded every frame but the outermost.\<close>

lemma do_backtrace_frames:
  assumes "do_backtrace x cursor n calls s = ((0, bt), t)"
  shows "\<exists>k. n \<le> k \<and> bt = calls @ map (\<lambda>i. frame_of (cursor i)) [n..<k] \<and> length bt \<le> max (length calls) (MAX_DEPTH + 1)
    \<and> (\<forall>i. n \<le> i \<and> i < k \<longrightarrow> 0 < unw_step (cursor i)) \<and> unw_step (cursor k) = 0"
  using assms
proof (induction "MAX_DEPTH + 1 - length calls" arbitrary: n calls s rule: less_induct)
  case less
  let ?f = "cursor n"
  obtain r1 ip r2 sp where ip: "unw_ip ?f = (r1, ip)" "unw_sp ?f = (r2, sp)" by (metis surj_pair)
  have ok: "\<not> r1 < 0" "\<not> r2 < 0" "\<not> unw_signal ?f < 0" "\<not> unw_step ?f < 0"
    using less.prems ip by (subst (asm) do_backtrace.simps, simp add: Let_def split: if_splits)+
  show ?case
  proof (cases "unw_step ?f = 0")
    case True
    with less.prems ip ok have "bt = calls" by (subst (asm) do_backtrace.simps) (auto simp: Let_def)
    with True show ?thesis by (intro exI[of _ n]) auto
  next
    case False
    with less.prems ip ok obtain bf s' where len: "\<not> MAX_DEPTH < length calls"
      and cf: "create_frame x ip sp (unw_signal ?f \<noteq> 0) (unw_name ?f) s = (Some bf, s')"
      and rec: "do_backtrace x cursor (n + 1) (calls @ [bf]) s' = ((0, bt), t)"
      by (subst (asm) do_backtrace.simps) (auto simp: Let_def split: if_splits prod.splits option.splits)
    have bf: "bf = frame_of ?f"
      using create_frame_cases[of x ip sp "unw_signal ?f \<noteq> 0" "unw_name ?f" s] cf ip by (simp add: frame_of_def)
    have "MAX_DEPTH + 1 - length (calls @ [bf]) < MAX_DEPTH + 1 - length calls" using len by simp
    from less.hyps[OF this rec] obtain k where
      k: "n + 1 \<le> k" "bt = (calls @ [bf]) @ map (\<lambda>i. frame_of (cursor i)) [n + 1..<k]"
      "length bt \<le> max (length (calls @ [bf])) (MAX_DEPTH + 1)"
      "\<forall>i. n + 1 \<le> i \<and> i < k \<longrightarrow> 0 < unw_step (cursor i)" "unw_step (cursor k) = 0" by auto
    have "[n..<k] = n # [n + 1..<k]" using k(1) by (simp add: upt_rec)
    moreover have "0 < unw_step (cursor i)" if "n \<le> i" "i < k" for i
      using that k(4) False ok(4) by (cases "i = n") auto
    ultimately show ?thesis using k bf len by (intro exI[of _ k]) auto
  qed
qed

text \<open>
  C28: A successful unwind holds exactly the frames below the outermost one, in order, as
  libunwind reports them: positions \<open>0..k-1\<close> of the cursor, where \<open>k\<close> is the first position at
  which \<open>unw_step\<close> reports the end of the stack; there are at most 65 of them. In particular
  the walk always ends.
\<close>

theorem pid_backtrace_frames:
  assumes "pid_backtrace x pid s = ((0, bt), t)"
  shows "\<exists>w k. let cursor = snd (fst (x_unw_init x pid w)) in
    bt = map (\<lambda>i. frame_of (cursor i)) [0..<k] \<and> k \<le> 65
    \<and> (\<forall>i < k. 0 < unw_step (cursor i)) \<and> unw_step (cursor k) = 0"
proof -
  from assms obtain w0 r cursor w v where x: "x_unw_init x pid w0 = ((r, cursor), w)"
    and d: "do_backtrace x cursor 0 [] v = ((0, bt), t)"
    by (auto simp: pid_backtrace_def ext_call_def split: option.splits prod.splits if_splits)
  have c: "snd (fst (x_unw_init x pid w0)) = cursor" using x by simp
  from do_backtrace_frames[OF d] obtain k where
    "bt = map (\<lambda>i. frame_of (cursor i)) [0..<k]" "length bt \<le> MAX_DEPTH + 1"
    "\<forall>i < k. 0 < unw_step (cursor i)" "unw_step (cursor k) = 0" by auto
  then show ?thesis unfolding Let_def
    by (intro exI[of _ w0] exI[of _ k]) (simp add: MAX_DEPTH_def c)
qed

definition sim_stack :: "nat \<Rightarrow> unw_frame" where
  "sim_stack i = \<lparr>unw_ip = (0, 0x400000 + of_nat i), unw_sp = (0, 0x7000), unw_name = ''f'', unw_signal = 0,
     unw_step = (if i = 2 then 0 else 1)\<rparr>"

lemma pid_backtrace_sim:
  "pid_backtrace sim_ext 10 (sim_state\<lparr>world := sim_world\<lparr>sim_frames := sim_stack\<rparr>\<rparr>)
    = ((0, [frame_of (sim_stack 0), frame_of (sim_stack 1)]),
       sim_state\<lparr>brk := 105, world := sim_world\<lparr>sim_frames := sim_stack\<rparr>\<rparr>)"
  by (simp add: pid_backtrace_def do_backtrace.simps create_frame_def xmalloc_def ext_call_def sim_stack_def
      frame_of_def MAX_DEPTH_def Let_def)

theorem pid_backtrace_frames_witness:
  "\<exists>w k. let cursor = snd (fst (x_unw_init sim_ext 10 w)) in
    [frame_of (sim_stack 0), frame_of (sim_stack 1)] = map (\<lambda>i. frame_of (cursor i)) [0..<k] \<and> k \<le> 65
    \<and> (\<forall>i < k. 0 < unw_step (cursor i)) \<and> unw_step (cursor k) = 0"
  by (rule pid_backtrace_frames[OF pid_backtrace_sim])

end
