(* ===== verification/Process_Catch.thy ===== *)
theory Process_Catch
  imports Process_IO Backtrace
begin

text \<open>
  Stopping the target at a safe place, \<open>patcher/process.c\<close> (threads, stack check,
  \<open>process_suspend\<close>) with the stack checks that \<open>patcher/patch.c\<close> plugs in. The list of
  threads is a field of the context. \<open>process_infect\<close> loops until every thread of the
  process is seized, which the kernel may never let happen: it is a partial function.
\<close>

section \<open>Seizing threads\<close>

abbreviation (input) COMPEL_TASK_ALIVE :: int where "COMPEL_TASK_ALIVE \<equiv> 1"
abbreviation (input) COMPEL_TASK_DEAD :: int where "COMPEL_TASK_DEAD \<equiv> 2"
abbreviation (input) COMPEL_TASK_STOPPED :: int where "COMPEL_TASK_STOPPED \<equiv> 3"
abbreviation (input) COMPEL_TASK_ZOMBIE :: int where "COMPEL_TASK_ZOMBIE \<equiv> 6"

definition task_cure :: "'w ext \<Rightarrow> thread_s \<Rightarrow> 'w pst \<Rightarrow> int \<times> 'w pst" where
  "task_cure x t s =
     (if \<not> t_seized t then (0, s)
      else case ext_call (x_resume_task x (t_pid t)) s of
             (err, s) \<Rightarrow> (if err \<noteq> 0 then -1 else 0, s))"

text \<open>The walk over the threads: the error, and the threads left on the list.\<close>

fun cure_threads :: "'w ext \<Rightarrow> thread_s list \<Rightarrow> 'w pst \<Rightarrow> (int \<times> thread_s list) \<times> 'w pst" where
  "cure_threads x [] s = ((0, []), s)"
| "cure_threads x (t # ts) s =
     (case task_cure x t s of
        (err, s) \<Rightarrow> if err \<noteq> 0 then ((err, t # ts), s) else cure_threads x ts s)"

definition process_cure_threads :: "'w ext \<Rightarrow> 'w pst \<Rightarrow> int \<times> 'w pst" where
  "process_cure_threads x s =
     (case cure_threads x (ctx_threads (ctx s)) s of
        ((err, ts), s) \<Rightarrow> (err, upd_ctx (\<lambda>c. c\<lparr>ctx_threads := ts\<rparr>) s))"

definition process_cure :: "'w ext \<Rightarrow> 'w pst \<Rightarrow> int \<times> 'w pst" where
  "process_cure x s = process_cure_threads x s"

text \<open>The thread as it is left on the list; \<open>None\<close> when it is destroyed.\<close>

definition task_infect :: "'w ext \<Rightarrow> thread_s \<Rightarrow> 'w pst \<Rightarrow> (int \<times> thread_s option) \<times> 'w pst" where
  "task_infect x t s =
     (case ext_call (x_stop_task x (t_pid t)) s of
        ((ret, e), s) \<Rightarrow>
          if ret = COMPEL_TASK_ALIVE then ((0, Some (t\<lparr>t_seized := True\<rparr>)), s)
          else if ret = COMPEL_TASK_STOPPED then ((- EBUSY, Some t), s)
          else if ret = COMPEL_TASK_ZOMBIE then ((0, None), s)
          else if ret = COMPEL_TASK_DEAD then ((0, None), s)
          else let s = s\<lparr>errno := e\<rparr> in
               if errno s \<noteq> - ESRCH then ((- errno s, Some t), s) else ((0, None), s))"

definition atoi :: "string \<Rightarrow> int" where
  "atoi cs =
     (let cs = skip_ws cs;
          neg = (cs \<noteq> [] \<and> hd cs = CHR ''-'');
          cs = (if cs \<noteq> [] \<and> (hd cs = CHR ''-'' \<or> hd cs = CHR ''+'') then tl cs else cs);
          v = int (digits_value 10 (takeWhile (is_digit 10) cs))
      in to_int (if neg then max (- (2 ^ 63)) (- v) else min (2 ^ 63 - 1) v))"

definition collect_thread :: "'w ext \<Rightarrow> string \<Rightarrow> 'w pst \<Rightarrow> (int \<times> 'w pst) option" where
  "collect_thread x dentry s =
     (let pid = atoi dentry in
      if list_ex (\<lambda>t. t_pid t = pid) (ctx_threads (ctx s)) then Some (0, s)
      else case xmalloc x s of
             (None, s) \<Rightarrow> Some (- ENOMEM, s)
           | (Some _, s) \<Rightarrow>
               Some (0, upd_ctx (\<lambda>c. c\<lparr>ctx_threads := ctx_threads c @ [\<lparr>t_pid = pid, t_seized = False\<rparr>]\<rparr>) s))"

definition process_collect_threads :: "'w ext \<Rightarrow> 'w pst \<Rightarrow> (int \<times> 'w pst) option" where
  "process_collect_threads x s =
     iterate_dir_name x (''/proc/'' @ int_string (ctx_pid (ctx s)) @ ''/task/'') (collect_thread x) s"

fun infect_threads :: "'w ext \<Rightarrow> thread_s list \<Rightarrow> 'w pst \<Rightarrow> (int \<times> thread_s list) \<times> 'w pst" where
  "infect_threads x [] s = ((0, []), s)"
| "infect_threads x (t # ts) s =
     (case task_infect x t s of
        ((err, t'), s) \<Rightarrow>
          if err \<noteq> 0 then ((err, (case t' of None \<Rightarrow> [] | Some t' \<Rightarrow> [t']) @ ts), s)
          else case infect_threads x ts s of
                 ((err, ts'), s) \<Rightarrow> ((err, (case t' of None \<Rightarrow> [] | Some t' \<Rightarrow> [t']) @ ts'), s))"

definition process_infect_threads :: "'w ext \<Rightarrow> 'w pst \<Rightarrow> int \<times> 'w pst" where
  "process_infect_threads x s =
     (case infect_threads x (ctx_threads (ctx s)) s of
        ((err, ts), s) \<Rightarrow> (err, upd_ctx (\<lambda>c. c\<lparr>ctx_threads := ts\<rparr>) s))"

definition process_needs_seize :: "'w pst \<Rightarrow> bool" where
  "process_needs_seize s \<longleftrightarrow> ctx_threads (ctx s) = [] \<or> \<not> t_seized (last (ctx_threads (ctx s)))"

partial_function (option) infect_loop :: "'w ext \<Rightarrow> 'w pst \<Rightarrow> (int \<times> 'w pst) option" where
  "infect_loop x s = do {
     (err, s) \<leftarrow> process_collect_threads x s;
     if err \<noteq> 0 then Some (err, s)
     else if \<not> process_needs_seize s then Some (0, s)
     else case process_infect_threads x s of
            (err, s) \<Rightarrow> if err \<noteq> 0 then Some (err, s) else infect_loop x s }"

definition process_infect :: "'w ext \<Rightarrow> 'w pst \<Rightarrow> (int \<times> 'w pst) option" where
  "process_infect x s = do {
     (err, s) \<leftarrow> infect_loop x s;
     if err \<noteq> 0 then (case process_cure_threads x s of (_, s) \<Rightarrow> Some (err, s))
     else if ctx_threads (ctx s) = [] then Some (- ESRCH, s)
     else Some (0, s) }"

section \<open>Stack checks\<close>

definition fj_at :: "'w pst \<Rightarrow> ptr \<Rightarrow> nat \<Rightarrow> func_jump_s" where
  "fj_at s p i = func_jumps (pi (patch_of s p)) ! i"

text \<open>The jumps are visited by index, since an actor may change the jump it is given.\<close>

definition iterate_patch_function_jumps ::
    "ptr \<Rightarrow> (ptr \<Rightarrow> nat \<Rightarrow> 'w pst \<Rightarrow> (int \<times> 'w pst) option) \<Rightarrow> 'w pst \<Rightarrow> (int \<times> 'w pst) option" where
  "iterate_patch_function_jumps p actor s = iterate (actor p) [0..<length (func_jumps (pi (patch_of s p)))] s"

definition jump_check_backtrace :: "backtrace_s \<Rightarrow> u64 \<Rightarrow> ptr \<Rightarrow> nat \<Rightarrow> 'w pst \<Rightarrow> (int \<times> 'w pst) option" where
  "jump_check_backtrace bt start p i s = Some (backtrace_check_func (fj_at s p i) bt start, s)"

definition jumps_check_backtrace :: "backtrace_s \<Rightarrow> u64 \<Rightarrow> u64 \<Rightarrow> 'w pst \<Rightarrow> (int \<times> 'w pst) option" where
  "jumps_check_backtrace bt start end s = do {
     p \<leftarrow> ctx_patch (ctx s);
     iterate_patch_function_jumps p (jump_check_backtrace bt start) s }"

definition patch_check_backtrace :: "backtrace_s \<Rightarrow> u64 \<Rightarrow> u64 \<Rightarrow> 'w pst \<Rightarrow> (int \<times> 'w pst) option" where
  "patch_check_backtrace bt start end s = Some (backtrace_check_range bt start end, s)"

text \<open>The call through \<open>ctx->check_backtrace\<close>.\<close>

definition check_backtrace :: "check_backtrace_t \<Rightarrow> backtrace_s \<Rightarrow> u64 \<Rightarrow> u64 \<Rightarrow> 'w pst \<Rightarrow> (int \<times> 'w pst) option" where
  "check_backtrace f = (case f of
     Jumps_check_backtrace \<Rightarrow> jumps_check_backtrace | Patch_check_backtrace \<Rightarrow> patch_check_backtrace)"

definition task_check_stack :: "'w ext \<Rightarrow> u64 \<Rightarrow> u64 \<Rightarrow> thread_s \<Rightarrow> 'w pst \<Rightarrow> (int \<times> 'w pst) option" where
  "task_check_stack x start end t s =
     (case pid_backtrace x (t_pid t) s of
        ((err, bt), s) \<Rightarrow>
          if err \<noteq> 0 then Some (err, s)
          else check_backtrace (ctx_check_backtrace (ctx s)) bt start end s)"

definition process_check_stack :: "'w ext \<Rightarrow> u64 \<Rightarrow> u64 \<Rightarrow> 'w pst \<Rightarrow> (int \<times> 'w pst) option" where
  "process_check_stack x start end s = iterate (task_check_stack x start end) (ctx_threads (ctx s)) s"

section \<open>Catching the process\<close>

text \<open>The actor over the map files; the data are \<open>ti->start\<close> and \<open>ti->end\<close>.\<close>

definition compare_target_bid ::
    "'w ext \<Rightarrow> string \<Rightarrow> pid \<Rightarrow> vma_area \<Rightarrow> 'w pst \<times> u64 \<times> u64 \<Rightarrow> (int \<times> 'w pst \<times> u64 \<times> u64) option" where
  "compare_target_bid x bid pid vma sd =
     (case sd of (s, ti) \<Rightarrow>
        if vpath vma = None then Some (0, s, ti)
        else case ext_call (x_access x (map_file_name pid vma)) s of
               (exists, s) \<Rightarrow>
                 if \<not> exists then Some (0, s, ti)
                 else case is_elf_file x (map_file_name pid vma) s of
                        (is_elf, s) \<Rightarrow>
                          if \<not> is_elf then Some (0, s, ti)
                          else do {
                            ((ret, ei), s) \<leftarrow> elf_create_info x (map_file_name pid vma) s;
                            if ret \<noteq> 0 then Some (ret, s, ti)
                            else if elf_bid (ei_of s ei) \<noteq> Some bid then Some (0, elf_destroy_info x ei s, ti)
                            else let dyn = elf_type_dyn (ei_of s ei) in
                                 Some (1, elf_destroy_info x ei s,
                                   if dyn then vma_start vma else 0, if dyn then vma_end vma else 0) })"

definition process_get_target_info ::
    "'w ext \<Rightarrow> pid \<Rightarrow> string \<Rightarrow> 'w pst \<Rightarrow> (int \<times> 'w pst \<times> u64 \<times> u64) option" where
  "process_get_target_info x pid bid s = do {
     (ret, s, ti) \<leftarrow> iter_map_files x pid (compare_target_bid x bid) (s, 0, 0);
     if ret < 0 then Some (ret, s\<lparr>errno := - ret\<rparr>, ti)
     else if ret = 0 then Some (- ENOENT, s, ti)
     else Some (0, s, ti) }"

definition process_catch :: "'w ext \<Rightarrow> string \<Rightarrow> 'w pst \<Rightarrow> (int \<times> 'w pst) option" where
  "process_catch x bid s = do {
     (err, s) \<leftarrow> process_infect x s;
     if err \<noteq> 0 then Some (err, s)
     else do {
       (ret, s, start, end) \<leftarrow> process_get_target_info x (ctx_pid (ctx s)) bid s;
       (ret, s) \<leftarrow> (if ret \<noteq> 0 then Some (ret, s) else process_check_stack x start end s);
       if ret = 0 then Some (0, s)
       else case process_cure x s of (err, s) \<Rightarrow> Some (if ret \<noteq> 0 then ret else err, s) } }"

definition increase_timeout :: "u32 \<Rightarrow> u32" where
  "increase_timeout current_msec =
     (if current_msec < 1000 then min (push_bit 1 current_msec) 1000 else current_msec)"

text \<open>The loop of \<open>process_suspend\<close>: \<open>try\<close> counts the attempts made, \<open>tries\<close> those left.\<close>

fun suspend_loop :: "'w ext \<Rightarrow> string \<Rightarrow> nat \<Rightarrow> nat \<Rightarrow> u32 \<Rightarrow> 'w pst \<Rightarrow> (int \<times> 'w pst) option" where
  "suspend_loop x bid tried 0 timeout_msec s = Some (- ETIME, s)"
| "suspend_loop x bid tried (Suc left) timeout_msec s =
     (let s1 = (if tried \<noteq> 0 then s\<lparr>world := x_usleep x (unat (timeout_msec * 1000)) (world s)\<rparr> else s);
          timeout_msec = (if tried \<noteq> 0 then increase_timeout timeout_msec else timeout_msec)
      in do {
        (ret, s) \<leftarrow> process_catch x bid s1;
        if ret \<noteq> - EAGAIN then Some (ret, s)
        else suspend_loop x bid (tried + 1) left timeout_msec s })"

definition process_suspend :: "'w ext \<Rightarrow> string \<Rightarrow> 'w pst \<Rightarrow> (int \<times> 'w pst) option" where
  "process_suspend x bid s = suspend_loop x bid 0 25 1 s"

section \<open>What catching leaves alone\<close>

definition catch_frame :: "'w pst \<Rightarrow> 'w pst \<Rightarrow> bool" where
  "catch_frame s t \<longleftrightarrow> vma_of t = vma_of s \<and> dlm_of t = dlm_of s \<and> patch_of t = patch_of s
     \<and> (process_context t)\<lparr>ctx_threads := []\<rparr> = (process_context s)\<lparr>ctx_threads := []\<rparr>"

lemma catch_frame_refl [simp]: "catch_frame s s"
  by (simp add: catch_frame_def)

lemma catch_frame_trans: "catch_frame s t \<Longrightarrow> catch_frame t u \<Longrightarrow> catch_frame s u"
  by (simp add: catch_frame_def)

lemma catch_frame_upd [simp]: "catch_frame s (upd_ctx (\<lambda>c. c\<lparr>ctx_threads := f c\<rparr>) t) = catch_frame s t"
  by (simp add: catch_frame_def)

lemma catch_frame_io: "io_frame s t \<Longrightarrow> catch_frame s t"
  by (simp add: catch_frame_def io_frame_def)

lemma catch_frame_ctx:
  assumes "catch_frame s t"
  shows "ctx_patch (ctx t) = ctx_patch (ctx s)" "ctx_check_backtrace (ctx t) = ctx_check_backtrace (ctx s)"
    "ctx_pid (ctx t) = ctx_pid (ctx s)"
  using assms unfolding catch_frame_def
  by (metis process_ctx_s.select_convs process_ctx_s.surjective process_ctx_s.update_convs(13))+

lemma task_cure_frame: "task_cure x t s = (r, u) \<Longrightarrow> io_frame s u"
  by (auto simp: task_cure_def split: if_splits prod.splits dest!: io_frame_ext_call)

lemma cure_threads_frame: "cure_threads x ts s = (r, u) \<Longrightarrow> io_frame s u"
proof (induction ts arbitrary: s r u)
  case Nil
  then show ?case by simp
next
  case (Cons t ts)
  obtain r1 s1 where 1: "task_cure x t s = (r1, s1)" by fastforce
  from Cons.prems 1 have "u = s1 \<or> cure_threads x ts s1 = (r, u)" by (auto split: if_splits)
  with task_cure_frame[OF 1] Cons.IH[of s1 r u] show ?case by (auto intro: io_frame_trans)
qed

lemma task_infect_frame: "task_infect x t s = (r, u) \<Longrightarrow> io_frame s u"
  by (auto simp: task_infect_def Let_def split: prod.splits if_splits dest!: io_frame_ext_call)

lemma infect_threads_frame: "infect_threads x ts s = (r, u) \<Longrightarrow> io_frame s u"
proof (induction ts arbitrary: s r u)
  case Nil
  then show ?case by simp
next
  case (Cons t ts)
  obtain r1 s1 where 1: "task_infect x t s = (r1, s1)" by fastforce
  obtain r2 s2 where 2: "infect_threads x ts s1 = (r2, s2)" by fastforce
  from Cons.prems 1 2 have "u = s1 \<or> u = s2" by (auto split: prod.splits if_splits)
  with task_infect_frame[OF 1] Cons.IH[OF 2] show ?case by (auto intro: io_frame_trans)
qed

section \<open>All threads are seized\<close>

text \<open>
  A task that compel cannot stop, for a reason it does not name by a state, has an error
  code in \<open>errno\<close>.
\<close>

definition stop_task_errno :: "'w ext \<Rightarrow> bool" where
  "stop_task_errno x \<longleftrightarrow> (\<forall>pid w ret e w'. x_stop_task x pid w = ((ret, e), w') \<longrightarrow>
     ret \<notin> {COMPEL_TASK_ALIVE, COMPEL_TASK_DEAD, COMPEL_TASK_STOPPED, COMPEL_TASK_ZOMBIE} \<longrightarrow> 0 < e)"

lemma task_infect_seized:
  assumes "stop_task_errno x" "task_infect x t s = ((0, Some t'), u)"
  shows "t_seized t'"
proof -
  obtain ret e w where w: "x_stop_task x (t_pid t) (world s) = ((ret, e), w)" by (metis prod.exhaust)
  have "ret \<in> {COMPEL_TASK_ALIVE, COMPEL_TASK_DEAD, COMPEL_TASK_STOPPED, COMPEL_TASK_ZOMBIE} \<or> 0 < e"
    using w assms(1) unfolding stop_task_errno_def by blast
  then show ?thesis
    using assms(2) w by (auto simp: task_infect_def ext_call_def Let_def split: if_splits)
qed

lemma infect_threads_seized:
  assumes "stop_task_errno x" "infect_threads x ts s = ((0, ts'), u)"
  shows "\<forall>t \<in> set ts'. t_seized t"
  using assms(2)
proof (induction ts arbitrary: s ts')
  case Nil
  then show ?case by simp
next
  case (Cons t ts)
  obtain r1 t' s1 where 1: "task_infect x t s = ((r1, t'), s1)" by (metis prod.exhaust)
  obtain r2 ts2 s2 where 2: "infect_threads x ts s1 = ((r2, ts2), s2)" by (metis prod.exhaust)
  from Cons.prems 1 2 have "r1 = 0" "r2 = 0" "u = s2"
    "ts' = (case t' of None \<Rightarrow> [] | Some t' \<Rightarrow> [t']) @ ts2" by (auto split: if_splits)
  with 1 2 Cons.IH[of s1 ts2] task_infect_seized[OF assms(1), of t s] show ?case
    by (auto split: option.splits)
qed

text \<open>The seized threads come first: new threads are appended.\<close>

definition seized_first :: "thread_s list \<Rightarrow> bool" where
  "seized_first ts \<longleftrightarrow> (\<exists>a b. ts = a @ b \<and> (\<forall>t \<in> set a. t_seized t) \<and> (\<forall>t \<in> set b. \<not> t_seized t))"

lemma seized_first_all: "(\<forall>t \<in> set ts. t_seized t) \<Longrightarrow> seized_first ts"
  unfolding seized_first_def by (intro exI[of _ ts] exI[of _ "[]"]) simp

lemma seized_first_append:
  assumes "seized_first ts" "\<not> t_seized t"
  shows "seized_first (ts @ [t])"
proof -
  from assms(1) obtain a b where "ts = a @ b" "\<forall>t \<in> set a. t_seized t" "\<forall>t \<in> set b. \<not> t_seized t"
    unfolding seized_first_def by blast
  with assms(2) show ?thesis
    unfolding seized_first_def by (intro exI[of _ a] exI[of _ "b @ [t]"]) auto
qed

lemma seized_first_new [simp]:
  "seized_first ts \<Longrightarrow> seized_first (ts @ [\<lparr>t_pid = p, t_seized = False\<rparr>])"
  by (rule seized_first_append) simp_all

lemma seized_first_last:
  assumes "seized_first ts" "ts \<noteq> []" "t_seized (last ts)"
  shows "\<forall>t \<in> set ts. t_seized t"
proof -
  from assms(1) obtain a b where ab: "ts = a @ b" "\<forall>t \<in> set a. t_seized t" "\<forall>t \<in> set b. \<not> t_seized t"
    unfolding seized_first_def by blast
  with assms(2,3) have "b = []" by (cases b rule: rev_cases) auto
  with ab show ?thesis by simp
qed

lemma collect_threads_keeps:
  assumes "process_collect_threads x s = Some (err, t)" "seized_first (ctx_threads (ctx s))"
  shows "catch_frame s t \<and> seized_first (ctx_threads (ctx t))"
  using assms(1) unfolding process_collect_threads_def
proof (rule iterate_dir_name_invariant[where I = "\<lambda>u. catch_frame s u \<and> seized_first (ctx_threads (ctx u))"])
  show "catch_frame s s \<and> seized_first (ctx_threads (ctx s))" using assms(2) by simp
next
  fix d u e v
  assume i: "catch_frame s u \<and> seized_first (ctx_threads (ctx u))" and c: "collect_thread x d u = Some (e, v)"
  have x: "catch_frame s v'" "ctx_threads (ctx v') = ctx_threads (ctx u)" if "xmalloc x u = (r, v')" for r v'
    using xmalloc_keeps[OF that] i by (auto simp: catch_frame_def)
  show "catch_frame s v \<and> seized_first (ctx_threads (ctx v))"
    using c i by (auto simp: collect_thread_def Let_def x split: if_splits prod.splits option.splits)
qed (auto simp: catch_frame_def)

lemma infect_threads_split:
  assumes "infect_threads x ts s = ((e, ts'), u)" "stop_task_errno x"
  shows "\<exists>a b c. ts' = a @ b \<and> ts = c @ b \<and> (\<forall>t \<in> set a. t_seized t)"
  using assms(1)
proof (induction ts arbitrary: s ts')
  case Nil
  then show ?case by simp
next
  case (Cons t ts)
  obtain r1 t' s1 where 1: "task_infect x t s = ((r1, t'), s1)" by (metis prod.exhaust)
  obtain r2 ts2 s2 where 2: "infect_threads x ts s1 = ((r2, ts2), s2)" by (metis prod.exhaust)
  show ?case
  proof (cases "r1 = 0")
    case True
    have seized: "\<forall>t1. t' = Some t1 \<longrightarrow> t_seized t1" using task_infect_seized[OF assms(2)] 1 True by blast
    from Cons.prems 1 2 True have ts': "r2 = e" "s2 = u" "ts' = (case t' of None \<Rightarrow> [] | Some t' \<Rightarrow> [t']) @ ts2"
      by auto
    from Cons.IH[of s1 ts2] 2 ts' obtain a b c where "ts2 = a @ b" "ts = c @ b" "\<forall>t \<in> set a. t_seized t" by auto
    with ts' seized show ?thesis
      by (intro exI[of _ "(case t' of None \<Rightarrow> [] | Some t' \<Rightarrow> [t']) @ a"] exI[of _ b] exI[of _ "t # c"])
        (auto split: option.splits)
  next
    case False
    then have "t' = None \<or> t' = Some t"
      using 1 by (auto simp: task_infect_def Let_def split: prod.splits if_splits)
    with Cons.prems 1 False show ?thesis
      by (auto intro: exI[of _ "[]"] exI[of _ "[t]"])
  qed
qed

lemma seized_first_suffix: "seized_first (c @ b) \<Longrightarrow> seized_first b"
proof (induction c)
  case (Cons t c)
  from Cons.prems obtain u v where uv: "t # c @ b = u @ v" "\<forall>t \<in> set u. t_seized t" "\<forall>t \<in> set v. \<not> t_seized t"
    unfolding seized_first_def by auto
  have "seized_first (c @ b)"
  proof (cases u)
    case Nil
    with uv show ?thesis unfolding seized_first_def
      by (intro exI[of _ "[]"] exI[of _ "c @ b"]) (metis append_Nil empty_iff list.set(1) list.set_intros(2))
  next
    case (Cons t' u')
    with uv show ?thesis unfolding seized_first_def by (intro exI[of _ u'] exI[of _ v]) auto
  qed
  then show ?case by (rule Cons.IH)
qed simp

lemma seized_first_prepend: "seized_first b \<Longrightarrow> (\<forall>t \<in> set a. t_seized t) \<Longrightarrow> seized_first (a @ b)"
  unfolding seized_first_def by (metis append_assoc Un_iff set_append)

lemma cure_threads_suffix: "cure_threads x ts s = ((e, ts'), u) \<Longrightarrow> \<exists>c. ts = c @ ts'"
proof (induction ts arbitrary: s)
  case (Cons t ts)
  obtain r1 s1 where 1: "task_cure x t s = (r1, s1)" by fastforce
  show ?case
  proof (cases "r1 = 0")
    case True
    with Cons.prems 1 Cons.IH[of s1] obtain c where "ts = c @ ts'" by auto
    then show ?thesis by (intro exI[of _ "t # c"]) simp
  next
    case False
    with Cons.prems 1 show ?thesis by auto
  qed
qed simp

lemma process_cure_threads_keeps:
  assumes "process_cure_threads x s = (e, t)" "seized_first (ctx_threads (ctx s))"
  shows "catch_frame s t \<and> seized_first (ctx_threads (ctx t))"
proof -
  obtain ts u where c: "cure_threads x (ctx_threads (ctx s)) s = ((e, ts), u)"
    and t: "t = upd_ctx (\<lambda>c. c\<lparr>ctx_threads := ts\<rparr>) u"
    using assms(1) by (auto simp: process_cure_threads_def split: prod.splits)
  have "catch_frame s t" using catch_frame_io[OF cure_threads_frame[OF c]] t by simp
  moreover have "seized_first ts" using cure_threads_suffix[OF c] assms(2) seized_first_suffix by metis
  ultimately show ?thesis using t by simp
qed

lemma infect_loop_seized:
  assumes "infect_loop x s = Some r" "stop_task_errno x" "seized_first (ctx_threads (ctx s))"
  shows "catch_frame s (snd r) \<and> seized_first (ctx_threads (ctx (snd r))) \<and> (fst r = 0 \<longrightarrow> ctx_threads (ctx (snd r)) \<noteq> []
    \<and> (\<forall>th \<in> set (ctx_threads (ctx (snd r))). t_seized th))"
proof -
  define G where "G = (\<lambda>(s :: 'a pst) (r :: int \<times> 'a pst). catch_frame s (snd r)
    \<and> seized_first (ctx_threads (ctx (snd r)))
    \<and> (fst r = 0 \<longrightarrow> ctx_threads (ctx (snd r)) \<noteq> [] \<and> (\<forall>th \<in> set (ctx_threads (ctx (snd r))). t_seized th)))"
  have "stop_task_errno x \<longrightarrow> seized_first (ctx_threads (ctx s)) \<longrightarrow> G s r"
  proof (rule infect_loop.raw_induct[where P = "\<lambda>x s r. stop_task_errno x \<longrightarrow> seized_first (ctx_threads (ctx s))
        \<longrightarrow> G s r" and xa = "(x, s)" and y = r, unfolded prod.case, OF _ assms(1)], intro impI)
    fix loop :: "'a ext \<Rightarrow> 'a pst \<Rightarrow> (int \<times> 'a pst) option" and x s r
    assume IH: "\<And>x s r. loop x s = Some r \<Longrightarrow> stop_task_errno x \<longrightarrow> seized_first (ctx_threads (ctx s)) \<longrightarrow> G s r"
      and step: "do {
         (err, s) \<leftarrow> process_collect_threads x s;
         if err \<noteq> 0 then Some (err, s)
         else if \<not> process_needs_seize s then Some (0, s)
         else case process_infect_threads x s of
                (err, s) \<Rightarrow> if err \<noteq> 0 then Some (err, s) else loop x s } = Some r"
      and st: "stop_task_errno x" and sf: "seized_first (ctx_threads (ctx s))"
    from step obtain e u where c: "process_collect_threads x s = Some (e, u)"
      and rest: "(if e \<noteq> 0 then Some (e, u) else if \<not> process_needs_seize u then Some (0, u)
        else case process_infect_threads x u of (err, s) \<Rightarrow> if err \<noteq> 0 then Some (err, s) else loop x s) = Some r"
      by (cases "process_collect_threads x s") auto
    note k = collect_threads_keeps[OF c sf]
    show "G s r"
    proof (cases "e \<noteq> 0 \<or> \<not> process_needs_seize u")
      case True
      with rest k show ?thesis unfolding G_def
        by (auto simp: process_needs_seize_def split: if_splits dest: seized_first_last)
    next
      case False
      obtain e1 ts v where i: "infect_threads x (ctx_threads (ctx u)) u = ((e1, ts), v)" by (metis prod.exhaust)
      let ?v = "upd_ctx (\<lambda>c. c\<lparr>ctx_threads := ts\<rparr>) v"
      have f: "catch_frame s ?v" using k catch_frame_io[OF infect_threads_frame[OF i]]
        by (auto intro: catch_frame_trans)
      from rest False i have rest': "(if e1 \<noteq> 0 then Some (e1, ?v) else loop x ?v) = Some r"
        by (auto simp: process_infect_threads_def)
      obtain a b c where abc: "ts = a @ b" "ctx_threads (ctx u) = c @ b" "\<forall>t \<in> set a. t_seized t"
        using infect_threads_split[OF i st] by blast
      with k have "seized_first ts" by (metis seized_first_suffix seized_first_prepend)
      then have sf': "seized_first (ctx_threads (ctx ?v))" by simp
      show ?thesis
      proof (cases "e1 = 0")
        case False
        with rest' f sf' show ?thesis unfolding G_def by auto
      next
        case True
        with rest' have l: "loop x ?v = Some r" by simp
        from IH[OF l] st sf' have "G ?v r" by blast
        with f show ?thesis unfolding G_def by (blast intro: catch_frame_trans)
      qed
    qed
  qed
  with assms(2,3) show ?thesis by (simp add: G_def)
qed

lemma process_infect_seized:
  assumes "process_infect x s = Some (e, t)" "stop_task_errno x" "seized_first (ctx_threads (ctx s))"
  shows "catch_frame s t \<and> seized_first (ctx_threads (ctx t))
    \<and> (e = 0 \<longrightarrow> ctx_threads (ctx t) \<noteq> [] \<and> (\<forall>th \<in> set (ctx_threads (ctx t)). t_seized th))"
proof -
  obtain e1 u where l: "infect_loop x s = Some (e1, u)"
    using assms(1) by (cases "infect_loop x s") (auto simp: process_infect_def)
  note k = infect_loop_seized[OF l assms(2,3), simplified]
  show ?thesis
  proof (cases "e1 = 0")
    case True
    with assms(1) l k show ?thesis by (auto simp: process_infect_def)
  next
    case False
    obtain e2 v where c: "process_cure_threads x u = (e2, v)" by fastforce
    from assms(1) l c False have "e = e1" "t = v" by (auto simp: process_infect_def)
    with False k process_cure_threads_keeps[OF c] show ?thesis by (auto intro: catch_frame_trans)
  qed
qed

section \<open>What the stack check has seen\<close>

lemma catch_frame_fresh: "ei_fresh s t \<Longrightarrow> catch_frame s t"
  by (simp add: catch_frame_def ei_fresh_def)

lemma ei_fresh_xmalloc: "xmalloc x s = (r, t) \<Longrightarrow> ei_fresh s t"
  by (rule ei_frame_imp_fresh[OF ei_frame_xmalloc])

lemma ei_fresh_ext_call: "ext_call f s = (r, t) \<Longrightarrow> ei_fresh s t"
  by (rule ei_frame_imp_fresh[OF ei_frame_ext_call])

lemma create_frame_fresh: "create_frame x ip sp sg n s = (r, t) \<Longrightarrow> ei_fresh s t"
  by (auto simp: create_frame_def Let_def split: prod.splits option.splits if_splits
      dest!: ei_fresh_xmalloc intro: ei_fresh_trans)

lemma do_backtrace_fresh: "do_backtrace x cursor n cs s = (r, t) \<Longrightarrow> ei_fresh s t"
proof (induction x cursor n cs s rule: do_backtrace.induct)
  case (1 x cursor n cs s)
  obtain r1 ip r2 sp where ip: "unw_ip (cursor n) = (r1, ip)" "unw_sp (cursor n) = (r2, sp)" by (metis surj_pair)
  show ?case
  proof (cases "t = s")
    case False
    with "1.prems" ip obtain c u where go: "\<not> r1 < 0" "\<not> r2 < 0" "\<not> unw_signal (cursor n) < 0"
        "\<not> unw_step (cursor n) < 0" "unw_step (cursor n) \<noteq> 0" "\<not> MAX_DEPTH < length cs"
      and c: "create_frame x ip sp (unw_signal (cursor n) \<noteq> 0) (unw_name (cursor n)) s = (c, u)"
      and t: "t = u \<or> (\<exists>bf. c = Some bf \<and> do_backtrace x cursor (n + 1) (cs @ [bf]) u = (r, t))"
      by (subst (asm) do_backtrace.simps) (auto simp: Let_def split: if_splits prod.splits option.splits)
    note cf = create_frame_fresh[OF c]
    from t show ?thesis
    proof
      assume "\<exists>bf. c = Some bf \<and> do_backtrace x cursor (n + 1) (cs @ [bf]) u = (r, t)"
      then obtain bf where bf: "c = Some bf" "do_backtrace x cursor (n + 1) (cs @ [bf]) u = (r, t)" by blast
      have "ei_fresh u t" using "1.IH"[OF refl ip(1)[symmetric] go(1) ip(2)[symmetric] go(2-6) c[symmetric]] bf by simp
      with cf show ?thesis by (rule ei_fresh_trans)
    qed (use cf in simp)
  qed simp
qed

lemma pid_backtrace_fresh: "pid_backtrace x pid s = (r, t) \<Longrightarrow> ei_fresh s t"
  by (auto simp: pid_backtrace_def split: prod.splits option.splits if_splits
      dest!: ei_fresh_xmalloc ei_fresh_ext_call do_backtrace_fresh; blast intro: ei_fresh_trans)

lemma compare_target_bid_fresh:
  assumes "compare_target_bid x bid pid vma (s, d) = Some (e, t, d')"
  shows "ei_fresh s t"
proof (cases "vpath vma = None")
  case True
  with assms show ?thesis by (simp add: compare_target_bid_def)
next
  case False
  obtain ok s1 where a: "ext_call (x_access x (map_file_name pid vma)) s = (ok, s1)" by fastforce
  obtain elf s2 where i: "is_elf_file x (map_file_name pid vma) s1 = (elf, s2)" by fastforce
  have f1: "ei_fresh s s1" and f2: "ei_fresh s s2"
    using ei_fresh_ext_call[OF a] ei_frame_imp_fresh[OF is_elf_file_frame[OF i]] by (auto intro: ei_fresh_trans)
  show ?thesis
  proof (cases "ok \<and> elf")
    case True
    with assms False a i obtain ret ei s3 where c: "elf_create_info x (map_file_name pid vma) s2 = Some ((ret, ei), s3)"
      and t: "t = s3 \<or> t = elf_destroy_info x ei s3"
      by (auto simp: compare_target_bid_def Let_def split: bind_splits if_splits)
    have "ei_fresh s s3" using f2 elf_create_info_fresh[OF c] by (blast intro: ei_fresh_trans)
    with t ei_frame_imp_fresh[OF elf_destroy_info_frame] show ?thesis by (blast intro: ei_fresh_trans)
  next
    case no: False
    with assms False a i have "t = s1 \<or> t = s2" by (auto simp: compare_target_bid_def split: if_splits)
    with f1 f2 show ?thesis by blast
  qed
qed

lemma process_get_target_info_fresh:
  assumes "process_get_target_info x pid bid s = Some (r, t, ti)"
  shows "catch_frame s t \<and> ctx_threads (ctx t) = ctx_threads (ctx s)"
proof -
  have step: "ei_fresh s (fst v)" if "ei_fresh s (fst u)" "compare_target_bid x bid pid vma u = Some (e, v)" for vma u e v
    using that compare_target_bid_fresh[of x bid pid vma "fst u" "snd u" e "fst v" "snd v"]
    by (auto intro: ei_fresh_trans)
  have *: "ei_fresh s u" if "iter_map_files x pid (compare_target_bid x bid) (s, 0, 0) = Some (e, u, ti)" for e u ti
  proof (cases "ext_call (x_maps x pid) s")
    case (Pair m s1)
    note f = ei_fresh_ext_call[OF Pair]
    show ?thesis
    proof (cases m)
      case None
      with that Pair f show ?thesis by (simp add: iter_map_files_def)
    next
      case (Some bufs)
      with that Pair have it: "iter_map_lines (compare_target_bid x bid pid) (-1) bufs (s1, 0, 0) = Some (e, u, ti)"
        by (simp add: iter_map_files_def)
      show ?thesis
        using iter_map_lines_invariant[where I = "\<lambda>u. ei_fresh s (fst u)", OF it] step f by simp
    qed
  qed
  from assms obtain e u where "iter_map_files x pid (compare_target_bid x bid) (s, 0, 0) = Some (e, u, ti)"
    and t: "t = u \<or> t = u\<lparr>errno := - e\<rparr>"
    by (auto simp: process_get_target_info_def split: bind_splits if_splits)
  from *[OF this(1)] t show ?thesis by (auto simp: ei_fresh_def catch_frame_def)
qed

text \<open>
  What a stack is checked for, with the bounds \<open>start\<close> and \<open>fin\<close>: with the jump check, no frame
  is a signal frame or lies strictly inside a function that the patch replaces; with the range
  check, no frame is a signal frame or lies between the bounds.
\<close>

definition stack_clear :: "'w pst \<Rightarrow> u64 \<Rightarrow> u64 \<Rightarrow> backtrace_s \<Rightarrow> bool" where
  "stack_clear s start fin bt \<longleftrightarrow>
     (case ctx_check_backtrace (ctx s) of
        Jumps_check_backtrace \<Rightarrow> \<exists>p. ctx_patch (ctx s) = Some p \<and>
          (\<forall>fj \<in> set (func_jumps (pi (patch_of s p))). \<forall>bf \<in> set bt. \<not> bf_sigframe bf \<and>
             \<not> (start + func_value fj < bf_ip bf \<and> bf_ip bf < start + func_value fj + ucast (func_size fj)))
      | Patch_check_backtrace \<Rightarrow> \<forall>bf \<in> set bt. \<not> bf_sigframe bf \<and> \<not> (start \<le> bf_ip bf \<and> bf_ip bf \<le> fin))"

text \<open>The stacks of the threads are unwound one after the other, from state \<open>s\<close> to state \<open>t\<close>, and each satisfies \<open>P\<close>.\<close>

fun stacks_unwound :: "'w ext \<Rightarrow> (backtrace_s \<Rightarrow> bool) \<Rightarrow> thread_s list \<Rightarrow> 'w pst \<Rightarrow> 'w pst \<Rightarrow> bool" where
  "stacks_unwound x P [] s t \<longleftrightarrow> t = s"
| "stacks_unwound x P (th # ths) s t \<longleftrightarrow>
     (case pid_backtrace x (t_pid th) s of ((e, bt), u) \<Rightarrow> e = 0 \<and> P bt \<and> stacks_unwound x P ths u t)"

text \<open>
  The bounds belong to the first area whose file has the build ID: the map of the process is
  read in state \<open>s\<close>, the lines in front of the area's line are passed over, the file of the
  area is an ELF file with that build ID, and the bounds are those of the area for a position-independent
  object and zero otherwise. \<open>v\<close> is the state behind this.
\<close>

definition target_range :: "'w ext \<Rightarrow> string \<Rightarrow> pid \<Rightarrow> 'w pst \<Rightarrow> u64 \<Rightarrow> u64 \<Rightarrow> 'w pst \<Rightarrow> bool" where
  "target_range x bid pid s start fin v \<longleftrightarrow>
     (\<exists>pre buf post vma s1 s2 s3 s4 s5 ei. ext_call (x_maps x pid) s = (Some (pre @ buf # post), s1)
        \<and> iter_map_lines (compare_target_bid x bid pid) 0 pre (s1, 0, 0) = Some (0, s2, 0, 0)
        \<and> parse_vma (butlast buf) = (0, vma) \<and> vpath vma \<noteq> None
        \<and> ext_call (x_access x (map_file_name pid vma)) s2 = (True, s3)
        \<and> is_elf_file x (map_file_name pid vma) s3 = (True, s4)
        \<and> elf_create_info x (map_file_name pid vma) s4 = Some ((0, ei), s5)
        \<and> elf_bid (ei_of s5 ei) = Some bid \<and> v = elf_destroy_info x ei s5
        \<and> start = (if elf_type_dyn (ei_of s5 ei) then vma_start vma else 0)
        \<and> fin = (if elf_type_dyn (ei_of s5 ei) then vma_end vma else 0))"

text \<open>
  The state in which attempt number \<open>k\<close> begins, counted from zero: every earlier attempt ended with \<open>-EAGAIN\<close>
  and was followed by a pause of one millisecond after the first, of twice the time after each
  further one, and of one second at most.
\<close>

fun before_attempt :: "'w ext \<Rightarrow> string \<Rightarrow> 'w pst \<Rightarrow> nat \<Rightarrow> 'w pst option" where
  "before_attempt x bid s 0 = Some s"
| "before_attempt x bid s (Suc k) =
     (case before_attempt x bid s k of None \<Rightarrow> None
      | Some a \<Rightarrow> (case process_catch x bid a of None \<Rightarrow> None
        | Some (r, v) \<Rightarrow> if r = - EAGAIN then Some (v\<lparr>world := x_usleep x (min (2 ^ k) 1000 * 1000) (world v)\<rparr>) else None))"

text \<open>
  How \<open>process_suspend\<close> stops a process, from state \<open>s\<close> to state \<open>t\<close>: in one of its attempts it
  seizes the threads, finds the bounds, and unwinds the stacks of all threads, which are clear.
\<close>

definition safely_stopped :: "'w ext \<Rightarrow> string \<Rightarrow> 'w pst \<Rightarrow> 'w pst \<Rightarrow> bool" where
  "safely_stopped x bid s t \<longleftrightarrow> ctx_threads (ctx t) \<noteq> [] \<and> (\<forall>th \<in> set (ctx_threads (ctx t)). t_seized th)
     \<and> (\<exists>k a u start fin v. k < 25 \<and> before_attempt x bid s k = Some a \<and> process_infect x a = Some (0, u)
          \<and> target_range x bid (ctx_pid (ctx s)) u start fin v
          \<and> stacks_unwound x (stack_clear s start fin) (ctx_threads (ctx t)) v t)"

lemma jumps_check_backtrace_0:
  assumes "jumps_check_backtrace bt start fin s = Some (0, t)"
  shows "t = s \<and> (\<exists>p. ctx_patch (ctx s) = Some p \<and> (\<forall>fj \<in> set (func_jumps (pi (patch_of s p))).
    backtrace_check_func fj bt start = 0))"
proof -
  obtain p where p: "ctx_patch (ctx s) = Some p"
    using assms by (auto simp: jumps_check_backtrace_def split: bind_splits)
  let ?n = "length (func_jumps (pi (patch_of s p)))"
  let ?f = "\<lambda>i. backtrace_check_func (fj_at s p i) bt start"
  have inv: "iterate (jump_check_backtrace bt start p) is s
      = Some (case find (\<lambda>i. ?f i \<noteq> 0) is of None \<Rightarrow> 0 | Some i \<Rightarrow> ?f i, s)" for "is"
    by (induction "is") (simp_all add: jump_check_backtrace_def)
  from assms p inv[of "[0..<?n]"] have "t = s" "find (\<lambda>i. ?f i \<noteq> 0) [0..<?n] = None"
    by (auto simp: jumps_check_backtrace_def iterate_patch_function_jumps_def find_Some_iff split: option.splits)
  with p show ?thesis by (auto simp: find_None_iff fj_at_def in_set_conv_nth)
qed

lemma stack_clear_frame:
  assumes "catch_frame s t"
  shows "stack_clear t = stack_clear s"
proof -
  have "patch_of t = patch_of s" using assms by (simp add: catch_frame_def)
  with catch_frame_ctx[OF assms] show ?thesis
    by (simp add: stack_clear_def fun_eq_iff cong: check_backtrace_t.case_cong)
qed

lemma check_backtrace_clear:
  assumes "check_backtrace (ctx_check_backtrace (ctx s)) bt start fin s = Some (e, t)"
  shows "t = s \<and> (e = 0 \<longrightarrow> stack_clear s start fin bt)"
proof (cases "ctx_check_backtrace (ctx s)")
  case Jumps_check_backtrace
  have t: "t = s"
    using assms Jumps_check_backtrace
    by (auto simp: check_backtrace_def jumps_check_backtrace_def iterate_patch_function_jumps_def
        split: bind_splits dest!: iter_core.iter_invariant[where I = "\<lambda>v. v = s", rotated 2])
      (auto simp: jump_check_backtrace_def)
  show ?thesis using t Jumps_check_backtrace assms jumps_check_backtrace_0[of bt start fin s t]
    by (auto simp: stack_clear_def check_backtrace_def backtrace_check_func_0 in_range_def)
next
  case Patch_check_backtrace
  with assms show ?thesis
    by (auto simp: stack_clear_def check_backtrace_def patch_check_backtrace_def backtrace_check_range_0 in_range_def)
qed

lemma check_stacks_unwound:
  assumes "iterate (task_check_stack x start fin) ths s = Some (e, t)"
  shows "ei_fresh s t \<and> (e = 0 \<longrightarrow> stacks_unwound x (stack_clear s start fin) ths s t)"
  using assms
proof (induction ths arbitrary: s)
  case (Cons th ths)
  obtain e1 bt u where b: "pid_backtrace x (t_pid th) s = ((e1, bt), u)" by (metis prod.exhaust)
  note f = pid_backtrace_fresh[OF b]
  have same: "stack_clear u = stack_clear s" by (rule stack_clear_frame[OF catch_frame_fresh[OF f]])
  show ?case
  proof (cases "e1 = 0")
    case True
    with b have tc: "task_check_stack x start fin th s = check_backtrace (ctx_check_backtrace (ctx u)) bt start fin u"
      by (simp add: task_check_stack_def)
    with Cons.prems obtain e2 v where
      c: "check_backtrace (ctx_check_backtrace (ctx u)) bt start fin u = Some (e2, v)"
      and rest: "(if e2 \<noteq> 0 then Some (e2, v) else iterate (task_check_stack x start fin) ths v) = Some (e, t)"
      by (auto split: bind_splits)
    note k = check_backtrace_clear[OF c]
    show ?thesis
    proof (cases "e2 = 0")
      case True
      with rest k have "iterate (task_check_stack x start fin) ths u = Some (e, t)" by simp
      from Cons.IH[OF this] f same k True b \<open>e1 = 0\<close> show ?thesis by (auto intro: ei_fresh_trans)
    qed (use rest k f in auto)
  qed (use Cons.prems b f in \<open>auto simp: task_check_stack_def\<close>)
qed simp

lemma iter_map_lines_found:
  assumes "iter_map_lines actor ret bufs s = Some (r, t)" "0 < r" "ret \<le> 0" "\<And>l. fst (parse_vma l) \<le> 0"
  shows "\<exists>pre buf post vma u. bufs = pre @ buf # post \<and> iter_map_lines actor 0 pre s = Some (0, u)
    \<and> parse_vma (butlast buf) = (0, vma) \<and> actor vma u = Some (r, t)"
  using assms(1,3)
proof (induction bufs arbitrary: ret s)
  case (Cons buf bufs)
  obtain p vma where p: "parse_vma (butlast buf) = (p, vma)" by fastforce
  with assms(4)[of "butlast buf"] assms(2) Cons.prems have p0: "p = 0" by (auto split: if_splits)
  with Cons.prems p obtain e u where a: "actor vma s = Some (e, u)"
    and rest: "(if e \<noteq> 0 then Some (e, u) else iter_map_lines actor 0 bufs u) = Some (r, t)"
    by (auto split: bind_splits if_splits)
  show ?case
  proof (cases "e = 0")
    case True
    with rest Cons.IH[of 0 u] obtain pre b post v w where "bufs = pre @ b # post" "iter_map_lines actor 0 pre u = Some (0, w)"
      "parse_vma (butlast b) = (0, v)" "actor v w = Some (r, t)" by auto
    with p p0 a True show ?thesis by (intro exI[of _ "buf # pre"] exI[of _ b] exI[of _ post]) auto
  next
    case False
    with rest p p0 a show ?thesis by (intro exI[of _ "[]"] exI[of _ buf] exI[of _ bufs]) auto
  qed
qed (use assms(2) in simp)

lemma compare_target_bid_passes:
  assumes "compare_target_bid x bid pid vma (s, ti) = Some (0, t, ti')"
  shows "ti' = ti"
  using assms by (auto simp: compare_target_bid_def Let_def split: if_splits prod.splits bind_splits)

lemma lines_pass:
  "iter_map_lines (compare_target_bid x bid pid) 0 bufs (s, ti) = Some (0, t, ti') \<Longrightarrow> ti' = ti"
proof (induction bufs arbitrary: s ti)
  case (Cons buf bufs)
  then show ?case
    by (auto split: prod.splits if_splits bind_splits dest!: compare_target_bid_passes)
qed simp

lemma parse_vma_nonpos: "fst (parse_vma l) \<le> 0"
  by (simp add: parse_vma_def Let_def split: option.splits)

text \<open>\<open>open\<close> fails with an error code.\<close>

definition open_errno :: "'w ext \<Rightarrow> bool" where
  "open_errno x \<longleftrightarrow> (\<forall>path w e. fst (x_open x path w) = Inl e \<longrightarrow> 0 < e)"

lemma collect_needed_nonpos: "iter_dyn_in (collect_needed_dyn x ei) getdyn is s = Some (e, t) \<Longrightarrow> e \<le> 0"
proof (induction "is" arbitrary: s)
  case (Cons i "is")
  have "e \<le> 0" if "collect_needed_dyn x ei d u = Some (e, v)" for d u e v
    using that by (auto simp: collect_needed_dyn_def split: if_splits bind_splits option.splits prod.splits)
  with Cons show ?case by (auto split: option.splits bind_splits if_splits)
qed simp

lemma elf_open_nonpos: "open_errno x \<Longrightarrow> elf_open x path s = ((e, r), t) \<Longrightarrow> e \<le> 0"
  by (auto simp: elf_open_def sys_call_def ext_call_def open_errno_def split: prod.splits sum.splits option.splits)
    (metis fst_conv less_imp_le)

lemma elf_create_info_nonpos:
  assumes "open_errno x" "elf_create_info x path s = Some ((e, ei), t)"
  shows "e \<le> 0"
proof -
  have 1: "e \<le> 0" if "elf_do_get_soname x ei s = Some (e, t)" for ei s e t
    using that by (auto simp: elf_do_get_soname_def split: if_splits bind_splits option.splits prod.splits)
  have 2: "e \<le> 0" if "elf_collect_needed x ei s = Some (e, t)" for ei s e t
    using that by (auto simp: elf_collect_needed_def iter_dyn_sym_def split: if_splits bind_splits option.splits
        dest: collect_needed_nonpos)
  show ?thesis using assms(2)
    by (auto simp: elf_create_info_def Let_def split: prod.splits if_splits bind_splits option.splits
        dest: 1 2 elf_open_nonpos[OF assms(1)])
qed

lemma process_get_target_info_range:
  assumes "open_errno x" "process_get_target_info x pid bid s = Some (0, v, start, fin)"
  shows "target_range x bid pid s start fin v"
proof -
  from assms(2) obtain r where "iter_map_files x pid (compare_target_bid x bid) (s, 0, 0) = Some (r, v, start, fin)" and r: "0 < r"
    by (auto simp: process_get_target_info_def split: bind_splits if_splits)
  then obtain bufs s1 where m: "ext_call (x_maps x pid) s = (Some bufs, s1)"
    and it: "iter_map_lines (compare_target_bid x bid pid) (-1) bufs (s1, 0, 0) = Some (r, v, start, fin)"
    by (auto simp: iter_map_files_def split: prod.splits option.splits)
  from iter_map_lines_found[OF it r] parse_vma_nonpos obtain pre buf post vma s2 ti where
    b: "bufs = pre @ buf # post" and pre: "iter_map_lines (compare_target_bid x bid pid) 0 pre (s1, 0, 0) = Some (0, s2, ti)"
    and vma: "parse_vma (butlast buf) = (0, vma)" "compare_target_bid x bid pid vma (s2, ti) = Some (r, v, start, fin)"
    by (metis (no_types, opaque_lifting) neg_le_0_iff_le prod.exhaust zero_le_one)
  have ti: "ti = (0, 0)" by (rule lines_pass[OF pre])
  from vma(2) r obtain s3 s4 e ei s5 where c: "vpath vma \<noteq> None" "ext_call (x_access x (map_file_name pid vma)) s2 = (True, s3)"
    "is_elf_file x (map_file_name pid vma) s3 = (True, s4)" "elf_create_info x (map_file_name pid vma) s4 = Some ((e, ei), s5)"
    and rest: "(if e \<noteq> 0 then Some (e, s5, ti) else if elf_bid (ei_of s5 ei) \<noteq> Some bid then Some (0, elf_destroy_info x ei s5, ti)
      else let dyn = elf_type_dyn (ei_of s5 ei) in Some (1, elf_destroy_info x ei s5,
        if dyn then vma_start vma else 0, if dyn then vma_end vma else 0)) = Some (r, v, start, fin)"
    by (auto simp: compare_target_bid_def split: prod.splits if_splits bind_splits)
  have "e = 0" using rest r elf_create_info_nonpos[OF assms(1) c(4)] by (auto split: if_splits)
  with rest r have "elf_bid (ei_of s5 ei) = Some bid" "v = elf_destroy_info x ei s5"
    "start = (if elf_type_dyn (ei_of s5 ei) then vma_start vma else 0)"
    "fin = (if elf_type_dyn (ei_of s5 ei) then vma_end vma else 0)" by (auto simp: Let_def split: if_splits)
  with m b pre ti vma(1) c \<open>e = 0\<close> show ?thesis unfolding target_range_def by blast
qed

lemma unat_increase_timeout:
  assumes "unat t \<le> 1000"
  shows "unat (increase_timeout t) = min (2 * unat t) 1000"
proof (cases "t < 1000")
  case True
  have "unat (push_bit 1 t) = 2 * unat t"
    using assms by (simp add: push_bit_eq_mult unat_word_ariths)
  with True show ?thesis by (simp add: increase_timeout_def min_def word_le_nat_alt)
next
  case False
  then have "unat t = 1000" using assms by (simp add: word_less_nat_alt)
  with False show ?thesis by (simp add: increase_timeout_def)
qed

text \<open>
  The pause between attempts starts at one millisecond, doubles, and is capped at
  one second; neither the doubling nor the product with 1000 wraps around.
\<close>

lemma increase_timeout_backoff:
  "unat ((increase_timeout ^^ k) 1) = min (2 ^ k) 1000"
proof (induction k)
  case (Suc k)
  then show ?case by (simp add: unat_increase_timeout min_def)
qed simp

lemma pause_usec: "unat ((increase_timeout ^^ k) 1 * 1000) = min (2 ^ k) 1000 * 1000"
proof -
  let ?t = "(increase_timeout ^^ k) 1"
  have "unat ?t \<le> 1000" using increase_timeout_backoff[of k] by simp
  then have "unat (?t * 1000) = unat ?t * 1000" by (simp add: unat_word_ariths)
  then show ?thesis by (simp add: increase_timeout_backoff)
qed

text \<open>The search seen from attempt number \<open>k\<close>.\<close>

lemma suspend_attempt:
  assumes "before_attempt x bid s k = Some a" "k < 25"
  shows "process_suspend x bid s = do { (r, v) \<leftarrow> process_catch x bid a;
    if r \<noteq> - EAGAIN then Some (r, v) else suspend_loop x bid (Suc k) (24 - k) ((increase_timeout ^^ k) 1) v }"
  using assms
proof (induction k arbitrary: a)
  case 0
  have "process_suspend x bid s = suspend_loop x bid 0 (Suc 24) 1 s" by (simp add: process_suspend_def)
  with 0 show ?case unfolding suspend_loop.simps by (simp add: Let_def cong: if_cong)
next
  case (Suc k)
  from Suc.prems(1) obtain b v where b: "before_attempt x bid s k = Some b" "process_catch x bid b = Some (- EAGAIN, v)"
    and a: "a = v\<lparr>world := x_usleep x (min (2 ^ k) 1000 * 1000) (world v)\<rparr>"
    by (auto split: option.splits prod.splits if_splits)
  define n where "n = 24 - Suc k"
  have n: "24 - k = Suc n" "24 - Suc k = n" using Suc.prems(2) by (simp_all add: n_def)
  from Suc.IH[OF b(1)] Suc.prems(2) b(2) have "process_suspend x bid s
      = suspend_loop x bid (Suc k) (Suc n) ((increase_timeout ^^ k) 1) v" by (simp add: n)
  also have "\<dots> = do { (r, v) \<leftarrow> process_catch x bid a;
    if r \<noteq> - EAGAIN then Some (r, v) else suspend_loop x bid (Suc (Suc k)) n ((increase_timeout ^^ Suc k) 1) v }"
    unfolding suspend_loop.simps by (simp add: Let_def a pause_usec cong: if_cong)
  finally show ?case unfolding n(2) .
qed

lemma attempts_cases:
  assumes "process_suspend x bid s = Some (e, t)" "k < 25"
  shows "(\<exists>j < Suc k. \<exists>a. before_attempt x bid s j = Some a \<and> process_catch x bid a = Some (e, t) \<and> e \<noteq> - EAGAIN)
    \<or> (\<exists>a v. before_attempt x bid s k = Some a \<and> process_catch x bid a = Some (- EAGAIN, v))"
  using assms(2)
proof (induction k)
  case 0
  with assms(1) suspend_attempt[of x bid s 0 s] show ?case by (auto split: bind_splits if_splits)
next
  case (Suc k)
  then consider j a where "j < Suc k" "before_attempt x bid s j = Some a" "process_catch x bid a = Some (e, t)" "e \<noteq> - EAGAIN"
    | a v where "before_attempt x bid s k = Some a" "process_catch x bid a = Some (- EAGAIN, v)" by auto
  then show ?case
  proof cases
    case 1
    then show ?thesis by (meson less_SucI)
  next
    case 2
    let ?b = "v\<lparr>world := x_usleep x (min (2 ^ k) 1000 * 1000) (world v)\<rparr>"
    have b: "before_attempt x bid s (Suc k) = Some ?b" using 2 by simp
    from suspend_attempt[OF b Suc.prems] assms(1) b show ?thesis by (auto split: bind_splits if_splits)
  qed
qed

lemma process_suspend_cases:
  "process_suspend x bid s = Some (e, t) \<longleftrightarrow>
     (\<exists>k < 25. \<exists>a. before_attempt x bid s k = Some a \<and> process_catch x bid a = Some (e, t) \<and> e \<noteq> - EAGAIN)
     \<or> e = - ETIME \<and> (\<exists>a. before_attempt x bid s 24 = Some a \<and> process_catch x bid a = Some (- EAGAIN, t))"
proof
  assume p: "process_suspend x bid s = Some (e, t)"
  have "24 < (25 :: nat)" by simp
  from attempts_cases[OF p this] show "(\<exists>k < 25. \<exists>a. before_attempt x bid s k = Some a \<and> process_catch x bid a = Some (e, t) \<and> e \<noteq> - EAGAIN)
     \<or> e = - ETIME \<and> (\<exists>a. before_attempt x bid s 24 = Some a \<and> process_catch x bid a = Some (- EAGAIN, t))"
  proof
    assume "\<exists>a v. before_attempt x bid s 24 = Some a \<and> process_catch x bid a = Some (- EAGAIN, v)"
    with p show ?thesis by (auto simp: suspend_attempt)
  next
    assume "\<exists>j < Suc 24. \<exists>a. before_attempt x bid s j = Some a \<and> process_catch x bid a = Some (e, t) \<and> e \<noteq> - EAGAIN"
    then show ?thesis by simp
  qed
qed (auto simp: suspend_attempt)

lemma process_catch_keeps:
  assumes "process_catch x bid s = Some (e, t)" "stop_task_errno x" "seized_first (ctx_threads (ctx s))"
  shows "catch_frame s t \<and> seized_first (ctx_threads (ctx t))
    \<and> (e = 0 \<longrightarrow> ctx_threads (ctx t) \<noteq> [] \<and> (\<forall>th \<in> set (ctx_threads (ctx t)). t_seized th))"
proof -
  obtain e1 u where i: "process_infect x s = Some (e1, u)"
    using assms(1) by (cases "process_infect x s") (auto simp: process_catch_def)
  note k = process_infect_seized[OF i assms(2,3)]
  show ?thesis
  proof (cases "e1 = 0")
    case False
    with assms(1) i k show ?thesis by (auto simp: process_catch_def)
  next
    case True
    with assms(1) i obtain r v start fin where g: "process_get_target_info x (ctx_pid (ctx u)) bid u = Some (r, v, start, fin)"
      by (cases "process_get_target_info x (ctx_pid (ctx u)) bid u") (auto simp: process_catch_def)
    note gk = process_get_target_info_fresh[OF g]
    have v: "catch_frame s v" "seized_first (ctx_threads (ctx v))"
      using k gk True by (auto intro: catch_frame_trans seized_first_all)
    from assms(1) i True g obtain e2 w where
      c: "(if r \<noteq> 0 then Some (r, v) else process_check_stack x start fin v) = Some (e2, w)"
      and rest: "(if e2 = 0 then Some (0, w) else case process_cure x w of (err, s) \<Rightarrow> Some (if e2 \<noteq> 0 then e2 else err, s))
        = Some (e, t)"
      by (auto simp: process_catch_def split: bind_splits)
    have cs: "ei_fresh v w"
      using c check_stacks_unwound[of x start fin "ctx_threads (ctx v)" v e2 w]
      by (auto simp: process_check_stack_def split: if_splits)
    have w: "catch_frame s w" "ctx_threads (ctx w) = ctx_threads (ctx v)"
      using cs v catch_frame_fresh by (auto intro: catch_frame_trans simp: ei_fresh_def)
    show ?thesis
    proof (cases "e2 = 0")
      case True
      with rest have "e = 0" "t = w" by auto
      with True cs w v gk k \<open>e1 = 0\<close> show ?thesis by (intro conjI impI) auto
    next
      case False
      obtain e3 w' where cu: "process_cure_threads x w = (e3, w')" by fastforce
      with rest False have "e = e2" "t = w'" by (auto simp: process_cure_def)
      with False process_cure_threads_keeps[OF cu] w v show ?thesis by (auto intro: catch_frame_trans)
    qed
  qed
qed

lemma before_attempt_keeps:
  assumes "before_attempt x bid s k = Some a" "stop_task_errno x" "seized_first (ctx_threads (ctx s))"
  shows "catch_frame s a \<and> seized_first (ctx_threads (ctx a))"
  using assms(1)
proof (induction k arbitrary: a)
  case (Suc k)
  then obtain b v where b: "before_attempt x bid s k = Some b" "process_catch x bid b = Some (- EAGAIN, v)"
    and a: "a = v\<lparr>world := x_usleep x (min (2 ^ k) 1000 * 1000) (world v)\<rparr>"
    by (auto split: option.splits prod.splits if_splits)
  from Suc.IH[OF b(1)] process_catch_keeps[OF b(2) assms(2)] show ?case by (auto simp: a catch_frame_def)
qed (use assms in simp)

lemma process_catch_clear:
  assumes "process_catch x bid a = Some (0, t)" "open_errno x"
  shows "\<exists>u start fin v. process_infect x a = Some (0, u) \<and> target_range x bid (ctx_pid (ctx u)) u start fin v
    \<and> stacks_unwound x (stack_clear u start fin) (ctx_threads (ctx t)) v t"
proof -
  from assms(1) obtain u v start fin where i: "process_infect x a = Some (0, u)"
    and g: "process_get_target_info x (ctx_pid (ctx u)) bid u = Some (0, v, start, fin)"
    and c: "process_check_stack x start fin v = Some (0, t)"
    by (auto simp: process_catch_def split: bind_splits if_splits prod.splits)
  from g have f: "catch_frame u v" "ctx_threads (ctx v) = ctx_threads (ctx u)" using process_get_target_info_fresh by blast+
  from c check_stacks_unwound[of x start fin "ctx_threads (ctx v)" v 0 t]
  have "ei_fresh v t" "stacks_unwound x (stack_clear v start fin) (ctx_threads (ctx v)) v t"
    by (simp_all add: process_check_stack_def)
  with i process_get_target_info_range[OF assms(2) g] f show ?thesis
    by (auto simp: ei_fresh_def stack_clear_frame)
qed

lemma process_suspend_stops:
  assumes "process_suspend x bid s = Some (0, t)" "stop_task_errno x" "open_errno x" "ctx_threads (ctx s) = []"
  shows "catch_frame s t \<and> safely_stopped x bid s t"
proof -
  from assms(1) obtain k a where k: "k < 25" "before_attempt x bid s k = Some a" "process_catch x bid a = Some (0, t)"
    by (auto simp: process_suspend_cases)
  from before_attempt_keeps[OF k(2) assms(2)] assms(4) have a: "catch_frame s a" "seized_first (ctx_threads (ctx a))"
    by (auto simp: seized_first_all)
  note t = process_catch_keeps[OF k(3) assms(2) a(2)]
  from process_catch_clear[OF k(3) assms(3)] obtain u start fin v where
    u: "process_infect x a = Some (0, u)" "target_range x bid (ctx_pid (ctx u)) u start fin v"
    and c: "stacks_unwound x (stack_clear u start fin) (ctx_threads (ctx t)) v t" by blast
  have "catch_frame s u" using process_infect_seized[OF u(1) assms(2) a(2)] a(1) by (blast intro: catch_frame_trans)
  note f = catch_frame_ctx[OF this] stack_clear_frame[OF this]
  have "\<exists>k a u start fin v. k < 25 \<and> before_attempt x bid s k = Some a \<and> process_infect x a = Some (0, u)
      \<and> target_range x bid (ctx_pid (ctx s)) u start fin v \<and> stacks_unwound x (stack_clear s start fin) (ctx_threads (ctx t)) v t"
    using f u c k(1,2) by metis
  with t a show ?thesis unfolding safely_stopped_def by (blast intro: catch_frame_trans)
qed

text \<open>
  C1: When \<open>process_suspend\<close> reports success for a process with no threads collected before,
  it was stopped safely in one of the 25 attempts: threads were found and all of them were
  seized; then the map of the process was read and gave the first area whose file has the
  wanted Build ID; then the stack of every collected thread was unwound, and each was clear. With the
  jump check, no frame is a signal frame or lies strictly inside a function that the patch
  replaces, at its address in the object found; with the range check, no frame is a signal frame or
  lies in the area found (for a position-independent object; the bounds are zero otherwise). The
  states of these steps follow one another from the call to the return. Nothing of the
  program's data but the list of threads has changed. Failing calls of \<open>open\<close> and
  of compel's stop are taken to report an error code.
\<close>

theorem process_suspend_safe:
  assumes "process_suspend x bid s = Some (0, t)" "stop_task_errno x" "open_errno x" "ctx_threads (ctx s) = []"
  shows "catch_frame s t \<and> safely_stopped x bid s t"
  by (rule process_suspend_stops[OF assms])

section \<open>Progress\<close>

lemma collect_threads_ok:
  assumes "\<And>w. fst (x_malloc x w)"
  shows "\<exists>t. iterate (collect_thread x) ds s = Some (0, t)
    \<and> t_pid ` set (ctx_threads (ctx t)) = t_pid ` set (ctx_threads (ctx s)) \<union> atoi ` set ds
    \<and> (atoi ` set ds \<subseteq> t_pid ` set (ctx_threads (ctx s)) \<longrightarrow> ctx_threads (ctx t) = ctx_threads (ctx s))
    \<and> ctx_pid (ctx t) = ctx_pid (ctx s)"
proof (induction ds arbitrary: s)
  case (Cons d ds)
  show ?case
  proof (cases "atoi d \<in> t_pid ` set (ctx_threads (ctx s))")
    case True
    then have c: "collect_thread x d s = Some (0, s)" by (auto simp: collect_thread_def list_ex_iff Let_def)
    from Cons.IH[of s] True c show ?thesis by (auto simp: insert_absorb)
  next
    case False
    obtain p u where m: "xmalloc x s = (Some p, u)"
      using assms[of "world s"] by (cases "x_malloc x (world s)") (auto simp: xmalloc_def ext_call_def)
    let ?u = "upd_ctx (\<lambda>c. c\<lparr>ctx_threads := ctx_threads c @ [\<lparr>t_pid = atoi d, t_seized = False\<rparr>]\<rparr>) u"
    have c: "collect_thread x d s = Some (0, ?u)"
      using False m by (auto simp: collect_thread_def list_ex_iff Let_def image_iff)
    have "ctx u = ctx s" using xmalloc_keeps[OF m] by simp
    with Cons.IH[of ?u] False c show ?thesis by auto
  qed
qed simp

lemma process_collect_threads_ok:
  assumes "\<And>w. fst (x_malloc x w)"
    and "\<And>w. \<exists>w'. x_readdir x (''/proc/'' @ int_string (ctx_pid (ctx s)) @ ''/task/'') w = (Inr (ds, 0), w')"
    and "P = atoi ` {d \<in> set ds. d \<noteq> ''.'' \<and> d \<noteq> ''..''}"
  shows "\<exists>t. process_collect_threads x s = Some (0, t) \<and> ctx_pid (ctx t) = ctx_pid (ctx s)
    \<and> t_pid ` set (ctx_threads (ctx t)) = t_pid ` set (ctx_threads (ctx s)) \<union> P
    \<and> (P \<subseteq> t_pid ` set (ctx_threads (ctx s)) \<longrightarrow> ctx_threads (ctx t) = ctx_threads (ctx s))"
proof -
  from assms(2) obtain w where w: "x_readdir x (''/proc/'' @ int_string (ctx_pid (ctx s)) @ ''/task/'') (world s) = (Inr (ds, 0), w)"
    by blast
  have P: "P = atoi ` set (filter (\<lambda>d. d \<noteq> ''.'' \<and> d \<noteq> ''..'') ds)" using assms(3) by simp
  from collect_threads_ok[OF assms(1), of "filter (\<lambda>d. d \<noteq> ''.'' \<and> d \<noteq> ''..'') ds" "s\<lparr>world := w\<rparr>", folded P]
  obtain t where "iterate (collect_thread x) (filter (\<lambda>d. d \<noteq> ''.'' \<and> d \<noteq> ''..'') ds) (s\<lparr>world := w\<rparr>) = Some (0, t)"
    "t_pid ` set (ctx_threads (ctx t)) = t_pid ` set (ctx_threads (ctx s)) \<union> P"
    "P \<subseteq> t_pid ` set (ctx_threads (ctx s)) \<longrightarrow> ctx_threads (ctx t) = ctx_threads (ctx s)"
    "ctx_pid (ctx t) = ctx_pid (ctx s)" by auto
  then show ?thesis unfolding process_collect_threads_def iterate_dir_name_eq[OF w] by blast
qed

lemma infect_threads_alive:
  assumes "\<And>pid w. \<exists>e w'. x_stop_task x pid w = ((COMPEL_TASK_ALIVE, e), w')"
  shows "\<exists>t. infect_threads x ts s = ((0, map (\<lambda>t. t\<lparr>t_seized := True\<rparr>) ts), t) \<and> ctx t = ctx s"
proof (induction ts arbitrary: s)
  case (Cons th ts)
  obtain e w where w: "x_stop_task x (t_pid th) (world s) = ((COMPEL_TASK_ALIVE, e), w)" using assms by blast
  from Cons.IH[of "s\<lparr>world := w\<rparr>"] w show ?case by (auto simp: task_infect_def ext_call_def)
qed simp

text \<open>
  C34: Seizing a process ends and succeeds, with exactly the threads that
  \<open>/proc/<pid>/task\<close> lists collected, when that directory keeps listing the same entries (at
  least one beside the dot entries), every thread can be stopped and memory is available.
\<close>

theorem process_infect_terminates:
  assumes malloc: "\<And>w. fst (x_malloc x w)"
    and tasks: "\<And>w. \<exists>w'. x_readdir x (''/proc/'' @ int_string (ctx_pid (ctx s)) @ ''/task/'') w = (Inr (ds, 0), w')"
    and ne: "\<exists>d \<in> set ds. d \<noteq> ''.'' \<and> d \<noteq> ''..''"
    and alive: "\<And>pid w. \<exists>e w'. x_stop_task x pid w = ((COMPEL_TASK_ALIVE, e), w')"
    and none: "ctx_threads (ctx s) = []"
  shows "\<exists>t. process_infect x s = Some (0, t)
    \<and> t_pid ` set (ctx_threads (ctx t)) = atoi ` {d \<in> set ds. d \<noteq> ''.'' \<and> d \<noteq> ''..''}"
proof -
  define P where "P = atoi ` {d \<in> set ds. d \<noteq> ''.'' \<and> d \<noteq> ''..''}"
  note collect = process_collect_threads_ok[OF malloc _ P_def]
  have "P \<noteq> {}" using ne by (auto simp: P_def)
  obtain s1 where s1: "process_collect_threads x s = Some (0, s1)" "ctx_pid (ctx s1) = ctx_pid (ctx s)"
    "t_pid ` set (ctx_threads (ctx s1)) = P" using collect[OF tasks] none by auto
  have ne1: "ctx_threads (ctx s1) \<noteq> []" using s1(3) \<open>P \<noteq> {}\<close> by auto
  have "\<exists>t. infect_loop x s = Some (0, t) \<and> t_pid ` set (ctx_threads (ctx t)) = P"
  proof (cases "process_needs_seize s1")
    case False
    with s1 show ?thesis by (subst infect_loop.simps) auto
  next
    case True
    let ?ts = "map (\<lambda>t. t\<lparr>t_seized := True\<rparr>) (ctx_threads (ctx s1))"
    from infect_threads_alive[OF alive] obtain v where
      v: "infect_threads x (ctx_threads (ctx s1)) s1 = ((0, ?ts), v)" "ctx v = ctx s1" by blast
    let ?s2 = "upd_ctx (\<lambda>c. c\<lparr>ctx_threads := ?ts\<rparr>) v"
    have s2: "process_infect_threads x s1 = (0, ?s2)" using v by (simp add: process_infect_threads_def)
    have pid: "ctx_pid (ctx ?s2) = ctx_pid (ctx s)" "t_pid ` set (ctx_threads (ctx ?s2)) = P"
      using v(2) s1(2,3) by (auto simp: image_image)
    obtain s3 where s3: "process_collect_threads x ?s2 = Some (0, s3)" "ctx_threads (ctx s3) = ?ts"
      "t_pid ` set (ctx_threads (ctx s3)) = P"
      using collect[of ?s2] pid tasks by auto
    have "\<not> process_needs_seize s3" using s3(2) ne1 by (simp add: process_needs_seize_def last_map)
    with s3 have "infect_loop x ?s2 = Some (0, s3)" by (subst infect_loop.simps) auto
    with True s1 s2 s3(3) show ?thesis by (subst infect_loop.simps) auto
  qed
  then obtain t where t: "infect_loop x s = Some (0, t)" "t_pid ` set (ctx_threads (ctx t)) = P" by blast
  moreover have "ctx_threads (ctx t) \<noteq> []" using t(2) \<open>P \<noteq> {}\<close> by auto
  ultimately show ?thesis by (auto simp: process_infect_def P_def)
qed

definition demo_proc :: "simw pst" where
  "demo_proc = sim_state\<lparr>world := sim_world\<lparr>sim_tasks := [''.'', ''..'', ''10'', ''12''], sim_maps := [sim_line 0x7000],
       sim_files := (\<lambda>p. Some demo_elf), sim_frames := sim_stack\<rparr>,
     patch_of := (\<lambda>p. sim_patch\<lparr>pi := sim_pi\<lparr>func_jumps := [\<lparr>fj_name = ''f'', func_value = 0x100, func_size = 16,
       patch_value = 0, shndx = 1, func_addr = 0, code = [], func_jump = []\<rparr>]\<rparr>\<rparr>),
     process_context := sim_ctx\<lparr>ctx_patch := Some 1\<rparr>\<rparr>"

lemmas atoi_eval = atoi_def skip_ws_def digits_value_def is_digit_def digit_val_def is_space_def to_int_def

definition demo_ext :: "simw ext" where
  "demo_ext = sim_ext\<lparr>x_readdir := (\<lambda>path w. (Inr ([''.'', ''..'', ''10'', ''12''], 0), w))\<rparr>"

theorem process_infect_terminates_witness:
  "\<exists>t. process_infect demo_ext demo_proc = Some (0, t) \<and> t_pid ` set (ctx_threads (ctx t)) = {10, 12}"
proof -
  have "\<exists>t. process_infect demo_ext demo_proc = Some (0, t) \<and> t_pid ` set (ctx_threads (ctx t))
      = atoi ` {d \<in> set [''.'', ''..'', ''10'', ''12'']. d \<noteq> ''.'' \<and> d \<noteq> ''..''}"
    by (rule process_infect_terminates) (simp_all add: demo_proc_def demo_ext_def sim_ctx_def)
  moreover have "{d \<in> set [''.'', ''..'', ''10'', ''12'']. d \<noteq> ''.'' \<and> d \<noteq> ''..''} = {''10'', ''12''}" by auto
  moreover have "atoi ''10'' = 10" "atoi ''12'' = 12" by (simp_all add: atoi_eval)
  ultimately show ?thesis by simp
qed

lemma infect_demo: "process_infect sim_ext demo_proc = Some (0, demo_proc\<lparr>brk := 102,
  process_context := sim_ctx\<lparr>ctx_patch := Some 1, ctx_threads := [\<lparr>t_pid = 10, t_seized = True\<rparr>, \<lparr>t_pid = 12, t_seized = True\<rparr>]\<rparr>\<rparr>)"
proof -
  have a: "atoi ''10'' = 10" "atoi ''12'' = 12" by (simp_all add: atoi_eval)
  show ?thesis
    by (simp add: process_infect_def infect_loop.simps process_collect_threads_def iterate_dir_name_eq
      process_needs_seize_def process_infect_threads_def
      iterate_dir_name_def iter_dentry_def sys_call_def ext_call_def collect_thread_def xmalloc_def task_infect_def
      demo_proc_def sim_ctx_def upd_ctx_def a Let_def)
qed

lemmas elf_demo_eval = elf_create_info_def elf_open_def elf_fd_def sys_call_def ext_call_def sim_ext_def
  sim_path_def sim_world_def elf_alloc_info_def xmalloc_def elf_do_get_soname_def elf_type_dyn_def
  elf_get_strtab_scn_def find_dyn_def elf_set_dynamic_scn_def elf_set_scn_def elf_create_scn_def
  section_eval demo_elf_def sim_elf_def sect_nr_ent_def upd_ei_def upd_vma_def upd_dlm_def find_strtab_def
  find_soname_def elf_collect_needed_def iter_dyn_sym_def collect_needed_dyn_def elf_get_bid_def get_build_id_def
  hex_byte_def hexd_def upt_rec Let_def

lemma suspend_demo: "map_option fst (process_suspend sim_ext ''ab01'' demo_proc) = Some 0"
  unfolding process_suspend_def
  by (simp add: eval_nat_numeral process_catch_def infect_demo,
      simp add: process_get_target_info_def iter_map_files_def compare_target_bid_def parse_sim_line
      libc_text_def map_file_name_def int_string_def is_elf_file_def check_file_type_def
      process_check_stack_def task_check_stack_def pid_backtrace_def do_backtrace.simps create_frame_def
      check_backtrace_def jumps_check_backtrace_def iterate_patch_function_jumps_def jump_check_backtrace_def
      fj_at_def backtrace_check_func_def sim_stack_def MAX_DEPTH_def vma_accessors
      demo_proc_def sim_ctx_def upd_ctx_def elf_demo_eval elf_destroy_info_def elf_bid_def)

theorem process_suspend_safe_witness:
  "\<exists>t. process_suspend sim_ext ''ab01'' demo_proc = Some (0, t) \<and> catch_frame demo_proc t
    \<and> safely_stopped sim_ext ''ab01'' demo_proc t"
proof -
  obtain t where t: "process_suspend sim_ext ''ab01'' demo_proc = Some (0, t)" using suspend_demo by auto
  have "stop_task_errno sim_ext" by (simp add: stop_task_errno_def)
  moreover have "open_errno sim_ext" by (simp add: open_errno_def sim_ext_def)
  moreover have "ctx_threads (ctx demo_proc) = []" by (simp add: demo_proc_def sim_ctx_def)
  ultimately show ?thesis using t process_suspend_safe[OF t] by blast
qed

text \<open>
  C35: The search for a safe moment, attempt by attempt. \<open>process_suspend\<close> makes at most 25
  attempts. Between two of them it pauses, for one millisecond after the first attempt, twice
  as long after each further one, and never longer than one second. The first attempt that ends with another result
  than \<open>-EAGAIN\<close> ends the search at once, and its result is the result. When the
  25th attempt too ends with \<open>-EAGAIN\<close>, the result is \<open>-ETIME\<close>; so a process that can never be
  caught at a safe place is given up after exactly 25 attempts and 24 pauses.
\<close>

theorem process_suspend_gives_up:
  "(process_suspend x bid s = Some (r, t) \<longleftrightarrow>
      (\<exists>k < 25. \<exists>a. before_attempt x bid s k = Some a \<and> process_catch x bid a = Some (r, t) \<and> r \<noteq> - EAGAIN)
      \<or> r = - ETIME \<and> (\<exists>a. before_attempt x bid s 24 = Some a \<and> process_catch x bid a = Some (- EAGAIN, t)))
   \<and> ((\<forall>a. \<exists>v. process_catch x bid a = Some (- EAGAIN, v)) \<longrightarrow>
        (\<exists>a v. before_attempt x bid s 24 = Some a \<and> process_catch x bid a = Some (- EAGAIN, v)
           \<and> process_suspend x bid s = Some (- ETIME, v)))"
proof -
  have "\<exists>a. before_attempt x bid s k = Some a" if "\<forall>a. \<exists>v. process_catch x bid a = Some (- EAGAIN, v)" for k
  proof (induction k)
    case (Suc k)
    then obtain a where a: "before_attempt x bid s k = Some a" by blast
    from that obtain v where "process_catch x bid a = Some (- EAGAIN, v)" by blast
    with a show ?case by simp
  qed simp
  then have "\<exists>a v. before_attempt x bid s 24 = Some a \<and> process_catch x bid a = Some (- EAGAIN, v)
      \<and> process_suspend x bid s = Some (- ETIME, v)" if "\<forall>a. \<exists>v. process_catch x bid a = Some (- EAGAIN, v)"
    using that unfolding process_suspend_cases by blast
  with process_suspend_cases[of x bid s r t] show ?thesis by blast
qed

definition busy_ext :: "simw ext" where
  "busy_ext = sim_ext\<lparr>x_readdir := (\<lambda>path w. (Inl EAGAIN, w\<lparr>sim_sent := [] # sim_sent w\<rparr>))\<rparr>"

lemma cure_threads_busy: "world (snd (cure_threads busy_ext ts s)) = world s"
  by (induction ts arbitrary: s) (auto simp: task_cure_def ext_call_def busy_ext_def)

lemma process_catch_busy:
  "\<exists>v. process_catch busy_ext bid u = Some (- EAGAIN, v) \<and> length (sim_sent (world v)) = Suc (length (sim_sent (world u)))"
proof -
  obtain v where v: "process_collect_threads busy_ext u = Some (- EAGAIN, v)"
    "world v = (world u)\<lparr>sim_sent := [] # sim_sent (world u)\<rparr>"
    by (simp add: process_collect_threads_def iterate_dir_name_def iter_dentry_def sys_call_def ext_call_def busy_ext_def)
  obtain r w where w: "cure_threads busy_ext (ctx_threads (ctx v)) v = (r, w)" "world w = world v"
    using cure_threads_busy[of "ctx_threads (ctx v)" v] by (metis prod.exhaust snd_conv)
  from v w show ?thesis
    by (cases r) (simp add: process_catch_def process_infect_def infect_loop.simps process_cure_threads_def)
qed

lemma before_attempt_busy:
  "before_attempt busy_ext bid s k = Some a \<Longrightarrow> length (sim_sent (world a)) = length (sim_sent (world s)) + k"
proof (induction k arbitrary: a)
  case (Suc k)
  then obtain b where b: "before_attempt busy_ext bid s k = Some b" by (auto split: option.splits)
  with Suc.prems Suc.IH[OF b] process_catch_busy[of bid b] show ?case
    by (auto simp: busy_ext_def[THEN arg_cong[where f = x_usleep]])
qed simp

theorem process_suspend_gives_up_witness:
  "\<exists>t. process_suspend busy_ext ''ab01'' demo_proc = Some (- ETIME, t) \<and> length (sim_sent (world t)) = 25"
proof -
  from process_suspend_gives_up[of busy_ext "''ab01''" demo_proc] process_catch_busy[of "''ab01''"]
  obtain a v where a: "before_attempt busy_ext ''ab01'' demo_proc 24 = Some a" "process_catch busy_ext ''ab01'' a = Some (- EAGAIN, v)"
    "process_suspend busy_ext ''ab01'' demo_proc = Some (- ETIME, v)" by metis
  from process_catch_busy[of "''ab01''" a] a(2) before_attempt_busy[OF a(1)] a(3) show ?thesis
    by (auto simp: demo_proc_def sim_world_def)
qed

end
