(* ===== verification/Freeing.thy ===== *)
theory Freeing
  imports List_Walk Process_Catch
begin

text \<open>
  Freeing the elements of a list while walking it: the frames of a backtrace
  (\<open>patcher/backtrace.c\<close>) and the threads of a process (\<open>patcher/process.c\<close>), on the heap of list
  nodes with the set of blocks that are allocated. \<open>free\<close> overwrites a block with \<open>junk\<close> and
  is undefined for one that is not allocated; a result that does not depend on the junk reads
  no freed block. The other theories keep these lists as HOL lists and do not speak of freeing.
\<close>

section \<open>Blocks\<close>

text \<open>An entry is identified with its node. \<open>name_at\<close> is the field \<open>name\<close> of a frame, 0 for the null pointer.\<close>

record mem =
  links :: heap
  name_at :: "ptr \<Rightarrow> ptr"
  live :: "ptr set"

definition c_free :: "(ptr \<Rightarrow> list_head \<times> ptr) \<Rightarrow> ptr \<Rightarrow> mem \<Rightarrow> mem option" where
  "c_free junk p m =
     (if p = 0 then Some m
      else if p \<notin> live m then None
      else Some (m\<lparr>links := (links m)(p := fst (junk p)), name_at := (name_at m)(p := snd (junk p)), live := live m - {p}\<rparr>))"

text \<open>\<open>list_del\<close> touches a node and its neighbours.\<close>

definition del_node :: "ptr \<Rightarrow> mem \<Rightarrow> mem option" where
  "del_node p m =
     (if {p, prev (links m p), next (links m p)} \<subseteq> live m then Some (m\<lparr>links := list_del p (links m)\<rparr>) else None)"

section \<open>The frames of a backtrace\<close>

definition destroy_frame :: "(ptr \<Rightarrow> list_head \<times> ptr) \<Rightarrow> ptr \<Rightarrow> mem \<Rightarrow> mem option" where
  "destroy_frame junk bf m = do {
     m \<leftarrow> del_node bf m;
     m \<leftarrow> c_free junk (name_at m bf) m;
     c_free junk bf m }"

definition destroy_bt_frames :: "(ptr \<Rightarrow> list_head \<times> ptr) \<Rightarrow> ptr \<Rightarrow> mem \<Rightarrow> mem option" where
  "destroy_bt_frames junk bt m = do {
     (_, m) \<leftarrow> list_for_each_entry_safe links (\<lambda>bf m. do { m \<leftarrow> destroy_frame junk bf m; Some (0, m) }) bt m;
     Some m }"

definition destroy_backtrace :: "(ptr \<Rightarrow> list_head \<times> ptr) \<Rightarrow> ptr \<Rightarrow> mem \<Rightarrow> mem option" where
  "destroy_backtrace junk bt m = do {
     m \<leftarrow> destroy_bt_frames junk bt m;
     c_free junk bt m }"

section \<open>The threads of a process\<close>

definition thread_destroy :: "(ptr \<Rightarrow> list_head \<times> ptr) \<Rightarrow> ptr \<Rightarrow> mem \<Rightarrow> mem option" where
  "thread_destroy junk t m = do {
     m \<leftarrow> del_node t m;
     c_free junk t m }"

text \<open>\<open>process_cure_threads\<close> as a loop over the nodes; \<open>th\<close> is what the other fields of an entry hold.\<close>

definition cure_body ::
    "(ptr \<Rightarrow> list_head \<times> ptr) \<Rightarrow> 'w ext \<Rightarrow> (ptr \<Rightarrow> thread_s) \<Rightarrow> ptr \<Rightarrow> mem \<times> 'w pst \<Rightarrow> (int \<times> mem \<times> 'w pst) option" where
  "cure_body junk x th t ms =
     (case ms of (m, s) \<Rightarrow>
        case task_cure x (th t) s of
          (err, s) \<Rightarrow> if err \<noteq> 0 then Some (err, m, s)
                     else do { m \<leftarrow> thread_destroy junk t m; Some (0, m, s) })"

definition cure_thread_nodes ::
    "(ptr \<Rightarrow> list_head \<times> ptr) \<Rightarrow> 'w ext \<Rightarrow> (ptr \<Rightarrow> thread_s) \<Rightarrow> ptr \<Rightarrow> mem \<times> 'w pst \<Rightarrow> (int \<times> mem \<times> 'w pst) option" where
  "cure_thread_nodes junk x th threads ms =
     list_for_each_entry_safe (\<lambda>ms. links (fst ms)) (cure_body junk x th) threads ms"

section \<open>Nothing is freed twice or read after it was freed\<close>

text \<open>The blocks of a frame, and what a backtrace owns: its frames and their names, all different.\<close>

definition frame_blocks :: "mem \<Rightarrow> ptr \<Rightarrow> ptr list" where
  "frame_blocks m bf = (if name_at m bf = 0 then [bf] else [name_at m bf, bf])"

definition owns :: "ptr \<Rightarrow> mem \<Rightarrow> ptr list \<Rightarrow> bool" where
  "owns bt m xs \<longleftrightarrow> distinct (bt # concat (map (frame_blocks m) xs)) \<and> set (bt # concat (map (frame_blocks m) xs)) \<subseteq> live m - {0}"

lemma clist_other: "clist h head xs \<Longrightarrow> p \<notin> set (head # xs) \<Longrightarrow> clist (h(p := n)) head xs"
  by (erule clist_frame) auto

lemma del_first:
  assumes "clist (links m) head (p # xs)" "set (head # p # xs) \<subseteq> live m"
  shows "\<exists>h. del_node p m = Some (m\<lparr>links := h\<rparr>) \<and> clist h head xs"
proof -
  have "next (links m p) = hd (xs @ [head])" "prev (links m p) = head"
    using clist_next[of "links m" head "[]" p xs] assms(1) by (simp_all add: clist_def)
  moreover have "hd (xs @ [head]) \<in> set (head # xs)" by (cases xs) simp_all
  ultimately have "del_node p m = Some (m\<lparr>links := list_del p (links m)\<rparr>)" using assms(2) by (auto simp: del_node_def)
  with list_del_clist[of "links m" head "[]" p xs] assms(1) show ?thesis by auto
qed

lemma free_block:
  assumes "p \<in> live m" "p \<noteq> 0" "clist (links m) head xs" "p \<notin> set (head # xs)"
  shows "\<exists>m'. c_free junk p m = Some m' \<and> live m' = live m - {p} \<and> (\<forall>q. q \<noteq> p \<longrightarrow> name_at m' q = name_at m q)
    \<and> clist (links m') head xs"
  using assms clist_other[OF assms(3,4)] by (simp add: c_free_def)

lemma frame_blocks_cong: "name_at m' p = name_at m p \<Longrightarrow> frame_blocks m' p = frame_blocks m p"
  by (simp add: frame_blocks_def)

lemma in_blocks: "set xs \<subseteq> set (concat (map (frame_blocks m) xs))"
  by (auto simp: frame_blocks_def)

lemma destroy_frame_first:
  assumes "clist (links m) bt (bf # xs)" "owns bt m (bf # xs)"
  shows "\<exists>m'. destroy_frame junk bf m = Some m' \<and> clist (links m') bt xs \<and> live m' = live m - set (frame_blocks m bf)
    \<and> (\<forall>p \<in> set xs. name_at m' p = name_at m p)"
proof -
  let ?bs = "concat (map (frame_blocks m) xs)"
  have o: "distinct (bt # frame_blocks m bf @ ?bs)" "set (bt # frame_blocks m bf @ ?bs) \<subseteq> live m - {0}"
    using assms(2) by (simp_all add: owns_def)
  have xs: "set xs \<subseteq> set ?bs" by (rule in_blocks)
  have bf: "bf \<in> set (frame_blocks m bf)" by (simp add: frame_blocks_def)
  have "set (bt # bf # xs) \<subseteq> live m" using o(2) xs bf by auto
  then obtain h where h: "del_node bf m = Some (m\<lparr>links := h\<rparr>)" "clist h bt xs" using del_first[OF assms(1)] by blast
  let ?m = "m\<lparr>links := h\<rparr>"
  have fresh: "q \<notin> set (bt # xs)" if "q \<in> set (frame_blocks m bf)" for q using o(1) xs that by auto
  have al: "q \<in> live m" "q \<noteq> 0" if "q \<in> set (frame_blocks m bf)" for q using o(2) that by auto
  show ?thesis
  proof (cases "name_at m bf = 0")
    case True
    from free_block[of bf ?m bt xs junk, OF _ _ _ fresh[OF bf]] al[OF bf] h(2)
    obtain m' where "c_free junk bf ?m = Some m'" "live m' = live m - {bf}"
        "\<forall>q. q \<noteq> bf \<longrightarrow> name_at m' q = name_at m q" "clist (links m') bt xs" by auto
    with True h fresh[OF bf] show ?thesis by (auto simp: destroy_frame_def c_free_def frame_blocks_def)
  next
    case False
    let ?n = "name_at m bf"
    have n: "?n \<in> set (frame_blocks m bf)" "?n \<noteq> bf" using False o(1) by (auto simp: frame_blocks_def split: if_splits)
    from free_block[of ?n ?m bt xs junk, OF _ _ _ fresh[OF n(1)]] al[OF n(1)] h(2)
    obtain m1 where m1: "c_free junk ?n ?m = Some m1" "live m1 = live m - {?n}"
        "\<forall>q. q \<noteq> ?n \<longrightarrow> name_at m1 q = name_at m q" "clist (links m1) bt xs" by auto
    from free_block[of bf m1 bt xs junk, OF _ _ m1(4) fresh[OF bf]] al[OF bf] m1(2) n(2)
    obtain m' where m': "c_free junk bf m1 = Some m'" "live m' = live m1 - {bf}"
        "\<forall>q. q \<noteq> bf \<longrightarrow> name_at m' q = name_at m1 q" "clist (links m') bt xs" by auto
    have "name_at m' p = name_at m p" if "p \<in> set xs" for p
    proof -
      have "p \<noteq> bf" "p \<noteq> ?n" using fresh[OF bf] fresh[OF n(1)] that by auto
      with m'(3) m1(3) show ?thesis by simp
    qed
    with False h m1 m' show ?thesis by (auto simp: destroy_frame_def frame_blocks_def)
  qed
qed

lemma owns_rest:
  assumes "owns bt m (bf # xs)" "live m' = live m - set (frame_blocks m bf)" "\<forall>p \<in> set xs. name_at m' p = name_at m p"
  shows "owns bt m' xs" "map (frame_blocks m') xs = map (frame_blocks m) xs"
proof -
  show eq: "map (frame_blocks m') xs = map (frame_blocks m) xs" using assms(3) by (auto intro: frame_blocks_cong)
  show "owns bt m' xs" using assms(1,2) unfolding owns_def eq by auto
qed

lemma destroy_bt_frames_all:
  assumes "clist (links m) bt xs" "owns bt m xs"
  shows "\<exists>m'. destroy_bt_frames junk bt m = Some m' \<and> clist (links m') bt []
    \<and> live m' = live m - set (concat (map (frame_blocks m) xs))"
proof -
  let ?body = "\<lambda>bf m. do { m \<leftarrow> destroy_frame junk bf m; Some (0 :: int, m) }"
  let ?J = "\<lambda>m ys. clist (links m) bt ys \<and> owns bt m ys"
  have J: "?J t ys" if "?J s (p # ys)" "?body p s = Some (ret, t)" for s p ys ret t
    using destroy_frame_first[of s bt p ys junk] owns_rest(1)[of bt s p ys t] that by auto
  have "keeps_rest_on ?J links ?body bt"
    unfolding keeps_rest_on_def using J by (metis append_Nil)
  from list_for_each_entry_safe_iterate_on[of links, OF assms(1) this] assms
  have walk: "list_for_each_entry_safe links ?body bt m = iterate ?body xs m" by blast
  have "\<exists>m'. iterate ?body xs m = Some (0, m') \<and> clist (links m') bt [] \<and> live m' = live m - set (concat (map (frame_blocks m) xs))"
    using assms
  proof (induction xs arbitrary: m)
    case (Cons bf xs)
    from destroy_frame_first[OF Cons.prems] obtain m1 where m1: "destroy_frame junk bf m = Some m1" "clist (links m1) bt xs"
        "live m1 = live m - set (frame_blocks m bf)" "\<forall>p \<in> set xs. name_at m1 p = name_at m p" by blast
    note r = owns_rest[OF Cons.prems(2) m1(3,4)]
    from Cons.IH[OF m1(2) r(1)] m1(1,3) show ?case unfolding r(2) by auto
  qed simp
  then show ?thesis by (auto simp: destroy_bt_frames_def walk)
qed


section \<open>Properties\<close>

lemma thread_destroy_first:
  assumes "clist (links m) head (t # ts)" "set (head # t # ts) \<subseteq> live m" "t \<noteq> 0"
  shows "\<exists>m'. thread_destroy junk t m = Some m' \<and> clist (links m') head ts \<and> live m' = live m - {t}"
proof -
  from del_first[OF assms(1,2)] obtain h where h: "del_node t m = Some (m\<lparr>links := h\<rparr>)" "clist h head ts" by blast
  have "t \<notin> set (head # ts)" using assms(1) by (auto simp: clist_def)
  from free_block[of t "m\<lparr>links := h\<rparr>" head ts junk] this h assms(2,3) show ?thesis by (auto simp: thread_destroy_def)
qed

lemma cure_nodes_iterate:
  assumes "clist (links m) head ts" "set (head # ts) \<subseteq> live m" "0 \<notin> set ts" "cure_threads x (map th ts) s = ((err, rest), s')"
  shows "\<exists>k m'. iterate (cure_body junk x th) ts (m, s) = Some (err, m', s') \<and> rest = map th (drop k ts)
    \<and> clist (links m') head (drop k ts) \<and> live m' = live m - set (take k ts)"
  using assms
proof (induction ts arbitrary: m s)
  case (Cons t ts)
  obtain e s1 where c: "task_cure x (th t) s = (e, s1)" by fastforce
  show ?case
  proof (cases "e = 0")
    case True
    from thread_destroy_first[OF Cons.prems(1), of junk] Cons.prems(2,3) obtain m1
      where m1: "thread_destroy junk t m = Some m1" "clist (links m1) head ts" "live m1 = live m - {t}" by auto
    have "t \<notin> set (head # ts)" using Cons.prems(1) by (auto simp: clist_def)
    with Cons.prems(2) m1(3) have l: "set (head # ts) \<subseteq> live m1" by auto
    have "0 \<notin> set ts" "cure_threads x (map th ts) s1 = ((err, rest), s')" using Cons.prems(3,4) c True by simp_all
    from Cons.IH[OF m1(2) l this] obtain k m' where i: "iterate (cure_body junk x th) ts (m1, s1) = Some (err, m', s')"
        "rest = map th (drop k ts)" "clist (links m') head (drop k ts)" "live m' = live m1 - set (take k ts)" by blast
    moreover have "iterate (cure_body junk x th) (t # ts) (m, s) = Some (err, m', s')" using i c True m1(1) by (simp add: cure_body_def)
    ultimately have "iterate (cure_body junk x th) (t # ts) (m, s) = Some (err, m', s') \<and> rest = map th (drop (Suc k) (t # ts))
      \<and> clist (links m') head (drop (Suc k) (t # ts)) \<and> live m' = live m - set (take (Suc k) (t # ts))"
      using m1(3) Diff_insert2[of "live m" t "set (take k ts)"] by simp
    then show ?thesis by (intro exI)
  next
    case False
    have "iterate (cure_body junk x th) (t # ts) (m, s) = Some (err, m, s')" "rest = map th (t # ts)"
      using c False Cons.prems(4) by (simp_all add: cure_body_def)
    with Cons.prems(1) show ?thesis by (intro exI[of _ 0] exI[of _ m]) simp
  qed
qed simp

lemma cure_thread_nodes_iterate:
  assumes "clist (links m) head ts" "set (head # ts) \<subseteq> live m" "0 \<notin> set ts"
  shows "cure_thread_nodes junk x th head (m, s) = iterate (cure_body junk x th) ts (m, s)"
proof -
  let ?J = "\<lambda>ms ys. clist (links (fst ms)) head ys \<and> set (head # ys) \<subseteq> live (fst ms) \<and> 0 \<notin> set ys"
  have J: "?J ms' ys" if J: "?J ms (t # ys)" and b: "cure_body junk x th t ms = Some (0, ms')" for ms t ys ms'
  proof -
    from J thread_destroy_first[of "fst ms" head t ys junk] obtain m1
      where m1: "thread_destroy junk t (fst ms) = Some m1" "clist (links m1) head ys" "live m1 = live (fst ms) - {t}" by auto
    have "t \<notin> set (head # ys)" using J by (auto simp: clist_def)
    with J m1(3) have "set (head # ys) \<subseteq> live m1" by auto
    moreover from b m1(1) have "fst ms' = m1" by (cases ms) (auto simp: cure_body_def split: prod.splits if_splits)
    ultimately show ?thesis using m1(2) J by simp
  qed
  have "keeps_rest_on ?J (\<lambda>ms. links (fst ms)) (cure_body junk x th) head"
    unfolding keeps_rest_on_def using J by (metis append_Nil)
  from list_for_each_entry_safe_iterate_on[where hp = "\<lambda>ms. links (fst ms)" and s = "(m, s)", OF _ this] assms
  show ?thesis by (simp add: cure_thread_nodes_def)
qed

text \<open>
  C33: Walking a list while its elements are freed is safe: nothing is freed twice, no freed block is
  read or written, and everything is freed. Destroying a backtrace frees its frames, their
  names and itself. Letting the threads of a process go, on the list of the code, does what
  the model on HOL lists says: the same threads are resumed with the same result, the list
  holds the threads that are left, and exactly the others are freed. The result is the same
  whatever \<open>free\<close> leaves in a block.
\<close>

theorem freed_once:
  "(\<forall>bt xs. clist (links m) bt xs \<and> owns bt m xs \<longrightarrow>
      (\<exists>m'. destroy_backtrace junk bt m = Some m' \<and> live m' = live m - set (bt # concat (map (frame_blocks m) xs))))
    \<and> (\<forall>head ts. clist (links m) head ts \<and> set (head # ts) \<subseteq> live m \<and> 0 \<notin> set ts \<longrightarrow>
      (case cure_threads x (map th ts) s of ((err, rest), s') \<Rightarrow>
         \<exists>k m'. cure_thread_nodes junk x th head (m, s) = Some (err, m', s') \<and> rest = map th (drop k ts)
           \<and> clist (links m') head (drop k ts) \<and> live m' = live m - set (take k ts)))"
proof (intro conjI allI impI; elim conjE)
  fix bt xs
  assume a: "clist (links m) bt xs" "owns bt m xs"
  from destroy_bt_frames_all[OF this] obtain m' where m': "destroy_bt_frames junk bt m = Some m'" "clist (links m') bt []"
      "live m' = live m - set (concat (map (frame_blocks m) xs))" by blast
  have "bt \<in> live m'" "bt \<noteq> 0" using a(2) m'(3) by (auto simp: owns_def)
  then show "\<exists>m'. destroy_backtrace junk bt m = Some m' \<and> live m' = live m - set (bt # concat (map (frame_blocks m) xs))"
    using m' by (auto simp: destroy_backtrace_def c_free_def)
next
  fix head ts
  assume a: "clist (links m) head ts" "set (head # ts) \<subseteq> live m" "0 \<notin> set ts"
  obtain err rest s' where c: "cure_threads x (map th ts) s = ((err, rest), s')" by (metis surj_pair)
  from cure_nodes_iterate[OF a c, of junk] c show "case cure_threads x (map th ts) s of ((err, rest), s') \<Rightarrow>
         \<exists>k m'. cure_thread_nodes junk x th head (m, s) = Some (err, m', s') \<and> rest = map th (drop k ts)
           \<and> clist (links m') head (drop k ts) \<and> live m' = live m - set (take k ts)"
    by (simp add: cure_thread_nodes_iterate[OF a])
qed


text \<open>A backtrace at 1 with frames at 2 and 3, the second with its name at 7, and a list of threads 5 and 6 at 4.\<close>

definition free_mem :: mem where
  "free_mem = \<lparr>links = fold (\<lambda>n. list_add_tail n 4) [5, 6] (INIT_LIST_HEAD 4
       (fold (\<lambda>n. list_add_tail n 1) [2, 3] (INIT_LIST_HEAD 1 (\<lambda>p. \<lparr>prev = 0, next = 0\<rparr>)))),
     name_at = (\<lambda>p. if p = 3 then 7 else 0), live = {1, 2, 3, 4, 5, 6, 7}\<rparr>"

lemma free_mem_lists: "clist (links free_mem) 1 [2, 3]" "owns 1 free_mem [2, 3]" "clist (links free_mem) 4 [5, 6]"
  by (simp_all add: free_mem_def clist_def owns_def frame_blocks_def list_add_tail_def list_add_between_def INIT_LIST_HEAD_def
      set_next_def set_prev_def)

theorem freed_once_witness:
  "\<exists>m' k m'' s'. destroy_backtrace (\<lambda>p. (\<lparr>prev = 9, next = 9\<rparr>, 9)) 1 free_mem = Some m' \<and> live m' = {4, 5, 6}
     \<and> cure_thread_nodes (\<lambda>p. (\<lparr>prev = 9, next = 9\<rparr>, 9)) sim_ext (\<lambda>p. \<lparr>t_pid = int p, t_seized = True\<rparr>) 4 (free_mem, sim_state)
       = Some (0, m'', s') \<and> list_empty 4 (links m'') \<and> live m'' = {1, 2, 3, 4, 7}"
proof -
  let ?junk = "\<lambda>p :: ptr. (\<lparr>prev = 9, next = 9\<rparr>, 9 :: ptr)" and ?th = "\<lambda>p. \<lparr>t_pid = int p, t_seized = True\<rparr>"
  have c: "cure_threads sim_ext (map ?th [5, 6]) sim_state = ((0, []), sim_state)"
    by (simp add: task_cure_def ext_call_def sim_state_def)
  have l: "set (4 # [5, 6]) \<subseteq> live free_mem" "0 \<notin> set [5, 6 :: ptr]" by (simp_all add: free_mem_def)
  note r = freed_once[of free_mem ?junk sim_ext ?th sim_state]
  from conjunct1[OF r, rule_format, OF conjI, OF free_mem_lists(1,2)] obtain m' where 1: "destroy_backtrace ?junk 1 free_mem = Some m'"
      "live m' = live free_mem - set (1 # concat (map (frame_blocks free_mem) [2, 3]))" by blast
  from conjunct2[OF r, rule_format, OF conjI, OF free_mem_lists(3) conjI, OF l, unfolded c prod.case] obtain k m''
    where 2: "cure_thread_nodes ?junk sim_ext ?th 4 (free_mem, sim_state) = Some (0, m'', sim_state)" "[] = map ?th (drop k [5, 6])"
      "clist (links m'') 4 (drop k [5, 6])" "live m'' = live free_mem - set (take k [5, 6])" by (elim exE conjE) (rule that)
  from 2(2) have k: "drop k [5, 6 :: ptr] = []" "take k [5, 6 :: ptr] = [5, 6]" by simp_all
  have f: "live free_mem = {1, 2, 3, 4, 5, 6, 7}" "frame_blocks free_mem 2 = [2]" "frame_blocks free_mem 3 = [7, 3]"
    by (simp_all add: free_mem_def frame_blocks_def)
  have "live m' = {4, 5, 6}" using 1(2) by (simp add: f insert_Diff_if)
  moreover have "live m'' = {1, 2, 3, 4, 7}" using 2(4) by (simp add: k f insert_Diff_if)
  moreover have "list_empty 4 (links m'')" using list_empty_iff[OF 2(3)] k by simp
  ultimately show ?thesis using 1(1) 2(1) by (intro exI conjI)
qed

end
