(* ===== verification/Nsb_Log.thy ===== *)
theory Nsb_Log
  imports Vma
begin

text \<open>
  The log, \<open>patcher/log.c\<close> and the macros of \<open>patcher/include/log.h\<close>. A message is the byte string
  that \<open>vsnprintf\<close> makes of the format and its arguments. The initialisation of compel's own log
  is not modelled.
\<close>

section \<open>The log\<close>

record log_state =
  current_loglevel :: u32
  logfd :: int

definition LOG_UNSET :: u32 where "LOG_UNSET = - 1"
definition LOG_MSG :: u32 where "LOG_MSG = 0"
definition LOG_ERROR :: u32 where "LOG_ERROR = 1"
definition LOG_WARN :: u32 where "LOG_WARN = 2"
definition LOG_INFO :: u32 where "LOG_INFO = 3"
definition LOG_DEBUG :: u32 where "LOG_DEBUG = 4"
definition DEFAULT_LOGLEVEL :: u32 where "DEFAULT_LOGLEVEL = LOG_WARN"

lemmas log_levels = LOG_UNSET_def LOG_MSG_def LOG_ERROR_def LOG_WARN_def LOG_INFO_def LOG_DEBUG_def DEFAULT_LOGLEVEL_def

text \<open>The state when the program starts.\<close>

definition log_start :: log_state where
  "log_start = \<lparr>current_loglevel = DEFAULT_LOGLEVEL, logfd = -1\<rparr>"

definition log_get_fd :: "log_state \<Rightarrow> int" where
  "log_get_fd l = (if logfd l < 0 then 2 else logfd l)"

text \<open>\<open>dup_stdout\<close> and \<open>open_log\<close> are the results of the two system calls, negative on failure.\<close>

definition log_init :: "int \<Rightarrow> (string \<Rightarrow> int) \<Rightarrow> string option \<Rightarrow> log_state \<Rightarrow> int \<times> log_state" where
  "log_init dup_stdout open_log output l =
     (let fd = (case output of None \<Rightarrow> dup_stdout | Some path \<Rightarrow> if path = ''-'' then dup_stdout else open_log path)
      in (if fd < 0 then -1 else 0, l\<lparr>logfd := fd\<rparr>))"

definition log_fini :: "log_state \<Rightarrow> log_state" where
  "log_fini l = (if 0 \<le> logfd l then l\<lparr>logfd := -1\<rparr> else l)"

definition log_set_loglevel :: "u32 \<Rightarrow> log_state \<Rightarrow> log_state" where
  "log_set_loglevel level l = l\<lparr>current_loglevel := if level = LOG_UNSET then DEFAULT_LOGLEVEL else level\<rparr>"

definition log_get_loglevel :: "log_state \<Rightarrow> u32" where
  "log_get_loglevel l = current_loglevel l"

text \<open>
  The loop around \<open>write\<close>, on the buffer of 1024 bytes. \<open>sz\<close> is what \<open>vsnprintf\<close> returned, the
  length of the whole message: a longer one makes the loop read behind the buffer, \<open>None\<close>.
  \<open>put\<close> is \<open>write\<close>: the bytes accepted, or -1.
\<close>

function write_loop :: "(byte list \<Rightarrow> 'w \<Rightarrow> int \<times> 'w) \<Rightarrow> byte list \<Rightarrow> nat \<Rightarrow> nat \<Rightarrow> 'w \<Rightarrow> 'w option" where
  "write_loop put buffer off sz w =
     (if sz \<le> off then Some w
      else if length buffer < sz then None
      else case put (take (sz - off) (drop off buffer)) w of
             (ret, w) \<Rightarrow> if ret \<le> 0 then Some w else write_loop put buffer (off + nat ret) sz w)"
  by pat_completeness auto
termination by (relation "measure (\<lambda>(put, buffer, off, sz, w). sz - off)") auto

declare write_loop.simps [simp del]

definition log_buffer :: "(nat \<Rightarrow> byte) \<Rightarrow> byte list \<Rightarrow> byte list" where
  "log_buffer uninit msg =
     (let text = take 1023 msg @ [0] in text @ map uninit [length text..<1024])"

definition print_on_level ::
    "(int \<Rightarrow> byte list \<Rightarrow> 'w \<Rightarrow> int \<times> 'w) \<Rightarrow> (nat \<Rightarrow> byte) \<Rightarrow> log_state \<Rightarrow> u32 \<Rightarrow> byte list \<Rightarrow> 'w \<Rightarrow> 'w option" where
  "print_on_level put uninit l loglevel msg w =
     (if loglevel \<noteq> LOG_MSG \<and> loglevel > current_loglevel l then Some w
      else write_loop (put (if loglevel = LOG_MSG then 1 else logfd l)) (log_buffer uninit msg) 0 (length msg) w)"

section \<open>The macros\<close>

text \<open>
  \<open>fmt\<close> is the formatted text of the caller, \<open>prefix\<close> its \<open>LOG_PREFIX\<close>, \<open>file\<close> and \<open>line\<close> the place of the
  call, and \<open>strerror\<close> the text for \<open>errno\<close>.
\<close>

type_synonym 'w printer = "u32 \<Rightarrow> byte list \<Rightarrow> 'w \<Rightarrow> 'w option"

definition bytes_of :: "string \<Rightarrow> byte list" where
  "bytes_of cs = map of_char cs"

definition pr_msg :: "'w printer \<Rightarrow> string \<Rightarrow> 'w \<Rightarrow> 'w option" where
  "pr_msg print fmt = print LOG_MSG (bytes_of fmt)"

definition pr_info :: "'w printer \<Rightarrow> string \<Rightarrow> string \<Rightarrow> 'w \<Rightarrow> 'w option" where
  "pr_info print prefix fmt = print LOG_INFO (bytes_of (prefix @ fmt))"

definition pr_err :: "'w printer \<Rightarrow> string \<Rightarrow> nat \<Rightarrow> string \<Rightarrow> string \<Rightarrow> 'w \<Rightarrow> 'w option" where
  "pr_err print file line prefix fmt =
     print LOG_ERROR (bytes_of (''Error ('' @ file @ '' +'' @ dec_string line @ ''): '' @ prefix @ fmt))"

definition pr_warn :: "'w printer \<Rightarrow> string \<Rightarrow> nat \<Rightarrow> string \<Rightarrow> string \<Rightarrow> 'w \<Rightarrow> 'w option" where
  "pr_warn print file line prefix fmt =
     print LOG_WARN (bytes_of (''Warn  ('' @ file @ '' +'' @ dec_string line @ ''): '' @ prefix @ fmt))"

definition pr_debug :: "'w printer \<Rightarrow> string \<Rightarrow> string \<Rightarrow> 'w \<Rightarrow> 'w option" where
  "pr_debug print prefix fmt = print LOG_DEBUG (bytes_of (prefix @ fmt))"

definition pr_perror :: "'w printer \<Rightarrow> string \<Rightarrow> nat \<Rightarrow> string \<Rightarrow> string \<Rightarrow> string \<Rightarrow> 'w \<Rightarrow> 'w option" where
  "pr_perror print file line prefix fmt strerror =
     pr_err print file line prefix (fmt @ '': '' @ strerror @ [CHR 10])"

text \<open>Each call of \<open>print_once\<close> has a flag of its own.\<close>

definition print_once :: "'w printer \<Rightarrow> u32 \<Rightarrow> string \<Rightarrow> bool \<times> 'w \<Rightarrow> (bool \<times> 'w) option" where
  "print_once print loglevel fmt = (\<lambda>(printed, w).
     if printed then Some (True, w) else do { w \<leftarrow> print loglevel (bytes_of fmt) w; Some (True, w) })"

definition pr_err_once :: "'w printer \<Rightarrow> string \<Rightarrow> bool \<times> 'w \<Rightarrow> (bool \<times> 'w) option" where
  "pr_err_once print fmt = print_once print LOG_ERROR fmt"

definition pr_warn_once :: "'w printer \<Rightarrow> string \<Rightarrow> bool \<times> 'w \<Rightarrow> (bool \<times> 'w) option" where
  "pr_warn_once print fmt = print_once print LOG_WARN fmt"

section \<open>What reaches the log\<close>

lemma long_message_overreads:
  assumes "1024 < length msg" "loglevel = LOG_MSG \<or> loglevel \<le> current_loglevel l"
  shows "print_on_level put uninit l loglevel msg w = None"
proof -
  have "length (log_buffer uninit msg) = 1024" by (simp add: log_buffer_def Let_def)
  with assms show ?thesis by (auto simp: print_on_level_def write_loop.simps)
qed

text \<open>
  \<open>write\<close> takes at least one byte of what it is given, possibly not all, and appends it to what
  the descriptor has received; \<open>out\<close> is what each descriptor has received.
\<close>

definition write_ext :: "(int \<Rightarrow> byte list \<Rightarrow> 'w \<Rightarrow> int \<times> 'w) \<Rightarrow> ('w \<Rightarrow> int \<Rightarrow> byte list) \<Rightarrow> bool" where
  "write_ext put out \<longleftrightarrow> (\<forall>fd bs w. bs \<noteq> [] \<longrightarrow> (\<exists>n w'. put fd bs w = (int n, w') \<and> 0 < n \<and> n \<le> length bs
     \<and> out w' = (out w)(fd := out w fd @ take n bs)))"

lemma write_loop_all:
  assumes "write_ext put out" "sz \<le> length buffer"
  shows "off \<le> sz \<Longrightarrow> \<exists>w'. write_loop (put fd) buffer off sz w = Some w'
    \<and> out w' = (out w)(fd := out w fd @ take (sz - off) (drop off buffer))"
proof (induction "sz - off" arbitrary: off w rule: less_induct)
  case less
  show ?case
  proof (cases "off = sz")
    case True
    then show ?thesis by (simp add: write_loop.simps)
  next
    case False
    let ?bs = "take (sz - off) (drop off buffer)"
    have "?bs \<noteq> []" using False less.prems assms(2) by simp
    then obtain n w' where p: "put fd ?bs w = (int n, w')" "0 < n" "n \<le> length ?bs"
      "out w' = (out w)(fd := out w fd @ take n ?bs)"
      using assms(1) unfolding write_ext_def by blast
    then have n: "n \<le> sz - off" by simp
    then have sz: "sz - off = n + (sz - (off + n))" by arith
    have "write_loop (put fd) buffer off sz w = write_loop (put fd) buffer (off + n) sz w'"
      using False less.prems assms(2) p by (simp add: write_loop.simps[of _ _ off])
    moreover have "take (sz - off) (drop off buffer) = take n ?bs @ take (sz - (off + n)) (drop (off + n) buffer)"
      using n by (subst sz) (simp add: take_add add.commute min.absorb1)
    ultimately show ?thesis using less.hyps[of "off + n" w'] p n False less.prems by auto
  qed
qed

lemma log_buffer_text: "length msg < 1024 \<Longrightarrow> take (length msg) (log_buffer uninit msg) = msg"
  by (simp add: log_buffer_def Let_def)

text \<open>
  C38: A message of fewer than 1024 bytes is logged exactly when its level is the one of
  unconditional messages or does not exceed the level that is set. It then goes to the standard
  output or to the descriptor of the log, complete, in order and once, however the writes are
  split; nothing else is written to any descriptor.
\<close>

theorem message_logged:
  assumes "write_ext put out" and "length msg < 1024"
  shows "\<exists>w'. print_on_level put uninit l loglevel msg w = Some w'
    \<and> out w' = (if loglevel = LOG_MSG then (out w)(1 := out w 1 @ msg)
                else if loglevel \<le> current_loglevel l then (out w)(logfd l := out w (logfd l) @ msg)
                else out w)"
proof -
  have "length msg \<le> length (log_buffer uninit msg)" using assms(2) by (simp add: log_buffer_def Let_def)
  from write_loop_all[OF assms(1) this, of 0] log_buffer_text[OF assms(2), of uninit] show ?thesis
    by (auto simp: print_on_level_def)
qed

definition chunk_put :: "int \<Rightarrow> byte list \<Rightarrow> (int \<Rightarrow> byte list) \<Rightarrow> int \<times> (int \<Rightarrow> byte list)" where
  "chunk_put fd bs w = (let n = min 3 (length bs) in (int n, w(fd := w fd @ take n bs)))"

theorem message_logged_witness:
  "(\<exists>w'. print_on_level chunk_put (\<lambda>i. 0) (log_start\<lparr>logfd := 5\<rparr>) LOG_ERROR [1, 2, 3, 4, 5, 6, 7] (\<lambda>fd. [])
      = Some w' \<and> w' 5 = [1, 2, 3, 4, 5, 6, 7])
   \<and> (\<exists>w'. print_on_level chunk_put (\<lambda>i. 0) (log_start\<lparr>logfd := 5\<rparr>) LOG_DEBUG [1, 2, 3] (\<lambda>fd. []) = Some w' \<and> w' 5 = [])"
proof -
  have "write_ext chunk_put (\<lambda>w. w)" unfolding write_ext_def
    by (auto simp: chunk_put_def Let_def)
  note r = message_logged[OF this, of _ "\<lambda>i. 0" "log_start\<lparr>logfd := 5\<rparr>"]
  show ?thesis
    using r[of "[1, 2, 3, 4, 5, 6, 7]" LOG_ERROR "\<lambda>fd. []"] r[of "[1, 2, 3]" LOG_DEBUG "\<lambda>fd. []"]
    by (auto simp: log_start_def log_levels)
qed

end
