(* ===== verification/Service_Msg.thy ===== *)
theory Service_Msg
  imports Nsb_Sim
begin

text \<open>
  The messages between the patcher and the service it injects, \<open>plugins/service.h\<close>, as the
  bytes the x86-64 C ABI lays them out in, and the control message that carries a file
  descriptor, \<open>common/scm.c\<close>. An array of structures is a sequence of records of one width;
  the contract of such records is the locale \<open>fixed_width\<close>, and the three kinds of record
  in the messages are its interpretations.
\<close>

section \<open>Records of one width\<close>

locale fixed_width =
  fixes enc :: "'a \<Rightarrow> byte list"
    and dec :: "byte list \<Rightarrow> 'a"
    and width :: nat
  assumes length_enc: "length (enc a) = width"
    and dec_enc: "dec (enc a @ rest) = a"
begin

lemma length_array: "length (concat (map enc as)) = length as * width"
  by (induction as) (simp_all add: length_enc)

lemma drop_array:
  "k \<le> length as \<Longrightarrow> drop (k * width) (concat (map enc as) @ rest) = concat (map enc (drop k as)) @ rest"
proof (induction k arbitrary: as)
  case (Suc k)
  then obtain a as' where as: "as = a # as'" by (cases as) auto
  with Suc show ?case by (simp add: length_enc)
qed simp

text \<open>The element at an index is found at the multiple of the width.\<close>

lemma dec_array:
  assumes "k < length as"
  shows "dec (drop (k * width) (concat (map enc as) @ rest)) = as ! k"
proof -
  have "drop k as = as ! k # drop (Suc k) as" using assms by (simp add: Cons_nth_drop_Suc)
  with drop_array[of k as rest] assms show ?thesis by (simp add: dec_enc)
qed

lemma decode_array:
  "map (\<lambda>k. dec (drop (k * width) (concat (map enc as) @ rest))) [0..<length as] = as"
  by (rule nth_equalityI) (simp_all add: dec_array del: drop_append)

end

section \<open>The structures\<close>

abbreviation (input) NSB_SERVICE_CMD_EMERG_SIGFRAME :: u32 where "NSB_SERVICE_CMD_EMERG_SIGFRAME \<equiv> 0"
abbreviation (input) NSB_SERVICE_CMD_STOP :: u32 where "NSB_SERVICE_CMD_STOP \<equiv> 1"
abbreviation (input) NSB_SERVICE_CMD_NEEDED_LIST :: u32 where "NSB_SERVICE_CMD_NEEDED_LIST \<equiv> 2"
abbreviation (input) NSB_SERVICE_CMD_MMAP :: u32 where "NSB_SERVICE_CMD_MMAP \<equiv> 3"
abbreviation (input) NSB_SERVICE_CMD_MUNMAP :: u32 where "NSB_SERVICE_CMD_MUNMAP \<equiv> 4"
abbreviation (input) NSB_SERVICE_CMD_MAX :: u32 where "NSB_SERVICE_CMD_MAX \<equiv> 5"

definition NSB_SERVICE_MESSAGE_DATA_SIZE :: nat where
  "NSB_SERVICE_MESSAGE_DATA_SIZE = 8192"

definition NSB_SERVICE_NEEDED_LIST_SIZE_MAX :: nat where
  "NSB_SERVICE_NEEDED_LIST_SIZE_MAX = NSB_SERVICE_MESSAGE_DATA_SIZE - 16"

definition NSB_SERVICE_MMAP_DATA_SIZE_MAX :: nat where
  "NSB_SERVICE_MMAP_DATA_SIZE_MAX = NSB_SERVICE_MESSAGE_DATA_SIZE - 16"

definition NSB_SERVICE_MUNMAP_DATA_SIZE_MAX :: nat where
  "NSB_SERVICE_MUNMAP_DATA_SIZE_MAX = NSB_SERVICE_MESSAGE_DATA_SIZE - 8"

lemmas nsb_service_sizes = NSB_SERVICE_MESSAGE_DATA_SIZE_def NSB_SERVICE_NEEDED_LIST_SIZE_MAX_def
  NSB_SERVICE_MMAP_DATA_SIZE_MAX_def NSB_SERVICE_MUNMAP_DATA_SIZE_MAX_def

record nsb_service_map_addr_info =
  mai_addr :: u64
  mai_length :: u64

record nsb_service_mmap_info =
  mi_info :: nsb_service_map_addr_info
  mi_prot :: u32
  mi_flags :: u32
  mi_offset :: u64

text \<open>The counts \<open>nr_mmaps\<close> and \<open>nr_munmaps\<close> are the lengths of the lists.\<close>

record nsb_service_mmap_request =
  mrq_fd :: int
  mrq_mmap :: "nsb_service_mmap_info list"

record nsb_service_munmap_request =
  mrq_munmap :: "nsb_service_map_addr_info list"

definition enc_mai :: "nsb_service_map_addr_info \<Rightarrow> byte list" where
  "enc_mai mai = le_bytes 8 (mai_addr mai) @ le_bytes 8 (mai_length mai)"

definition dec_mai :: "byte list \<Rightarrow> nsb_service_map_addr_info" where
  "dec_mai bs = \<lparr>mai_addr = word_at bs 0, mai_length = word_at bs 8\<rparr>"

definition enc_mi :: "nsb_service_mmap_info \<Rightarrow> byte list" where
  "enc_mi mi = enc_mai (mi_info mi) @ le_bytes 4 (ucast (mi_prot mi)) @ le_bytes 4 (ucast (mi_flags mi))
     @ le_bytes 8 (mi_offset mi)"

definition dec_mi :: "byte list \<Rightarrow> nsb_service_mmap_info" where
  "dec_mi bs = \<lparr>mi_info = dec_mai bs, mi_prot = int_at bs 16, mi_flags = int_at bs 20, mi_offset = word_at bs 24\<rparr>"

definition mmap_request_bytes :: "nsb_service_mmap_request \<Rightarrow> byte list" where
  "mmap_request_bytes mrq = le_bytes 4 (of_int (mrq_fd mrq)) @ replicate 4 0
     @ le_bytes 8 (of_nat (length (mrq_mmap mrq))) @ concat (map enc_mi (mrq_mmap mrq))"

definition munmap_request_bytes :: "nsb_service_munmap_request \<Rightarrow> byte list" where
  "munmap_request_bytes mrq = le_bytes 8 (of_nat (length (mrq_munmap mrq))) @ concat (map enc_mai (mrq_munmap mrq))"

definition nsb_service_request :: "u32 \<Rightarrow> byte list \<Rightarrow> byte list" where
  "nsb_service_request cmd data = le_bytes 4 (ucast cmd) @ data"

definition nsb_service_response :: "int \<Rightarrow> byte list \<Rightarrow> byte list" where
  "nsb_service_response ret data = le_bytes 4 (of_int ret) @ data"

definition needed_list_bytes :: "u64 list \<Rightarrow> byte list" where
  "needed_list_bytes addrs = le_bytes 8 (of_nat (length addrs)) @ concat (map (le_bytes 8) addrs)"

section \<open>Reading what was written\<close>

lemma word_at_le_bytes [simp]: "word_at (le_bytes 8 w @ rest) 0 = w"
  by (simp add: word_at_def)

lemma word_at_skip: "length bs \<le> off \<Longrightarrow> word_at (bs @ rest) off = word_at rest (off - length bs)"
  by (simp add: word_at_def)

lemma int_at_skip: "length bs \<le> off \<Longrightarrow> int_at (bs @ rest) off = int_at rest (off - length bs)"
  by (simp add: int_at_def)

lemma ucast_take_bit_32: "(ucast (take_bit 32 (ucast (w :: u32) :: u64)) :: u32) = w"
  by (rule bit_word_eqI) (simp add: bit_simps)

lemma ucast_take_bit_32_of_int: "(ucast (take_bit 32 (of_int i :: u64)) :: u32) = of_int i"
  by (rule bit_word_eqI) (simp add: bit_simps)

lemma int_at_le_bytes [simp]: "int_at (le_bytes 4 (ucast w) @ rest) 0 = w"
  by (simp add: int_at_def ucast_take_bit_32)

lemma int_at_le_bytes_int [simp]: "int_at (le_bytes 4 (of_int i) @ rest) 0 = of_int i"
  by (simp add: int_at_def ucast_take_bit_32_of_int)

lemmas field_simps_at = word_at_skip int_at_skip

interpretation mai_codec: fixed_width enc_mai dec_mai 16
  by unfold_locales (simp_all add: enc_mai_def dec_mai_def field_simps_at)

interpretation mi_codec: fixed_width enc_mi dec_mi 32
proof
  show "length (enc_mi a) = 32" for a by (simp add: enc_mi_def mai_codec.length_enc)
  show "dec_mi (enc_mi a @ rest) = a" for a rest
    by (simp add: enc_mi_def dec_mi_def mai_codec.dec_enc mai_codec.length_enc field_simps_at)
qed

interpretation addr_codec: fixed_width "le_bytes 8" "\<lambda>bs. word_at bs 0" 8
  by unfold_locales simp_all

lemma mmap_request_fields:
  "int_at (mmap_request_bytes mrq @ rest) 0 = of_int (mrq_fd mrq)"
  "word_at (mmap_request_bytes mrq @ rest) 8 = of_nat (length (mrq_mmap mrq))"
  "drop 16 (mmap_request_bytes mrq @ rest) = concat (map enc_mi (mrq_mmap mrq)) @ rest"
  by (simp_all add: mmap_request_bytes_def field_simps_at)

lemma munmap_request_fields:
  "word_at (munmap_request_bytes mrq @ rest) 0 = of_nat (length (mrq_munmap mrq))"
  "drop 8 (munmap_request_bytes mrq @ rest) = concat (map enc_mai (mrq_munmap mrq)) @ rest"
  by (simp_all add: munmap_request_bytes_def)

lemma needed_list_fields:
  "word_at (needed_list_bytes addrs @ rest) 0 = of_nat (length addrs)"
  "drop 8 (needed_list_bytes addrs @ rest) = concat (map (le_bytes 8) addrs) @ rest"
  by (simp_all add: needed_list_bytes_def)

lemma length_requests [simp]:
  "length (mmap_request_bytes mrq) = 16 + 32 * length (mrq_mmap mrq)"
  "length (munmap_request_bytes urq) = 8 + 16 * length (mrq_munmap urq)"
  "length (needed_list_bytes addrs) = 8 + 8 * length addrs"
  "length (nsb_service_request cmd data) = 4 + length data"
  "length (nsb_service_response ret data) = 4 + length data"
  by (simp_all add: mmap_request_bytes_def munmap_request_bytes_def needed_list_bytes_def
      nsb_service_request_def nsb_service_response_def mi_codec.length_array mai_codec.length_array
      addr_codec.length_array)

section \<open>Passing a file descriptor\<close>

text \<open>The payload is one character; the control message has level and type 1 and one \<open>int\<close>.\<close>

definition scm_rights :: "int \<Rightarrow> byte list" where
  "scm_rights fd = le_bytes 8 20 @ le_bytes 4 1 @ le_bytes 4 1 @ le_bytes 4 (of_int fd)"

definition send_fd :: "'w ext \<Rightarrow> int \<Rightarrow> int \<Rightarrow> 'w pst \<Rightarrow> (int \<times> int) \<times> 'w pst" where
  "send_fd x sock fd s = ext_call (x_sendmsg x sock (map of_char ''x'') (scm_rights fd)) s"

text \<open>
  The result of \<open>recvmsg\<close> is its return value and the control bytes. \<open>CMSG_FIRSTHDR\<close> is null
  when there is no room for a header; reading through it crashes.
\<close>

definition recv_fd :: "(int \<times> byte list) \<Rightarrow> int option" where
  "recv_fd r = (case r of (err, control) \<Rightarrow>
     if err < 0 then Some err
     else if length control < 16 then None
     else Some (sint (int_at control 16)))"

lemma recv_fd_scm_rights:
  assumes "- (2 ^ 31) \<le> fd" "fd < 2 ^ 31" "0 \<le> n"
  shows "recv_fd (n, scm_rights fd @ rest) = Some fd"
  using assms by (simp add: recv_fd_def scm_rights_def field_simps_at signed_of_int signed_take_bit_int_eq_self)

section \<open>The address of the socket\<close>

text \<open>
  The socket address: the family, then the 108 bytes of \<open>sun_path\<close>, a zero byte and the name.
  The structure is cleared for the size of \<open>sun_path\<close> only, so its last two bytes are not.
\<close>

definition service_sockaddr :: "(nat \<Rightarrow> byte) \<Rightarrow> pid \<Rightarrow> byte list" where
  "service_sockaddr slack pid =
     (let name = map of_char (''NSB-SERVICE-'' @ int_string pid) in
      le_bytes 2 1 @ [0] @ name @ replicate (105 - length name) 0 @ map slack [0..<2])"

end
