(* ===== verification/Service.thy ===== *)
theory Service
  imports Service_Msg Process_IO Util
begin

text \<open>
  The patcher's side of the service, \<open>patcher/service.c\<close>: finding and joining the service
  that was loaded into the target, and the requests sent to it over its socket. The service
  is always the one of the context. Buffers that are not initialised hold the bytes
  \<open>x_slack\<close>.
\<close>

section \<open>Requests and responses\<close>

definition nsb_service_send_request :: "'w ext \<Rightarrow> byte list \<Rightarrow> 'w pst \<Rightarrow> int \<times> 'w pst" where
  "nsb_service_send_request x rq s =
     (case sys_call (x_send x (sv_sock (ctx_service (ctx s))) rq) s of
        (None, s) \<Rightarrow> (- errno s, s)
      | (Some _, s) \<Rightarrow> (0, s))"

text \<open>
  The messages printed from the data of a response of \<open>dsize\<close> bytes, from position \<open>msg\<close> on.
  A message that no zero byte ends is read past the buffer.
\<close>

function print_errors :: "byte list \<Rightarrow> nat \<Rightarrow> nat \<Rightarrow> string list option" where
  "print_errors data dsize msg =
     (if msg < dsize then
        let cs = takeWhile (\<lambda>b. b \<noteq> 0) (drop msg data) in
        if length data \<le> msg + length cs then None
        else map_option ((#) (map (\<lambda>b. char_of (unat b)) cs)) (print_errors data dsize (msg + length cs + 1))
      else Some [])"
  by pat_completeness auto
termination by (relation "measure (\<lambda>(data, dsize, msg). dsize - msg)") auto

declare print_errors.simps [simp del]

definition nsb_service_print_errors :: "byte list \<Rightarrow> nat \<Rightarrow> string list option" where
  "nsb_service_print_errors rp len = print_errors (drop 4 rp) (len - 4) 0"

definition rs_ret :: "byte list \<Rightarrow> int" where
  "rs_ret rs = sint (int_at rs 0)"

text \<open>The size or error, and the response buffer after the call.\<close>

definition nsb_service_receive_response :: "'w ext \<Rightarrow> 'w pst \<Rightarrow> ((int \<times> byte list) \<times> 'w pst) option" where
  "nsb_service_receive_response x s =
     (let uninit = map (x_slack x) [0..<4 + NSB_SERVICE_MESSAGE_DATA_SIZE] in
      case sys_call (x_recv x (sv_sock (ctx_service (ctx s))) (4 + NSB_SERVICE_MESSAGE_DATA_SIZE)) s of
        (None, s) \<Rightarrow> Some ((- errno s, uninit), s)
      | (Some msg, s) \<Rightarrow>
          let rp = msg @ drop (length msg) uninit in
          if length msg < 4 then Some ((- EINVAL, rp), s)
          else if rs_ret rp < 0 then do {
            _ \<leftarrow> nsb_service_print_errors rp (length msg);
            Some ((int (length msg), rp), s) }
          else Some ((int (length msg), rp), s))"

section \<open>Joining the service\<close>

definition check_map_file :: "string \<Rightarrow> string \<Rightarrow> 'w pst \<Rightarrow> (int \<times> 'w pst) option" where
  "check_map_file base dentry s = Some (if take (length base) dentry = base then 1 else 0, s)"

definition service_collect_vmas :: "'w ext \<Rightarrow> 'w pst \<Rightarrow> (int \<times> 'w pst) option" where
  "service_collect_vmas x s =
     (let service = ctx_service (ctx s) in
      case process_read_data x (sv_handle service) 8 s of
        ((err, base), s) \<Rightarrow>
          if err \<noteq> 0 then Some (err, s)
          else do {
            let buf = ''/proc/'' @ int_string (sv_pid service) @ ''/map_files/'';
            let dentry = hex_string (unat (word_at base 0)) @ ''-'';
            (err, dentry, s) \<leftarrow> find_dentry x buf (check_map_file dentry) dentry s;
            if err \<noteq> 0 then Some (err, s)
            else case sys_call (x_readlink x (buf @ dentry)) s of
                   (None, s) \<Rightarrow> Some (- errno s, s)
                 | (Some path, s) \<Rightarrow> do {
                     (err, s, service_vmas) \<leftarrow> collect_vmas_by_path x (sv_pid service) path (s, []);
                     if err \<noteq> 0 then Some (err, s)
                     else if service_vmas = [] then Some (- ENOENT, s)
                     else do {
                       ((err, dlm), s) \<leftarrow> create_dl_map x service_vmas s;
                       if err \<noteq> 0 then Some (err, s)
                       else do {
                         let s = upd_ctx (\<lambda>c. c\<lparr>ctx_service := (ctx_service c)\<lparr>sv_dlm := dlm\<rparr>\<rparr>) s;
                         (err, _, vmas) \<leftarrow> splice_vma_lists_sorted (vma_of s) service_vmas (ctx_vmas (ctx s));
                         Some (err, upd_ctx (\<lambda>c. c\<lparr>ctx_vmas := vmas\<rparr>) s) } } } })"

definition service_disconnect :: "'w ext \<Rightarrow> 'w pst \<Rightarrow> int \<times> 'w pst" where
  "service_disconnect x s =
     (if 0 \<le> sv_sock (ctx_service (ctx s)) then
        (case ext_call (x_close x (sv_sock (ctx_service (ctx s)))) s of
           ((ret, e), s) \<Rightarrow>
             if ret \<noteq> 0 then let s = s\<lparr>errno := e\<rparr> in (- errno s, s)
             else (0, upd_ctx (\<lambda>c. c\<lparr>ctx_service := (ctx_service c)\<lparr>sv_sock := -1\<rparr>\<rparr>) s))
      else (0, s))"

definition service_local_connect :: "'w ext \<Rightarrow> 'w pst \<Rightarrow> int \<times> 'w pst" where
  "service_local_connect x s =
     (let pid = sv_pid (ctx_service (ctx s)) in
      if 107 < length (''NSB-SERVICE-'' @ int_string pid) then (ENOMEM, s)
      else case sys_call (x_socket x) s of
             (None, s) \<Rightarrow> (errno s, s)
           | (Some sock, s) \<Rightarrow>
               (case ext_call (x_connect x sock (service_sockaddr (x_slack x) pid)) s of
                  ((ret, e), s) \<Rightarrow>
                    if ret \<noteq> 0 then
                      let s = s\<lparr>errno := e\<rparr>; err = - errno s in
                      (case ext_call (x_close x sock) s of (_, s) \<Rightarrow> (err, s))
                    else (0, upd_ctx (\<lambda>c. c\<lparr>ctx_service := (ctx_service c)\<lparr>sv_sock := sock\<rparr>\<rparr>) s)))"

definition service_sym_addr :: "'w ext \<Rightarrow> string \<Rightarrow> 'w pst \<Rightarrow> (int \<times> 'w pst) option" where
  "service_sym_addr x symbol s = do {
     dlm \<leftarrow> sv_dlm (ctx_service (ctx s));
     dl_map_symbol_value x dlm symbol s }"

definition service_do ::
    "'w ext \<Rightarrow> u64 \<Rightarrow> u64 \<Rightarrow> u64 \<Rightarrow> u64 \<Rightarrow> u64 \<Rightarrow> u64 \<Rightarrow> u64 \<Rightarrow> 'w pst \<Rightarrow> (int \<times> 'w pst) option" where
  "service_do x address arg1 arg2 arg3 arg4 arg5 arg6 s = do {
     let code_addr = vma_start (ctx_remote_vma (ctx s));
     (sz, blob) \<leftarrow> x86_64_call address code_addr arg1 arg2 arg3 arg4 arg5 arg6;
     if sz < 0 then Some (sz, s)
     else do {
       (ret, s) \<leftarrow> process_exec_code x code_addr blob s;
       Some (to_int ret, s) } }"

definition service_remote_accept :: "'w ext \<Rightarrow> 'w pst \<Rightarrow> (int \<times> 'w pst) option" where
  "service_remote_accept x s = do {
     let code_addr = vma_start (ctx_remote_vma (ctx s));
     (address, s) \<leftarrow> service_sym_addr x ''nsb_service_accept'' s;
     if address \<le> 0 then Some (to_int address, s)
     else do {
       (sz, blob) \<leftarrow> x86_64_call (of_int address) code_addr 0 0 0 0 0 0;
       if sz < 0 then Some (sz, s)
       else do {
         (ret, s) \<leftarrow> process_exec_code x code_addr blob s;
         Some (to_int ret, s) } } }"

definition service_run :: "'w ext \<Rightarrow> 'w pst \<Rightarrow> (int \<times> 'w pst) option" where
  "service_run x s = service_do x (sv_runner (ctx_service (ctx s))) 1 0 0 0 0 0 s"

definition service_find_runner :: "'w ext \<Rightarrow> 'w pst \<Rightarrow> (int \<times> 'w pst) option" where
  "service_find_runner x s = do {
     (address, s) \<leftarrow> service_sym_addr x ''nsb_service_run_loop'' s;
     if address \<le> 0 then Some (to_int address, s)
     else Some (0, upd_ctx (\<lambda>c. c\<lparr>ctx_service := (ctx_service c)\<lparr>sv_runner := of_int address\<rparr>\<rparr>) s) }"

definition service_connect :: "'w ext \<Rightarrow> 'w pst \<Rightarrow> (int \<times> 'w pst) option" where
  "service_connect x s = do {
     (err, s) \<leftarrow> service_find_runner x s;
     if err \<noteq> 0 then Some (err, s)
     else case service_local_connect x s of
            (err, s) \<Rightarrow>
              if err \<noteq> 0 then Some (err, s)
              else do {
                (err, s) \<leftarrow> service_remote_accept x s;
                if err \<noteq> 0 then Some (err, s)
                else Some (0, upd_ctx (\<lambda>c. c\<lparr>ctx_service := (ctx_service c)\<lparr>sv_loaded := True\<rparr>\<rparr>) s) } }"

definition service_stop :: "'w ext \<Rightarrow> 'w pst \<Rightarrow> int \<times> 'w pst" where
  "service_stop x s =
     (case service_disconnect x s of
        (err, s) \<Rightarrow>
          if err \<noteq> 0 then (err, s)
          else (0, upd_ctx (\<lambda>c. c\<lparr>ctx_service := (ctx_service c)\<lparr>sv_loaded := False\<rparr>\<rparr>) s))"

definition service_start :: "'w ext \<Rightarrow> 'w pst \<Rightarrow> (int \<times> 'w pst) option" where
  "service_start x s = do {
     (err, s) \<leftarrow> service_collect_vmas x s;
     if err \<noteq> 0 then Some (err, s)
     else do {
       (err, s) \<leftarrow> service_connect x s;
       if err \<noteq> 0 then Some (err, s) else Some (0, s) } }"

section \<open>Mapping through the service\<close>

definition service_set_map_info ::
    "(ptr \<Rightarrow> vma_area) \<Rightarrow> ptr \<Rightarrow> nsb_service_mmap_request \<Rightarrow> (int \<times> nsb_service_mmap_request) option" where
  "service_set_map_info vm vma mrq =
     (let max_mmaps = NSB_SERVICE_MMAP_DATA_SIZE_MAX div 32 in
      if length (mrq_mmap mrq) = max_mmaps then Some (- E2BIG, mrq)
      else Some (0, mrq\<lparr>mrq_mmap := mrq_mmap mrq @
             [\<lparr>mi_info = \<lparr>mai_addr = vma_start (vm vma), mai_length = vma_length (vm vma)\<rparr>,
               mi_prot = vma_prot (vm vma), mi_flags = vma_flags (vm vma), mi_offset = vma_offset (vm vma)\<rparr>]\<rparr>))"

text \<open>
  What \<open>service_mmap_dlm\<close>, \<open>service_munmap_dlm\<close> and \<open>service_needed_array\<close> do after the request
  is filled: send it, run the service, read the response. The size is unsigned there, so a
  failed \<open>nsb_service_receive_response\<close> is not noticed.
\<close>

definition service_exchange :: "'w ext \<Rightarrow> byte list \<Rightarrow> 'w pst \<Rightarrow> ((int \<times> byte list) \<times> 'w pst) option" where
  "service_exchange x rq s =
     (case nsb_service_send_request x rq s of
        (err, s) \<Rightarrow>
          if err \<noteq> 0 then Some ((err, []), s)
          else do {
            (err, s) \<leftarrow> service_run x s;
            if err \<noteq> 0 then Some ((err, []), s)
            else do {
              ((_, rs), s) \<leftarrow> nsb_service_receive_response x s;
              if rs_ret rs < 0 then Some ((rs_ret rs, rs), s\<lparr>errno := - rs_ret rs\<rparr>)
              else Some ((0, rs), s) } })"

definition service_mmap_dlm :: "'w ext \<Rightarrow> dl_map \<Rightarrow> int \<Rightarrow> 'w pst \<Rightarrow> (int \<times> 'w pst) option" where
  "service_mmap_dlm x dlm fd s = do {
     (err, mrq) \<leftarrow> iterate_dl_vmas dlm (service_set_map_info (vma_of s)) \<lparr>mrq_fd = 0, mrq_mmap = []\<rparr>;
     if err \<noteq> 0 then Some (err, s)
     else do {
       ((err, _), s) \<leftarrow> service_exchange x
          (nsb_service_request NSB_SERVICE_CMD_MMAP (mmap_request_bytes (mrq\<lparr>mrq_fd := fd\<rparr>))) s;
       Some (err, s) } }"

definition service_set_map_addr_info ::
    "(ptr \<Rightarrow> vma_area) \<Rightarrow> ptr \<Rightarrow> nsb_service_munmap_request \<Rightarrow> (int \<times> nsb_service_munmap_request) option" where
  "service_set_map_addr_info vm vma mrq =
     (let max_munmaps = NSB_SERVICE_MUNMAP_DATA_SIZE_MAX div 16 in
      if length (mrq_munmap mrq) = max_munmaps then Some (- E2BIG, mrq)
      else Some (0, mrq\<lparr>mrq_munmap := mrq_munmap mrq @
             [\<lparr>mai_addr = vma_start (vm vma), mai_length = vma_length (vm vma)\<rparr>]\<rparr>))"

definition service_munmap_dlm :: "'w ext \<Rightarrow> dl_map \<Rightarrow> 'w pst \<Rightarrow> (int \<times> 'w pst) option" where
  "service_munmap_dlm x dlm s = do {
     (err, mrq) \<leftarrow> iterate_dl_vmas dlm (service_set_map_addr_info (vma_of s)) \<lparr>mrq_munmap = []\<rparr>;
     if err \<noteq> 0 then Some (err, s)
     else do {
       ((err, _), s) \<leftarrow> service_exchange x
          (nsb_service_request NSB_SERVICE_CMD_MUNMAP (munmap_request_bytes mrq)) s;
       Some (err, s) } }"

text \<open>
  The number of addresses is what the response says; the copy reads past the response
  buffer when the array does not fit into it.
\<close>

definition service_needed_array :: "'w ext \<Rightarrow> 'w pst \<Rightarrow> ((int \<times> u64 list) \<times> 'w pst) option" where
  "service_needed_array x s = do {
     ((err, rs), s) \<leftarrow> service_exchange x (nsb_service_request NSB_SERVICE_CMD_NEEDED_LIST []) s;
     if err \<noteq> 0 then Some ((err, []), s)
     else let nl = drop 4 rs; nr_addrs = word_at nl 0; array_size = 8 * nr_addrs in
          case xmalloc x s of
            (None, s) \<Rightarrow> Some ((- ENOMEM, []), s)
          | (Some _, s) \<Rightarrow>
              if NSB_SERVICE_MESSAGE_DATA_SIZE - 8 < unat array_size then None
              else Some ((sint nr_addrs,
                          map (\<lambda>i. word_at (drop (i * 8) (drop 8 nl)) 0) [0..<unat array_size div 8]), s) }"

definition service_transfer_fd :: "'w ext \<Rightarrow> int \<Rightarrow> 'w pst \<Rightarrow> (int \<times> 'w pst) option" where
  "service_transfer_fd x fd s = do {
     (address, s) \<leftarrow> service_sym_addr x ''nsb_service_receive_fd'' s;
     if address \<le> 0 then Some (to_int address, s)
     else case send_fd x (sv_sock (ctx_service (ctx s))) fd s of
            ((err, e), s) \<Rightarrow>
              if err < 0 then let s = s\<lparr>errno := e\<rparr> in Some (- errno s, s)
              else do {
                (tfd, s) \<leftarrow> service_do x (of_int address) 0 0 0 0 0 0 s;
                Some (tfd, if tfd < 0 then s\<lparr>errno := - tfd\<rparr> else s) } }"

section \<open>What the requests hold\<close>

definition mmap_info_of :: "vma_area \<Rightarrow> nsb_service_mmap_info" where
  "mmap_info_of v = \<lparr>mi_info = \<lparr>mai_addr = vma_start v, mai_length = vma_length v\<rparr>,
     mi_prot = vma_prot v, mi_flags = vma_flags v, mi_offset = vma_offset v\<rparr>"

definition addr_info_of :: "vma_area \<Rightarrow> nsb_service_map_addr_info" where
  "addr_info_of v = \<lparr>mai_addr = vma_start v, mai_length = vma_length v\<rparr>"

lemma fill_mmap_request:
  "length (mrq_mmap mrq) \<le> 255 \<Longrightarrow> iterate (service_set_map_info vm) vs mrq =
     Some (if length (mrq_mmap mrq) + length vs \<le> 255
           then (0, mrq\<lparr>mrq_mmap := mrq_mmap mrq @ map (\<lambda>v. mmap_info_of (vm v)) vs\<rparr>)
           else (- E2BIG, mrq\<lparr>mrq_mmap := mrq_mmap mrq @ map (\<lambda>v. mmap_info_of (vm v)) (take (255 - length (mrq_mmap mrq)) vs)\<rparr>))"
proof (induction vs arbitrary: mrq)
  case (Cons v vs)
  show ?case
  proof (cases "length (mrq_mmap mrq) = 255")
    case True
    then show ?thesis by (simp add: service_set_map_info_def nsb_service_sizes)
  next
    case False
    let ?mrq = "mrq\<lparr>mrq_mmap := mrq_mmap mrq @ [mmap_info_of (vm v)]\<rparr>"
    have "service_set_map_info vm v mrq = Some (0, ?mrq)"
      using False by (simp add: service_set_map_info_def nsb_service_sizes mmap_info_of_def)
    moreover have "length (mrq_mmap ?mrq) \<le> 255" using False Cons.prems by simp
    moreover have "255 - length (mrq_mmap mrq) = Suc (255 - length (mrq_mmap ?mrq))" using False Cons.prems by simp
    ultimately show ?thesis using Cons.IH[of ?mrq] by simp
  qed
qed simp

lemma fill_munmap_request:
  "length (mrq_munmap mrq) \<le> 511 \<Longrightarrow> iterate (service_set_map_addr_info vm) vs mrq =
     Some (if length (mrq_munmap mrq) + length vs \<le> 511
           then (0, mrq\<lparr>mrq_munmap := mrq_munmap mrq @ map (\<lambda>v. addr_info_of (vm v)) vs\<rparr>)
           else (- E2BIG, mrq\<lparr>mrq_munmap := mrq_munmap mrq @ map (\<lambda>v. addr_info_of (vm v)) (take (511 - length (mrq_munmap mrq)) vs)\<rparr>))"
proof (induction vs arbitrary: mrq)
  case (Cons v vs)
  show ?case
  proof (cases "length (mrq_munmap mrq) = 511")
    case True
    then show ?thesis by (simp add: service_set_map_addr_info_def nsb_service_sizes)
  next
    case False
    let ?mrq = "mrq\<lparr>mrq_munmap := mrq_munmap mrq @ [addr_info_of (vm v)]\<rparr>"
    have "service_set_map_addr_info vm v mrq = Some (0, ?mrq)"
      using False by (simp add: service_set_map_addr_info_def nsb_service_sizes addr_info_of_def)
    moreover have "length (mrq_munmap ?mrq) \<le> 511" using False Cons.prems by simp
    moreover have "511 - length (mrq_munmap mrq) = Suc (511 - length (mrq_munmap ?mrq))" using False Cons.prems by simp
    ultimately show ?thesis using Cons.IH[of ?mrq] by simp
  qed
qed simp

definition mmap_message :: "vma_area list \<Rightarrow> int \<Rightarrow> byte list" where
  "mmap_message vs fd = nsb_service_request NSB_SERVICE_CMD_MMAP (mmap_request_bytes \<lparr>mrq_fd = fd, mrq_mmap = map mmap_info_of vs\<rparr>)"

definition munmap_message :: "vma_area list \<Rightarrow> byte list" where
  "munmap_message vs = nsb_service_request NSB_SERVICE_CMD_MUNMAP (munmap_request_bytes \<lparr>mrq_munmap = map addr_info_of vs\<rparr>)"

lemma service_mmap_dlm_eq:
  "service_mmap_dlm x dlm fd s =
     (if length (dl_vmas dlm) \<le> 255
      then map_option (\<lambda>((err, rs), s). (err, s)) (service_exchange x (mmap_message (map (vma_of s) (dl_vmas dlm)) fd) s)
      else Some (- E2BIG, s))"
  using fill_mmap_request[of "\<lparr>mrq_fd = 0, mrq_mmap = []\<rparr>" "vma_of s" "dl_vmas dlm"]
  by (simp add: service_mmap_dlm_def iterate_dl_vmas_def mmap_message_def comp_def map_conv_bind_option case_prod_unfold)

lemma service_munmap_dlm_eq:
  "service_munmap_dlm x dlm s =
     (if length (dl_vmas dlm) \<le> 511
      then map_option (\<lambda>((err, rs), s). (err, s)) (service_exchange x (munmap_message (map (vma_of s) (dl_vmas dlm))) s)
      else Some (- E2BIG, s))"
  using fill_munmap_request[of "\<lparr>mrq_munmap = []\<rparr>" "vma_of s" "dl_vmas dlm"]
  by (simp add: service_munmap_dlm_def iterate_dl_vmas_def munmap_message_def comp_def map_conv_bind_option case_prod_unfold)

text \<open>The messages fit the request structure.\<close>

lemma message_lengths:
  "length vs \<le> 255 \<Longrightarrow> length (mmap_message vs fd) \<le> 4 + NSB_SERVICE_MESSAGE_DATA_SIZE"
  "length vs \<le> 511 \<Longrightarrow> length (munmap_message vs) \<le> 4 + NSB_SERVICE_MESSAGE_DATA_SIZE"
  by (simp_all add: mmap_message_def munmap_message_def nsb_service_sizes)

section \<open>Reading error messages\<close>

lemma unat_of_char: "unat (of_char c :: byte) = of_char c"
proof -
  have "(of_char c :: nat) < 2 ^ 8" by simp
  then have "unat (of_nat (of_char c) :: byte) = of_char c" by (simp add: unat_of_nat)
  then show ?thesis by (simp add: of_nat_of_char)
qed

lemma of_char_zero_iff: "(of_char c :: byte) = 0 \<longleftrightarrow> c = CHR 0x00"
proof
  assume "(of_char c :: byte) = 0"
  then have "(of_char c :: nat) = 0" using unat_of_char[of c] by simp
  moreover have "(of_char (CHR 0x00) :: nat) = 0" by simp
  ultimately show "c = CHR 0x00" by (metis of_char_eq_iff)
qed simp

text \<open>Messages that are written one after the other, each with its zero byte, are read back.\<close>

lemma print_errors_messages:
  assumes "\<forall>m \<in> set ms. CHR 0x00 \<notin> set m"
  shows "print_errors (pre @ concat (map (\<lambda>m. map of_char m @ [0]) ms) @ rest)
    (length pre + length (concat (map (\<lambda>m. map of_char m @ [0 :: byte]) ms))) (length pre) = Some ms"
  using assms
proof (induction ms arbitrary: pre)
  case Nil
  then show ?case by (simp add: print_errors.simps)
next
  case (Cons m ms)
  let ?m = "map of_char m :: byte list"
  let ?tail = "concat (map (\<lambda>m. map of_char m @ [0]) ms) @ rest"
  have nz: "b \<noteq> 0" if "b \<in> set ?m" for b using that Cons.prems by (auto simp: of_char_zero_iff)
  have tw: "takeWhile (\<lambda>b. b \<noteq> 0) (?m @ 0 # ?tail) = ?m" using takeWhile_append2[of ?m "\<lambda>b. b \<noteq> 0" "0 # ?tail"] nz by simp
  have IH: "print_errors ((pre @ ?m @ [0]) @ ?tail) (length (pre @ ?m @ [0]) + length (concat (map (\<lambda>m. map of_char m @ [0 :: byte]) ms)))
      (length (pre @ ?m @ [0])) = Some ms" using Cons.IH[of "pre @ ?m @ [0]"] Cons.prems by simp
  show ?case
    using IH by (subst print_errors.simps) (simp add: tw comp_def unat_of_char Let_def add.assoc)
qed

text \<open>
  \<open>nsb_service_receive_response\<close> reports a failed or truncated answer by a negative size, but its
  callers keep the size in an unsigned variable: they go on with a response buffer that was
  never written. When the first bytes found there do not look negative, the request counts as
  done.
\<close>

lemma lost_response_accepted:
  assumes "nsb_service_send_request x rq s = (0, s1)" "service_run x s1 = Some (0, s2)"
    and "x_recv x (sv_sock (ctx_service (ctx s2))) (4 + NSB_SERVICE_MESSAGE_DATA_SIZE) (world s2) = (Inl e, w)"
    and "0 \<le> rs_ret (map (x_slack x) [0..<4 + NSB_SERVICE_MESSAGE_DATA_SIZE])"
  shows "\<exists>rs. service_exchange x rq s = Some ((0, rs), s2\<lparr>world := w, errno := e\<rparr>)"
  using assms
  by (simp add: service_exchange_def nsb_service_receive_response_def sys_call_def ext_call_def Let_def)

definition lost_state :: "simw pst" where
  "lost_state = sim_state\<lparr>process_context := sim_ctx\<lparr>ctx_ctl := True,
     ctx_service := (ctx_service sim_ctx)\<lparr>sv_runner := 0x1000, sv_sock := 7\<rparr>\<rparr>\<rparr>"

lemma lost_response_accepted_witness:
  "\<exists>s2 rs. service_exchange sim_ext [2, 0, 0, 0] lost_state = Some ((0, rs), s2)"
proof -
  obtain s1 where s1: "nsb_service_send_request sim_ext [2, 0, 0, 0] lost_state = (0, s1)"
      "s1 = lost_state\<lparr>world := sim_world\<lparr>sim_sent := [[2, 0, 0, 0]]\<rparr>\<rparr>"
    by (simp add: nsb_service_send_request_def sys_call_def ext_call_def lost_state_def sim_ext_def sim_world_def)
  have "\<exists>s2. service_run sim_ext s1 = Some (0, s2) \<and> sim_replies (world s2) = []"
    by (simp add: s1(2) service_run_def service_do_def x86_64_call_eq process_exec_code_def process_write_data_def
        ext_call_def lost_state_def sim_ctx_def sim_vma_def vma_accessors sim_world_def to_int_def)
  then obtain s2 where s2: "service_run sim_ext s1 = Some (0, s2)" "sim_replies (world s2) = []" by blast
  have recv: "x_recv sim_ext fd n (world s2) = (Inl 11, (world s2)\<lparr>sim_replies := []\<rparr>)" for fd n
    using s2(2) by (simp add: sim_ext_def)
  have zero: "rs_ret (map (x_slack sim_ext) [0..<4 + NSB_SERVICE_MESSAGE_DATA_SIZE]) = 0"
  proof -
    have "take 4 (map (x_slack sim_ext) [0..<4 + NSB_SERVICE_MESSAGE_DATA_SIZE]) = map (x_slack sim_ext) [0..<4]"
      by (simp add: take_map take_upt)
    then show ?thesis by (simp add: rs_ret_def int_at_def upt_rec)
  qed
  show ?thesis using lost_response_accepted[OF s1(1) s2(1) recv] zero by auto
qed

end
