(* ===== verification/Target_Mem.thy ===== *)
theory Target_Mem
  imports Process_IO
begin

text \<open>
  The memory of the target as the patcher sees it through ptrace: a map from addresses to
  bytes, with block reads and writes. \<open>memory_ext\<close> says that reading and writing through the
  calls of the program act on such a map and always succeed; the properties about what ends
  up in the target assume it. This idealises ptrace, which fails on unmapped memory, and the two
  functions of \<open>process.c\<close>, which refuse sizes that are no multiple of 8: it stands for a target whose pages that are
  read and written are mapped, with the sizes the patcher uses. In a dry run the patch is not mapped.
\<close>

definition mem_bytes :: "(u64 \<Rightarrow> byte) \<Rightarrow> u64 \<Rightarrow> nat \<Rightarrow> byte list" where
  "mem_bytes m a n = map (\<lambda>i. m (a + of_nat i)) [0..<n]"

definition mem_word :: "(u64 \<Rightarrow> byte) \<Rightarrow> u64 \<Rightarrow> u64" where
  "mem_word m a = le_word (mem_bytes m a 8)"

definition mem_write :: "(u64 \<Rightarrow> byte) \<Rightarrow> u64 \<Rightarrow> byte list \<Rightarrow> u64 \<Rightarrow> byte" where
  "mem_write m a bs = (\<lambda>b. if unat (b - a) < length bs then bs ! unat (b - a) else m b)"

definition memory_ext :: "'w ext \<Rightarrow> ('w \<Rightarrow> u64 \<Rightarrow> byte) \<Rightarrow> bool" where
  "memory_ext x mem \<longleftrightarrow> (\<forall>pid a n w. x_peek x pid a n w = ((0, 0, mem_bytes (mem w) a n), w))
     \<and> (\<forall>pid bs a w. length bs < 2 ^ 64 \<longrightarrow> (\<exists>w'. x_poke x pid bs a w = ((0, 0), w') \<and> mem w' = mem_write (mem w) a bs))"

text \<open>Blocks of \<open>n\<close> bytes that do not meet.\<close>

definition apart :: "nat \<Rightarrow> u64 \<Rightarrow> u64 \<Rightarrow> bool" where
  "apart n a b \<longleftrightarrow> n \<le> unat (a - b) \<and> n \<le> unat (b - a)"

lemma apart_sym: "apart n a b \<Longrightarrow> apart n b a"
  by (simp add: apart_def)

lemma length_mem_bytes [simp]: "length (mem_bytes m a n) = n"
  by (simp add: mem_bytes_def)

lemma nth_mem_bytes [simp]: "i < n \<Longrightarrow> mem_bytes m a n ! i = m (a + of_nat i)"
  by (simp add: mem_bytes_def)

lemma unat_offset: "i < 2 ^ 64 \<Longrightarrow> unat ((a :: u64) + of_nat i - a) = i"
  by (simp add: unat_of_nat)

lemma read_written: "length bs < 2 ^ 64 \<Longrightarrow> mem_bytes (mem_write m a bs) a (length bs) = bs"
  by (rule nth_equalityI) (simp_all add: mem_write_def unat_of_nat)

lemma unat_lt: "unat (d :: u64) < 2 ^ 64"
proof -
  have "unat d < 2 ^ LENGTH(64)" by (rule unsigned_less)
  then show ?thesis by simp
qed

lemma unat_uminus: "d \<noteq> 0 \<Longrightarrow> unat (- d :: u64) = 2 ^ 64 - unat d"
proof -
  assume "d \<noteq> 0"
  then have "unat d \<noteq> 0" by (simp add: unat_eq_zero)
  have "uint d < 2 ^ LENGTH(64)" by (rule unsigned_less)
  then have "int (unat d) < 2 ^ 64" by simp
  moreover have "int (unat (- d)) = (- int (unat d)) mod 2 ^ 64"
    by (simp add: uint_word_ariths flip: uint_nat)
  ultimately have "int (unat (- d)) = 2 ^ 64 - int (unat d)"
    using \<open>unat d \<noteq> 0\<close> by (simp only: zmod_zminus1_eq_if mod_pos_pos_trivial of_nat_0_le_iff of_nat_eq_0_iff if_False)
  then have "int (unat (- d) + unat d) = int (2 ^ 64)"
    by (simp only: of_nat_add of_nat_power of_nat_numeral diff_add_cancel)
  then have "unat (- d) + unat d = 2 ^ 64" by (simp only: of_nat_eq_iff)
  then show ?thesis by (metis add_diff_cancel_right')
qed

lemma apart_offset:
  assumes "apart n a b" "i < n"
  shows "n \<le> unat (b + of_nat i - a)"
proof -
  define d where "d = b - a"
  have n: "n \<le> unat (- d)" "n \<le> unat d" using assms(1) by (simp_all add: apart_def d_def)
  have "d \<noteq> 0" using n(2) assms(2) by auto
  with n(1) have "unat d + n \<le> 2 ^ 64" using unat_lt[of d] by (simp add: unat_uminus)
  then have "unat (d + of_nat i) = unat d + i"
    using assms(2) by (simp add: unat_word_ariths unat_of_nat)
  then show ?thesis using n(2) by (simp add: d_def algebra_simps)
qed

lemma read_apart:
  assumes "apart n a b" "length bs \<le> n"
  shows "mem_bytes (mem_write m a bs) b n = mem_bytes m b n"
proof (rule nth_equalityI)
  fix i assume "i < length (mem_bytes (mem_write m a bs) b n)"
  then have i: "i < n" by simp
  have "\<not> unat (b + of_nat i - a) < length bs"
    using apart_offset[OF assms(1) i] assms(2) by linarith
  then have "mem_write m a bs (b + of_nat i) = m (b + of_nat i)" by (simp add: mem_write_def)
  with i show "mem_bytes (mem_write m a bs) b n ! i = mem_bytes m b n ! i" by simp
qed simp

lemma write_write: "length bs = length cs \<Longrightarrow> mem_write (mem_write m a bs) a cs = mem_write m a cs"
  by (auto simp: mem_write_def)

lemma write_back: "mem_write m a (mem_bytes m a n) = m"
  by (rule ext) (auto simp: mem_write_def)

lemma write_commute:
  assumes "apart n a b" "length bs \<le> n" "length cs \<le> n"
  shows "mem_write (mem_write m a bs) b cs = mem_write (mem_write m b cs) a bs"
proof (rule ext)
  fix c
  have "\<not> (unat (c - a) < n \<and> unat (c - b) < n)"
  proof
    assume c: "unat (c - a) < n \<and> unat (c - b) < n"
    have "b + of_nat (unat (c - b)) = c" by simp
    with apart_offset[OF assms(1), of "unat (c - b)"] c show False by simp
  qed
  with assms(2,3) show "mem_write (mem_write m a bs) b cs c = mem_write (mem_write m b cs) a bs c"
    by (auto simp: mem_write_def)
qed

section \<open>The calls of the program\<close>

lemma process_read_data_mem:
  "memory_ext x mem \<Longrightarrow> process_read_data x a n s = ((0, mem_bytes (mem (world s)) a n), s)"
  by (simp add: process_read_data_def ext_call_def memory_ext_def)

lemma process_write_data_mem:
  assumes "memory_ext x mem" "length bs < 2 ^ 64"
  shows "\<exists>w. process_write_data x a bs s = (0, s\<lparr>world := w\<rparr>) \<and> mem w = mem_write (mem (world s)) a bs"
proof -
  obtain w where "x_poke x (ctx_pid (ctx s)) bs a (world s) = ((0, 0), w)" "mem w = mem_write (mem (world s)) a bs"
    using assms unfolding memory_ext_def by blast
  then show ?thesis by (intro exI[of _ w]) (simp add: process_write_data_def ext_call_def)
qed

text \<open>The memory of the concrete world.\<close>

lemma sim_write_eq: "length bs < 2 ^ 64 \<Longrightarrow> sim_write m a bs = mem_write m a bs"
proof (induction bs arbitrary: m a)
  case Nil
  then show ?case by (simp add: mem_write_def)
next
  case (Cons b bs)
  have "mem_write (m(a := b)) (a + 1) bs c = mem_write m a (b # bs) c" for c
  proof (cases "c = a")
    case True
    have "unat (a - (a + 1)) = 2 ^ 64 - 1" using unat_uminus[of 1] by simp
    with True Cons.prems show ?thesis by (simp add: mem_write_def)
  next
    case False
    then have "unat (c - a) \<noteq> 0" by (simp add: unat_eq_zero)
    moreover have "c - (a + 1) = (c - a) - 1" by (simp add: algebra_simps)
    moreover have "unat ((c - a) - 1) = unat (c - a) - 1" using False by (intro unat_minus_one) simp
    ultimately have "unat (c - a) = Suc (unat (c - (a + 1)))" by (simp only:)
    with False show ?thesis by (simp add: mem_write_def)
  qed
  with Cons show ?case by (simp add: fun_eq_iff)
qed

lemma sim_memory_ext: "memory_ext sim_ext sim_mem"
  by (simp add: memory_ext_def mem_bytes_def sim_read_def sim_write_eq)

end
