(* ===== verification/Rtld.thy ===== *)
theory Rtld
  imports Target_Mem
begin

text \<open>
  The run-time linker's list of loaded objects, read from the memory of the target:
  \<open>patcher/rtld.c\<close>. The layout of \<open>struct r_debug\<close>, \<open>struct link_map\<close> and \<open>Elf64_Dyn\<close> is the
  one of the x86-64 C library. Both loops follow pointers of the target and may not end:
  they are partial functions.
\<close>

abbreviation (input) DT_NULL :: u64 where "DT_NULL \<equiv> 0"
abbreviation (input) DT_SYMTAB :: u32 where "DT_SYMTAB \<equiv> 6"

definition rtld_get_dyn :: "'w ext \<Rightarrow> u64 \<Rightarrow> 'w pst \<Rightarrow> (int \<times> Elf_Dyn) \<times> 'w pst" where
  "rtld_get_dyn x addr s =
     (case process_read_data x addr 16 s of
        ((err, dyn), s) \<Rightarrow> ((err, \<lparr>d_tag = word_at dyn 0, d_val = word_at dyn 8\<rparr>), s))"

partial_function (option) rtld_dynamic_tag_val :: "'w ext \<Rightarrow> u64 \<Rightarrow> u32 \<Rightarrow> 'w pst \<Rightarrow> (int \<times> 'w pst) option" where
  "rtld_dynamic_tag_val x d tag s =
     (case rtld_get_dyn x d s of
        ((err, dyn), s) \<Rightarrow>
          if err \<noteq> 0 then Some (err, s)
          else if d_tag dyn = DT_NULL then Some (- ENOENT, s)
          else if d_tag dyn = ucast tag then Some (sint (d_val dyn), s)
          else rtld_dynamic_tag_val x (d + 16) tag s)"

record link_map =
  l_addr :: u64
  l_ld :: u64
  l_next :: u64

definition rtld_get_lm :: "'w ext \<Rightarrow> u64 \<Rightarrow> 'w pst \<Rightarrow> (int \<times> link_map) \<times> 'w pst" where
  "rtld_get_lm x addr s =
     (case process_read_data x addr 40 s of
        ((err, lm), s) \<Rightarrow> ((err, \<lparr>l_addr = word_at lm 0, l_ld = word_at lm 16, l_next = word_at lm 24\<rparr>), s))"

text \<open>
  The array has \<open>nr\<close> elements so far. Every tenth time it is reallocated, always to ten
  elements, so storing an eleventh one leaves the array.
\<close>

partial_function (option) rtld_needed_loop ::
    "'w ext \<Rightarrow> u64 \<Rightarrow> u64 list \<Rightarrow> 'w pst \<Rightarrow> ((int \<times> u64 list) \<times> 'w pst) option" where
  "rtld_needed_loop x lm_addr arr s =
     (case rtld_get_lm x lm_addr s of
        ((err, lm), s) \<Rightarrow>
          if err \<noteq> 0 then Some ((err, []), s)
          else do {
            (dt_symtab_addr, s) \<leftarrow> rtld_dynamic_tag_val x (l_ld lm) DT_SYMTAB s;
            if dt_symtab_addr = - ENOENT then Some ((- ENOENT, []), s)
            else if sint (l_addr lm) \<le> dt_symtab_addr then
              (case (if length arr mod 10 = 0 then xmalloc x s else (Some 0, s)) of
                 (None, s) \<Rightarrow> Some ((- ENOMEM, []), s)
               | (Some _, s) \<Rightarrow>
                   if 10 \<le> length arr then None
                   else let arr = arr @ [of_int dt_symtab_addr] in
                        if l_next lm \<noteq> 0 then rtld_needed_loop x (l_next lm) arr s
                        else Some ((int (length arr), arr), s))
            else if l_next lm \<noteq> 0 then rtld_needed_loop x (l_next lm) arr s
            else Some ((int (length arr), arr), s) })"

definition rtld_needed_array :: "'w ext \<Rightarrow> u64 \<Rightarrow> 'w pst \<Rightarrow> ((int \<times> u64 list) \<times> 'w pst) option" where
  "rtld_needed_array x r_debug_addr s =
     (case process_read_data x (r_debug_addr + 8) 8 s of
        ((err, lm_addr), s) \<Rightarrow>
          if err \<noteq> 0 then Some ((err, []), s) else rtld_needed_loop x (word_at lm_addr 0) [] s)"

section \<open>What the memory of the target describes\<close>

text \<open>
  \<open>reads x m w\<close>: from the world \<open>w\<close> on, the memory of the target is \<open>m\<close>, and reading it or
  allocating changes nothing outside.
\<close>

definition reads :: "'w ext \<Rightarrow> (u64 \<Rightarrow> byte) \<Rightarrow> 'w \<Rightarrow> bool" where
  "reads x m w \<longleftrightarrow> (\<forall>pid a n. x_peek x pid a n w = ((0, 0, mem_bytes m a n), w)) \<and> x_malloc x w = (True, w)"

text \<open>The value of the first dynamic entry with a tag, before the end of the table.\<close>

inductive dyn_val :: "(u64 \<Rightarrow> byte) \<Rightarrow> u64 \<Rightarrow> u64 \<Rightarrow> u64 \<Rightarrow> bool" for m tag v where
  dyn_here: "mem_word m a = tag \<Longrightarrow> tag \<noteq> DT_NULL \<Longrightarrow> mem_word m (a + 8) = v \<Longrightarrow> dyn_val m tag v a"
| dyn_next: "mem_word m a \<noteq> tag \<Longrightarrow> mem_word m a \<noteq> DT_NULL \<Longrightarrow> dyn_val m tag v (a + 16) \<Longrightarrow> dyn_val m tag v a"

text \<open>A chain of link maps: the load address and the symbol table address of each object.\<close>

inductive link_chain :: "(u64 \<Rightarrow> byte) \<Rightarrow> u64 \<Rightarrow> (u64 \<times> u64) list \<Rightarrow> bool" for m where
  link_last: "dyn_val m (ucast DT_SYMTAB) v (mem_word m (a + 16)) \<Longrightarrow> mem_word m (a + 24) = 0
    \<Longrightarrow> link_chain m a [(mem_word m a, v)]"
| link_more: "dyn_val m (ucast DT_SYMTAB) v (mem_word m (a + 16)) \<Longrightarrow> mem_word m (a + 24) \<noteq> 0
    \<Longrightarrow> link_chain m (mem_word m (a + 24)) lms \<Longrightarrow> link_chain m a ((mem_word m a, v) # lms)"

definition needed_of :: "(u64 \<times> u64) list \<Rightarrow> u64 list" where
  "needed_of lms = map snd (filter (\<lambda>(l_addr, v). sint l_addr \<le> sint v) lms)"

lemma word_at_mem_bytes:
  assumes "off + 8 \<le> n"
  shows "word_at (mem_bytes m a n) off = mem_word m (a + of_nat off)"
proof -
  have "take 8 (drop off [0..<n]) = [off..<off + 8]" using assms by (simp add: take_upt)
  moreover have "[off..<off + 8] = map (\<lambda>i. off + i) [0..<8]"
    using map_add_upt[of off 8] by (simp add: add.commute)
  ultimately show ?thesis
    by (simp add: word_at_def mem_word_def mem_bytes_def take_map drop_map comp_def add.assoc)
qed

lemma read_reads:
  assumes "reads x m (world s)"
  shows "process_read_data x a n s = ((0, mem_bytes m a n), s)"
  using assms by (simp add: process_read_data_def ext_call_def reads_def)

lemma rtld_dynamic_tag_val_eq:
  assumes "dyn_val m (ucast tag) v a" "reads x m (world s)"
  shows "rtld_dynamic_tag_val x a tag s = Some (sint v, s)"
  using assms
proof (induction rule: dyn_val.induct)
  case (dyn_here a)
  then show ?case
    by (subst rtld_dynamic_tag_val.simps) (simp add: rtld_get_dyn_def read_reads word_at_mem_bytes)
next
  case (dyn_next a)
  then show ?case
    by (subst rtld_dynamic_tag_val.simps) (simp add: rtld_get_dyn_def read_reads word_at_mem_bytes)
qed

lemma rtld_needed_loop_eq:
  assumes "link_chain m a lms" "reads x m (world s)" "\<forall>(l, v) \<in> set lms. v \<noteq> - 2"
  shows "\<exists>n. rtld_needed_loop x a arr s =
    (if length (arr @ needed_of lms) \<le> 10 \<or> needed_of lms = []
     then Some ((int (length (arr @ needed_of lms)), arr @ needed_of lms), s\<lparr>brk := brk s + n\<rparr>) else None)"
proof -
  have step: "\<exists>n. rtld_needed_loop x a arr s =
      (if sint (mem_word m a) \<le> sint v \<and> 10 \<le> length arr then None
       else let arr' = (if sint (mem_word m a) \<le> sint v then arr @ [v] else arr); s' = s\<lparr>brk := brk s + n\<rparr> in
            if mem_word m (a + 24) \<noteq> 0 then rtld_needed_loop x (mem_word m (a + 24)) arr' s'
            else Some ((int (length arr'), arr'), s'))"
    if "dyn_val m (ucast DT_SYMTAB) v (mem_word m (a + 16))" "reads x m (world s)" "v \<noteq> - 2" for a v arr s
  proof -
    have "sint v \<noteq> - 2" using that(3) by (metis of_int_neg_numeral of_int_sint scast_id)
    moreover have "rtld_get_lm x a s
        = ((0, \<lparr>l_addr = mem_word m a, l_ld = mem_word m (a + 16), l_next = mem_word m (a + 24)\<rparr>), s)"
      using that(2) by (simp add: rtld_get_lm_def read_reads word_at_mem_bytes)
    moreover have "xmalloc x s = (Some (brk s), s\<lparr>brk := brk s + 1\<rparr>)"
      using that(2) by (simp add: xmalloc_def ext_call_def reads_def)
    ultimately show ?thesis using rtld_dynamic_tag_val_eq[OF that(1,2)]
      by (intro exI[of _ "if sint (mem_word m a) \<le> sint v \<and> length arr mod 10 = 0 then 1 else 0"],
          subst rtld_needed_loop.simps) (simp add: Let_def)
  qed
  show ?thesis using assms
  proof (induction arbitrary: arr s rule: link_chain.induct)
    case (link_last v a)
    then have v: "v \<noteq> - 2" by simp
    from step[OF link_last(1,3) v, of arr] link_last(2) show ?case
      by (auto simp: needed_of_def Let_def)
  next
    case (link_more v a lms)
    then have v: "v \<noteq> - 2" by simp
    obtain n where
      n: "rtld_needed_loop x a arr s = (if sint (mem_word m a) \<le> sint v \<and> 10 \<le> length arr then None
         else rtld_needed_loop x (mem_word m (a + 24)) (if sint (mem_word m a) \<le> sint v then arr @ [v] else arr)
                (s\<lparr>brk := brk s + n\<rparr>))"
      using step[OF link_more.hyps(1) link_more.prems(1) v, of arr, unfolded Let_def if_P[OF link_more.hyps(2)]]
      by blast
    let ?arr = "if sint (mem_word m a) \<le> sint v then arr @ [v] else arr"
    have pre: "reads x m (world (s\<lparr>brk := brk s + n\<rparr>))" "\<forall>(l, v) \<in> set lms. v \<noteq> - 2"
      using link_more.prems by auto
    obtain k where
      "rtld_needed_loop x (mem_word m (a + 24)) ?arr (s\<lparr>brk := brk s + n\<rparr>) =
        (if length (?arr @ needed_of lms) \<le> 10 \<or> needed_of lms = []
         then Some ((int (length (?arr @ needed_of lms)), ?arr @ needed_of lms),
                s\<lparr>brk := brk s + n\<rparr>\<lparr>brk := brk (s\<lparr>brk := brk s + n\<rparr>) + k\<rparr>) else None)"
      using link_more.IH[OF pre, of ?arr] by blast
    then have k: "rtld_needed_loop x (mem_word m (a + 24)) ?arr (s\<lparr>brk := brk s + n\<rparr>) =
        (if length (?arr @ needed_of lms) \<le> 10 \<or> needed_of lms = []
         then Some ((int (length (?arr @ needed_of lms)), ?arr @ needed_of lms), s\<lparr>brk := brk s + (n + k)\<rparr>) else None)"
      by (simp add: add.assoc)
    show ?case
    proof (cases "sint (mem_word m a) \<le> sint v")
      case True
      with n k show ?thesis by (intro exI[of _ "n + k"]) (auto simp: needed_of_def)
    next
      case False
      with n k show ?thesis by (intro exI[of _ "n + k"]) (auto simp: needed_of_def)
    qed
  qed
qed

text \<open>
  C36: For a target whose link maps form a chain that ends, the search ends too, and the array
  it returns lists, in chain order, the symbol table address of every object for which it is
  not below the load address (this leaves out the VDSO), as long as there are no more than ten.
\<close>

theorem rtld_needed_array_correct:
  assumes "link_chain m (mem_word m (r_debug_addr + 8)) lms" "reads x m (world s)"
    and "\<forall>(l, v) \<in> set lms. v \<noteq> - 2" "length (needed_of lms) \<le> 10"
  shows "\<exists>t. rtld_needed_array x r_debug_addr s = Some ((int (length (needed_of lms)), needed_of lms), t)"
  using rtld_needed_loop_eq[OF assms(1-3), of "[]"] assms(2,4)
  by (auto simp: rtld_needed_array_def read_reads word_at_mem_bytes)

text \<open>
  C37: With more than ten such objects the search writes behind the end of its array: each
  reallocation asks for ten elements, whatever the number already stored.
\<close>

theorem rtld_needed_array_overflow:
  assumes "link_chain m (mem_word m (r_debug_addr + 8)) lms" "reads x m (world s)"
    and "\<forall>(l, v) \<in> set lms. v \<noteq> - 2" "10 < length (needed_of lms)"
  shows "rtld_needed_array x r_debug_addr s = None"
proof -
  have "needed_of lms \<noteq> []" using assms(4) by auto
  with rtld_needed_loop_eq[OF assms(1-3), of "[]"] assms(2,4) show ?thesis
    by (auto simp: rtld_needed_array_def read_reads word_at_mem_bytes)
qed

text \<open>A target with \<open>n\<close> link maps, at \<open>0x1000\<close>, \<open>0x2000\<close>, ..., that share one dynamic section.\<close>

definition chain_mem :: "u64 \<Rightarrow> u64 \<Rightarrow> byte" where
  "chain_mem n a =
     (if a = 0x19 then 0x10 else if a = 0x100 then 6 else if a = 0x108 then 0x55
      else if a < 0x1000 then 0
      else if a AND 0xfff = 0x11 then 1
      else if a AND 0xfff = 0x19 \<and> a < n * 0x1000 then 0x10 + ucast (drop_bit 8 a) AND 0xf0 else 0)"

lemma chain_more:
  assumes "mem_word m (a + 24) = a + 0x1000" "a + 0x1000 \<noteq> 0" "mem_word m (a + 16) = 0x100"
    "mem_word m a = 0" "mem_word m 0x100 = 6" "mem_word m 0x108 = 0x55" "link_chain m (a + 0x1000) lms"
  shows "link_chain m a ((0, 0x55) # lms)"
proof -
  have "dyn_val m 6 0x55 0x100" by (rule dyn_here) (simp_all add: assms)
  with link_more[of m "0x55" a lms] assms show ?thesis by simp
qed

lemma chain_last:
  assumes "mem_word m (a + 24) = 0" "mem_word m (a + 16) = 0x100"
    "mem_word m a = 0" "mem_word m 0x100 = 6" "mem_word m 0x108 = 0x55"
  shows "link_chain m a [(0, 0x55)]"
proof -
  have "dyn_val m 6 0x55 0x100" by (rule dyn_here) (simp_all add: assms)
  with link_last[of m "0x55" a] assms show ?thesis by simp
qed

lemmas chain_eval = mem_word_def mem_bytes_def chain_mem_def upt_rec

lemma chain_start: "mem_word (chain_mem n) (0x10 + 8) = 0x1000"
  by (simp add: chain_eval)

lemma chain_2: "link_chain (chain_mem 2) 0x1000 [(0, 0x55), (0, 0x55)]"
  by ((rule chain_last | rule chain_more), (simp add: chain_eval; fail)+)+

lemma chain_11:
  "link_chain (chain_mem 11) 0x1000 [(0, 0x55), (0, 0x55), (0, 0x55), (0, 0x55), (0, 0x55), (0, 0x55), (0, 0x55), (0, 0x55), (0, 0x55), (0, 0x55), (0, 0x55)]"
  by ((rule chain_last | rule chain_more), (simp add: chain_eval; fail)+)+

definition chain_state :: "u64 \<Rightarrow> simw pst" where
  "chain_state n = sim_state\<lparr>world := sim_world\<lparr>sim_mem := chain_mem n\<rparr>\<rparr>"

lemma chain_reads: "reads sim_ext (chain_mem n) (world (chain_state n))"
  by (simp add: reads_def chain_state_def sim_read_def mem_bytes_def)

theorem rtld_needed_array_correct_witness:
  "\<exists>t. rtld_needed_array sim_ext 0x10 (chain_state 2) = Some ((2, [0x55, 0x55]), t)"
proof -
  have "needed_of [(0, 0x55), (0, 0x55)] = [0x55, 0x55]" by (simp add: needed_of_def)
  with rtld_needed_array_correct[of "chain_mem 2" "0x10" "[(0, 0x55), (0, 0x55)]" sim_ext "chain_state 2"]
    chain_2[folded chain_start[of 2]] chain_reads[of 2] show ?thesis by simp
qed

theorem rtld_needed_array_overflow_witness:
  "rtld_needed_array sim_ext 0x10 (chain_state 11) = None"
  by (rule rtld_needed_array_overflow[OF chain_11[folded chain_start[of 11]] chain_reads])
    (simp_all add: needed_of_def)

end
