(* ===== verification/Patch_Jumps.thy ===== *)
theory Patch_Jumps
  imports Process_Catch Target_Mem Protobuf
begin

text \<open>
  The function jumps and the static references of \<open>patcher/patch.c\<close>: building the jump
  instructions of a patch, writing them over the functions they replace, putting the code
  (or the jump of the patch before) back, fixing the references of the patch to static
  variables of the target, and the creation and lookup of patches.

  A jump is named by its patch and its index, since the operations change it in place. What
  a fresh or partly filled object holds before it is written is the parameter \<open>x_slack\<close>
  (bytes of a local buffer) or the old content of the store (an object from \<open>malloc\<close>).
\<close>

section \<open>Writing jumps\<close>

definition upd_fj :: "ptr \<Rightarrow> nat \<Rightarrow> (func_jump_s \<Rightarrow> func_jump_s) \<Rightarrow> 'w pst \<Rightarrow> 'w pst" where
  "upd_fj p i f s = upd_patch p (\<lambda>q. q\<lparr>pi := (pi q)\<lparr>func_jumps := (func_jumps (pi q))[i := f (func_jumps (pi q) ! i)]\<rparr>\<rparr>) s"

definition write_func_code :: "'w ext \<Rightarrow> ptr \<Rightarrow> nat \<Rightarrow> 'w pst \<Rightarrow> int \<times> 'w pst" where
  "write_func_code x p i s = process_write_data x (func_addr (fj_at s p i)) (code (fj_at s p i)) s"

definition write_func_jump :: "'w ext \<Rightarrow> ptr \<Rightarrow> nat \<Rightarrow> 'w pst \<Rightarrow> (int \<times> 'w pst) option" where
  "write_func_jump x p i s = do {
     dlm \<leftarrow> patch_dlm (patch_of s p);
     patch_addr \<leftarrow> map_option (\<lambda>b. b + patch_value (fj_at s p i)) (dlm_load_base s (dlm_of s dlm));
     if ctx_dry_run (ctx s) then Some (0, s)
     else Some (process_write_data x (func_addr (fj_at s p i)) (func_jump (fj_at s p i)) s) }"

text \<open>An error of the iteration is only logged.\<close>

definition apply_func_jumps :: "'w ext \<Rightarrow> 'w pst \<Rightarrow> (int \<times> 'w pst) option" where
  "apply_func_jumps x s = do {
     p \<leftarrow> ctx_patch (ctx s);
     (err, s) \<leftarrow> iterate_patch_function_jumps p (write_func_jump x) s;
     Some (0, s) }"

section \<open>Building jumps\<close>

text \<open>A null \<open>map_file\<close> makes \<open>open\<close> fail with \<open>EFAULT\<close>; \<open>lseek\<close> reports a failure as -1.\<close>

definition read_func_jump_code :: "'w ext \<Rightarrow> ptr \<Rightarrow> ptr \<Rightarrow> nat \<Rightarrow> 'w pst \<Rightarrow> (int \<times> 'w pst) option" where
  "read_func_jump_code x target p i s = do {
     ev \<leftarrow> exec_vma (dlm_of s target);
     case (case vmap_file (vma_of s ev) of
             None \<Rightarrow> (None, s\<lparr>errno := EFAULT\<rparr>)
           | Some map_file \<Rightarrow> sys_call (x_open x map_file) s) of
       (None, s) \<Rightarrow> Some (- errno s, s)
     | (Some fd, s) \<Rightarrow>
         let offset = func_value (fj_at s p i)
               - of_int (elf_section_virt_base (ei_of s (dl_ei (dlm_of s target))) (ucast (shndx (fj_at s p i))));
             (pos, s) = sys_call (x_lseek x fd offset) s;
             (err, s) =
               (if (case pos of None \<Rightarrow> - 1 | Some q \<Rightarrow> q) \<noteq> offset then (- errno s, s)
                else case sys_call (x_read x fd 8) s of
                       (None, s) \<Rightarrow> (- errno s, s)
                     | (Some bs, s) \<Rightarrow>
                         let s = upd_fj p i (\<lambda>fj. fj\<lparr>code := bs @ drop (length bs) (code fj)\<rparr>) s
                         in (if length bs \<noteq> 8 then - EINVAL else 0, s))
         in case ext_call (x_close x fd) s of (_, s) \<Rightarrow> Some (err, s) }"

definition tune_patch_func_jump :: "'w ext \<Rightarrow> ptr \<Rightarrow> nat \<Rightarrow> 'w pst \<Rightarrow> (int \<times> 'w pst) option" where
  "tune_patch_func_jump x p i s = do {
     target \<leftarrow> target_dlm (patch_of s p);
     target_base \<leftarrow> dlm_load_base s (dlm_of s target);
     let s = upd_fj p i (\<lambda>fj. fj\<lparr>func_addr := target_base + func_value fj\<rparr>) s;
     pdlm \<leftarrow> patch_dlm (patch_of s p);
     patch_base \<leftarrow> dlm_load_base s (dlm_of s pdlm);
     (size, jump) \<leftarrow> x86_jmpq_instruction (func_jump (fj_at s p i)) (func_addr (fj_at s p i))
                       (patch_base + patch_value (fj_at s p i));
     let s = upd_fj p i (\<lambda>fj. fj\<lparr>func_jump := jump\<rparr>) s;
     if size < 0 then Some (size, s) else read_func_jump_code x target p i s }"

definition tune_patch_func_jumps :: "'w ext \<Rightarrow> ptr \<Rightarrow> 'w pst \<Rightarrow> (int \<times> 'w pst) option" where
  "tune_patch_func_jumps x p s = do {
     (err, s) \<leftarrow> iterate_patch_function_jumps p (tune_patch_func_jump x) s;
     Some (0, s) }"

definition print_patch_func_jump :: "ptr \<Rightarrow> nat \<Rightarrow> 'w pst \<Rightarrow> (int \<times> 'w pst) option" where
  "print_patch_func_jump p i s = do {
     dlm \<leftarrow> patch_dlm (patch_of s p);
     _ \<leftarrow> dlm_load_base s (dlm_of s dlm);
     Some (0, s) }"

definition tune_func_jumps :: "'w ext \<Rightarrow> 'w pst \<Rightarrow> (int \<times> 'w pst) option" where
  "tune_func_jumps x s = do {
     p \<leftarrow> ctx_patch (ctx s);
     (err, s) \<leftarrow> tune_patch_func_jumps x p s;
     if err \<noteq> 0 then Some (err, s) else iterate_patch_function_jumps p print_patch_func_jump s }"

section \<open>Reverting jumps\<close>

text \<open>1 when the jump is in place, 0 when not, or an error.\<close>

definition func_jump_applied :: "'w ext \<Rightarrow> ptr \<Rightarrow> nat \<Rightarrow> 'w pst \<Rightarrow> int \<times> 'w pst" where
  "func_jump_applied x p i s =
     (if func_addr (fj_at s p i) = 0 then (0, s)
      else case process_read_data x (func_addr (fj_at s p i)) 8 s of
             ((err, bs), s) \<Rightarrow>
               if err \<noteq> 0 then (err, s) else (if bs = func_jump (fj_at s p i) then 1 else 0, s))"

definition compare_fj_addr :: "u64 \<Rightarrow> func_jump_s \<Rightarrow> int" where
  "compare_fj_addr addr fj = (if func_addr fj = addr then 1 else 0)"

text \<open>The index of the jump that was found, or an error.\<close>

fun find_from :: "(func_jump_s \<Rightarrow> int) \<Rightarrow> nat \<Rightarrow> func_jump_s list \<Rightarrow> int + nat" where
  "find_from compare i [] = Inl (- ENOENT)"
| "find_from compare i (fj # fjs) =
     (let ret = compare fj in
      if ret < 0 then Inl ret else if ret \<noteq> 0 then Inr i else find_from compare (i + 1) fjs)"

definition find_function_jump :: "(func_jump_s \<Rightarrow> int) \<Rightarrow> patch_info_s \<Rightarrow> int + nat" where
  "find_function_jump compare pinfo = find_from compare 0 (func_jumps pinfo)"

text \<open>
  The patches in front of \<open>p\<close>, nearest first. A patch that is not on the list has links
  that were never set: the walk from it is \<open>None\<close>.
\<close>

definition patches_before :: "'w pst \<Rightarrow> ptr \<Rightarrow> ptr list option" where
  "patches_before s p =
     (if p \<in> set (ctx_applied_patches (ctx s))
      then Some (rev (takeWhile (\<lambda>q. q \<noteq> p) (ctx_applied_patches (ctx s)))) else None)"

fun walk_previous :: "'w pst \<Rightarrow> ptr \<Rightarrow> u64 \<Rightarrow> ptr list \<Rightarrow> int + ptr \<times> nat" where
  "walk_previous s p addr [] = Inl (- ENOENT)"
| "walk_previous s p addr (pp # pps) =
     (if target_dlm (patch_of s pp) \<noteq> target_dlm (patch_of s p) then walk_previous s p addr pps
      else case find_function_jump (compare_fj_addr addr) (pi (patch_of s pp)) of
             Inr i \<Rightarrow> Inr (pp, i)
           | Inl err \<Rightarrow> if err = - ENOENT then walk_previous s p addr pps else Inl err)"

definition find_previous_func_jump :: "'w pst \<Rightarrow> ptr \<Rightarrow> nat \<Rightarrow> (int + ptr \<times> nat) option" where
  "find_previous_func_jump s p i =
     map_option (walk_previous s p (func_addr (fj_at s p i))) (patches_before s p)"

definition do_revert_func_jump :: "'w ext \<Rightarrow> ptr \<Rightarrow> nat \<Rightarrow> 'w pst \<Rightarrow> (int \<times> 'w pst) option" where
  "do_revert_func_jump x p i s = do {
     prev \<leftarrow> find_previous_func_jump s p i;
     case prev of
       Inl err \<Rightarrow> if err \<noteq> - ENOENT then Some (err, s) else Some (write_func_code x p i s)
     | Inr (pp, j) \<Rightarrow> write_func_jump x pp j s }"

definition revert_func_jump :: "'w ext \<Rightarrow> ptr \<Rightarrow> nat \<Rightarrow> 'w pst \<Rightarrow> (int \<times> 'w pst) option" where
  "revert_func_jump x p i s =
     (case func_jump_applied x p i s of
        (applied, s) \<Rightarrow> if applied \<le> 0 then Some (applied, s) else do_revert_func_jump x p i s)"

definition patch_revert_func_jumps :: "'w ext \<Rightarrow> ptr \<Rightarrow> 'w pst \<Rightarrow> (int \<times> 'w pst) option" where
  "patch_revert_func_jumps x p s = do {
     (err, s) \<leftarrow> iterate_patch_function_jumps p (revert_func_jump x) s;
     Some (0, s) }"

definition revert_func_jumps :: "'w ext \<Rightarrow> 'w pst \<Rightarrow> (int \<times> 'w pst) option" where
  "revert_func_jumps x s = do {
     p \<leftarrow> ctx_patch (ctx s);
     patch_revert_func_jumps x p s }"

section \<open>Static references\<close>

text \<open>
  \<open>memcpy\<close> of more than eight bytes leaves the buffer. For sizes below eight other than 4
  the rest of the buffer was never written.
\<close>

definition write_static_ref :: "'w ext \<Rightarrow> u64 \<Rightarrow> u64 \<Rightarrow> nat \<Rightarrow> 'w pst \<Rightarrow> (int \<times> 'w pst) option" where
  "write_static_ref x addr offset offset_size s =
     (let ((err, bytes), s) = (if offset_size = 4 then process_read_data x addr 8 s
                               else ((0, map (x_slack x) [0..<8]), s))
      in if err \<noteq> 0 then Some (err, s)
         else if offset_size > 8 then None
         else Some (process_write_data x addr (le_bytes offset_size offset @ drop offset_size bytes) s))"

text \<open>A reference of size 0 shifts by a negative amount.\<close>

definition reloc_overflows :: "u64 \<Rightarrow> nat \<Rightarrow> bool" where
  "reloc_overflows reloc sz =
     (let reloc_bit_size = 8 * sz;
          reloc_sign = drop_bit (reloc_bit_size - 1) reloc AND 1;
          reloc_high_bits = drop_bit reloc_bit_size (if reloc_sign \<noteq> 0 then NOT reloc else reloc)
      in reloc_high_bits \<noteq> 0)"

definition apply_static_ref :: "'w ext \<Rightarrow> static_sym_s \<Rightarrow> 'w pst \<Rightarrow> (int \<times> 'w pst) option" where
  "apply_static_ref x ss s = do {
     p \<leftarrow> ctx_patch (ctx s);
     pdlm \<leftarrow> patch_dlm (patch_of s p);
     patch_base \<leftarrow> dlm_load_base s (dlm_of s pdlm);
     tdlm \<leftarrow> target_dlm (patch_of s p);
     target_base \<leftarrow> dlm_load_base s (dlm_of s tdlm);
     let patch_ref_addr = patch_base + patch_address ss;
     let reloc = target_value ss + target_base - patch_base;
     if patch_size ss = 0 then None
     else if patch_size ss < 8 \<and> reloc_overflows reloc (unat (patch_size ss)) then Some (- EINVAL, s)
     else write_static_ref x patch_ref_addr reloc (unat (patch_size ss)) s }"

definition apply_static_refs :: "'w ext \<Rightarrow> 'w pst \<Rightarrow> (int \<times> 'w pst) option" where
  "apply_static_refs x s = do {
     p \<leftarrow> ctx_patch (ctx s);
     iterate (apply_static_ref x) (static_syms (pi (patch_of s p))) s }"

section \<open>Patches\<close>

text \<open>A Build ID that no object has leaves \<open>target_dlm\<close> null and is only logged.\<close>

definition patch_set_target_dlm :: "ptr \<Rightarrow> 'w pst \<Rightarrow> (int \<times> 'w pst) option" where
  "patch_set_target_dlm p s = do {
     dlm \<leftarrow> find_dl_map_by_bid s (ctx_dl_maps (ctx s)) (target_bid (pi (patch_of s p)));
     Some (0, upd_patch p (\<lambda>q. q\<lparr>target_dlm := dlm\<rparr>) s) }"

definition create_patch_by_dlm :: "'w ext \<Rightarrow> ptr \<Rightarrow> 'w pst \<Rightarrow> ((int \<times> ptr) \<times> 'w pst) option" where
  "create_patch_by_dlm x dlm s =
     (case xmalloc x s of
        (None, s) \<Rightarrow> Some ((- ENOMEM, 0), s)
      | (Some p, s) \<Rightarrow>
          let s = upd_patch p (\<lambda>q. q\<lparr>patch_dlm := Some dlm\<rparr>) s;
              ((err, pinfo), s) = elf_info_binpatch x (pi (patch_of s p)) (ei_of s (dl_ei (dlm_of s dlm))) s;
              s = upd_patch p (\<lambda>q. q\<lparr>pi := pinfo\<rparr>) s
          in if err \<noteq> 0 then Some ((err, 0), s)
             else do {
               (err, s) \<leftarrow> patch_set_target_dlm p s;
               if err \<noteq> 0 then Some ((err, 0), s)
               else do {
                 (err, s) \<leftarrow> (if target_dlm (patch_of s p) \<noteq> None \<and> exec_vma (dlm_of s dlm) \<noteq> None
                              then tune_patch_func_jumps x p s else Some (0, s));
                 if err \<noteq> 0 then Some ((err, 0), s)
                 else Some ((0, p), upd_patch p (\<lambda>q. q\<lparr>rela_plt := [], rela_dyn := []\<rparr>) s) } })"

definition create_patch :: "'w ext \<Rightarrow> ptr \<Rightarrow> 'w pst \<Rightarrow> (int \<times> ptr) \<times> 'w pst" where
  "create_patch x ei s =
     (case xmalloc x s of
        (None, s) \<Rightarrow> ((- ENOMEM, 0), s)
      | (Some p, s) \<Rightarrow>
          let ((err, pinfo), s) = elf_info_binpatch x (pi (patch_of s p)) (ei_of s ei) s;
              s = upd_patch p (\<lambda>q. q\<lparr>pi := pinfo\<rparr>) s
          in if err \<noteq> 0 then ((err, 0), s)
             else ((0, p), upd_patch p (\<lambda>q. q\<lparr>rela_plt := [], rela_dyn := []\<rparr>) s))"

definition find_patch_by_bid :: "'w pst \<Rightarrow> string \<Rightarrow> ptr option" where
  "find_patch_by_bid s bid = find (\<lambda>p. patch_bid (pi (patch_of s p)) = bid) (ctx_applied_patches (ctx s))"

section \<open>A patch stack\<close>

text \<open>
  The abstract view of a patched process: the memory is the original one with blocks of
  eight bytes written over it in order, the blocks of the applied patches.
\<close>

type_synonym block = "u64 \<times> byte list"

definition blocks_of :: "'w pst \<Rightarrow> ptr \<Rightarrow> block list" where
  "blocks_of s p = map (\<lambda>fj. (func_addr fj, func_jump fj)) (func_jumps (pi (patch_of s p)))"

definition stack_of :: "'w pst \<Rightarrow> ptr list \<Rightarrow> block list" where
  "stack_of s ps = concat (map (blocks_of s) ps)"

primrec writes :: "block list \<Rightarrow> (u64 \<Rightarrow> byte) \<Rightarrow> u64 \<Rightarrow> byte" where
  "writes [] m = m"
| "writes (b # bs) m = writes bs (mem_write m (fst b) (snd b))"

text \<open>Blocks of eight bytes that are equal or do not meet.\<close>

definition blocks_ok :: "block list \<Rightarrow> bool" where
  "blocks_ok bs \<longleftrightarrow> (\<forall>b \<in> set bs. length (snd b) = 8)
     \<and> (\<forall>b \<in> set bs. \<forall>c \<in> set bs. fst b = fst c \<or> apart 8 (fst b) (fst c))"

lemma writes_append: "writes (bs @ cs) m = writes cs (writes bs m)"
  by (induction bs arbitrary: m) simp_all

lemma blocks_ok_Cons: "blocks_ok (b # bs) \<Longrightarrow> blocks_ok bs"
  by (simp add: blocks_ok_def)

text \<open>A block that is not met by later writes can be written last.\<close>

lemma writes_commute:
  assumes "blocks_ok ((a, d) # bs)" "a \<notin> fst ` set bs"
  shows "mem_write (writes bs m) a d = writes bs (mem_write m a d)"
  using assms
proof (induction bs arbitrary: m)
  case (Cons b bs)
  have ap: "apart 8 (fst b) a" "length (snd b) = 8" "length d = 8"
    using Cons.prems by (auto simp: blocks_ok_def)
  have "blocks_ok ((a, d) # bs)" using Cons.prems(1) by (auto simp: blocks_ok_def)
  with Cons have "mem_write (writes bs (mem_write m (fst b) (snd b))) a d
      = writes bs (mem_write (mem_write m (fst b) (snd b)) a d)" by simp
  also have "mem_write (mem_write m (fst b) (snd b)) a d = mem_write (mem_write m a d) (fst b) (snd b)"
    using ap by (intro write_commute) auto
  finally show ?case by simp
qed simp

text \<open>A block that is written again later does not show.\<close>

lemma writes_hidden:
  assumes "blocks_ok ((a, d) # bs)" "a \<in> fst ` set bs"
  shows "writes bs (mem_write m a d) = writes bs m"
proof -
  from assms(2) obtain xs d' ys where bs: "bs = xs @ (a, d') # ys" "a \<notin> fst ` set xs"
    using split_list_first_prop[of bs "\<lambda>b. fst b = a"] by (force simp: image_iff)
  have ok: "blocks_ok ((a, d) # xs)" "length d = length d'"
    using assms(1) bs(1) by (auto simp: blocks_ok_def)
  have "writes bs (mem_write m a d) = writes ys (mem_write (mem_write (writes xs m) a d) a d')"
    using writes_commute[OF ok(1) bs(2)] by (simp add: bs(1) writes_append)
  then show ?thesis using ok(2) by (simp add: bs(1) writes_append write_write)
qed

lemma read_writes_other:
  assumes "blocks_ok ((a, d) # bs)" "a \<notin> fst ` set bs"
  shows "mem_bytes (writes bs m) a 8 = mem_bytes m a 8"
  using assms
proof (induction bs arbitrary: m)
  case (Cons b bs)
  have "apart 8 (fst b) a" "length (snd b) = 8" using Cons.prems by (auto simp: blocks_ok_def)
  moreover have "blocks_ok ((a, d) # bs)" using Cons.prems(1) by (auto simp: blocks_ok_def)
  ultimately show ?case using Cons by (simp add: read_apart)
qed simp

text \<open>What is read at a block is the last write to it.\<close>

lemma read_writes_last:
  assumes "blocks_ok (xs @ (a, d) # ys)" "a \<notin> fst ` set ys"
  shows "mem_bytes (writes (xs @ (a, d) # ys) m) a 8 = d"
proof -
  have "length d = 8" "blocks_ok ((a, d) # ys)" using assms(1) by (auto simp: blocks_ok_def)
  then show ?thesis
    using read_writes_other[OF _ assms(2), of d] read_written[of d] by (simp add: writes_append)
qed

lemma last_block: "a \<in> fst ` set bs \<Longrightarrow> \<exists>xs d ys. bs = xs @ (a, d) # ys \<and> a \<notin> fst ` set ys"
  using split_list_last_prop[of bs "\<lambda>b. fst b = a"] by (force simp: image_iff)

text \<open>Taking a block out of the stack: nothing happens below a later write, else the old bytes come back.\<close>

lemma writes_remove:
  assumes "blocks_ok (xs @ (a, d) # ys)" "a \<notin> fst ` set ys" "b = mem_bytes (writes xs m) a 8"
  shows "mem_write (writes (xs @ (a, d) # ys) m) a b = writes (xs @ ys) m"
proof -
  have ok: "blocks_ok ((a, b) # ys)" "length d = length b"
    using assms(1,3) by (auto simp: blocks_ok_def)
  have "mem_write (writes (xs @ (a, d) # ys) m) a b = writes ys (mem_write (mem_write (writes xs m) a d) a b)"
    using writes_commute[OF ok(1) assms(2)] by (simp add: writes_append)
  then show ?thesis using ok(2) by (simp add: write_write assms(3) write_back writes_append)
qed

section \<open>Reverting takes a patch off the stack\<close>

text \<open>
  The applied patches \<open>ps\<close> are in order over the original memory \<open>m\<close>: the patched functions do
  not overlap, a patch replaces a function once, patches that replace the same function
  are patches of the same object with different jumps, and the saved code is the original
  one.
\<close>

definition jumps_of :: "'w pst \<Rightarrow> ptr \<Rightarrow> func_jump_s list" where
  "jumps_of s p = func_jumps (pi (patch_of s p))"

definition patch_ok :: "'w pst \<Rightarrow> (u64 \<Rightarrow> byte) \<Rightarrow> ptr \<Rightarrow> bool" where
  "patch_ok s m p \<longleftrightarrow> distinct (map func_addr (jumps_of s p))
     \<and> (\<forall>fj \<in> set (jumps_of s p). func_addr fj \<noteq> 0 \<and> code fj = mem_bytes m (func_addr fj) 8)
     \<and> (\<exists>dlm b. patch_dlm (patch_of s p) = Some dlm \<and> dlm_load_base s (dlm_of s dlm) = Some b)"

definition stack_ok :: "'w pst \<Rightarrow> (u64 \<Rightarrow> byte) \<Rightarrow> ptr list \<Rightarrow> bool" where
  "stack_ok s m ps \<longleftrightarrow> distinct ps \<and> blocks_ok (stack_of s ps) \<and> (\<forall>p \<in> set ps. patch_ok s m p)
     \<and> (\<forall>p \<in> set ps. \<forall>q \<in> set ps. p \<noteq> q \<longrightarrow> (\<forall>fj \<in> set (jumps_of s p). \<forall>gj \<in> set (jumps_of s q).
          func_addr fj = func_addr gj \<longrightarrow>
            target_dlm (patch_of s p) = target_dlm (patch_of s q) \<and> func_jump fj \<noteq> func_jump gj))"

lemma find_from_cases:
  "(find_from (compare_fj_addr a) k fjs = Inl (- ENOENT) \<and> a \<notin> func_addr ` set fjs)
   \<or> (\<exists>j < length fjs. find_from (compare_fj_addr a) k fjs = Inr (k + j) \<and> func_addr (fjs ! j) = a)"
proof (induction fjs arbitrary: k)
  case (Cons fj fjs)
  show ?case
  proof (cases "func_addr fj = a")
    case True
    then show ?thesis by (intro disjI2 exI[of _ 0]) (simp add: compare_fj_addr_def Let_def)
  next
    case False
    then have eq: "find_from (compare_fj_addr a) k (fj # fjs) = find_from (compare_fj_addr a) (k + 1) fjs"
      by (simp add: compare_fj_addr_def Let_def)
    from Cons.IH[of "k + 1"] False show ?thesis unfolding eq by (auto intro: exI[of _ "Suc _"])
  qed
qed simp

lemma stack_of_simps [simp]:
  "stack_of s [] = []" "stack_of s (p # ps) = blocks_of s p @ stack_of s ps"
  "stack_of s (ps @ qs) = stack_of s ps @ stack_of s qs"
  by (simp_all add: stack_of_def)

lemma fst_blocks_of: "fst ` set (blocks_of s p) = func_addr ` set (jumps_of s p)"
  by (simp add: blocks_of_def jumps_of_def image_image)

lemma blocks_of_nth: "j < length (jumps_of s p) \<Longrightarrow>
   blocks_of s p = take j (blocks_of s p) @ (func_addr (fj_at s p j), func_jump (fj_at s p j)) # drop (Suc j) (blocks_of s p)"
  by (subst id_take_nth_drop[of j "blocks_of s p"]) (simp_all add: blocks_of_def jumps_of_def fj_at_def)

lemma distinct_later:
  assumes "distinct (map func_addr (jumps_of s p))" "j < length (jumps_of s p)"
  shows "func_addr (fj_at s p j) \<notin> fst ` set (drop (Suc j) (blocks_of s p))"
proof
  assume "func_addr (fj_at s p j) \<in> fst ` set (drop (Suc j) (blocks_of s p))"
  then have "func_addr (fj_at s p j) \<in> set (drop (Suc j) (map func_addr (jumps_of s p)))"
    by (auto simp: blocks_of_def jumps_of_def drop_map image_image)
  moreover have "distinct (map func_addr (jumps_of s p) ! j # drop (Suc j) (map func_addr (jumps_of s p)))"
    using assms by (metis Cons_nth_drop_Suc distinct_drop length_map)
  ultimately show False using assms(2) by (simp add: fj_at_def jumps_of_def)
qed

lemma blocks_ok_mono: "blocks_ok bs \<Longrightarrow> set cs \<subseteq> set bs \<Longrightarrow> blocks_ok cs"
  unfolding blocks_ok_def by blast

text \<open>The walk over the earlier patches finds the write that shows at the address.\<close>

lemma walk_previous_cases:
  assumes "stack_ok s m (qs @ ps)" "p \<in> set ps" "fj \<in> set (jumps_of s p)" "func_addr fj = a"
  shows "(walk_previous s p a (rev qs) = Inl (- ENOENT) \<and> a \<notin> fst ` set (stack_of s qs))
    \<or> (\<exists>q \<in> set qs. \<exists>j < length (jumps_of s q). walk_previous s p a (rev qs) = Inr (q, j) \<and> func_addr (fj_at s q j) = a
          \<and> mem_bytes (writes (stack_of s qs) m) a 8 = func_jump (fj_at s q j))"
  using assms(1,2)
proof (induction qs arbitrary: ps rule: rev_induct)
  case (snoc q qs)
  have ok: "stack_ok s m (qs @ (q # ps))" using snoc.prems by simp
  have all: "blocks_ok (stack_of s ((qs @ [q]) @ ps))" using snoc.prems(1) unfolding stack_ok_def by blast
  have blk: "blocks_ok (stack_of s (qs @ [q]))" by (rule blocks_ok_mono[OF all]) auto
  have dist: "distinct (map func_addr (jumps_of s q))" "p \<noteq> q"
    using snoc.prems by (auto simp: stack_ok_def patch_ok_def)
  note IH = snoc.IH[OF ok]
  show ?case
  proof (cases "a \<in> func_addr ` set (jumps_of s q)")
    case False
    then have "find_function_jump (compare_fj_addr a) (pi (patch_of s q)) = Inl (- ENOENT)"
      using find_from_cases[of a 0 "jumps_of s q"] by (auto simp: find_function_jump_def jumps_of_def)
    then have w: "walk_previous s p a (rev (qs @ [q])) = walk_previous s p a (rev qs)" by simp
    have "(a, func_jump fj) \<in> set (stack_of s ps)"
      using snoc.prems(2) assms(3,4) by (auto simp: stack_of_def blocks_of_def jumps_of_def)
    then have "blocks_ok ((a, func_jump fj) # blocks_of s q)"
      by (intro blocks_ok_mono[OF all]) auto
    then have mem: "mem_bytes (writes (stack_of s (qs @ [q])) m) a 8 = mem_bytes (writes (stack_of s qs) m) a 8"
      using False by (simp add: writes_append read_writes_other fst_blocks_of)
    have "p \<in> set (q # ps)" using snoc.prems(2) by simp
    from IH[OF this] show ?thesis
    proof
      assume "walk_previous s p a (rev qs) = Inl (- ENOENT) \<and> a \<notin> fst ` set (stack_of s qs)"
      with False w show ?thesis by (simp add: image_Un fst_blocks_of)
    next
      assume "\<exists>q\<in>set qs. \<exists>j<length (jumps_of s q). walk_previous s p a (rev qs) = Inr (q, j)
        \<and> func_addr (fj_at s q j) = a \<and> mem_bytes (writes (stack_of s qs) m) a 8 = func_jump (fj_at s q j)"
      then show ?thesis unfolding w mem by (intro disjI2) (metis UnCI set_append)
    qed
  next
    case True
    then obtain j where j: "j < length (jumps_of s q)" "func_addr (fj_at s q j) = a"
      "find_function_jump (compare_fj_addr a) (pi (patch_of s q)) = Inr j"
      using find_from_cases[of a 0 "jumps_of s q"] by (auto simp: find_function_jump_def jumps_of_def fj_at_def)
    then have "fj_at s q j \<in> set (jumps_of s q)" by (simp add: fj_at_def jumps_of_def)
    then have "target_dlm (patch_of s q) = target_dlm (patch_of s p)"
      using snoc.prems assms(3,4) dist(2) j(2) unfolding stack_ok_def by (metis UnCI in_set_conv_decomp set_append)
    with j(3) have w: "walk_previous s p a (rev (qs @ [q])) = Inr (q, j)" by simp
    have split: "stack_of s (qs @ [q]) = (stack_of s qs @ take j (blocks_of s q)) @ (a, func_jump (fj_at s q j))
        # drop (Suc j) (blocks_of s q)"
      using blocks_of_nth[OF j(1)] j(2) by simp
    have "mem_bytes (writes (stack_of s (qs @ [q])) m) a 8 = func_jump (fj_at s q j)"
      using blk distinct_later[OF dist(1) j(1)] j(2) unfolding split by (intro read_writes_last) auto
    with w j show ?thesis by (intro disjI2 bexI[of _ q] exI[of _ j]) auto
  qed
qed simp

text \<open>Reverting one jump takes its block out of the stack.\<close>

lemma do_revert_func_jump_mem:
  assumes ext: "memory_ext x mem" and ok: "stack_ok s m (qs @ p # ps)" and k: "k < length (jumps_of s p)"
    and app: "ctx_applied_patches (ctx s) = qs @ p # ps" and run: "\<not> ctx_dry_run (ctx s)"
  defines "a \<equiv> func_addr (fj_at s p k)"
  shows "\<exists>w. do_revert_func_jump x p k s = Some (0, s\<lparr>world := w\<rparr>)
    \<and> mem w = mem_write (mem (world s)) a (mem_bytes (writes (stack_of s qs) m) a 8)"
proof -
  have fj: "fj_at s p k \<in> set (jumps_of s p)" using k by (simp add: fj_at_def jumps_of_def)
  have "p \<notin> set qs" using ok by (simp add: stack_ok_def)
  then have "takeWhile (\<lambda>q. q \<noteq> p) (qs @ p # ps) = qs" by (induction qs) auto
  then have prev: "find_previous_func_jump s p k = Some (walk_previous s p a (rev qs))"
    by (simp add: find_previous_func_jump_def patches_before_def app a_def)
  have all: "blocks_ok (stack_of s (qs @ p # ps))" and pok: "\<forall>q \<in> set (qs @ p # ps). patch_ok s m q"
    using ok unfolding stack_ok_def by blast+
  from walk_previous_cases[OF ok _ fj meta_eq_to_obj_eq[OF a_def, symmetric]]
  consider (none) "walk_previous s p a (rev qs) = Inl (- ENOENT)" "a \<notin> fst ` set (stack_of s qs)"
    | (some) q j where "q \<in> set qs" "j < length (jumps_of s q)" "walk_previous s p a (rev qs) = Inr (q, j)"
        "func_addr (fj_at s q j) = a" "mem_bytes (writes (stack_of s qs) m) a 8 = func_jump (fj_at s q j)"
    by auto
  then show ?thesis
  proof cases
    case none
    have "(a, func_jump (fj_at s p k)) \<in> set (blocks_of s p)"
      using fj by (auto simp: blocks_of_def jumps_of_def a_def)
    then have "blocks_ok ((a, func_jump (fj_at s p k)) # stack_of s qs)"
      by (intro blocks_ok_mono[OF all]) auto
    moreover have "code (fj_at s p k) = mem_bytes m a 8" using pok fj by (auto simp: patch_ok_def a_def)
    ultimately have c: "mem_bytes (writes (stack_of s qs) m) a 8 = code (fj_at s p k)"
      using none(2) by (simp add: read_writes_other)
    then have "length (code (fj_at s p k)) = 8" by (metis length_mem_bytes)
    with process_write_data_mem[OF ext, of "code (fj_at s p k)" a s] none(1) prev c show ?thesis
      by (auto simp: do_revert_func_jump_def write_func_code_def a_def)
  next
    case some
    have "patch_ok s m q" using pok some(1) by simp
    then obtain dlm b where d: "patch_dlm (patch_of s q) = Some dlm" "dlm_load_base s (dlm_of s dlm) = Some b"
      unfolding patch_ok_def by blast
    have "length (func_jump (fj_at s q j)) = 8" using some(5) by (metis length_mem_bytes)
    with process_write_data_mem[OF ext, of "func_jump (fj_at s q j)" a s] some prev run d show ?thesis
      by (auto simp: do_revert_func_jump_def write_func_jump_def)
  qed
qed

lemma revert_func_jump_mem:
  assumes ext: "memory_ext x mem" and ok: "stack_ok s m (qs @ p # ps)" and k: "k < length (jumps_of s p)"
    and app: "ctx_applied_patches (ctx s) = qs @ p # ps" and run: "\<not> ctx_dry_run (ctx s)"
    and m: "mem (world s) = writes (stack_of s qs @ drop k (blocks_of s p) @ stack_of s ps) m"
  shows "\<exists>w. revert_func_jump x p k s = Some (0, s\<lparr>world := w\<rparr>)
    \<and> mem w = writes (stack_of s qs @ drop (Suc k) (blocks_of s p) @ stack_of s ps) m"
proof -
  define a j ys where "a = func_addr (fj_at s p k)" and "j = func_jump (fj_at s p k)"
    and "ys = drop (Suc k) (blocks_of s p) @ stack_of s ps"
  have fj: "fj_at s p k \<in> set (jumps_of s p)" using k by (simp add: fj_at_def jumps_of_def)
  have all: "blocks_ok (stack_of s (qs @ p # ps))" and pok: "patch_ok s m p"
    using ok unfolding stack_ok_def by (blast, simp)
  have "k < length (blocks_of s p)" using k by (simp add: blocks_of_def jumps_of_def)
  then have "drop k (blocks_of s p) = (a, j) # drop (Suc k) (blocks_of s p)"
    using k by (subst Cons_nth_drop_Suc[symmetric]) (simp_all add: blocks_of_def a_def j_def fj_at_def jumps_of_def)
  with m have m: "mem (world s) = writes (stack_of s qs @ (a, j) # ys) m" by (simp add: ys_def)
  have "(a, j) \<in> set (blocks_of s p)" using fj by (auto simp: blocks_of_def jumps_of_def a_def j_def)
  then have oks: "blocks_ok (stack_of s qs @ (a, j) # ys)"
    by (intro blocks_ok_mono[OF all]) (auto simp: ys_def dest: in_set_dropD)
  have "a \<noteq> 0" using pok fj by (auto simp: patch_ok_def a_def)
  then have applied: "func_jump_applied x p k s = (if mem_bytes (mem (world s)) a 8 = j then 1 else 0, s)"
    by (simp add: func_jump_applied_def process_read_data_mem[OF ext] a_def j_def)
  show ?thesis
  proof (cases "a \<in> fst ` set ys")
    case True
    from last_block[OF this] obtain us d vs where ys: "ys = us @ (a, d) # vs" "a \<notin> fst ` set vs" by blast
    have "a \<notin> fst ` set (drop (Suc k) (blocks_of s p))"
      using distinct_later[OF _ k] pok by (simp add: a_def patch_ok_def)
    moreover have "(a, d) \<in> set ys" by (simp add: ys(1))
    ultimately have "(a, d) \<in> set (stack_of s ps)" unfolding ys_def by force
    then obtain q fj' where q: "q \<in> set ps" "fj' \<in> set (jumps_of s q)" "func_addr fj' = a" "d = func_jump fj'"
      by (auto simp: stack_of_def blocks_of_def jumps_of_def)
    moreover have "p \<noteq> q" using ok q(1) by (auto simp: stack_ok_def)
    ultimately have "d \<noteq> j"
      using ok fj unfolding stack_ok_def a_def j_def by (metis in_set_conv_decomp list.set_intros(2) UnCI set_append)
    moreover have "mem_bytes (mem (world s)) a 8 = d"
      using read_writes_last[of "stack_of s qs @ (a, j) # us" a d vs m] oks ys unfolding m by simp
    moreover have "mem (world s) = writes (stack_of s qs @ ys) m"
      using writes_hidden[OF blocks_ok_mono[OF oks] True, of j] unfolding m by (auto simp: writes_append)
    ultimately show ?thesis using applied by (auto simp: revert_func_jump_def ys_def intro!: exI[of _ "world s"])
  next
    case False
    from read_writes_last[OF oks this] have "func_jump_applied x p k s = (1, s)"
      using applied unfolding m by simp
    moreover from do_revert_func_jump_mem[OF ext ok k app run] obtain w where
      "do_revert_func_jump x p k s = Some (0, s\<lparr>world := w\<rparr>)"
      "mem w = mem_write (mem (world s)) a (mem_bytes (writes (stack_of s qs) m) a 8)" by (auto simp: a_def)
    ultimately show ?thesis
      using writes_remove[OF oks False refl, of m] unfolding m by (auto simp: revert_func_jump_def ys_def)
  qed
qed

lemma world_keeps_jumps [simp]:
  "fj_at (s\<lparr>world := w\<rparr>) = fj_at s" "jumps_of (s\<lparr>world := w\<rparr>) = jumps_of s"
  "blocks_of (s\<lparr>world := w\<rparr>) = blocks_of s" "dlm_load_base (s\<lparr>world := w\<rparr>) = dlm_load_base s"
  by (auto simp: fun_eq_iff fj_at_def jumps_of_def blocks_of_def dlm_load_base_def)

lemma world_keeps_stack [simp]:
  "stack_of (s\<lparr>world := w\<rparr>) = stack_of s" "stack_ok (s\<lparr>world := w\<rparr>) = stack_ok s"
  by (simp_all add: fun_eq_iff stack_of_def stack_ok_def patch_ok_def)

lemma ctx_keeps_jumps [simp]:
  "jumps_of (s\<lparr>process_context := c\<rparr>) = jumps_of s" "blocks_of (s\<lparr>process_context := c\<rparr>) = blocks_of s"
  "dlm_load_base (s\<lparr>process_context := c\<rparr>) = dlm_load_base s"
  by (auto simp: fun_eq_iff jumps_of_def blocks_of_def dlm_load_base_def)

lemma ctx_keeps_stack [simp]:
  "stack_of (s\<lparr>process_context := c\<rparr>) = stack_of s" "stack_ok (s\<lparr>process_context := c\<rparr>) = stack_ok s"
  by (simp_all add: fun_eq_iff stack_of_def stack_ok_def patch_ok_def)

lemma revert_loop_mem:
  assumes ext: "memory_ext x mem" and ok: "stack_ok s m (qs @ p # ps)"
    and app: "ctx_applied_patches (ctx s) = qs @ p # ps" and run: "\<not> ctx_dry_run (ctx s)"
  shows "k \<le> length (jumps_of s p) \<Longrightarrow>
    mem w = writes (stack_of s qs @ drop k (blocks_of s p) @ stack_of s ps) m \<Longrightarrow>
    \<exists>w'. iterate (revert_func_jump x p) [k..<length (jumps_of s p)] (s\<lparr>world := w\<rparr>) = Some (0, s\<lparr>world := w'\<rparr>)
      \<and> mem w' = writes (stack_of s qs @ stack_of s ps) m"
proof (induction "length (jumps_of s p) - k" arbitrary: k w)
  case 0
  then have "k = length (jumps_of s p)" by simp
  with 0 show ?case by (intro exI[of _ w]) (simp add: blocks_of_def jumps_of_def)
next
  case (Suc n)
  then have k: "k < length (jumps_of s p)" by simp
  from revert_func_jump_mem[OF ext, of "s\<lparr>world := w\<rparr>" m qs p ps k] ok k app run Suc.prems(2) obtain w' where
    w': "revert_func_jump x p k (s\<lparr>world := w\<rparr>) = Some (0, s\<lparr>world := w'\<rparr>)"
      "mem w' = writes (stack_of s qs @ drop (Suc k) (blocks_of s p) @ stack_of s ps) m" by auto
  have "[k..<length (jumps_of s p)] = k # [Suc k..<length (jumps_of s p)]" using k by (simp add: upt_rec)
  with Suc.hyps(1)[of "Suc k" w'] Suc.hyps(2) w' k show ?case by simp
qed

lemma patch_revert_stack:
  assumes "memory_ext x mem" and "stack_ok s m (ctx_applied_patches (ctx s))"
    and "ctx_applied_patches (ctx s) = qs @ p # ps" and "\<not> ctx_dry_run (ctx s)"
    and "mem (world s) = writes (stack_of s (ctx_applied_patches (ctx s))) m"
  shows "\<exists>w. patch_revert_func_jumps x p s = Some (0, s\<lparr>world := w\<rparr>)
    \<and> mem w = writes (stack_of s (qs @ ps)) m"
proof -
  have "s\<lparr>world := world s\<rparr> = s" by simp
  with revert_loop_mem[OF assms(1) _ assms(3,4), of m 0 "world s"] assms(2,3,5) show ?thesis
    by (auto simp: patch_revert_func_jumps_def iterate_patch_function_jumps_def jumps_of_def)
qed

text \<open>
  C7: Reverting a patch takes exactly its jumps off the stack of applied patches: when the
  memory of the target is the original memory with the jumps of all applied patches written
  in order, it is afterwards the original memory with the jumps of all the other patches
  written in order. A function the patch shares with an earlier patch jumps to that patch
  again, one it shares with a later patch is left to the later patch, and every other one has
  its original code. No other byte of the target changes.
\<close>

theorem patch_revert_refines_removal:
  assumes "memory_ext x mem" and "stack_ok s m (ctx_applied_patches (ctx s))"
    and "ctx_applied_patches (ctx s) = qs @ p # ps" and "\<not> ctx_dry_run (ctx s)"
    and "mem (world s) = writes (stack_of s (ctx_applied_patches (ctx s))) m"
  shows "\<exists>w. patch_revert_func_jumps x p s = Some (0, s\<lparr>world := w\<rparr>)
    \<and> mem w = writes (stack_of s (qs @ ps)) m"
  by (rule patch_revert_stack[OF assms])

text \<open>A process with two patches of one object: both replace the function at 0x11000, the second also 0x12000.\<close>

definition sim_jump :: "u64 \<Rightarrow> byte \<Rightarrow> func_jump_s" where
  "sim_jump a b = \<lparr>fj_name = ''f'', func_value = a - 0x10000, func_size = 64, patch_value = 0x20, shndx = 1,
     func_addr = a, code = replicate 8 0x90, func_jump = [0xe9, b, 0, 0, 0, 0x90, 0x90, 0x90]\<rparr>"

definition sim_patched :: "simw pst" where
  "sim_patched = sim_state\<lparr>
     patch_of := (\<lambda>p. sim_patch\<lparr>pi := sim_pi\<lparr>func_jumps := if p = 1 then [sim_jump 0x11000 1]
                                    else [sim_jump 0x11000 2, sim_jump 0x12000 2]\<rparr>,
                       target_dlm := Some 0, patch_dlm := Some p\<rparr>),
     dlm_of := (\<lambda>d. sim_dlm\<lparr>exec_vma := Some d\<rparr>),
     vma_of := (\<lambda>v. sim_vma\<lparr>vaddr := 0x10000 * (1 + of_nat v)\<rparr>),
     process_context := sim_ctx\<lparr>ctx_applied_patches := [1, 2]\<rparr>,
     world := sim_world\<lparr>sim_mem := writes [(0x11000, [0xe9, 1, 0, 0, 0, 0x90, 0x90, 0x90]),
        (0x11000, [0xe9, 2, 0, 0, 0, 0x90, 0x90, 0x90]), (0x12000, [0xe9, 2, 0, 0, 0, 0x90, 0x90, 0x90])] (\<lambda>a. 0x90)\<rparr>\<rparr>"

lemma sim_patched_sel:
  "ctx_applied_patches (ctx sim_patched) = [1] @ 2 # []" "\<not> ctx_dry_run (ctx sim_patched)"
  "jumps_of sim_patched p = (if p = 1 then [sim_jump 0x11000 1] else [sim_jump 0x11000 2, sim_jump 0x12000 2])"
  "target_dlm (patch_of sim_patched p) = Some 0" "patch_dlm (patch_of sim_patched p) = Some p"
  "dlm_load_base sim_patched (dlm_of sim_patched d) = Some (0x10000 * (1 + of_nat d))"
  by (simp_all add: sim_patched_def jumps_of_def sim_patch_def sim_pi_def sim_ctx_def dlm_load_base_def
      elf_type_dyn_def sim_ei_def sim_dlm_def sim_vma_def vma_accessors)

lemma sim_patched_mem:
  "sim_mem (world sim_patched) = writes (stack_of sim_patched (ctx_applied_patches (ctx sim_patched))) (\<lambda>a. 0x90)"
  by (simp add: sim_patched_sel(1), simp add: stack_of_def blocks_of_def flip: jumps_of_def,
      simp add: sim_patched_sel sim_jump_def, simp add: sim_patched_def)

lemma sim_patched_ok: "stack_ok sim_patched (\<lambda>a. 0x90) (ctx_applied_patches (ctx sim_patched))"
proof -
  have "mem_bytes (\<lambda>a. 0x90) a 8 = replicate 8 0x90" for a by (simp add: mem_bytes_def map_replicate_const)
  then have "patch_ok sim_patched (\<lambda>a. 0x90) p" for p
    by (simp add: patch_ok_def sim_patched_sel sim_jump_def)
  moreover have "blocks_ok (stack_of sim_patched [1, 2])"
    by (simp add: stack_of_def blocks_of_def flip: jumps_of_def)
      (simp add: sim_patched_sel sim_jump_def blocks_ok_def apart_def)
  ultimately show ?thesis
    by (simp add: stack_ok_def sim_patched_sel(1)) (simp add: sim_patched_sel sim_jump_def)
qed

theorem patch_revert_refines_removal_witness:
  "\<exists>w. patch_revert_func_jumps sim_ext 2 sim_patched = Some (0, sim_patched\<lparr>world := w\<rparr>)
     \<and> sim_mem w = mem_write (\<lambda>a. 0x90) 0x11000 [0xe9, 1, 0, 0, 0, 0x90, 0x90, 0x90]"
proof -
  have "stack_of sim_patched [1] = [(0x11000, [0xe9, 1, 0, 0, 0, 0x90, 0x90, 0x90])]"
    by (simp add: stack_of_def blocks_of_def flip: jumps_of_def) (simp add: sim_patched_sel sim_jump_def)
  with patch_revert_refines_removal[OF sim_memory_ext sim_patched_ok sim_patched_sel(1,2) sim_patched_mem]
  show ?thesis by simp
qed

section \<open>Applied jumps lead to the patch\<close>

lemma upd_fj_sel [simp]:
  "process_context (upd_fj p i f s) = process_context s" "world (upd_fj p i f s) = world s"
  "errno (upd_fj p i f s) = errno s" "vma_of (upd_fj p i f s) = vma_of s" "dlm_of (upd_fj p i f s) = dlm_of s"
  "ei_of (upd_fj p i f s) = ei_of s" "target_dlm (patch_of (upd_fj p i f s) q) = target_dlm (patch_of s q)"
  "patch_dlm (patch_of (upd_fj p i f s) q) = patch_dlm (patch_of s q)"
  "dlm_load_base (upd_fj p i f s) = dlm_load_base s"
  by (auto simp: upd_fj_def dlm_load_base_def fun_eq_iff)

lemma fj_at_upd: "i < length (jumps_of s p) \<Longrightarrow> fj_at (upd_fj p i f s) p j = (if j = i then f (fj_at s p i) else fj_at s p j)"
  by (simp add: fj_at_def upd_fj_def jumps_of_def)

lemma all_jumps: "(\<forall>fj \<in> set (jumps_of s p). P fj) \<longleftrightarrow> (\<forall>j < length (jumps_of s p). P (fj_at s p j))"
  by (simp add: all_set_conv_all_nth fj_at_def jumps_of_def)

lemma jumps_of_upd [simp]: "length (jumps_of (upd_fj p i f s) p) = length (jumps_of s p)"
  by (simp add: upd_fj_def jumps_of_def)

lemma io_frame_sys: "sys_call f s = (r, t) \<Longrightarrow> io_frame s t"
  by (auto simp: io_frame_def dest!: sys_call_keeps)

lemma io_frame_upd: "io_frame s t \<Longrightarrow> io_frame (upd_fj p i f s) (upd_fj p i f t)"
  by (simp add: io_frame_def upd_fj_def upd_patch_def)

lemma upd_fj_id [simp]: "upd_fj p i (\<lambda>fj. fj) s = s"
  by (simp add: upd_fj_def upd_patch_def)

lemma io_frame_keeps:
  "io_frame s t \<Longrightarrow> fj_at t = fj_at s \<and> jumps_of t = jumps_of s \<and> ctx t = ctx s \<and> patch_of t = patch_of s
     \<and> dlm_of t = dlm_of s \<and> vma_of t = vma_of s \<and> dlm_load_base t = dlm_load_base s"
  by (simp add: io_frame_def fun_eq_iff fj_at_def jumps_of_def dlm_load_base_def)

lemma read_func_jump_code_frame:
  assumes "read_func_jump_code x target p i s = Some (e, t)"
  shows "\<exists>c. io_frame (upd_fj p i (\<lambda>fj. fj\<lparr>code := c fj\<rparr>) s) t"
proof -
  define opened where "opened ev = (case vmap_file (vma_of s ev) of None \<Rightarrow> (None, s\<lparr>errno := EFAULT\<rparr>)
      | Some map_file \<Rightarrow> sys_call (x_open x map_file) s)" for ev
  from assms obtain ev where ev: "exec_vma (dlm_of s target) = Some ev"
    by (auto simp: read_func_jump_code_def split: bind_splits)
  obtain fd s1 where o: "opened ev = (fd, s1)" by force
  then have s1: "io_frame s s1" by (auto simp: opened_def split: option.splits dest: io_frame_sys)
  note read = assms[unfolded read_func_jump_code_def ev bind.bind_lunit opened_def[symmetric] o prod.case]
  show ?thesis
  proof (cases fd)
    case None
    with read s1 show ?thesis by (intro exI[of _ code]) auto
  next
    case (Some d)
    obtain q s2 where l: "sys_call (x_lseek x d (func_value (fj_at s1 p i) - of_int (elf_section_virt_base
        (ei_of s1 (dl_ei (dlm_of s1 target))) (ucast (shndx (fj_at s1 p i)))))) s1 = (q, s2)" by force
    obtain r s3 where r: "sys_call (x_read x d 8) s2 = (r, s3)" by force
    have s2: "io_frame s s2" and s3: "io_frame s s3"
      using s1 io_frame_sys[OF l] io_frame_sys[OF r] by (blast intro: io_frame_trans)+
    obtain c s4 where s4: "io_frame (upd_fj p i (\<lambda>fj. fj\<lparr>code := c fj\<rparr>) s) s4"
      and t: "\<exists>u. ext_call (x_close x d) s4 = (u, t)"
    proof (cases "(case q of None \<Rightarrow> - 1 | Some q \<Rightarrow> q) = func_value (fj_at s1 p i) - of_int (elf_section_virt_base
        (ei_of s1 (dl_ei (dlm_of s1 target))) (ucast (shndx (fj_at s1 p i)))) \<and> r \<noteq> None")
      case True
      then obtain bs where "r = Some bs" by blast
      with True read Some l r have "\<exists>u. ext_call (x_close x d)
          (upd_fj p i (\<lambda>fj. fj\<lparr>code := bs @ drop (length bs) (code fj)\<rparr>) s3) = (u, t)"
        by (simp add: Let_def split: prod.splits)
      with io_frame_upd[OF s3] show ?thesis by (rule that)
    next
      case False
      with read Some l r s2 s3 that[of code] show ?thesis
        by (auto simp: Let_def split: prod.splits if_splits option.splits)
    qed
    from t obtain u where "ext_call (x_close x d) s4 = (u, t)" by (rule exE)
    then show ?thesis by (intro exI[of _ c] io_frame_trans[OF s4] io_frame_ext_call)
  qed
qed

text \<open>A jump that is ready: it leads from the function in the target to the one in the patch.\<close>

definition jump_ready :: "u64 \<Rightarrow> u64 \<Rightarrow> func_jump_s \<Rightarrow> bool" where
  "jump_ready target_base patch_base fj \<longleftrightarrow> func_addr fj = target_base + func_value fj
     \<and> length (func_jump fj) = 8 \<and> jmp_target (func_jump fj) (func_addr fj) = Some (patch_base + patch_value fj)"

text \<open>The identity of a jump, which tuning keeps.\<close>

definition same_jump :: "func_jump_s \<Rightarrow> func_jump_s \<Rightarrow> bool" where
  "same_jump fj gj \<longleftrightarrow> fj_name gj = fj_name fj \<and> func_value gj = func_value fj \<and> func_size gj = func_size fj
     \<and> patch_value gj = patch_value fj \<and> shndx gj = shndx fj"

lemma upd_fj_upd_fj: "upd_fj p i g (upd_fj p i f s) = upd_fj p i (\<lambda>fj. g (f fj)) s"
proof -
  have "(xs[i := f (xs ! i)])[i := g (xs[i := f (xs ! i)] ! i)] = xs[i := g (f (xs ! i))]" for xs
    by (cases "i < length xs") (simp_all add: not_less list_update_beyond)
  then show ?thesis by (simp add: upd_fj_def upd_patch_def)
qed

lemma jmpq_8:
  assumes "length buf = 8" "x86_jmpq_instruction buf cur tgt = Some (r, j)"
  shows "length j = 8 \<and> (0 \<le> r \<longrightarrow> jmp_target j cur = Some tgt)"
proof -
  have "5 \<le> length buf" using assms(1) by simp
  with x86_jmpq_instruction_eq[OF this, of cur tgt] assms show ?thesis
    by (auto simp: jmp_target_def rel32_target_encoded simp del: le_bytes.simps split: if_splits)
qed

lemma tune_patch_func_jump_spec:
  assumes "tune_patch_func_jump x p i s = Some (e, t)" "i < length (jumps_of s p)"
    and "target_dlm (patch_of s p) = Some td" "dlm_load_base s (dlm_of s td) = Some tb"
    and "patch_dlm (patch_of s p) = Some pd" "dlm_load_base s (dlm_of s pd) = Some pb"
    and "length (func_jump (fj_at s p i)) = 8"
  shows "\<exists>f. io_frame (upd_fj p i f s) t \<and> same_jump (fj_at s p i) (f (fj_at s p i))
    \<and> (e = 0 \<longrightarrow> jump_ready tb pb (f (fj_at s p i)))"
proof -
  let ?s1 = "upd_fj p i (\<lambda>fj. fj\<lparr>func_addr := tb + func_value fj\<rparr>) s"
  from assms obtain r j where j: "x86_jmpq_instruction (func_jump (fj_at s p i)) (tb + func_value (fj_at s p i))
        (pb + patch_value (fj_at s p i)) = Some (r, j)"
    and e: "(if r < 0 then Some (r, upd_fj p i (\<lambda>fj. fj\<lparr>func_jump := j\<rparr>) ?s1)
       else read_func_jump_code x td p i (upd_fj p i (\<lambda>fj. fj\<lparr>func_jump := j\<rparr>) ?s1)) = Some (e, t)"
    by (auto simp: tune_patch_func_jump_def fj_at_upd Let_def split: bind_splits)
  note j8 = jmpq_8[OF assms(7) j]
  show ?thesis
  proof (cases "r < 0")
    case True
    with e show ?thesis
      by (intro exI[of _ "\<lambda>fj. fj\<lparr>func_addr := tb + func_value fj, func_jump := j\<rparr>"])
        (auto simp: upd_fj_upd_fj same_jump_def)
  next
    case False
    with e read_func_jump_code_frame obtain c where
      "io_frame (upd_fj p i (\<lambda>fj. fj\<lparr>code := c fj\<rparr>) (upd_fj p i (\<lambda>fj. fj\<lparr>func_jump := j\<rparr>) ?s1)) t" by fastforce
    with False j8 show ?thesis
      by (intro exI[of _ "\<lambda>fj. fj\<lparr>func_addr := tb + func_value fj, func_jump := j,
            code := c (fj\<lparr>func_addr := tb + func_value fj, func_jump := j\<rparr>)\<rparr>"])
        (auto simp: upd_fj_upd_fj same_jump_def jump_ready_def)
  qed
qed

lemma tune_loop:
  assumes "iterate (tune_patch_func_jump x p) [k..<n] s = Some (0, t)" "n = length (jumps_of s p)"
    and "target_dlm (patch_of s p) = Some td" "dlm_load_base s (dlm_of s td) = Some tb"
    and "patch_dlm (patch_of s p) = Some pd" "dlm_load_base s (dlm_of s pd) = Some pb"
    and "\<forall>fj \<in> set (jumps_of s p). length (func_jump fj) = 8"
  shows "length (jumps_of t p) = n \<and> ctx t = ctx s \<and> patch_dlm (patch_of t p) = Some pd
    \<and> dlm_of t = dlm_of s \<and> dlm_load_base t = dlm_load_base s
    \<and> (\<forall>j < n. (j < k \<longrightarrow> fj_at t p j = fj_at s p j)
         \<and> (k \<le> j \<longrightarrow> same_jump (fj_at s p j) (fj_at t p j) \<and> jump_ready tb pb (fj_at t p j)))"
  using assms
proof (induction "n - k" arbitrary: k s)
  case 0
  then show ?case by simp
next
  case (Suc m)
  then have k: "k < length (jumps_of s p)" "[k..<n] = k # [Suc k..<n]" by (simp_all add: upt_rec)
  with Suc.prems(1) obtain e u where u: "tune_patch_func_jump x p k s = Some (e, u)" "e = 0"
    "iterate (tune_patch_func_jump x p) [Suc k..<n] u = Some (0, t)"
    by (auto split: bind_splits if_splits)
  have "length (func_jump (fj_at s p k)) = 8" using Suc.prems(7) k by (simp add: fj_at_def jumps_of_def)
  from tune_patch_func_jump_spec[OF u(1) k(1) Suc.prems(3-6) this] u(2) obtain f where
    f: "io_frame (upd_fj p k f s) u" "same_jump (fj_at s p k) (f (fj_at s p k))" "jump_ready tb pb (f (fj_at s p k))"
    by blast
  note uk = io_frame_keeps[OF f(1)]
  then have at: "fj_at u p j = (if j = k then f (fj_at s p k) else fj_at s p j)" for j
    using k by (simp add: fj_at_upd)
  have "\<forall>fj \<in> set (jumps_of u p). length (func_jump fj) = 8"
    using Suc.prems(7) f(3) uk unfolding all_jumps by (simp add: fj_at_upd[OF k(1)] jump_ready_def)
  with Suc.hyps(1)[OF _ u(3)] Suc.hyps(2) Suc.prems uk
  have IH: "length (jumps_of t p) = n \<and> ctx t = ctx u \<and> patch_dlm (patch_of t p) = Some pd
    \<and> dlm_of t = dlm_of u \<and> dlm_load_base t = dlm_load_base u
    \<and> (\<forall>j < n. (j < Suc k \<longrightarrow> fj_at t p j = fj_at u p j)
         \<and> (Suc k \<le> j \<longrightarrow> same_jump (fj_at u p j) (fj_at t p j) \<and> jump_ready tb pb (fj_at t p j)))"
    by simp
  then have "same_jump (fj_at s p j) (fj_at t p j) \<and> jump_ready tb pb (fj_at t p j)" if "k \<le> j" "j < n" for j
    using that at f(2,3) by (cases "j = k") (auto simp: not_less_eq_eq)
  with IH at uk show ?case by (auto simp: less_Suc_eq)
qed

text \<open>Writing the jumps of a patch.\<close>

lemma apply_loop_mem:
  assumes ext: "memory_ext x mem" and run: "\<not> ctx_dry_run (ctx s)"
    and "patch_dlm (patch_of s p) = Some pd" "dlm_load_base s (dlm_of s pd) = Some pb"
    and len: "\<forall>fj \<in> set (jumps_of s p). length (func_jump fj) = 8"
  shows "k \<le> length (jumps_of s p) \<Longrightarrow>
    \<exists>w'. iterate (write_func_jump x p) [k..<length (jumps_of s p)] (s\<lparr>world := w\<rparr>) = Some (0, s\<lparr>world := w'\<rparr>)
      \<and> mem w' = writes (drop k (blocks_of s p)) (mem w)"
proof (induction "length (jumps_of s p) - k" arbitrary: k w)
  case 0
  then have "k = length (jumps_of s p)" by simp
  then show ?case by (intro exI[of _ w]) (simp add: blocks_of_def jumps_of_def)
next
  case (Suc n)
  then have k: "k < length (jumps_of s p)" "[k..<length (jumps_of s p)] = k # [Suc k..<length (jumps_of s p)]"
    by (simp_all add: upt_rec)
  have l: "length (func_jump (fj_at s p k)) < 2 ^ 64" using len k(1) by (simp add: fj_at_def jumps_of_def)
  have "drop k (blocks_of s p) = (func_addr (fj_at s p k), func_jump (fj_at s p k)) # drop (Suc k) (blocks_of s p)"
    using k(1) by (subst Cons_nth_drop_Suc[symmetric]) (simp_all add: blocks_of_def fj_at_def jumps_of_def)
  moreover from process_write_data_mem[OF ext l, of "func_addr (fj_at s p k)" "s\<lparr>world := w\<rparr>"] obtain w1 where
    "write_func_jump x p k (s\<lparr>world := w\<rparr>) = Some (0, s\<lparr>world := w1\<rparr>)"
    "mem w1 = mem_write (mem w) (func_addr (fj_at s p k)) (func_jump (fj_at s p k))"
    using assms by (auto simp: write_func_jump_def)
  ultimately show ?case using Suc.hyps(1)[of "Suc k" w1] Suc.hyps(2) k by simp
qed

lemma read_jump:
  assumes "blocks_ok (blocks_of s p)" "distinct (map func_addr (jumps_of s p))" "j < length (jumps_of s p)"
  shows "mem_bytes (writes (blocks_of s p) m) (func_addr (fj_at s p j)) 8 = func_jump (fj_at s p j)"
  using read_writes_last[of "take j (blocks_of s p)" "func_addr (fj_at s p j)" "func_jump (fj_at s p j)"
      "drop (Suc j) (blocks_of s p)" m] assms distinct_later[OF assms(2,3)]
  by (simp flip: blocks_of_nth)

text \<open>
  Applying the jumps of a patch and reverting them again leaves the memory of the target
  as it was before, whatever patches are applied below it.
\<close>

lemma apply_revert_roundtrip:
  assumes "memory_ext x mem" and "ctx_patch (ctx s) = Some p" and "\<not> ctx_dry_run (ctx s)"
    and "ctx_applied_patches (ctx s) = qs @ [p]" and "stack_ok s m (qs @ [p])"
    and "mem (world s) = writes (stack_of s qs) m"
  shows "\<exists>w w'. apply_func_jumps x s = Some (0, s\<lparr>world := w\<rparr>)
    \<and> revert_func_jumps x (s\<lparr>world := w\<rparr>) = Some (0, s\<lparr>world := w'\<rparr>) \<and> mem w' = mem (world s)"
proof -
  from assms(5) have pok: "patch_ok s m p" and blk: "blocks_ok (stack_of s (qs @ [p]))"
    unfolding stack_ok_def by (simp, blast)
  obtain pd pb where d: "patch_dlm (patch_of s p) = Some pd" "dlm_load_base s (dlm_of s pd) = Some pb"
    using pok unfolding patch_ok_def by blast
  have len: "\<forall>fj \<in> set (jumps_of s p). length (func_jump fj) = 8"
  proof
    fix fj assume "fj \<in> set (jumps_of s p)"
    then have "(func_addr fj, func_jump fj) \<in> set (stack_of s (qs @ [p]))" by (auto simp: blocks_of_def jumps_of_def)
    with blk show "length (func_jump fj) = 8" unfolding blocks_ok_def by (metis snd_conv)
  qed
  obtain w where w: "iterate (write_func_jump x p) [0..<length (jumps_of s p)] s = Some (0, s\<lparr>world := w\<rparr>)"
    "mem w = writes (blocks_of s p) (mem (world s))"
    using apply_loop_mem[OF assms(1,3) d len, of 0 "world s"] by auto
  have "mem w = writes (stack_of s qs @ drop 0 (blocks_of s p) @ stack_of s []) m"
    using w(2) assms(6) by (simp add: writes_append)
  from revert_loop_mem[OF assms(1,5,4,3) _ this] obtain w' where
    w': "iterate (revert_func_jump x p) [0..<length (jumps_of s p)] (s\<lparr>world := w\<rparr>) = Some (0, s\<lparr>world := w'\<rparr>)"
      "mem w' = writes (stack_of s qs @ stack_of s []) m" by blast
  have "apply_func_jumps x s = Some (0, s\<lparr>world := w\<rparr>)"
    using w(1) assms(2) by (simp add: apply_func_jumps_def iterate_patch_function_jumps_def jumps_of_def)
  moreover have "revert_func_jumps x (s\<lparr>world := w\<rparr>) = Some (0, s\<lparr>world := w'\<rparr>)"
    using w'(1) assms(2)
    by (simp add: revert_func_jumps_def patch_revert_func_jumps_def iterate_patch_function_jumps_def jumps_of_def)
  ultimately show ?thesis using w'(2) assms(6) by auto
qed

lemma apply_revert_roundtrip_witness:
  "\<exists>s w w'. apply_func_jumps sim_ext s = Some (0, s\<lparr>world := w\<rparr>)
     \<and> revert_func_jumps sim_ext (s\<lparr>world := w\<rparr>) = Some (0, s\<lparr>world := w'\<rparr>)
     \<and> sim_mem w' = mem_write (\<lambda>a. 0x90) 0x11000 [0xe9, 1, 0, 0, 0, 0x90, 0x90, 0x90]"
proof -
  let ?j = "[0xe9, 1, 0, 0, 0, 0x90, 0x90, 0x90] :: byte list"
  let ?s = "sim_patched\<lparr>process_context := (process_context sim_patched)\<lparr>ctx_patch := Some 2\<rparr>,
    world := sim_world\<lparr>sim_mem := mem_write (\<lambda>a. 0x90) 0x11000 ?j\<rparr>\<rparr>"
  have ok: "stack_ok ?s (\<lambda>a. 0x90) ([1] @ [2])"
    using sim_patched_ok by (simp add: sim_patched_sel(1))
  have "blocks_of sim_patched (Suc 0) = [(0x11000, ?j)]"
    by (simp add: blocks_of_def flip: jumps_of_def) (simp add: sim_patched_sel sim_jump_def)
  then have "sim_mem (world ?s) = writes (stack_of ?s [1]) (\<lambda>a. 0x90)" by simp
  then have "\<exists>w w'. apply_func_jumps sim_ext ?s = Some (0, ?s\<lparr>world := w\<rparr>)
    \<and> revert_func_jumps sim_ext (?s\<lparr>world := w\<rparr>) = Some (0, ?s\<lparr>world := w'\<rparr>) \<and> sim_mem w' = sim_mem (world ?s)"
    by (intro apply_revert_roundtrip[OF sim_memory_ext _ _ _ ok]) (simp_all add: sim_patched_sel[simplified])
  then show ?thesis by (intro exI[of _ ?s]) simp
qed

text \<open>
  C8: A patch that is tuned without an error and applied redirects every function it
  replaces: the eight bytes the target then has at the address of the old function (the load
  base of the target object plus the value of the function) decode as a jump to the new
  function (the load base of the patch plus its value there). The functions must not overlap
  in their first eight bytes, and the run must not be a dry one.
\<close>

theorem applied_jumps_redirect:
  assumes "memory_ext x mem" and "ctx_patch (ctx s) = Some p" and "\<not> ctx_dry_run (ctx s)"
    and "target_dlm (patch_of s p) = Some td" and "dlm_load_base s (dlm_of s td) = Some tb"
    and "patch_dlm (patch_of s p) = Some pd" and "dlm_load_base s (dlm_of s pd) = Some pb"
    and "\<forall>fj \<in> set (jumps_of s p). length (func_jump fj) = 8"
    and "\<forall>fj \<in> set (jumps_of s p). \<forall>gj \<in> set (jumps_of s p).
           func_value fj = func_value gj \<or> apart 8 (tb + func_value fj) (tb + func_value gj)"
    and "distinct (map func_value (jumps_of s p))"
    and "iterate_patch_function_jumps p (tune_patch_func_jump x) s = Some (0, t)"
  shows "\<exists>w. apply_func_jumps x t = Some (0, t\<lparr>world := w\<rparr>)
    \<and> (\<forall>fj \<in> set (jumps_of s p). jmp_target (mem_bytes (mem w) (tb + func_value fj) 8) (tb + func_value fj)
          = Some (pb + patch_value fj))"
proof -
  let ?n = "length (jumps_of s p)"
  from tune_loop[OF _ refl assms(4-8), of x 0 t] assms(11)
  have t: "length (jumps_of t p) = ?n" "ctx t = ctx s" "patch_dlm (patch_of t p) = Some pd"
    "dlm_load_base t (dlm_of t pd) = Some pb"
    and each: "\<And>j. j < ?n \<Longrightarrow> same_jump (fj_at s p j) (fj_at t p j) \<and> jump_ready tb pb (fj_at t p j)"
    using assms(7) by (auto simp: iterate_patch_function_jumps_def jumps_of_def)
  have addr: "map func_addr (jumps_of t p) = map (\<lambda>fj. tb + func_value fj) (jumps_of s p)"
    using each t(1) by (intro nth_equalityI) (auto simp: jump_ready_def same_jump_def fj_at_def jumps_of_def)
  have len: "\<forall>fj \<in> set (jumps_of t p). length (func_jump fj) = 8"
    using each t(1) unfolding all_jumps by (simp add: jump_ready_def)
  have dist: "distinct (map func_addr (jumps_of t p))"
    using assms(10) unfolding addr by (simp add: distinct_map inj_on_def)
  have "fst ` set (blocks_of t p) = (\<lambda>fj. tb + func_value fj) ` set (jumps_of s p)"
    using arg_cong[OF addr, of set] by (simp add: fst_blocks_of)
  then have ok: "blocks_ok (blocks_of t p)"
    using assms(9) len unfolding blocks_ok_def
    by (auto simp: blocks_of_def jumps_of_def image_iff set_eq_iff) (metis (no_types, lifting))
  from apply_loop_mem[OF assms(1) _ t(3,4) len, of 0 "world t"] assms(3) t(2) obtain w where
    w: "iterate (write_func_jump x p) [0..<length (jumps_of t p)] t = Some (0, t\<lparr>world := w\<rparr>)"
      "mem w = writes (blocks_of t p) (mem (world t))" by auto
  then have "apply_func_jumps x t = Some (0, t\<lparr>world := w\<rparr>)"
    using assms(2) t(2) by (simp add: apply_func_jumps_def iterate_patch_function_jumps_def jumps_of_def)
  moreover have "jmp_target (mem_bytes (mem w) (tb + func_value (fj_at s p j)) 8) (tb + func_value (fj_at s p j))
      = Some (pb + patch_value (fj_at s p j))" if "j < ?n" for j
    using each[OF that] read_jump[OF ok dist, of j "mem (world t)"] that t(1)
    unfolding w(2) jump_ready_def same_jump_def by metis
  ultimately show ?thesis unfolding all_jumps by blast
qed

text \<open>A patch that replaces two functions, before it is applied.\<close>

definition sim_fresh :: "simw pst" where
  "sim_fresh = sim_state\<lparr>
     patch_of := (\<lambda>p. sim_patch\<lparr>pi := sim_pi\<lparr>func_jumps := [(sim_jump 0x11000 0)\<lparr>func_addr := 0\<rparr>, (sim_jump 0x12000 0)\<lparr>func_addr := 0\<rparr>]\<rparr>,
                       target_dlm := Some 0, patch_dlm := Some 1\<rparr>),
     dlm_of := (\<lambda>d. sim_dlm\<lparr>exec_vma := Some d\<rparr>),
     vma_of := (\<lambda>v. sim_vma\<lparr>vaddr := 0x10000 * (1 + of_nat v), vmap_file := Some ''/bin/target''\<rparr>),
     ei_of := (\<lambda>e. sim_ei\<lparr>ei_elf := sim_elf\<lparr>elf_getscn := (\<lambda>i. True), gelf_getshdr := (\<lambda>i. Some \<lparr>sh_name = 0,
        sh_addr = 0x1000, sh_offset = 0x1000, sh_size = 0x4000, sh_entsize = 0\<rparr>)\<rparr>\<rparr>),
     process_context := sim_ctx\<lparr>ctx_patch := Some 3\<rparr>,
     world := sim_world\<lparr>sim_files := (\<lambda>f. Some sim_elf), sim_data := replicate 8 0x90\<rparr>\<rparr>"

theorem applied_jumps_redirect_witness:
  "\<exists>t w. iterate_patch_function_jumps 3 (tune_patch_func_jump sim_ext) sim_fresh = Some (0, t)
     \<and> apply_func_jumps sim_ext t = Some (0, t\<lparr>world := w\<rparr>)
     \<and> jmp_target (mem_bytes (sim_mem w) 0x11000 8) 0x11000 = Some 0x20020"
proof -
  have "\<exists>t. iterate_patch_function_jumps 3 (tune_patch_func_jump sim_ext) sim_fresh = Some (0, t)"
    by (simp add: iterate_patch_function_jumps_def sim_fresh_def tune_patch_func_jump_def read_func_jump_code_def
        sim_patch_def sim_pi_def sim_jump_def fj_at_def upd_fj_def dlm_load_base_def elf_type_dyn_def sim_ei_def sim_elf_def sim_dlm_def
        sim_vma_def vma_accessors sys_call_def ext_call_def sim_ext_def x86_jmpq_instruction_eq byte_eval Let_def)
  then obtain t where t: "iterate_patch_function_jumps 3 (tune_patch_func_jump sim_ext) sim_fresh = Some (0, t)" by blast
  have js: "jumps_of sim_fresh 3 = [(sim_jump 0x11000 0)\<lparr>func_addr := 0\<rparr>, (sim_jump 0x12000 0)\<lparr>func_addr := 0\<rparr>]"
    by (simp add: sim_fresh_def jumps_of_def)
  have "\<exists>w. apply_func_jumps sim_ext t = Some (0, t\<lparr>world := w\<rparr>)
    \<and> (\<forall>fj \<in> set (jumps_of sim_fresh 3). jmp_target (mem_bytes (sim_mem w) (0x10000 + func_value fj) 8) (0x10000 + func_value fj)
          = Some (0x20000 + patch_value fj))"
    by (rule applied_jumps_redirect[OF sim_memory_ext _ _ _ _ _ _ _ _ _ t, where td = 0 and pd = 1])
      (simp_all add: js sim_jump_def apart_def, simp_all add: sim_fresh_def dlm_load_base_def elf_type_dyn_def
        sim_ei_def sim_dlm_def sim_vma_def vma_accessors sim_ctx_def sim_patch_def)
  with t show ?thesis by (auto simp: js sim_jump_def)
qed

text \<open>
  An error while the jumps are tuned is dropped: a jump that cannot be encoded is written to
  the target all the same, as an opcode with a displacement of NOP bytes.
\<close>

lemma unencodable_jump_is_written:
  assumes "memory_ext x mem" "ctx_patch (ctx s) = Some p" "\<not> ctx_dry_run (ctx s)"
    and "target_dlm (patch_of s p) = Some td" "dlm_load_base s (dlm_of s td) = Some tb"
    and "patch_dlm (patch_of s p) = Some pd" "dlm_load_base s (dlm_of s pd) = Some pb"
    and "jumps_of s p = [fj]" "length (func_jump fj) = 8"
    and "2 ^ 31 \<le> \<bar>sint (pb + patch_value fj - (tb + func_value fj + 5))\<bar>"
  shows "\<exists>t w. tune_func_jumps x s = Some (0, t) \<and> apply_func_jumps x t = Some (0, t\<lparr>world := w\<rparr>)
    \<and> mem_bytes (mem w) (tb + func_value fj) 8 = 0xe9 # replicate 7 0x90"
proof -
  let ?f = "\<lambda>fj. fj\<lparr>func_addr := tb + func_value fj, func_jump := 0xe9 # replicate 7 0x90\<rparr>"
  let ?t = "upd_fj p 0 ?f s"
  have at: "fj_at s p 0 = fj" "length (jumps_of s p) = 1" using assms(8) by (simp_all add: fj_at_def jumps_of_def)
  have "x86_jmpq_instruction (func_jump fj) (tb + func_value fj) (pb + patch_value fj) = Some (-1, 0xe9 # replicate 7 0x90)"
    using assms(9,10) by (simp add: x86_jmpq_instruction_eq)
  then have "tune_patch_func_jump x p 0 s = Some (-1, ?t)"
    using assms at by (simp add: tune_patch_func_jump_def fj_at_upd upd_fj_upd_fj)
  moreover have up: "length (func_jumps (pi (patch_of s p))) = 1" "length (func_jumps (pi (patch_of ?t p))) = 1"
    using at(2) by (simp_all add: upd_fj_def flip: jumps_of_def)
  ultimately have tune: "tune_func_jumps x s = Some (0, ?t)"
    using assms by (simp add: tune_func_jumps_def tune_patch_func_jumps_def iterate_patch_function_jumps_def
        print_patch_func_jump_def)
  have at': "fj_at ?t p 0 = ?f fj" using at by (simp add: fj_at_upd)
  obtain w where w: "process_write_data x (tb + func_value fj) (0xe9 # replicate 7 0x90) ?t = (0, ?t\<lparr>world := w\<rparr>)"
    "mem w = mem_write (mem (world s)) (tb + func_value fj) (0xe9 # replicate 7 0x90)"
    using process_write_data_mem[OF assms(1), of "0xe9 # replicate 7 0x90" "tb + func_value fj" ?t] by auto
  have "apply_func_jumps x ?t = Some (0, ?t\<lparr>world := w\<rparr>)"
    using assms up w(1) at' by (simp add: apply_func_jumps_def iterate_patch_function_jumps_def write_func_jump_def)
  moreover have "mem_bytes (mem w) (tb + func_value fj) 8 = 0xe9 # replicate 7 0x90"
    using read_written[of "0xe9 # replicate 7 0x90" "mem (world s)" "tb + func_value fj"] w(2) by simp
  ultimately show ?thesis using tune by blast
qed

section \<open>Static references reach the variable\<close>

lemma drop_bit_high: "drop_bit (Suc k) (w :: u64) = 0 \<longleftrightarrow> (\<forall>i. k < i \<and> i < 64 \<longrightarrow> \<not> bit w i)"
proof
  assume z: "drop_bit (Suc k) w = 0"
  show "\<forall>i. k < i \<and> i < 64 \<longrightarrow> \<not> bit w i"
  proof (intro allI impI)
    fix i assume "k < i \<and> i < 64"
    then have "bit w i = bit (drop_bit (Suc k) w) (i - Suc k)" by (simp add: bit_drop_bit_eq)
    with z show "\<not> bit w i" by simp
  qed
next
  assume z: "\<forall>i. k < i \<and> i < 64 \<longrightarrow> \<not> bit w i"
  have "\<not> bit w (Suc k + n)" for n
    using z[THEN spec, of "Suc k + n"] bit_imp_le_length[of w "Suc k + n"] by auto
  then show "drop_bit (Suc k) w = 0" by (intro bit_eqI) (simp add: bit_drop_bit_eq)
qed

lemma reloc_overflows_iff:
  assumes "0 < n" "n < 8"
  shows "reloc_overflows r n \<longleftrightarrow> \<not> (- (2 ^ (8 * n - 1)) \<le> sint r \<and> sint r < 2 ^ (8 * n - 1))"
proof -
  define k where "k = 8 * n - 1"
  have k: "8 * n = Suc k" "k < 63" using assms by (auto simp: k_def)
  have bit_sint: "bit (sint r) n = bit r (min n 63)" for n by (simp add: bit_simps min.commute)
  have sign: "drop_bit k r AND 1 \<noteq> 0 \<longleftrightarrow> bit r k"
    using k by (simp add: and_one_eq bit_iff_odd_drop_bit odd_iff_mod_2_eq_one)
  have "\<not> reloc_overflows r n \<longleftrightarrow> (\<forall>i. k < i \<and> i < 64 \<longrightarrow> bit r i = bit r k)"
    unfolding reloc_overflows_def Let_def k(1) diff_Suc_1 sign not_not drop_bit_high
    by (cases "bit r k") (auto simp: bit_not_iff)
  also have "\<dots> \<longleftrightarrow> (\<forall>n \<ge> k. bit r k = bit r (min n 63))"
  proof (rule iffI)
    assume all: "\<forall>i. k < i \<and> i < 64 \<longrightarrow> bit r i = bit r k"
    have "bit r k = bit r (min m 63)" if "k \<le> m" for m
    proof -
      have "k = min m 63 \<or> k < min m 63 \<and> min m 63 < 64" using k(2) that by auto
      with all show ?thesis by metis
    qed
    then show "\<forall>n \<ge> k. bit r k = bit r (min n 63)" by blast
  next
    assume all: "\<forall>n \<ge> k. bit r k = bit r (min n 63)"
    have "bit r i = bit r k" if "k < i \<and> i < 64" for i
      using all[THEN spec, of i] that by (simp add: min_def split: if_splits)
    then show "\<forall>i. k < i \<and> i < 64 \<longrightarrow> bit r i = bit r k" by blast
  qed
  also have "\<dots> \<longleftrightarrow> (\<forall>n. bit r (if k \<le> n then k else min n 63) = bit r (min n 63))" by auto
  also have "\<dots> \<longleftrightarrow> (\<forall>n. bit r (min (min n k) 63) = bit r (min n 63))"
    using k(2) by (intro arg_cong[of _ _ All] ext) auto
  also have "\<dots> \<longleftrightarrow> signed_take_bit k (sint r) = sint r"
    by (simp add: bit_eq_iff bit_signed_take_bit_iff bit_sint min.commute[of k])
  also have "\<dots> \<longleftrightarrow> - (2 ^ k) \<le> sint r \<and> sint r < 2 ^ k"
    by (rule signed_take_bit_int_eq_self_iff)
  finally show ?thesis unfolding k_def by blast
qed

text \<open>Writing back the bytes behind a short reference changes nothing there.\<close>

lemma mem_write_prefix:
  assumes "length bs \<le> n" "n < 2 ^ 64"
  shows "mem_write m a (bs @ drop (length bs) (mem_bytes m a n)) = mem_write m a bs"
proof
  fix c
  show "mem_write m a (bs @ drop (length bs) (mem_bytes m a n)) c = mem_write m a bs c"
    using assms by (auto simp: mem_write_def nth_append)
qed

lemma apply_static_ref_cases:
  assumes "memory_ext x mem" and "ctx_patch (ctx s) = Some p"
    and "target_dlm (patch_of s p) = Some td" and "dlm_load_base s (dlm_of s td) = Some tb"
    and "patch_dlm (patch_of s p) = Some pd" and "dlm_load_base s (dlm_of s pd) = Some pb"
    and "patch_size ss \<in> {4, 8}"
  defines "reloc \<equiv> target_value ss + tb - pb"
  shows "if patch_size ss = 4 \<and> \<not> (- (2 ^ 31) \<le> sint reloc \<and> sint reloc < 2 ^ 31)
    then apply_static_ref x ss s = Some (- EINVAL, s)
    else \<exists>w. apply_static_ref x ss s = Some (0, s\<lparr>world := w\<rparr>)
      \<and> mem w = mem_write (mem (world s)) (pb + patch_address ss) (le_bytes (unat (patch_size ss)) reloc)"
proof -
  let ?a = "pb + patch_address ss"
  have call: "apply_static_ref x ss s = (if patch_size ss < 8 \<and> reloc_overflows reloc (unat (patch_size ss))
      then Some (- EINVAL, s) else write_static_ref x ?a reloc (unat (patch_size ss)) s)"
    using assms by (auto simp: apply_static_ref_def)
  show ?thesis
  proof (cases "patch_size ss = 4")
    case True
    have "mem_write (mem (world s)) ?a (le_bytes 4 reloc @ drop 4 (mem_bytes (mem (world s)) ?a 8))
        = mem_write (mem (world s)) ?a (le_bytes 4 reloc)"
      using mem_write_prefix[of "le_bytes 4 reloc" 8] by simp
    with process_write_data_mem[OF assms(1), of "le_bytes 4 reloc @ drop 4 (mem_bytes (mem (world s)) ?a 8)" ?a s]
      True call reloc_overflows_iff[of 4 reloc]
    show ?thesis by (auto simp: write_static_ref_def process_read_data_mem[OF assms(1)] Let_def)
  next
    case False
    with process_write_data_mem[OF assms(1), of "le_bytes 8 reloc" ?a s] assms(7) call
    show ?thesis by (auto simp: write_static_ref_def Let_def)
  qed
qed

text \<open>
  C11: Fixing a reference of four or eight bytes to a static variable writes
  \<open>target_value + target base - patch base\<close> (modulo 2^64) into exactly that many bytes at the
  address of the reference and changes nothing else, when the value fits into the signed width
  of the reference; when it does not fit, the call fails with \<open>-EINVAL\<close> and writes nothing.
\<close>

theorem apply_static_ref_correct:
  assumes "memory_ext x mem" and "ctx_patch (ctx s) = Some p"
    and "target_dlm (patch_of s p) = Some td" and "dlm_load_base s (dlm_of s td) = Some tb"
    and "patch_dlm (patch_of s p) = Some pd" and "dlm_load_base s (dlm_of s pd) = Some pb"
    and "patch_size ss \<in> {4, 8}"
  defines "reloc \<equiv> target_value ss + tb - pb"
  shows "if patch_size ss = 4 \<and> \<not> (- (2 ^ 31) \<le> sint reloc \<and> sint reloc < 2 ^ 31)
    then apply_static_ref x ss s = Some (- EINVAL, s)
    else \<exists>w. apply_static_ref x ss s = Some (0, s\<lparr>world := w\<rparr>)
      \<and> mem w = mem_write (mem (world s)) (pb + patch_address ss) (le_bytes (unat (patch_size ss)) reloc)"
  unfolding reloc_def by (rule apply_static_ref_cases[OF assms(1-7)])

theorem apply_static_ref_correct_witness:
  "\<exists>w. apply_static_ref sim_ext \<lparr>patch_size = 4, patch_address = 0x40, target_value = 0x100\<rparr> sim_fresh
       = Some (0, sim_fresh\<lparr>world := w\<rparr>)
     \<and> sim_mem w = mem_write (\<lambda>a. 0x90) 0x20040 [0, 1, 0xff, 0xff]"
proof -
  let ?ss = "\<lparr>patch_size = 4, patch_address = 0x40, target_value = 0x100\<rparr> :: static_sym_s"
  have "if patch_size ?ss = 4 \<and> \<not> (- (2 ^ 31) \<le> sint (target_value ?ss + 0x10000 - 0x20000) \<and> sint (target_value ?ss + 0x10000 - 0x20000) < 2 ^ 31)
    then apply_static_ref sim_ext ?ss sim_fresh = Some (- EINVAL, sim_fresh)
    else \<exists>w. apply_static_ref sim_ext ?ss sim_fresh = Some (0, sim_fresh\<lparr>world := w\<rparr>)
      \<and> sim_mem w = mem_write (sim_mem (world sim_fresh)) (0x20000 + patch_address ?ss)
          (le_bytes (unat (patch_size ?ss)) (target_value ?ss + 0x10000 - 0x20000))"
    by (rule apply_static_ref_correct[OF sim_memory_ext, where p = 3 and td = 0 and pd = 1])
      (simp_all add: sim_fresh_def dlm_load_base_def elf_type_dyn_def sim_ei_def sim_dlm_def sim_vma_def
        vma_accessors sim_ctx_def sim_patch_def)
  moreover have "sim_mem (world sim_fresh) = (\<lambda>a. 0x90)" by (simp add: sim_fresh_def sim_world_def)
  moreover have "le_bytes 4 (0x100 + 0x10000 - 0x20000) = [0, 1, 0xff, 0xff]" by (simp add: byte_eval)
  ultimately show ?thesis by simp
qed

text \<open>
  The walk for an earlier patch follows the list of applied patches, which is collected in
  address order. A patch that is mapped below all others finds no earlier one: reverting it
  writes the original code of a function back, even when a patch that was applied before it, and
  lies above it, replaces the same function.
\<close>

lemma revert_lowest_restores_code:
  assumes "memory_ext x mem" "ctx_applied_patches (ctx s) = p # ps"
    and "jumps_of s p = [fj]" "func_addr fj \<noteq> 0" "length (code fj) = 8"
    and "mem_bytes (mem (world s)) (func_addr fj) 8 = func_jump fj"
  shows "\<exists>w. patch_revert_func_jumps x p s = Some (0, s\<lparr>world := w\<rparr>)
    \<and> mem_bytes (mem w) (func_addr fj) 8 = code fj"
proof -
  have at: "fj_at s p 0 = fj" "length (func_jumps (pi (patch_of s p))) = 1"
    using assms(3) by (simp_all add: fj_at_def jumps_of_def)
  have "func_jump_applied x p 0 s = (1, s)"
    using assms(4,6) at by (simp add: func_jump_applied_def process_read_data_mem[OF assms(1)])
  moreover have "find_previous_func_jump s p 0 = Some (Inl (- ENOENT))"
    by (simp add: find_previous_func_jump_def patches_before_def assms(2))
  moreover obtain w where "process_write_data x (func_addr fj) (code fj) s = (0, s\<lparr>world := w\<rparr>)"
    "mem w = mem_write (mem (world s)) (func_addr fj) (code fj)"
    using process_write_data_mem[OF assms(1), of "code fj" "func_addr fj" s] assms(5) by auto
  moreover have "mem_bytes (mem_write m a (code fj)) a 8 = code fj" for m a
    using read_written[of "code fj" m a] assms(5) by simp
  ultimately show ?thesis
    using at by (auto simp: patch_revert_func_jumps_def iterate_patch_function_jumps_def revert_func_jump_def
        do_revert_func_jump_def write_func_code_def)
qed

end
