(* ===== verification/Process.thy ===== *)
theory Process
  imports Service Rtld Patch_Jumps
begin

text \<open>
  The rest of \<open>patcher/process.c\<close>: loading the service library into the target and taking it
  out again, the list of libraries a symbol is searched in, collecting what is mapped into
  the process, and finding room for a new object. The primitives and the suspension of the
  process are in \<open>Process_IO\<close> and \<open>Process_Catch\<close>.
\<close>

section \<open>The service\<close>

definition process_send_fd :: "'w ext \<Rightarrow> int \<Rightarrow> 'w pst \<Rightarrow> (int \<times> 'w pst) option" where
  "process_send_fd x fd s =
     (if \<not> sv_loaded (ctx_service (ctx s)) then Some (- EINVAL, s) else service_transfer_fd x fd s)"

definition process_munmap_dl_map :: "'w ext \<Rightarrow> dl_map \<Rightarrow> 'w pst \<Rightarrow> (int \<times> 'w pst) option" where
  "process_munmap_dl_map x dlm s =
     (if ctx_dry_run (ctx s) then Some (0, s)
      else if sv_loaded (ctx_service (ctx s)) then service_munmap_dlm x dlm s
      else iterate_dl_vmas dlm (unmap_dl_vma x) s)"

definition process_mmap_dlm_service :: "'w ext \<Rightarrow> dl_map \<Rightarrow> 'w pst \<Rightarrow> (int \<times> 'w pst) option" where
  "process_mmap_dlm_service x dlm s = do {
     (fd, s) \<leftarrow> service_transfer_fd x (elf_info_fd (ei_of s (dl_ei dlm))) s;
     if fd < 0 then Some (fd, s) else service_mmap_dlm x dlm fd s }"

definition process_mmap_dl_map :: "'w ext \<Rightarrow> dl_map \<Rightarrow> 'w pst \<Rightarrow> (int \<times> 'w pst) option" where
  "process_mmap_dl_map x dlm s =
     (if ctx_dry_run (ctx s) then Some (0, s)
      else if sv_loaded (ctx_service (ctx s)) then process_mmap_dlm_service x dlm s
      else process_mmap_dlm_manual x dlm s)"

text \<open>The error and the address.\<close>

definition process_find_sym :: "'w ext \<Rightarrow> string \<Rightarrow> 'w pst \<Rightarrow> ((int \<times> u64) \<times> 'w pst) option" where
  "process_find_sym x name s = do {
     (value, s) \<leftarrow> dl_get_symbol_value x (ctx_dl_maps (ctx s)) name s;
     Some (if value \<le> 0 then (if value \<noteq> 0 then to_int value else - ENOENT, 0) else (0, of_int value), s) }"

definition process_find_dlopen :: "'w ext \<Rightarrow> 'w pst \<Rightarrow> ((int \<times> u64) \<times> 'w pst) option" where
  "process_find_dlopen x s = process_find_sym x ''__libc_dlopen_mode'' s"

definition process_find_dlclose :: "'w ext \<Rightarrow> 'w pst \<Rightarrow> ((int \<times> u64) \<times> 'w pst) option" where
  "process_find_dlclose x s = process_find_sym x ''__libc_dlclose'' s"

definition process_call_dlopen :: "'w ext \<Rightarrow> u64 \<Rightarrow> string \<Rightarrow> 'w pst \<Rightarrow> (int \<times> 'w pst) option" where
  "process_call_dlopen x dlopen_addr soname s = do {
     let code_addr = vma_start (ctx_remote_vma (ctx s));
     let name_addr = round_up (code_addr + X86_64_CALL_MAX_SIZE) 8;
     (sz, dlopen_code) \<leftarrow> x86_64_dlopen dlopen_addr name_addr code_addr;
     if sz < 0 then Some (sz, s)
     else case process_write_data x name_addr (padded x (c_string soname)) s of
            (err, s) \<Rightarrow> if err \<noteq> 0 then Some (err, s) else process_exec_code x code_addr dlopen_code s }"

definition do_inject_service :: "'w ext \<Rightarrow> 'w pst \<Rightarrow> (int \<times> 'w pst) option" where
  "do_inject_service x s = do {
     ((err, dlopen_addr), s) \<leftarrow> process_find_dlopen x s;
     if err \<noteq> 0 then Some (err, s)
     else do {
       (handle, s) \<leftarrow> process_call_dlopen x dlopen_addr (sv_name (ctx_service (ctx s))) s;
       if handle \<le> 0 then Some (- EFAULT, s)
       else do {
         let s = upd_ctx (\<lambda>c. c\<lparr>ctx_service := (ctx_service c)\<lparr>sv_handle := of_int handle, sv_pid := ctx_pid c\<rparr>\<rparr>) s;
         (err, s) \<leftarrow> service_start x s;
         if err \<noteq> 0 then Some (err, s) else Some (0, s) } } }"

definition process_inject_service :: "'w ext \<Rightarrow> 'w pst \<Rightarrow> (int \<times> 'w pst) option" where
  "process_inject_service x s = do_inject_service x s"

definition process_call_dlclose :: "'w ext \<Rightarrow> u64 \<Rightarrow> u64 \<Rightarrow> 'w pst \<Rightarrow> (int \<times> 'w pst) option" where
  "process_call_dlclose x dlclose_addr handle s = do {
     let code_addr = vma_start (ctx_remote_vma (ctx s));
     (sz, dlclose_code) \<leftarrow> x86_64_dlclose dlclose_addr handle code_addr;
     if sz < 0 then Some (sz, s) else process_exec_code x code_addr dlclose_code s }"

definition process_shutdown_service :: "'w ext \<Rightarrow> 'w pst \<Rightarrow> (int \<times> 'w pst) option" where
  "process_shutdown_service x s =
     (if sv_handle (ctx_service (ctx s)) = 0 then Some (0, s)
      else case service_stop x s of
             (err, s) \<Rightarrow>
               if err \<noteq> 0 then Some (err, s)
               else do {
                 ((err, dlclose_addr), s) \<leftarrow> process_find_dlclose x s;
                 if err \<noteq> 0 then Some (err, s)
                 else do {
                   (ret, s) \<leftarrow> process_call_dlclose x dlclose_addr (sv_handle (ctx_service (ctx s))) s;
                   if to_int ret \<noteq> 0 then Some (- EFAULT, s)
                   else Some (0, upd_ctx (\<lambda>c. c\<lparr>ctx_service := (ctx_service c)\<lparr>sv_handle := 0\<rparr>\<rparr>) s) } })"

section \<open>The libraries a symbol is searched in\<close>

definition collect_needed :: "'w ext \<Rightarrow> ptr \<Rightarrow> 'w pst \<Rightarrow> (int \<times> 'w pst) option" where
  "collect_needed x dlm s =
     (case xmalloc x s of
        (None, s) \<Rightarrow> Some (- ENOMEM, s)
      | (Some _, s) \<Rightarrow> do {
          let s = upd_ctx (\<lambda>c. c\<lparr>ctx_needed_list := ctx_needed_list c @ [dlm]\<rparr>) s;
          _ \<leftarrow> dl_map_start (vma_of s) (dlm_of s dlm);
          Some (0, s) })"

definition process_needed_list :: "'w ext \<Rightarrow> 'w pst \<Rightarrow> ((int \<times> u64 list) \<times> 'w pst) option" where
  "process_needed_list x s =
     (if sv_loaded (ctx_service (ctx s)) then service_needed_array x s
      else do {
        ((err, r_debug_addr), s) \<leftarrow> process_find_sym x ''_r_debug'' s;
        if err \<noteq> 0 then Some ((err, []), s) else rtld_needed_array x r_debug_addr s })"

text \<open>
  The loop over \<open>i < nr\<close> with the error of the round before, which is \<open>-ENOENT\<close> when there is
  no round. An index past the array is \<open>None\<close>.
\<close>

fun collect_needed_loop :: "'w ext \<Rightarrow> u64 list \<Rightarrow> int \<Rightarrow> nat \<Rightarrow> nat \<Rightarrow> 'w pst \<Rightarrow> (int \<times> 'w pst) option" where
  "collect_needed_loop x needed_array err i 0 s = Some (err, s)"
| "collect_needed_loop x needed_array err i (Suc n) s =
     (if length needed_array \<le> i then None
      else do {
        found \<leftarrow> find_dl_map_by_addr s (ctx_dl_maps (ctx s)) (needed_array ! i);
        case found of
          None \<Rightarrow> Some (- ENOENT, s)
        | Some dlm \<Rightarrow>
            if exec_vma (dlm_of s dlm) = None then Some (- EFAULT, s)
            else do {
              (err, s) \<leftarrow> collect_needed x dlm s;
              if err \<noteq> 0 then Some (err, s) else collect_needed_loop x needed_array err (Suc i) n s } })"

definition process_collect_needed :: "'w ext \<Rightarrow> 'w pst \<Rightarrow> (int \<times> 'w pst) option" where
  "process_collect_needed x s = do {
     ((nr, needed_array), s) \<leftarrow> process_needed_list x s;
     if nr < 0 then Some (- ENOENT, s)
     else collect_needed_loop x needed_array (- ENOENT) 0 (nat nr) s }"

section \<open>What is mapped into the process\<close>

text \<open>In the model every object has an \<open>elf_info_s\<close>: the two null checks of the code never fire.\<close>

definition check_vzpatch :: "'w ext \<Rightarrow> ptr \<Rightarrow> 'w pst \<Rightarrow> (int \<times> 'w pst) option" where
  "check_vzpatch x dlm s =
     (if \<not> elf_has_section (ei_of s (dl_ei (dlm_of s dlm))) VZPATCH_SECTION then Some (0, s)
      else do {
        ((err, patch), s) \<leftarrow> create_patch_by_dlm x dlm s;
        if err \<noteq> 0 then Some (err, s)
        else Some (0, upd_ctx (\<lambda>c. c\<lparr>ctx_applied_patches := ctx_applied_patches c @ [patch]\<rparr>) s) })"

definition collect_patches :: "'w ext \<Rightarrow> 'w pst \<Rightarrow> (int \<times> 'w pst) option" where
  "collect_patches x s = iterate_dl_maps (ctx_dl_maps (ctx s)) (check_vzpatch x) s"

definition process_collect_vmas :: "'w ext \<Rightarrow> 'w pst \<Rightarrow> (int \<times> 'w pst) option" where
  "process_collect_vmas x s = do {
     (err, s, vmas) \<leftarrow> collect_vmas x (ctx_pid (ctx s)) (s, ctx_vmas (ctx s));
     let s = upd_ctx (\<lambda>c. c\<lparr>ctx_vmas := vmas\<rparr>) s;
     if err \<noteq> 0 then Some (err, s)
     else do {
       (err, s, dl_maps) \<leftarrow> collect_dl_maps x (ctx_vmas (ctx s)) (ctx_dl_maps (ctx s)) s;
       let s = upd_ctx (\<lambda>c. c\<lparr>ctx_dl_maps := dl_maps\<rparr>) s;
       if err \<noteq> 0 then Some (err, s)
       else do {
         (err, s) \<leftarrow> collect_patches x s;
         if err \<noteq> 0 then Some (err, s) else Some (0, s) } } }"

definition process_find_target_dlm :: "'w pst \<Rightarrow> (int \<times> 'w pst) option" where
  "process_find_target_dlm s = do {
     p \<leftarrow> ctx_patch (ctx s);
     found \<leftarrow> find_dl_map_by_bid s (ctx_dl_maps (ctx s)) (target_bid (pi (patch_of s p)));
     case found of
       None \<Rightarrow> Some (- ENOENT, s)
     | Some dlm \<Rightarrow> do {
         _ \<leftarrow> dl_map_start (vma_of s) (dlm_of s dlm);
         Some (0, upd_patch p (\<lambda>q. q\<lparr>target_dlm := Some dlm\<rparr>) s) } }"

section \<open>Room for a new object\<close>

text \<open>
  The state is \<open>hole->address\<close>. The successor of the last area is the anchor of the list,
  which is not an area: reading its start is \<open>None\<close>.
\<close>

definition find_hole :: "'w pst \<Rightarrow> ptr list \<Rightarrow> u64 \<Rightarrow> u64 \<Rightarrow> ptr \<Rightarrow> u64 \<Rightarrow> (int \<times> u64) option" where
  "find_hole s vmas hint sz vma address = do {
     next \<leftarrow> next_vma vmas vma;
     if vma_start (vma_of s next) < hint then Some (0, address)
     else if (case vdlm (vma_of s vma) of None \<Rightarrow> False | Some dlm \<Rightarrow> last_dl_vma (dlm_of s dlm) \<noteq> Some vma)
     then Some (0, address)
     else let address = max hint (vma_end (vma_of s vma))
          in Some (if sz \<le> vma_start (vma_of s next) - address then 1 else 0, address) }"

definition process_find_place_for_elf :: "u64 \<Rightarrow> u64 \<Rightarrow> 'w pst \<Rightarrow> int option" where
  "process_find_place_for_elf hint sz s = do {
     (ret, address) \<leftarrow> iterate_vmas (ctx_vmas (ctx s)) (find_hole s (ctx_vmas (ctx s)) hint sz) 0;
     Some (if ret \<le> 0 then (if ret \<noteq> 0 then ret else - ENOENT) else sint address) }"

section \<open>The room that is found is free\<close>

text \<open>Areas in address order that do not overlap, as the kernel lists them.\<close>

definition areas_ok :: "(ptr \<Rightarrow> vma_area) \<Rightarrow> ptr list \<Rightarrow> bool" where
  "areas_ok vm vmas \<longleftrightarrow> distinct vmas \<and> (\<forall>v \<in> set vmas. vma_start (vm v) \<le> vma_end (vm v))
     \<and> sorted_wrt (\<lambda>u v. vma_end (vm u) \<le> vma_start (vm v)) vmas"

lemma next_vma_split: "distinct (us @ v # ws) \<Longrightarrow> next_vma (us @ v # ws) v = (case ws of [] \<Rightarrow> None | n # _ \<Rightarrow> Some n)"
proof -
  assume "distinct (us @ v # ws)"
  then have "dropWhile (\<lambda>p. p \<noteq> v) (us @ v # ws) = v # ws" by (induction us) auto
  then show ?thesis by (simp add: next_vma_def split: list.split)
qed

lemma find_hole_found:
  assumes "iterate (find_hole s vmas hint sz) xs a0 = Some (r, a)" "vmas = pre @ xs" "distinct vmas"
  shows "r = 0 \<or> r = 1 \<and> (\<exists>us v n ws. vmas = us @ v # n # ws \<and> hint \<le> vma_start (vma_of s n)
    \<and> a = max hint (vma_end (vma_of s v)) \<and> sz \<le> vma_start (vma_of s n) - a)"
  using assms
proof (induction xs arbitrary: pre a0)
  case (Cons v xs)
  then obtain n ws where n: "xs = n # ws"
    by (auto simp: find_hole_def next_vma_split split: bind_splits list.splits)
  with Cons.prems(2,3) have nx: "next_vma vmas v = Some n" by (simp add: next_vma_split)
  obtain r1 a1 where one: "find_hole s vmas hint sz v a0 = Some (r1, a1)"
    using Cons.prems(1) by (auto split: bind_splits)
  show ?case
  proof (cases "r1 = 0")
    case True
    with one Cons.prems show ?thesis using Cons.IH[of a1 "pre @ [v]"] by simp
  next
    case False
    with one nx have "r1 = 1" "hint \<le> vma_start (vma_of s n)" "a1 = max hint (vma_end (vma_of s v))"
      "sz \<le> vma_start (vma_of s n) - a1"
      by (auto simp: find_hole_def Let_def split: if_splits)
    moreover have "r = r1" "a = a1" using Cons.prems(1) one False by auto
    moreover have "vmas = pre @ v # n # ws" using Cons.prems(2) n by simp
    ultimately show ?thesis by blast
  qed
qed simp

lemma find_place_free:
  assumes "areas_ok (vma_of s) (ctx_vmas (ctx s))"
    and "process_find_place_for_elf hint sz s = Some r" and "0 \<le> r"
  defines "a \<equiv> of_int r :: u64"
  shows "hint \<le> a \<and> unat a + unat sz < 2 ^ 64 \<and> (\<exists>v \<in> set (ctx_vmas (ctx s)). a = max hint (vma_end (vma_of s v)))
    \<and> (\<forall>v \<in> set (ctx_vmas (ctx s)).
         vma_end (vma_of s v) \<le> a \<or> unat a + unat sz \<le> unat (vma_start (vma_of s v)))"
proof -
  let ?L = "ctx_vmas (ctx s)"
  from assms(2,3) obtain ret b where it: "iterate (find_hole s ?L hint sz) ?L 0 = Some (ret, b)" "0 < ret" "r = sint b"
    by (auto simp: process_find_place_for_elf_def iterate_vmas_def split: bind_splits if_splits)
  have "a = b" by (simp add: a_def it(3))
  moreover from find_hole_found[OF it(1), of "[]"] assms(1) it(2) obtain us v n ws where
    L: "?L = us @ v # n # ws" and h: "hint \<le> vma_start (vma_of s n)"
      "b = max hint (vma_end (vma_of s v))" "sz \<le> vma_start (vma_of s n) - b"
    by (auto simp: areas_ok_def)
  ultimately have b: "hint \<le> a" "vma_end (vma_of s v) \<le> a" "sz \<le> vma_start (vma_of s n) - a" by auto
  have ord: "vma_end (vma_of s v) \<le> vma_start (vma_of s n)"
    "\<forall>u \<in> set us. vma_end (vma_of s u) \<le> vma_start (vma_of s v) \<and> vma_start (vma_of s v) \<le> vma_end (vma_of s v)"
    "\<forall>u \<in> set ws. vma_start (vma_of s n) \<le> vma_end (vma_of s n) \<and> vma_end (vma_of s n) \<le> vma_start (vma_of s u)"
    using assms(1) by (auto simp: areas_ok_def L sorted_wrt_append)
  then have "a \<le> vma_start (vma_of s n)" using h(1,2) \<open>a = b\<close> by simp
  then have "unat (vma_start (vma_of s n) - a) = unat (vma_start (vma_of s n)) - unat a"
    and le: "unat a \<le> unat (vma_start (vma_of s n))" by (simp_all add: unat_sub word_le_nat_alt)
  with b(3) have fit: "unat a + unat sz \<le> unat (vma_start (vma_of s n))" by (simp add: word_le_nat_alt)
  have "vma_end (vma_of s u) \<le> a \<or> unat a + unat sz \<le> unat (vma_start (vma_of s u))" if "u \<in> set ?L" for u
  proof -
    from that consider "u \<in> set us" | "u = v" | "u = n" | "u \<in> set ws" by (auto simp: L)
    then show ?thesis
    proof cases
      case 1
      with ord(2) b(2) show ?thesis by (blast intro: order_trans)
    next
      case 4
      with ord(3) have "vma_start (vma_of s n) \<le> vma_start (vma_of s u)" by (blast intro: order_trans)
      with fit show ?thesis by (simp add: word_le_nat_alt)
    qed (use b fit in auto)
  qed
  moreover have "unat a + unat sz < 2 ^ 64" using fit unat_lt[of "vma_start (vma_of s n)"] by simp
  moreover have "\<exists>v \<in> set ?L. a = max hint (vma_end (vma_of s v))" using L h(2) \<open>a = b\<close> by auto
  ultimately show ?thesis using b(1) by blast
qed

text \<open>
  C15: The place chosen for an object is free: when \<open>process_find_place_for_elf\<close> returns an
  address, it is not below the hint, the whole range of the requested size lies above every
  area that starts before it and below every area behind it, and its end does not wrap around.
\<close>

theorem found_place_is_free:
  assumes "areas_ok (vma_of s) (ctx_vmas (ctx s))"
    and "process_find_place_for_elf hint sz s = Some r" and "0 \<le> r"
  defines "a \<equiv> of_int r :: u64"
  shows "hint \<le> a \<and> unat a + unat sz < 2 ^ 64 \<and> (\<forall>v \<in> set (ctx_vmas (ctx s)).
    vma_end (vma_of s v) \<le> a \<or> unat a + unat sz \<le> unat (vma_start (vma_of s v)))"
  using find_place_free[OF assms(1-3)] by (simp add: a_def)

definition sim_areas :: "simw pst" where
  "sim_areas = sim_state\<lparr>vma_of := (\<lambda>p. sim_vma\<lparr>vaddr := 0x10000 * of_nat p, vlen := 0x8000\<rparr>),
     process_context := sim_ctx\<lparr>ctx_vmas := [1, 2, 4]\<rparr>\<rparr>"

theorem found_place_is_free_witness:
  "process_find_place_for_elf 0x12000 0x9000 sim_areas = Some 0x28000
   \<and> list_all (\<lambda>v. vma_end (vma_of sim_areas v) \<le> 0x28000 \<or> 0x31000 \<le> unat (vma_start (vma_of sim_areas v)))
         (ctx_vmas (ctx sim_areas))"
proof -
  have eq: "process_find_place_for_elf 0x12000 0x9000 sim_areas = Some 0x28000"
    by (simp add: process_find_place_for_elf_def iterate_vmas_def find_hole_def next_vma_def sim_areas_def sim_ctx_def
        sim_vma_def vma_accessors Let_def)
  have "areas_ok (vma_of sim_areas) (ctx_vmas (ctx sim_areas))"
    by (simp add: areas_ok_def sim_areas_def sim_ctx_def sim_vma_def vma_accessors)
  from found_place_is_free[OF this eq] eq show ?thesis by (simp add: list_all_iff)
qed

end
