(* ===== verification/Elf_Load.thy ===== *)
theory Elf_Load
  imports Process
begin

text \<open>
  Loading an ELF object into the target, the first part of \<open>patcher/elf.c\<close>: the areas of the
  loadable segments, the place they are pinned to, and mapping them. \<open>create_elf_vma\<close> leaves the
  path, the map file and the object link of the new area as \<open>malloc\<close> returned them.
\<close>

definition ELF_PAGESTART :: "u64 \<Rightarrow> u64" where "ELF_PAGESTART v = v AND NOT 0xfff"
definition ELF_PAGEOFFSET :: "u64 \<Rightarrow> u64" where "ELF_PAGEOFFSET v = v AND 0xfff"
definition ELF_PAGEALIGN :: "u64 \<Rightarrow> u64" where "ELF_PAGEALIGN v = (v + 0x1000 - 1) AND NOT 0xfff"

abbreviation (input) PT_LOAD :: u32 where "PT_LOAD \<equiv> 1"
abbreviation (input) PF_X :: u32 where "PF_X \<equiv> 1"
abbreviation (input) PF_W :: u32 where "PF_W \<equiv> 2"
abbreviation (input) PF_R :: u32 where "PF_R \<equiv> 4"

definition elf_prot :: "u32 \<Rightarrow> u32" where
  "elf_prot flags =
     (let prot = 0;
          prot = (if flags AND PF_R \<noteq> 0 then prot OR PROT_READ else prot);
          prot = (if flags AND PF_W \<noteq> 0 then prot OR PROT_WRITE else prot)
      in if flags AND PF_X \<noteq> 0 then prot OR PROT_EXEC else prot)"

definition create_elf_vma :: "'w ext \<Rightarrow> Elf_Phdr \<Rightarrow> 'w pst \<Rightarrow> ptr option \<times> 'w pst" where
  "create_elf_vma x p s =
     (case xmalloc x s of
        (None, s) \<Rightarrow> (None, s)
      | (Some vma, s) \<Rightarrow>
          (Some vma, upd_vma vma (\<lambda>v. v\<lparr>vaddr := p_vaddr p,
             vlen := ELF_PAGEALIGN (p_filesz p + ELF_PAGEOFFSET (p_vaddr p)),
             vflags := MAP_PRIVATE OR MAP_FIXED, vprot := elf_prot (p_flags p),
             voffset := p_offset p - ELF_PAGEOFFSET (p_vaddr p)\<rparr>) s))"

text \<open>
  The loop over the program headers with the value of \<open>err\<close>, -1 at first and the result of the
  last \<open>add_dl_vma_sorted\<close> then: what a failing \<open>gelf_getphdr\<close> or allocation returns. The list that
  the error path frees is always empty.
\<close>

fun elf_mmaps_loop :: "'w ext \<Rightarrow> ptr \<Rightarrow> nat list \<Rightarrow> int \<Rightarrow> 'w pst \<Rightarrow> (int \<times> 'w pst) option" where
  "elf_mmaps_loop x dlm [] err s = Some (if dl_vmas (dlm_of s dlm) = [] then - EINVAL else 0, s)"
| "elf_mmaps_loop x dlm (i # is) err s =
     (case gelf_getphdr (ei_elf (ei_of s (dl_ei (dlm_of s dlm)))) i of
        None \<Rightarrow> Some (err, s)
      | Some phdr \<Rightarrow>
          if p_type phdr \<noteq> PT_LOAD then elf_mmaps_loop x dlm is err s
          else case create_elf_vma x phdr s of
                 (None, s) \<Rightarrow> Some (err, s)
               | (Some vma, s) \<Rightarrow> do {
                   (err, s) \<leftarrow> add_dl_vma_sorted dlm vma s;
                   if err \<noteq> 0 then Some (err, s) else elf_mmaps_loop x dlm is err s })"

definition create_elf_mmaps :: "'w ext \<Rightarrow> ptr \<Rightarrow> 'w pst \<Rightarrow> (int \<times> 'w pst) option" where
  "create_elf_mmaps x dlm s =
     (case elf_getphdrnum (ei_elf (ei_of s (dl_ei (dlm_of s dlm)))) of
        None \<Rightarrow> Some (-1, s)
      | Some pnum \<Rightarrow> elf_mmaps_loop x dlm [0..<pnum] (-1) s)"

definition pin_elf_mmap :: "u64 \<Rightarrow> ptr \<Rightarrow> 'w pst \<Rightarrow> (int \<times> 'w pst) option" where
  "pin_elf_mmap hole vma s = Some (0, upd_vma vma (\<lambda>v. v\<lparr>vaddr := ELF_PAGESTART (hole + vaddr v)\<rparr>) s)"

text \<open>The result is an \<open>int\<close>: an address of the upper half comes back truncated.\<close>

definition pin_elf_mmaps :: "ptr \<Rightarrow> 'w pst \<Rightarrow> (int \<times> 'w pst) option" where
  "pin_elf_mmaps dlm s = do {
     dlm_end \<leftarrow> dl_map_end (vma_of s) (dlm_of s dlm);
     dlm_start \<leftarrow> dl_map_start (vma_of s) (dlm_of s dlm);
     let load_size = ELF_PAGESTART dlm_end - ELF_PAGESTART dlm_start;
     p \<leftarrow> ctx_patch (ctx s);
     target \<leftarrow> target_dlm (patch_of s p);
     hint \<leftarrow> dl_map_jump_hint s (dlm_of s target);
     hole \<leftarrow> process_find_place_for_elf hint load_size s;
     if hole < 0 then Some (to_int hole, s)
     else do {
       low \<leftarrow> dl_map_check_jump_range (vma_of s) (dlm_of s target) (of_int hole);
       high \<leftarrow> (if low \<noteq> 0 then Some low
                else dl_map_check_jump_range (vma_of s) (dlm_of s target) (of_int hole + load_size));
       if high \<noteq> 0 then Some (- ERANGE, s)
       else iterate_dl_vmas (dlm_of s dlm) (pin_elf_mmap (of_int hole)) s } }"

definition load_elf :: "'w ext \<Rightarrow> ptr \<Rightarrow> 'w pst \<Rightarrow> (int \<times> 'w pst) option" where
  "load_elf x dlm s = do {
     (err, s) \<leftarrow> create_elf_mmaps x dlm s;
     if err \<noteq> 0 then Some (err, s)
     else do {
       (err, s) \<leftarrow> pin_elf_mmaps dlm s;
       if err \<noteq> 0 then Some (err, s) else process_mmap_dl_map x (dlm_of s dlm) s } }"

definition unload_elf :: "'w ext \<Rightarrow> dl_map \<Rightarrow> 'w pst \<Rightarrow> (int \<times> 'w pst) option" where
  "unload_elf x dlm s = process_munmap_dl_map x dlm s"

section \<open>Pages\<close>

definition aligned :: "u64 \<Rightarrow> bool" where
  "aligned a \<longleftrightarrow> take_bit 12 a = 0"

lemma mask_12: "(0xfff :: u64) = mask 12"
  by (simp add: mask_eq_exp_minus_1)

lemma pagestart_eq: "ELF_PAGESTART v = v - take_bit 12 v"
  by (simp add: ELF_PAGESTART_def mask_12 clear_low)

text \<open>The page macros of this file are the general ones for pages of 4096 bytes.\<close>

lemma page_macros: "ELF_PAGESTART v = round_down v (2 ^ 12)" "ELF_PAGEALIGN v = round_up v (2 ^ 12)"
  unfolding ALIGN_eq[symmetric]
  by (simp_all add: ELF_PAGESTART_def round_down_def round_mask_def ELF_PAGEALIGN_def ALIGN_def)

lemma take_bit_12:
  fixes a b :: u64
  shows "take_bit 12 (take_bit 12 a + take_bit 12 b) = take_bit 12 (a + b)"
    "take_bit 12 (take_bit 12 a - take_bit 12 b) = take_bit 12 (a - b)"
proof -
  have add: "uint (v + w) = take_bit 64 (uint v + uint w)" and sub: "uint (v - w) = take_bit 64 (uint v - uint w)"
    for v w :: u64 by (simp_all add: uint_word_ariths take_bit_eq_mod)
  show "take_bit 12 (take_bit 12 a + take_bit 12 b) = take_bit 12 (a + b)"
    by (simp add: word_uint_eq_iff unsigned_take_bit_eq add take_bit_take_bit take_bit_add)
  show "take_bit 12 (take_bit 12 a - take_bit 12 b) = take_bit 12 (a - b)"
    by (simp add: word_uint_eq_iff unsigned_take_bit_eq sub take_bit_take_bit take_bit_diff)
qed

lemma pagestart_add: "aligned h \<Longrightarrow> ELF_PAGESTART (h + a) = h + ELF_PAGESTART a"
proof -
  assume "aligned h"
  then have "take_bit 12 (h + a) = take_bit 12 a"
    using take_bit_12(1)[of h a] by (simp add: aligned_def)
  then show ?thesis by (simp add: pagestart_eq)
qed

lemma pagestart_small: "a < 0x1000 \<Longrightarrow> ELF_PAGESTART a = 0"
proof -
  assume "a < 0x1000"
  then have "unat a < 2 ^ 12" by (simp add: word_less_nat_alt)
  then have "unat (take_bit 12 a) = unat a" by (simp add: unsigned_take_bit_eq take_bit_nat_eq_self_iff)
  then have "take_bit 12 a = a" by (simp add: word_unat_eq_iff)
  then show ?thesis by (simp add: pagestart_eq)
qed

lemma aligned_diff: "aligned a \<Longrightarrow> aligned b \<Longrightarrow> aligned (a - b)"
  using take_bit_12(2)[of a b] by (simp add: aligned_def)

lemma aligned_jump_min: "aligned a \<Longrightarrow> aligned (x86_jump_min_address a)"
  by (auto simp: x86_jump_min_address_def X86_64_JUMP_RANGE_def intro!: aligned_diff) (simp_all add: aligned_def)

section \<open>A patch is never mapped over something else\<close>

lemma pin_loop:
  assumes "distinct vs"
  shows "\<exists>t. iterate (pin_elf_mmap hole) vs s = Some (0, t) \<and> ctx t = ctx s \<and> dlm_of t = dlm_of s
    \<and> vma_of t = (\<lambda>q. if q \<in> set vs then (vma_of s q)\<lparr>vaddr := ELF_PAGESTART (hole + vaddr (vma_of s q))\<rparr> else vma_of s q)"
  using assms
proof (induction vs arbitrary: s)
  case (Cons v vs)
  let ?s = "upd_vma v (\<lambda>v. v\<lparr>vaddr := ELF_PAGESTART (hole + vaddr v)\<rparr>) s"
  from Cons.IH[of ?s] Cons.prems show ?case by (auto simp: pin_elf_mmap_def fun_eq_iff)
qed simp

text \<open>
  What is assumed of the segments of the object: it is linked at base 0, so that its first segment
  starts in the first page, and no segment ends behind the last one. The code neither ensures nor checks the former:
  \<open>pin_elf_mmap\<close> adds the hole to the address of a segment, while the size of the hole is the end of the
  object less its start.
\<close>

definition segments_ok :: "(ptr \<Rightarrow> vma_area) \<Rightarrow> dl_map \<Rightarrow> bool" where
  "segments_ok vm dlm \<longleftrightarrow> dl_vmas dlm \<noteq> [] \<and> distinct (dl_vmas dlm) \<and> vma_start (vm (hd (dl_vmas dlm))) < 0x1000
     \<and> (\<forall>v \<in> set (dl_vmas dlm). unat (ELF_PAGESTART (vma_start (vm v))) + unat (vma_length (vm v))
           \<le> unat (ELF_PAGESTART (vma_end (vm (last (dl_vmas dlm))))))"

lemma pin_elf_mmaps_0:
  assumes "pin_elf_mmaps d s = Some (0, t)" "segments_ok (vma_of s) (dlm_of s d)"
    "ctx_patch (ctx s) = Some p" "target_dlm (patch_of s p) = Some td"
  shows "\<exists>hint r. dl_map_jump_hint s (dlm_of s td) = Some hint
    \<and> process_find_place_for_elf hint (ELF_PAGESTART (vma_end (vma_of s (last (dl_vmas (dlm_of s d)))))) s = Some r
    \<and> (0 \<le> r \<longrightarrow> iterate_dl_vmas (dlm_of s d) (pin_elf_mmap (of_int r)) s = Some (0, t)) \<and> (r < 0 \<longrightarrow> to_int r = 0)"
  using assms
  by (auto simp: pin_elf_mmaps_def dl_map_end_def dl_map_start_def last_dl_vma_def first_dl_vma_def segments_ok_def
      pagestart_small Let_def split: bind_splits if_splits)

text \<open>Addresses of user space are not negative when they are returned as a signed number.\<close>

lemma low_address_nonneg: "(w :: u64) < 0x8000000000000000 \<Longrightarrow> 0 \<le> sint w"
  by (simp add: sint_u64 word_less_def)

lemma find_place_low:
  assumes "process_find_place_for_elf hint sz s = Some r" "distinct (ctx_vmas (ctx s))" "hint < 0x8000000000000000"
    and "\<forall>v \<in> set (butlast (ctx_vmas (ctx s))). vma_end (vma_of s v) < 0x8000000000000000"
  shows "0 \<le> r \<or> r = - ENOENT"
proof -
  let ?L = "ctx_vmas (ctx s)"
  from assms(1) obtain ret b where it: "iterate (find_hole s ?L hint sz) ?L 0 = Some (ret, b)"
    and r: "r = (if ret \<le> 0 then (if ret \<noteq> 0 then ret else - ENOENT) else sint b)"
    by (auto simp: process_find_place_for_elf_def iterate_vmas_def split: bind_splits)
  from find_hole_found[OF it, of "[]"] assms(2) consider "ret = 0"
    | us v n ws where "ret = 1" "?L = us @ v # n # ws" "b = max hint (vma_end (vma_of s v))" by auto
  then show ?thesis
  proof cases
    case 2
    then have "v \<in> set (butlast ?L)" by (simp add: butlast_append)
    with assms(3,4) 2 r show ?thesis by (auto simp: max_def intro: low_address_nonneg)
  qed (use r in auto)
qed

lemma jump_hint_bounds:
  assumes "dl_map_jump_hint s dlm = Some hint"
  shows "dl_vmas dlm \<noteq> [] \<and> hint \<le> vma_end (vma_of s (last (dl_vmas dlm)))
    \<and> (aligned (vma_end (vma_of s (last (dl_vmas dlm)))) \<longrightarrow> aligned hint)"
  using assms
  by (auto simp: dl_map_jump_hint_def dl_map_end_def last_dl_vma_def aligned_jump_min split: if_splits)
    (auto simp: x86_jump_min_address_def X86_64_JUMP_RANGE_def word_le_nat_alt word_less_nat_alt unat_sub_if_size)

text \<open>
  C9: Pinning a new object that is linked at base 0 (its first segment starts below 0x1000, and no
  segment ends behind the last one) does not put it over something that is already mapped: after a
  successful \<open>pin_elf_mmaps\<close> the page range of every segment (which is then mapped with
  \<open>MAP_FIXED\<close>) is disjoint from every area of the process. The process has page-aligned areas in
  address order, all but the last in the lower half of the address space, the target object ends at a page
  boundary there, and the new segments are not areas of the process yet. Without the
  condition on the base this fails (\<open>pinned_over_mapping\<close>).
\<close>

theorem pinned_segments_are_free:
  assumes "pin_elf_mmaps d s = Some (0, t)" and "segments_ok (vma_of s) (dlm_of s d)"
    and "ctx_patch (ctx s) = Some p" and "target_dlm (patch_of s p) = Some td"
    and "areas_ok (vma_of s) (ctx_vmas (ctx s))" and "\<forall>u \<in> set (ctx_vmas (ctx s)). aligned (vma_end (vma_of s u))"
    and "\<forall>u \<in> set (butlast (ctx_vmas (ctx s))). vma_end (vma_of s u) < 0x8000000000000000"
    and "aligned (vma_end (vma_of s (last (dl_vmas (dlm_of s td)))))"
    and "vma_end (vma_of s (last (dl_vmas (dlm_of s td)))) < 0x8000000000000000"
    and "set (dl_vmas (dlm_of s d)) \<inter> set (ctx_vmas (ctx s)) = {}"
  shows "\<forall>v \<in> set (dl_vmas (dlm_of s d)). \<forall>u \<in> set (ctx_vmas (ctx s)).
    vma_end (vma_of t v) \<le> vma_start (vma_of t u) \<or> vma_end (vma_of t u) \<le> vma_start (vma_of t v)"
proof (intro ballI)
  let ?vs = "dl_vmas (dlm_of s d)" and ?sz = "ELF_PAGESTART (vma_end (vma_of s (last (dl_vmas (dlm_of s d)))))"
  fix v u assume v: "v \<in> set ?vs" and u: "u \<in> set (ctx_vmas (ctx s))"
  obtain hint r where hint: "dl_map_jump_hint s (dlm_of s td) = Some hint"
    and r: "process_find_place_for_elf hint ?sz s = Some r"
      "0 \<le> r \<longrightarrow> iterate_dl_vmas (dlm_of s d) (pin_elf_mmap (of_int r)) s = Some (0, t)" "r < 0 \<longrightarrow> to_int r = 0"
    using pin_elf_mmaps_0[OF assms(1-4)] by blast
  note hb = jump_hint_bounds[OF hint]
  have "hint < 0x8000000000000000" using hb assms(9) by (auto intro: order_le_less_trans)
  with find_place_low[OF r(1)] assms(5,7) r(3) have pos: "0 \<le> r" by (auto simp: areas_ok_def)
  define a :: u64 where "a = of_int r"
  note free = find_place_free[OF assms(5) r(1) pos, folded a_def]
  have al: "aligned a" using free hb assms(6,8) by (auto simp: max_def)
  have dist: "distinct ?vs" using assms(2) by (simp add: segments_ok_def)
  obtain t' where "iterate (pin_elf_mmap a) ?vs s = Some (0, t')" and t': "vma_of t' = (\<lambda>q. if q \<in> set ?vs
      then (vma_of s q)\<lparr>vaddr := ELF_PAGESTART (a + vaddr (vma_of s q))\<rparr> else vma_of s q)"
    using pin_loop[OF dist, of a s] by blast
  then have t: "vma_of t = vma_of t'" using r(2) pos by (simp add: iterate_dl_vmas_def a_def)
  have start: "vma_start (vma_of t v) = a + ELF_PAGESTART (vma_start (vma_of s v))"
    and len: "vma_end (vma_of t v) = vma_start (vma_of t v) + vma_length (vma_of s v)"
    and same: "vma_of t u = vma_of s u"
    using v u assms(10) by (auto simp: t t' vma_accessors pagestart_add[OF al])
  have seg: "unat (ELF_PAGESTART (vma_start (vma_of s v))) + unat (vma_length (vma_of s v)) \<le> unat ?sz"
    using assms(2) v by (simp add: segments_ok_def)
  have s1: "unat (vma_start (vma_of t v)) = unat a + unat (ELF_PAGESTART (vma_start (vma_of s v)))"
    unfolding start using seg free by (subst unat_add_lem[THEN iffD1]) auto
  have s2: "unat (vma_end (vma_of t v)) = unat (vma_start (vma_of t v)) + unat (vma_length (vma_of s v))"
    unfolding len using seg free s1 by (subst unat_add_lem[THEN iffD1]) auto
  from free u have "vma_end (vma_of s u) \<le> a \<or> unat a + unat ?sz \<le> unat (vma_start (vma_of s u))" by blast
  then show "vma_end (vma_of t v) \<le> vma_start (vma_of t u) \<or> vma_end (vma_of t u) \<le> vma_start (vma_of t v)"
    unfolding same word_le_nat_alt using s1 s2 seg by linarith
qed

text \<open>Two segments of a new object, in a process with three areas.\<close>

definition sim_load :: "simw pst" where
  "sim_load = sim_state\<lparr>
     vma_of := (\<lambda>p. if p = 11 then sim_vma\<lparr>vaddr := 0, vlen := 0x1000\<rparr>
                    else if p = 12 then sim_vma\<lparr>vaddr := 0x1db8, vlen := 0x2000\<rparr>
                    else sim_vma\<lparr>vaddr := 0x10000 * of_nat p, vlen := 0x8000\<rparr>),
     dlm_of := (\<lambda>d. sim_dlm\<lparr>dl_vmas := if d = 5 then [11, 12] else [2]\<rparr>),
     patch_of := (\<lambda>p. sim_patch\<lparr>target_dlm := Some 0\<rparr>),
     process_context := sim_ctx\<lparr>ctx_vmas := [1, 2, 4], ctx_patch := Some 3\<rparr>\<rparr>"

theorem pinned_segments_are_free_witness:
  "\<exists>t. pin_elf_mmaps 5 sim_load = Some (0, t)
     \<and> vma_start (vma_of t 12) = 0x19000 \<and> vma_end (vma_of t 12) = 0x1b000
     \<and> vma_end (vma_of t 12) \<le> vma_start (vma_of t 2)"
proof -
  have run: "pin_elf_mmaps 5 sim_load = Some (0, upd_vma 12 (\<lambda>v. v\<lparr>vaddr := 0x19000\<rparr>)
      (upd_vma 11 (\<lambda>v. v\<lparr>vaddr := 0x18000\<rparr>) sim_load))" (is "_ = Some (0, ?t)")
    by (simp add: pin_elf_mmaps_def sim_load_def dl_map_end_def dl_map_start_def last_dl_vma_def first_dl_vma_def
        sim_dlm_def sim_vma_def vma_accessors sim_ctx_def sim_patch_def dl_map_jump_hint_def elf_type_dyn_def sim_ei_def
        x86_jump_min_address_def x86_jump_max_address_def X86_64_JUMP_RANGE_def ELF_PAGESTART_def
        process_find_place_for_elf_def iterate_vmas_def find_hole_def next_vma_def dl_map_check_jump_range_def
        iterate_dl_vmas_def pin_elf_mmap_def upd_vma_def Let_def)
  have "\<forall>v \<in> set (dl_vmas (dlm_of sim_load 5)). \<forall>u \<in> set (ctx_vmas (ctx sim_load)).
    vma_end (vma_of ?t v) \<le> vma_start (vma_of ?t u) \<or> vma_end (vma_of ?t u) \<le> vma_start (vma_of ?t v)"
    by (rule pinned_segments_are_free[OF run, where p = 3 and td = 0])
      (simp_all add: segments_ok_def areas_ok_def aligned_def sim_load_def sim_dlm_def sim_vma_def sim_ctx_def sim_patch_def
        vma_accessors ELF_PAGESTART_def)
  then have "vma_end (vma_of ?t 12) \<le> vma_start (vma_of ?t 2) \<or> vma_end (vma_of ?t 2) \<le> vma_start (vma_of ?t 12)"
    by (simp add: sim_load_def sim_dlm_def sim_ctx_def)
  with run show ?thesis by (simp add: sim_load_def sim_vma_def vma_accessors)
qed

text \<open>
  The same process and an object linked at 0x8000: the hole that is found has the right size, but the object
  is pinned 0x8000 bytes behind its start, over the second area of the process.
\<close>

definition sim_load_based :: "simw pst" where
  "sim_load_based = sim_load\<lparr>vma_of := (vma_of sim_load)(11 := sim_vma\<lparr>vaddr := 0x8000, vlen := 0x1000\<rparr>,
     12 := sim_vma\<lparr>vaddr := 0x9db8, vlen := 0x2000\<rparr>)\<rparr>"

lemma pinned_over_mapping:
  "\<exists>t. pin_elf_mmaps 5 sim_load_based = Some (0, t) \<and> 2 \<in> set (ctx_vmas (ctx t)) \<and> 11 \<in> set (dl_vmas (dlm_of t 5))
     \<and> vma_start (vma_of t 2) = 0x20000 \<and> vma_end (vma_of t 2) = 0x28000
     \<and> vma_start (vma_of t 11) = 0x20000 \<and> vma_end (vma_of t 11) = 0x21000"
  by (simp add: pin_elf_mmaps_def sim_load_based_def sim_load_def dl_map_end_def dl_map_start_def last_dl_vma_def first_dl_vma_def
      sim_dlm_def sim_vma_def vma_accessors sim_ctx_def sim_patch_def dl_map_jump_hint_def elf_type_dyn_def sim_ei_def
      x86_jump_min_address_def x86_jump_max_address_def X86_64_JUMP_RANGE_def ELF_PAGESTART_def
      process_find_place_for_elf_def iterate_vmas_def find_hole_def next_vma_def dl_map_check_jump_range_def
      iterate_dl_vmas_def pin_elf_mmap_def upd_vma_def Let_def)

end
