(* ===== verification/Relocations.thy ===== *)
theory Relocations
  imports Elf_Load
begin

text \<open>
  The relocations of a patch, \<open>patcher/relocations.c\<close>: collecting the external symbols of the
  patch, finding the library each one is defined in, and writing the resulting addresses
  into the slots of the loaded patch. An external symbol is an element of one of the two lists
  of the patch; the operations return the changed symbol.
\<close>

section \<open>Collecting\<close>

text \<open>Errors of the two sections are dropped; the tables are only printed.\<close>

definition collect_relocations :: "'w ext \<Rightarrow> 'w pst \<Rightarrow> (int \<times> 'w pst) option" where
  "collect_relocations x s = do {
     ei \<leftarrow> ctx_patch_ei (ctx s);
     p \<leftarrow> ctx_patch (ctx s);
     (_, s, plt) \<leftarrow> elf_rela_plt x ei (s, rela_plt (patch_of s p));
     let s = upd_patch p (\<lambda>q. q\<lparr>rela_plt := plt\<rparr>) s;
     (_, s, dyn) \<leftarrow> elf_rela_dyn x ei (s, rela_dyn (patch_of s p));
     Some (0, upd_patch p (\<lambda>q. q\<lparr>rela_dyn := dyn\<rparr>) s) }"

section \<open>Resolving\<close>

fun find_in_deps ::
    "'w ext \<Rightarrow> ptr option \<Rightarrow> extern_symbol \<Rightarrow> u64 \<Rightarrow> ptr list \<Rightarrow> 'w pst \<Rightarrow> ((int \<times> extern_symbol) \<times> 'w pst) option" where
  "find_in_deps x stop_dlm es pvalue [] s = Some ((- ENOENT, es), s)"
| "find_in_deps x stop_dlm es pvalue (dlm # deps) s =
     (if pvalue \<noteq> 0 \<and> stop_dlm = Some dlm then Some ((sint pvalue, es), s)
      else do {
        (value, s) \<leftarrow> elf_dyn_sym_value x (dl_ei (dlm_of s dlm)) (es_name es) s;
        if value < 0 then Some ((value, es), s)
        else if value \<noteq> 0 then Some ((value, es\<lparr>es_dlm := Some dlm\<rparr>), s)
        else find_in_deps x stop_dlm es pvalue deps s })"

definition do_find_dym_sym ::
    "'w ext \<Rightarrow> ptr list \<Rightarrow> ptr option \<Rightarrow> extern_symbol \<Rightarrow> u64 \<Rightarrow> 'w pst \<Rightarrow> ((int \<times> extern_symbol) \<times> 'w pst) option" where
  "do_find_dym_sym x deps stop_dlm es pvalue s = find_in_deps x stop_dlm (es\<lparr>es_dlm := None\<rparr>) pvalue deps s"

fun check_marked_symbols :: "ptr option \<Rightarrow> marked_sym_s list \<Rightarrow> extern_symbol \<Rightarrow> int \<times> extern_symbol" where
  "check_marked_symbols target [] es = (0, es)"
| "check_marked_symbols target (ms # msyms) es =
     (if ms_idx ms = es_r_sym es then (sint (ms_addr ms), es\<lparr>es_dlm := target\<rparr>)
      else check_marked_symbols target msyms es)"

definition check_manual_symbols :: "patch_s \<Rightarrow> extern_symbol \<Rightarrow> int \<times> extern_symbol" where
  "check_manual_symbols p es = check_marked_symbols (target_dlm p) (manual_syms (pi p)) es"

definition check_global_symbols :: "patch_s \<Rightarrow> extern_symbol \<Rightarrow> int \<times> extern_symbol" where
  "check_global_symbols p es = check_marked_symbols (target_dlm p) (global_syms (pi p)) es"

text \<open>An empty list has its anchor as the first entry: \<open>None\<close>.\<close>

definition target_is_executable :: "patch_s \<Rightarrow> ptr list \<Rightarrow> bool option" where
  "target_is_executable p needed_list =
     (case needed_list of [] \<Rightarrow> None | dlm # _ \<Rightarrow> Some (target_dlm p = Some dlm))"

definition es_find_dyn_sym :: "'w ext \<Rightarrow> extern_symbol \<Rightarrow> 'w pst \<Rightarrow> ((int \<times> extern_symbol) \<times> 'w pst) option" where
  "es_find_dyn_sym x es s = do {
     q \<leftarrow> ctx_patch (ctx s);
     let p = patch_of s q;
     let (value, es) = check_manual_symbols p es;
     if value \<noteq> 0 then Some ((value, es), s)
     else do {
       exec \<leftarrow> target_is_executable p (ctx_needed_list (ctx s));
       let (value, es) = (if exec then check_global_symbols p es else (0, es));
       if value \<noteq> 0 then Some ((value, es), s)
       else do {
         ((value, es), s) \<leftarrow> do_find_dym_sym x (ctx_needed_list (ctx s)) (target_dlm p) es (es_s_value es) s;
         if value \<noteq> - ENOENT then Some ((value, es), s)
         else do_find_dym_sym x (ctx_needed_list (ctx s)) None es (es_s_value es) s } } }"

definition resolve_symbol :: "'w ext \<Rightarrow> extern_symbol \<Rightarrow> 'w pst \<Rightarrow> ((int \<times> extern_symbol) \<times> 'w pst) option" where
  "resolve_symbol x es s = do {
     ((value, es), s) \<leftarrow> es_find_dyn_sym x es s;
     if value < 0 then Some ((to_int value, es), s)
     else let (err, es) = elf_reloc_sym es (of_int value)
          in if err < 0 then Some ((err, es), s) else Some ((0, es), s) }"

text \<open>The symbol as it is left on its list; \<open>None\<close> when it is unlinked.\<close>

definition resolve_es :: "'w ext \<Rightarrow> extern_symbol \<Rightarrow> 'w pst \<Rightarrow> ((int \<times> extern_symbol option) \<times> 'w pst) option" where
  "resolve_es x es s =
     (if elf_weak_sym es \<and> es_s_value es = 0 then Some ((0, None), s)
      else do {
        ((err, es), s) \<leftarrow> resolve_symbol x es s;
        Some ((if err \<noteq> 0 then - ENOENT else 0, Some es), s) })"

fun resolve_list ::
    "'w ext \<Rightarrow> extern_symbol list \<Rightarrow> 'w pst \<Rightarrow> ((int \<times> extern_symbol list) \<times> 'w pst) option" where
  "resolve_list x [] s = Some ((0, []), s)"
| "resolve_list x (es # ess) s = do {
     ((err, es'), s) \<leftarrow> resolve_es x es s;
     let kept = (case es' of None \<Rightarrow> [] | Some e \<Rightarrow> [e]);
     if err \<noteq> 0 then Some ((err, kept @ ess), s)
     else do {
       ((err, ess), s) \<leftarrow> resolve_list x ess s;
       Some ((err, kept @ ess), s) } }"

text \<open>Printing a resolved symbol without an object reads the path of the target.\<close>

definition print_resolution :: "'w pst \<Rightarrow> ptr \<Rightarrow> extern_symbol list \<Rightarrow> unit option" where
  "print_resolution s p ess =
     (if list_all (\<lambda>es. es_address es = 0 \<or> es_dlm es \<noteq> None \<or> target_dlm (patch_of s p) \<noteq> None) ess
      then Some () else None)"

definition resolve_relocations :: "'w ext \<Rightarrow> 'w pst \<Rightarrow> (int \<times> 'w pst) option" where
  "resolve_relocations x s = do {
     p \<leftarrow> ctx_patch (ctx s);
     ((err, plt), s) \<leftarrow> resolve_list x (rela_plt (patch_of s p)) s;
     let s = upd_patch p (\<lambda>q. q\<lparr>rela_plt := plt\<rparr>) s;
     if err \<noteq> 0 then Some (err, s)
     else do {
       ((err, dyn), s) \<leftarrow> resolve_list x (rela_dyn (patch_of s p)) s;
       let s = upd_patch p (\<lambda>q. q\<lparr>rela_dyn := dyn\<rparr>) s;
       if err \<noteq> 0 then Some (err, s)
       else do {
         _ \<leftarrow> print_resolution s p (rela_plt (patch_of s p));
         _ \<leftarrow> print_resolution s p (rela_dyn (patch_of s p));
         Some (0, s) } } }"

section \<open>Applying\<close>

definition apply_es :: "'w ext \<Rightarrow> extern_symbol \<Rightarrow> 'w pst \<Rightarrow> (int \<times> 'w pst) option" where
  "apply_es x es s = do {
     p \<leftarrow> ctx_patch (ctx s);
     pdlm \<leftarrow> patch_dlm (patch_of s p);
     plt_base \<leftarrow> dlm_load_base s (dlm_of s pdlm);
     func_base \<leftarrow> dlm_load_base s (dlm_of s (case es_dlm es of Some dlm \<Rightarrow> dlm | None \<Rightarrow> pdlm));
     _ \<leftarrow> (if es_dlm es = None then target_dlm (patch_of s p) else Some pdlm);
     Some (process_write_data x (plt_base + es_r_offset es) (le_bytes 8 (func_base + es_address es)) s) }"

definition apply_relocations :: "'w ext \<Rightarrow> 'w pst \<Rightarrow> (int \<times> 'w pst) option" where
  "apply_relocations x s = do {
     p \<leftarrow> ctx_patch (ctx s);
     (err, s) \<leftarrow> iterate (apply_es x) (rela_plt (patch_of s p)) s;
     if err \<noteq> 0 then Some (err, s) else iterate (apply_es x) (rela_dyn (patch_of s p)) s }"

section \<open>Where a symbol is found\<close>

text \<open>
  What the symbol tables say: in every state with \<open>I\<close> the object \<open>d\<close> defines the name at
  \<open>v d\<close>, or not when it is 0. Looking it up may fill the caches of the object.
\<close>

definition symbol_table :: "'w ext \<Rightarrow> string \<Rightarrow> ('w pst \<Rightarrow> bool) \<Rightarrow> (ptr \<Rightarrow> int) \<Rightarrow> bool" where
  "symbol_table x name I v \<longleftrightarrow> (\<forall>d. 0 \<le> v d) \<and>
     (\<forall>s d. I s \<longrightarrow> (\<exists>t. elf_dyn_sym_value x (dl_ei (dlm_of s d)) name s = Some (v d, t)
        \<and> I t \<and> ctx t = ctx s \<and> patch_of t = patch_of s \<and> dlm_of t = dlm_of s))"

definition keeps_ctx :: "'w pst \<Rightarrow> 'w pst \<Rightarrow> bool" where
  "keeps_ctx s t \<longleftrightarrow> ctx t = ctx s \<and> patch_of t = patch_of s \<and> dlm_of t = dlm_of s"

text \<open>The first object of the list that defines the symbol.\<close>

definition provider :: "(ptr \<Rightarrow> int) \<Rightarrow> ptr list \<Rightarrow> ptr option" where
  "provider v deps = find (\<lambda>d. v d \<noteq> 0) deps"

lemma find_in_deps_table:
  assumes "symbol_table x (es_name es) I v" "I s" "pvalue = 0 \<or> (\<forall>d \<in> set deps. stop \<noteq> Some d)"
  shows "\<exists>t. I t \<and> keeps_ctx s t \<and> find_in_deps x stop es pvalue (deps @ rest) s =
    (case provider v deps of
       Some d \<Rightarrow> Some ((v d, es\<lparr>es_dlm := Some d\<rparr>), t)
     | None \<Rightarrow> find_in_deps x stop es pvalue rest t)"
  using assms(2,3)
proof (induction deps arbitrary: s)
  case Nil
  then show ?case by (auto simp: provider_def keeps_ctx_def)
next
  case (Cons d deps)
  obtain t where t: "elf_dyn_sym_value x (dl_ei (dlm_of s d)) (es_name es) s = Some (v d, t)" "I t" "keeps_ctx s t"
    using assms(1) Cons.prems(1) unfolding symbol_table_def keeps_ctx_def by blast
  have pos: "0 \<le> v d" using assms(1) by (simp add: symbol_table_def)
  show ?case
  proof (cases "v d = 0")
    case True
    with Cons.IH[of t] Cons.prems t show ?thesis by (auto simp: provider_def keeps_ctx_def)
  next
    case False
    with t pos Cons.prems show ?thesis by (auto simp: provider_def)
  qed
qed

lemma es_s_value_upd [simp]: "es_s_value (es\<lparr>es_dlm := d\<rparr>) = es_s_value es"
  by (simp add: es_s_value_def)

lemma find_in_deps_stop:
  assumes "symbol_table x (es_name es) I v" "I s" "td \<notin> set deps" "pvalue \<noteq> 0"
  shows "\<exists>t. I t \<and> keeps_ctx s t \<and> find_in_deps x (Some td) es pvalue (deps @ td # rest) s =
    (case provider v deps of
       Some d \<Rightarrow> Some ((v d, es\<lparr>es_dlm := Some d\<rparr>), t)
     | None \<Rightarrow> Some ((sint pvalue, es), t))"
proof -
  have "pvalue = 0 \<or> (\<forall>d \<in> set deps. Some td \<noteq> Some d)" using assms(3) by auto
  from find_in_deps_table[OF assms(1,2) this, of "td # rest"] assms(4) show ?thesis
    by (auto split: option.splits)
qed

text \<open>A symbol that the patch marks: neither its manual nor, in an executable, its global list has it.\<close>

definition unmarked :: "patch_s \<Rightarrow> extern_symbol \<Rightarrow> bool" where
  "unmarked p es \<longleftrightarrow> (\<forall>ms \<in> set (manual_syms (pi p)) \<union> set (global_syms (pi p)). ms_idx ms \<noteq> es_r_sym es)"

lemma check_marked_none: "\<forall>ms \<in> set msyms. ms_idx ms \<noteq> es_r_sym es \<Longrightarrow> check_marked_symbols td msyms es = (0, es)"
  by (induction msyms) auto

lemma es_find_unmarked:
  assumes "ctx_patch (ctx s) = Some p" "unmarked (patch_of s p) es" "ctx_needed_list (ctx s) \<noteq> []"
  shows "es_find_dyn_sym x es s = do {
     ((value, es), s) \<leftarrow> do_find_dym_sym x (ctx_needed_list (ctx s)) (target_dlm (patch_of s p)) es (es_s_value es) s;
     if value \<noteq> - ENOENT then Some ((value, es), s)
     else do_find_dym_sym x (ctx_needed_list (ctx s)) None es (es_s_value es) s }"
proof -
  have "check_manual_symbols (patch_of s p) es = (0, es)" "check_global_symbols (patch_of s p) es = (0, es)"
    using assms(2) by (auto simp: unmarked_def check_manual_symbols_def check_global_symbols_def intro!: check_marked_none)
  moreover obtain b where "target_is_executable (patch_of s p) (ctx_needed_list (ctx s)) = Some b"
    using assms(3) by (cases "ctx_needed_list (ctx s)") (auto simp: target_is_executable_def)
  ultimately show ?thesis using assms(1) by (cases b) (simp_all add: es_find_dyn_sym_def Let_def)
qed

text \<open>
  C13: A symbol that the patch defines itself and does not mark is resolved as if the patch
  stood in the search list in place of the library it patches: the first library in front of
  the patched one that defines the symbol provides it, and otherwise the patch does (no
  object is recorded, the value is the one in the patch).
\<close>

theorem patch_symbol_interposition:
  assumes "symbol_table x (es_name es) I v" and "I s" and "ctx_patch (ctx s) = Some p"
    and "target_dlm (patch_of s p) = Some td" and "unmarked (patch_of s p) es"
    and "ctx_needed_list (ctx s) = before @ td # after" and "td \<notin> set before"
    and "es_s_value es \<noteq> 0" and "sint (es_s_value es) \<noteq> - ENOENT"
  shows "\<exists>t. es_find_dyn_sym x es s =
    (case provider v before of
       Some d \<Rightarrow> Some ((v d, es\<lparr>es_dlm := Some d\<rparr>), t)
     | None \<Rightarrow> Some ((sint (es_s_value es), es\<lparr>es_dlm := None\<rparr>), t))"
proof -
  have pos: "v d \<noteq> - ENOENT" for d using assms(1) by (auto simp: symbol_table_def dest: spec[of _ d])
  have name: "symbol_table x (es_name (es\<lparr>es_dlm := None\<rparr>)) I v" using assms(1) by simp
  from find_in_deps_stop[OF name assms(2,7,8), of after] show ?thesis
    using es_find_unmarked[OF assms(3,5)] assms(4,6,9) pos
    by (auto simp: do_find_dym_sym_def split: option.splits)
qed

text \<open>
  C14: A symbol that the patch does not define and does not mark is resolved to the first
  library of the search list that defines it; when no library does, the resolution fails with
  \<open>-ENOENT\<close>.
\<close>

theorem import_resolution:
  assumes "symbol_table x (es_name es) I v" and "I s" and "ctx_patch (ctx s) = Some p"
    and "unmarked (patch_of s p) es" and "ctx_needed_list (ctx s) \<noteq> []" and "es_s_value es = 0"
  shows "\<exists>t. es_find_dyn_sym x es s =
    (case provider v (ctx_needed_list (ctx s)) of
       Some d \<Rightarrow> Some ((v d, es\<lparr>es_dlm := Some d\<rparr>), t)
     | None \<Rightarrow> Some ((- ENOENT, es\<lparr>es_dlm := None\<rparr>), t))"
proof -
  let ?e = "es\<lparr>es_dlm := None\<rparr>" and ?L = "ctx_needed_list (ctx s)"
  have pos: "v d \<noteq> - ENOENT" for d using assms(1) by (auto simp: symbol_table_def dest: spec[of _ d])
  have name: "symbol_table x (es_name ?e) I v" using assms(1) by simp
  from find_in_deps_table[OF name assms(2), of 0 ?L "target_dlm (patch_of s p)" "[]"] obtain t where
    t: "I t" "keeps_ctx s t" "find_in_deps x (target_dlm (patch_of s p)) ?e 0 ?L s =
      (case provider v ?L of Some d \<Rightarrow> Some ((v d, es\<lparr>es_dlm := Some d\<rparr>), t) | None \<Rightarrow> Some ((- ENOENT, ?e), t))"
    by (auto cong: option.case_cong)
  from find_in_deps_table[OF name t(1), of 0 ?L None "[]"] obtain u where
    u: "find_in_deps x None ?e 0 ?L t =
      (case provider v ?L of Some d \<Rightarrow> Some ((v d, es\<lparr>es_dlm := Some d\<rparr>), u) | None \<Rightarrow> Some ((- ENOENT, ?e), u))"
    by (auto cong: option.case_cong)
  show ?thesis
  proof (cases "provider v ?L")
    case None
    with t(2,3) u es_find_unmarked[OF assms(3-5)] assms(6) show ?thesis
      by (simp add: do_find_dym_sym_def keeps_ctx_def)
  next
    case (Some d)
    with t(3) es_find_unmarked[OF assms(3-5)] assms(6) pos[of d] show ?thesis
      by (simp add: do_find_dym_sym_def)
  qed
qed

section \<open>The slots of the patch\<close>

text \<open>What is written for a symbol, when the load bases are known.\<close>

definition slot :: "'w pst \<Rightarrow> ptr \<Rightarrow> extern_symbol \<Rightarrow> block" where
  "slot s pd es = (the (dlm_load_base s (dlm_of s pd)) + es_r_offset es,
     le_bytes 8 (the (dlm_load_base s (dlm_of s (case es_dlm es of Some dlm \<Rightarrow> dlm | None \<Rightarrow> pd))) + es_address es))"

definition based :: "'w pst \<Rightarrow> ptr \<Rightarrow> bool" where
  "based s d \<longleftrightarrow> dlm_load_base s (dlm_of s d) \<noteq> None"

lemma apply_list_mem:
  assumes "memory_ext x mem" "ctx_patch (ctx s) = Some p" "patch_dlm (patch_of s p) = Some pd"
    and "target_dlm (patch_of s p) = Some td" "based s pd" "\<forall>es \<in> set ess. \<forall>d. es_dlm es = Some d \<longrightarrow> based s d"
  shows "\<exists>w'. iterate (apply_es x) ess (s\<lparr>world := w\<rparr>) = Some (0, s\<lparr>world := w'\<rparr>) \<and> mem w' = writes (map (slot s pd) ess) (mem w)"
  using assms(6)
proof (induction ess arbitrary: w)
  case Nil
  then show ?case by auto
next
  case (Cons es ess)
  let ?b = "slot s pd es"
  have l: "length (snd ?b) < 2 ^ 64" by (simp add: slot_def)
  have "apply_es x es (s\<lparr>world := w\<rparr>) = Some (process_write_data x (fst ?b) (snd ?b) (s\<lparr>world := w\<rparr>))"
    using assms(2-5) Cons.prems by (cases "es_dlm es") (auto simp: apply_es_def slot_def based_def)
  with process_write_data_mem[OF assms(1) l, of "fst ?b" "s\<lparr>world := w\<rparr>"] obtain w1 where
    "apply_es x es (s\<lparr>world := w\<rparr>) = Some (0, s\<lparr>world := w1\<rparr>)" "mem w1 = mem_write (mem w) (fst ?b) (snd ?b)" by auto
  with Cons.IH[of w1] Cons.prems show ?case by simp
qed

lemma apply_relocations_mem:
  assumes "memory_ext x mem" and "ctx_patch (ctx s) = Some p" and "patch_dlm (patch_of s p) = Some pd"
    and "target_dlm (patch_of s p) = Some td" and "based s pd"
    and "\<forall>es \<in> set (rela_plt (patch_of s p) @ rela_dyn (patch_of s p)). \<forall>d. es_dlm es = Some d \<longrightarrow> based s d"
  shows "\<exists>w. apply_relocations x s = Some (0, s\<lparr>world := w\<rparr>)
    \<and> mem w = writes (map (slot s pd) (rela_plt (patch_of s p) @ rela_dyn (patch_of s p))) (mem (world s))"
proof -
  from apply_list_mem[OF assms(1-5), of "rela_plt (patch_of s p)" "world s"] assms(6) obtain w1 where
    w1: "iterate (apply_es x) (rela_plt (patch_of s p)) s = Some (0, s\<lparr>world := w1\<rparr>)"
      "mem w1 = writes (map (slot s pd) (rela_plt (patch_of s p))) (mem (world s))" by auto
  from apply_list_mem[OF assms(1-5), of "rela_dyn (patch_of s p)" w1] assms(6) w1 show ?thesis
    using assms(2) by (auto simp: apply_relocations_def writes_append)
qed

text \<open>
  C12: Applying the relocations of a patch that is really loaded (not in a dry run) fills its slots: at the load base of the
  patch plus the offset of each relocation it stores the address of the symbol, that is the
  load base of the library that provides it (of the patch itself when none is recorded) plus
  the resolved value, first for \<open>.rela.plt\<close> and then for \<open>.rela.dyn\<close>, and writes nothing
  else. Reads and writes of the target's memory are taken to succeed, as they do where the patch is mapped.
\<close>

theorem relocations_fill_slots:
  assumes "memory_ext x mem" and "\<not> ctx_dry_run (ctx s)"
    and "ctx_patch (ctx s) = Some p" and "patch_dlm (patch_of s p) = Some pd"
    and "target_dlm (patch_of s p) = Some td" and "based s pd"
    and "\<forall>es \<in> set (rela_plt (patch_of s p) @ rela_dyn (patch_of s p)). \<forall>d. es_dlm es = Some d \<longrightarrow> based s d"
  shows "\<exists>w. apply_relocations x s = Some (0, s\<lparr>world := w\<rparr>)
    \<and> mem w = writes (map (slot s pd) (rela_plt (patch_of s p) @ rela_dyn (patch_of s p))) (mem (world s))"
  by (rule apply_relocations_mem[OF assms(1,3-7)])

section \<open>Instances\<close>

text \<open>
  A process with the executable 1, the patched library 2 and the library 3; a name is defined
  by the executable when its number is 1. The caches of the objects are filled already.
\<close>

definition sim_es :: "u64 \<Rightarrow> extern_symbol" where
  "sim_es v = \<lparr>es_name = ''f'', es_rela = \<lparr>r_offset = 0x3018, r_info = 0x500000007, r_addend = 0\<rparr>,
     es_sym = \<lparr>st_name = 1, st_info = 0x12, st_value = v, st_size = 8\<rparr>, es_dlm = None, es_address = 0\<rparr>"

definition sim_symbols :: "nat \<Rightarrow> simw pst" where
  "sim_symbols k = sim_state\<lparr>
     ei_of := (\<lambda>e. sim_ei\<lparr>ei_dynsym := Some \<lparr>scn_ndx = 4, nr_ent = if e = k then 1 else 0\<rparr>, ei_dynstr := Some 5,
        ei_elf := sim_elf\<lparr>gelf_getsym := (\<lambda>i j. Some \<lparr>st_name = 1, st_info = 0x12, st_value = 0x730, st_size = 8\<rparr>),
          elf_strptr := (\<lambda>i off. Some ''f'')\<rparr>\<rparr>),
     dlm_of := (\<lambda>d. sim_dlm\<lparr>dl_ei := d, exec_vma := Some d\<rparr>),
     vma_of := (\<lambda>v. sim_vma\<lparr>vaddr := 0x10000 * of_nat v\<rparr>),
     patch_of := (\<lambda>p. sim_patch\<lparr>target_dlm := Some 2, patch_dlm := Some 7,
        rela_plt := [(sim_es 0)\<lparr>es_dlm := Some 1, es_address := 0x730\<rparr>]\<rparr>),
     process_context := sim_ctx\<lparr>ctx_patch := Some 9, ctx_needed_list := [1, 2, 3]\<rparr>\<rparr>"

lemma sim_symbols_sel:
  "ctx_patch (ctx (sim_symbols k)) = Some 9" "ctx_needed_list (ctx (sim_symbols k)) = [1, 2, 3]"
  "target_dlm (patch_of (sim_symbols k) 9) = Some 2" "patch_dlm (patch_of (sim_symbols k) 9) = Some 7"
  "unmarked (patch_of (sim_symbols k) 9) es" "based (sim_symbols k) d"
  "dlm_load_base (sim_symbols k) (dlm_of (sim_symbols k) d) = Some (0x10000 * of_nat d)" "\<not> ctx_dry_run (ctx (sim_symbols k))"
  by (simp_all add: sim_symbols_def sim_ctx_def sim_patch_def sim_pi_def unmarked_def based_def dlm_load_base_def
      elf_type_dyn_def sim_ei_def sim_dlm_def sim_vma_def vma_accessors)

lemma sim_symbols_table:
  "symbol_table sim_ext ''f'' (\<lambda>s. s = sim_symbols k) (\<lambda>d. if d = k then 0x730 else 0)"
  by (simp add: symbol_table_def sim_symbols_def elf_dyn_sym_value_def elf_find_dsym_by_name_def find_dyn_sym_def
      elf_set_dynsym_scn_def elf_set_scn_def find_sym_def compare_sym_name_def dynsym_name_def get_symbol_name_def
      sim_ei_def sim_elf_def sim_dlm_def)

theorem patch_symbol_interposition_witness:
  "(\<exists>t. es_find_dyn_sym sim_ext (sim_es 0x1130) (sim_symbols 1) = Some ((0x730, (sim_es 0x1130)\<lparr>es_dlm := Some 1\<rparr>), t))
   \<and> (\<exists>t. es_find_dyn_sym sim_ext (sim_es 0x1130) (sim_symbols 3) = Some ((0x1130, (sim_es 0x1130)\<lparr>es_dlm := None\<rparr>), t))"
proof -
  have "\<exists>t. es_find_dyn_sym sim_ext (sim_es 0x1130) (sim_symbols k) =
    (case provider (\<lambda>d. if d = k then 0x730 else 0) [1] of
       Some d \<Rightarrow> Some ((if d = k then 0x730 else 0, (sim_es 0x1130)\<lparr>es_dlm := Some d\<rparr>), t)
     | None \<Rightarrow> Some ((sint (es_s_value (sim_es 0x1130)), (sim_es 0x1130)\<lparr>es_dlm := None\<rparr>), t))" for k
    by (rule patch_symbol_interposition[where I = "\<lambda>s. s = sim_symbols k" and p = 9 and td = 2 and after = "[3]"])
      (simp_all add: sim_symbols_sel sim_symbols_table sim_es_def es_s_value_def)
  from this[of 1] this[of 3] show ?thesis by (simp add: provider_def sim_es_def es_s_value_def)
qed

theorem import_resolution_witness:
  "\<exists>t. es_find_dyn_sym sim_ext (sim_es 0) (sim_symbols 3) = Some ((0x730, (sim_es 0)\<lparr>es_dlm := Some 3\<rparr>), t)"
proof -
  have "\<exists>t. es_find_dyn_sym sim_ext (sim_es 0) (sim_symbols 3) =
    (case provider (\<lambda>d. if d = 3 then 0x730 else 0) (ctx_needed_list (ctx (sim_symbols 3))) of
       Some d \<Rightarrow> Some ((if d = 3 then 0x730 else 0, (sim_es 0)\<lparr>es_dlm := Some d\<rparr>), t)
     | None \<Rightarrow> Some ((- ENOENT, (sim_es 0)\<lparr>es_dlm := None\<rparr>), t))"
    by (rule import_resolution[where I = "\<lambda>s. s = sim_symbols 3" and p = 9])
      (simp_all add: sim_symbols_sel sim_symbols_table sim_es_def es_s_value_def)
  then show ?thesis by (simp add: sim_symbols_sel provider_def)
qed

theorem relocations_fill_slots_witness:
  "\<exists>w. apply_relocations sim_ext (sim_symbols 3) = Some (0, (sim_symbols 3)\<lparr>world := w\<rparr>)
     \<and> sim_mem w = mem_write (\<lambda>a. 0x90) 0x73018 (le_bytes 8 0x10730)"
proof -
  have r: "rela_plt (patch_of (sim_symbols 3) 9) = [(sim_es 0)\<lparr>es_dlm := Some 1, es_address := 0x730\<rparr>]"
    "rela_dyn (patch_of (sim_symbols 3) 9) = []" "sim_mem (world (sim_symbols 3)) = (\<lambda>a. 0x90)"
    by (simp_all add: sim_symbols_def sim_patch_def sim_world_def)
  have "\<exists>w. apply_relocations sim_ext (sim_symbols 3) = Some (0, (sim_symbols 3)\<lparr>world := w\<rparr>)
    \<and> sim_mem w = writes (map (slot (sim_symbols 3) 7) (rela_plt (patch_of (sim_symbols 3) 9) @ rela_dyn (patch_of (sim_symbols 3) 9)))
        (sim_mem (world (sim_symbols 3)))"
    by (rule relocations_fill_slots[OF sim_memory_ext, where td = 2]) (simp_all add: sim_symbols_sel)
  then show ?thesis by (simp add: r slot_def sim_symbols_sel sim_es_def es_r_offset_def del: le_bytes.simps)
qed

end
