(* ===== verification/Patch.thy ===== *)
theory Patch
  imports Relocations
begin

text \<open>
  The commands of the patcher, the rest of \<open>patcher/patch.c\<close>: loading a patch and applying it
  to a stopped process, reverting it, checking for it and listing what is applied. Whatever
  happens after the process was stopped, \<open>process_resume\<close> is called before the command returns.
\<close>

section \<open>The context\<close>

text \<open>
  The static initialiser of \<open>process_context\<close>; \<open>check_backtrace\<close>, null there, is set before it is
  used.
\<close>

definition initial_context :: process_ctx_s where
  "initial_context = \<lparr>ctx_pid = 0, ctx_patchfile = [], ctx_dry_run = False, ctx_patch_ei = None,
     ctx_check_backtrace = Jumps_check_backtrace, ctx_ctl = False,
     ctx_service = \<lparr>sv_name = ''libnsb_service.so'', sv_pid = 0, sv_handle = 0, sv_dlm = None, sv_sock = -1,
       sv_runner = 0, sv_loaded = False\<rparr>,
     ctx_vmas = [], ctx_dl_maps = [], ctx_applied_patches = [],
     ctx_remote_vma = null_vma\<lparr>vlen := 4096, vflags := MAP_ANONYMOUS OR MAP_PRIVATE,
       vprot := PROT_READ OR PROT_WRITE OR PROT_EXEC\<rparr>,
     ctx_needed_list = [], ctx_threads = [], ctx_patch = None\<rparr>"

definition init_patch :: "'w ext \<Rightarrow> 'w pst \<Rightarrow> (int \<times> 'w pst) option" where
  "init_patch x s = do {
     ((err, ei), s) \<leftarrow> elf_create_info x (ctx_patchfile (ctx s)) s;
     if err \<noteq> 0 then Some (err, s)
     else case create_patch x ei s of
            ((err, p), s) \<Rightarrow>
              if err \<noteq> 0 then Some (err, elf_destroy_info x ei s)
              else Some (0, upd_ctx (\<lambda>c. c\<lparr>ctx_patch := Some p, ctx_patch_ei := Some ei\<rparr>) s) }"

definition init_context :: "'w ext \<Rightarrow> pid \<Rightarrow> string \<Rightarrow> bool \<Rightarrow> 'w pst \<Rightarrow> (int \<times> 'w pst) option" where
  "init_context x pid patchfile dry_run s =
     (if elf_library_status x \<noteq> 0 then Some (-1, s)
      else do {
        (err, s) \<leftarrow> init_patch x (upd_ctx (\<lambda>c. c\<lparr>ctx_pid := pid, ctx_patchfile := patchfile, ctx_dry_run := dry_run\<rparr>) s);
        Some (if err \<noteq> 0 then 1 else 0, s) })"

section \<open>Loading and applying\<close>

definition patch_unload :: "'w ext \<Rightarrow> ptr \<Rightarrow> 'w pst \<Rightarrow> (int \<times> 'w pst) option" where
  "patch_unload x p s = do {
     dlm \<leftarrow> patch_dlm (patch_of s p);
     unload_elf x (dlm_of s dlm) s }"

definition unload_patch :: "'w ext \<Rightarrow> 'w pst \<Rightarrow> (int \<times> 'w pst) option" where
  "unload_patch x s = do {
     p \<leftarrow> ctx_patch (ctx s);
     patch_unload x p s }"

definition load_patch :: "'w ext \<Rightarrow> 'w pst \<Rightarrow> (int \<times> 'w pst) option" where
  "load_patch x s = do {
     ei \<leftarrow> ctx_patch_ei (ctx s);
     case alloc_dl_map x ei (Some (ctx_patchfile (ctx s))) s of
       (None, s) \<Rightarrow> Some (- ENOMEM, s)
     | (Some dlm, s) \<Rightarrow> do {
         (err, s) \<leftarrow> load_elf x dlm s;
         if err \<noteq> 0 then Some (err, s)
         else do {
           p \<leftarrow> ctx_patch (ctx s);
           Some (0, upd_patch p (\<lambda>q. q\<lparr>patch_dlm := Some dlm\<rparr>)
                      (upd_ctx (\<lambda>c. c\<lparr>ctx_applied_patches := ctx_applied_patches c @ [p]\<rparr>) s)) } } }"

text \<open>The error paths: unload the patch, or revert the jumps; their own errors are only logged.\<close>

definition undo_load :: "'w ext \<Rightarrow> int \<Rightarrow> 'w pst \<Rightarrow> (int \<times> 'w pst) option" where
  "undo_load x err s = do {
     (_, s) \<leftarrow> unload_patch x s;
     Some (err, s) }"

definition apply_dyn_binpatch :: "'w ext \<Rightarrow> 'w pst \<Rightarrow> (int \<times> 'w pst) option" where
  "apply_dyn_binpatch x s = do {
     (err, s) \<leftarrow> load_patch x s;
     if err \<noteq> 0 then Some (err, s)
     else do {
       (err, s) \<leftarrow> apply_relocations x s;
       if err \<noteq> 0 then undo_load x err s
       else do {
         (err, s) \<leftarrow> apply_static_refs x s;
         if err \<noteq> 0 then undo_load x err s
         else do {
           (err, s) \<leftarrow> tune_func_jumps x s;
           if err \<noteq> 0 then undo_load x err s
           else do {
             (err, s) \<leftarrow> apply_func_jumps x s;
             if err \<noteq> 0 then do {
               (_, s) \<leftarrow> revert_func_jumps x s;
               Some (err, s) }
             else Some (0, s) } } } } }"

definition process_find_patch :: "'w pst \<Rightarrow> int option" where
  "process_find_patch s = do {
     p \<leftarrow> ctx_patch (ctx s);
     Some (if find_patch_by_bid s (patch_bid (pi (patch_of s p))) \<noteq> None then - EEXIST else 0) }"

section \<open>Stopping and resuming\<close>

definition process_resume :: "'w ext \<Rightarrow> 'w pst \<Rightarrow> (int \<times> 'w pst) option" where
  "process_resume x s = do {
     (err, s) \<leftarrow> process_shutdown_service x s;
     if err \<noteq> 0 then Some (err, s)
     else do {
       (err, s) \<leftarrow> process_unlink x s;
       if err \<noteq> 0 then Some (err, s) else Some (process_cure x s) } }"

definition resume_with :: "'w ext \<Rightarrow> int \<Rightarrow> 'w pst \<Rightarrow> (int \<times> 'w pst) option" where
  "resume_with x ret s = do {
     (err, s) \<leftarrow> process_resume x s;
     Some (if ret \<noteq> 0 then ret else err, s) }"

definition process_cease :: "'w ext \<Rightarrow> string \<Rightarrow> 'w pst \<Rightarrow> (int \<times> 'w pst) option" where
  "process_cease x bid s = do {
     (err, s) \<leftarrow> process_suspend x bid s;
     if err \<noteq> 0 then Some (err, s)
     else do {
       (ret, s) \<leftarrow> process_link x s;
       if ret \<noteq> 0 then resume_with x ret s
       else do {
         (ret, s) \<leftarrow> process_collect_vmas x s;
         if ret \<noteq> 0 then resume_with x ret s else Some (0, s) } } }"

section \<open>The commands\<close>

text \<open>The steps between stopping and resuming; the first error ends them.\<close>

definition patch_steps :: "'w ext \<Rightarrow> bool \<Rightarrow> 'w pst \<Rightarrow> (int \<times> 'w pst) option" where
  "patch_steps x no_plugin s = do {
     ret \<leftarrow> process_find_patch s;
     if ret \<noteq> 0 then Some (ret, s)
     else do {
       (ret, s) \<leftarrow> process_find_target_dlm s;
       if ret \<noteq> 0 then Some (ret, s)
       else do {
         (ret, s) \<leftarrow> (if \<not> no_plugin then process_inject_service x s else Some (0, s));
         if ret \<noteq> 0 then Some (ret, s)
         else do {
           (ret, s) \<leftarrow> process_collect_needed x s;
           if ret \<noteq> 0 then Some (ret, s)
           else do {
             (ret, s) \<leftarrow> collect_relocations x s;
             if ret \<noteq> 0 then Some (ret, s)
             else do {
               (ret, s) \<leftarrow> resolve_relocations x s;
               if ret \<noteq> 0 then Some (ret, s) else apply_dyn_binpatch x s } } } } } }"

definition patch_process :: "'w ext \<Rightarrow> pid \<Rightarrow> string \<Rightarrow> bool \<Rightarrow> bool \<Rightarrow> 'w pst \<Rightarrow> (int \<times> 'w pst) option" where
  "patch_process x pid patchfile dry_run no_plugin s = do {
     (err, s) \<leftarrow> init_context x pid patchfile dry_run s;
     if err \<noteq> 0 then Some (err, s)
     else do {
       let s = upd_ctx (\<lambda>c. c\<lparr>ctx_check_backtrace := Jumps_check_backtrace\<rparr>) s;
       p \<leftarrow> ctx_patch (ctx s);
       (err, s) \<leftarrow> process_cease x (target_bid (pi (patch_of s p))) s;
       if err \<noteq> 0 then Some (err, s)
       else do {
         (ret, s) \<leftarrow> patch_steps x no_plugin s;
         resume_with x ret s } } }"

text \<open>The answer is the positive \<open>ENOENT\<close>, the exit code of the command.\<close>

definition check_process :: "'w ext \<Rightarrow> pid \<Rightarrow> string \<Rightarrow> 'w pst \<Rightarrow> (int \<times> 'w pst) option" where
  "check_process x pid patchfile s = do {
     (err, s) \<leftarrow> init_context x pid patchfile False s;
     if err \<noteq> 0 then Some (err, s)
     else do {
       (err, s) \<leftarrow> process_collect_vmas x s;
       if err \<noteq> 0 then Some (err, s)
       else do {
         p \<leftarrow> ctx_patch (ctx s);
         Some (if find_patch_by_bid s (patch_bid (pi (patch_of s p))) \<noteq> None then 0 else ENOENT, s) } } }"

text \<open>The line that is printed; a null path shows as \<open>(null)\<close>, and without a target there is no newline.\<close>

definition path_text :: "string option \<Rightarrow> string" where
  "path_text path = (case path of None \<Rightarrow> ''(null)'' | Some p \<Rightarrow> p)"

definition list_patch :: "'w pst \<Rightarrow> ptr \<Rightarrow> string option" where
  "list_patch s p = do {
     dlm \<leftarrow> patch_dlm (patch_of s p);
     Some (''  '' @ path_text (dl_path (dlm_of s dlm)) @ '' ('' @ patch_bid (pi (patch_of s p)) @ '') - ''
       @ (case target_dlm (patch_of s p) of None \<Rightarrow> [] | Some t \<Rightarrow> path_text (dl_path (dlm_of s t)) @ [CHR 0x0a])) }"

fun list_patches :: "'w pst \<Rightarrow> ptr list \<Rightarrow> string option" where
  "list_patches s [] = Some []"
| "list_patches s (p # ps) = do {
     l \<leftarrow> list_patch s p;
     ls \<leftarrow> list_patches s ps;
     Some (l @ ls) }"

text \<open>The result, what is printed, and the state.\<close>

definition list_process_patches :: "'w ext \<Rightarrow> pid \<Rightarrow> 'w pst \<Rightarrow> ((int \<times> string) \<times> 'w pst) option" where
  "list_process_patches x pid s =
     (if elf_library_status x \<noteq> 0 then Some ((-1, []), s)
      else do {
        (err, s) \<leftarrow> process_collect_vmas x (upd_ctx (\<lambda>c. c\<lparr>ctx_pid := pid\<rparr>) s);
        if err \<noteq> 0 then Some ((err, []), s)
        else if ctx_applied_patches (ctx s) = [] then Some ((0, []), s)
        else do {
          out \<leftarrow> list_patches s (ctx_applied_patches (ctx s));
          Some ((0, out), s) } })"

definition revert_dyn_binpatch :: "'w ext \<Rightarrow> ptr \<Rightarrow> 'w pst \<Rightarrow> (int \<times> 'w pst) option" where
  "revert_dyn_binpatch x p s = do {
     (err, s) \<leftarrow> (if target_dlm (patch_of s p) \<noteq> None then patch_revert_func_jumps x p s else Some (0, s));
     if err \<noteq> 0 then Some (err, s) else patch_unload x p s }"

text \<open>When the patch is not found, the error message reads through the null pointer: \<open>None\<close>.\<close>

definition unpatch_process :: "'w ext \<Rightarrow> pid \<Rightarrow> string \<Rightarrow> bool \<Rightarrow> 'w pst \<Rightarrow> (int \<times> 'w pst) option" where
  "unpatch_process x pid patchfile dry_run s = do {
     (err, s) \<leftarrow> init_context x pid patchfile dry_run s;
     if err \<noteq> 0 then Some (err, s)
     else do {
       let s = upd_ctx (\<lambda>c. c\<lparr>ctx_check_backtrace := Patch_check_backtrace\<rparr>) s;
       p \<leftarrow> ctx_patch (ctx s);
       (err, s) \<leftarrow> process_cease x (patch_bid (pi (patch_of s p))) s;
       if err \<noteq> 0 then Some (err, s)
       else do {
         q \<leftarrow> ctx_patch (ctx s);
         p \<leftarrow> find_patch_by_bid s (patch_bid (pi (patch_of s q)));
         (ret, s) \<leftarrow> revert_dyn_binpatch x p s;
         resume_with x ret s } } }"

section \<open>Errors\<close>

text \<open>
  When shutting down the service fails, \<open>process_resume\<close> returns before the threads are
  resumed: they stay stopped when the command ends.
\<close>

lemma failed_shutdown_leaves_threads_stopped:
  assumes "sv_handle (ctx_service (ctx s)) \<noteq> 0" "0 \<le> sv_sock (ctx_service (ctx s))"
    and "x_close x (sv_sock (ctx_service (ctx s))) (world s) = ((-1, e), w)" "e \<noteq> 0"
  shows "process_resume x s = Some (- e, s\<lparr>world := w, errno := e\<rparr>)"
  using assms
  by (simp add: process_resume_def process_shutdown_service_def service_stop_def service_disconnect_def ext_call_def Let_def)

text \<open>A second attempt to apply a patch is refused before anything is changed.\<close>

lemma repeated_patch_refused:
  assumes "ctx_patch (ctx s) = Some p" "q \<in> set (ctx_applied_patches (ctx s))"
    and "patch_bid (pi (patch_of s q)) = patch_bid (pi (patch_of s p))"
  shows "patch_steps x no_plugin s = Some (- EEXIST, s)"
proof -
  have "find_patch_by_bid s (patch_bid (pi (patch_of s p))) \<noteq> None"
    using assms(2,3) by (auto simp: find_patch_by_bid_def find_None_iff)
  with assms(1) show ?thesis by (simp add: patch_steps_def process_find_patch_def)
qed

end
