(* ===== verification/Process_Collect.thy ===== *)
theory Process_Collect
  imports Process
begin

text \<open>
  What the patcher knows of the process after \<open>process_collect_vmas\<close> of \<open>patcher/process.c\<close>: the
  areas, the objects they belong to and the patches among the objects. The predicate \<open>collected\<close>
  is the well-formedness of this knowledge, which the search for a place, the resolution of
  symbols and the revert of patches rely on.
\<close>

section \<open>Frames\<close>

text \<open>A relation between states that every step of a loop is in holds of the loop.\<close>

locale state_frame =
  fixes frame :: "'s \<Rightarrow> 's \<Rightarrow> bool"
  assumes frame_refl: "frame s s"
    and frame_trans: "frame s t \<Longrightarrow> frame t u \<Longrightarrow> frame s u"
begin

lemma iterate_frame:
  assumes "\<And>a s e t. f a s = Some (e, t) \<Longrightarrow> frame s t"
  shows "iterate f as s = Some (e, t) \<Longrightarrow> frame s t"
proof (induction as arbitrary: s)
  case (Cons a as)
  then obtain e1 s1 where s1: "f a s = Some (e1, s1)" by (auto split: bind_splits)
  with Cons have "e1 = 0 \<Longrightarrow> frame s1 t" by simp
  with s1 Cons.prems assms[OF s1] show ?case by (cases "e1 = 0") (auto intro: frame_trans)
qed (simp add: frame_refl)

lemma create_each_frame:
  assumes "\<And>a s r t. create a s = (r, t) \<Longrightarrow> frame s t"
  shows "create_each create as s = (r, t) \<Longrightarrow> frame s t"
proof (induction as arbitrary: s r)
  case (Cons a as)
  then show ?case
    by (auto split: prod.splits option.splits dest!: assms) (blast intro: frame_trans)+
qed (simp add: frame_refl)

end

text \<open>Allocating and calls out of the program: memory only grows.\<close>

definition alloc_frame :: "'w pst \<Rightarrow> 'w pst \<Rightarrow> bool" where
  "alloc_frame s t \<longleftrightarrow> vma_of t = vma_of s \<and> dlm_of t = dlm_of s \<and> ei_of t = ei_of s \<and> patch_of t = patch_of s
     \<and> process_context t = process_context s \<and> brk s \<le> brk t"

interpretation alloc: state_frame alloc_frame
  by unfold_locales (auto simp: alloc_frame_def)

lemma xmalloc_alloc: "xmalloc x s = (r, t) \<Longrightarrow> alloc_frame s t"
  by (auto simp: alloc_frame_def dest!: xmalloc_keeps split: option.splits)

lemma creators_alloc:
  "create_funcjump x fj s = (r, t) \<Longrightarrow> alloc_frame s t"
  "create_manual_sym x ms s = (q, t) \<Longrightarrow> alloc_frame s t"
  "create_global_sym x ms s = (q, t) \<Longrightarrow> alloc_frame s t"
  "create_static_sym x ss s = (o', t) \<Longrightarrow> alloc_frame s t"
  by (auto simp: create_funcjump_def create_manual_sym_def create_global_sym_def create_static_sym_def
      split: prod.splits option.splits dest!: xmalloc_alloc dest: alloc.frame_trans)

lemma setters_alloc:
  "set_patch_func_jumps x pin bp s = (r, t) \<Longrightarrow> alloc_frame s t"
  "set_patch_manual_syms x pin bp s = (r, t) \<Longrightarrow> alloc_frame s t"
  "set_patch_global_syms x pin bp s = (r, t) \<Longrightarrow> alloc_frame s t"
  "set_patch_static_syms x pin bp s = (r, t) \<Longrightarrow> alloc_frame s t"
  by (auto simp: set_patch_func_jumps_def set_patch_manual_syms_def set_patch_global_syms_def set_patch_static_syms_def
      split: prod.splits option.splits dest!: xmalloc_alloc alloc.create_each_frame[rotated]
      intro: creators_alloc dest: alloc.frame_trans)

lemma unpack_alloc: "unpack_protobuf_binpatch x pin data s = (r, t) \<Longrightarrow> alloc_frame s t"
  unfolding unpack_protobuf_binpatch_def
  by (auto simp: Let_def alloc.frame_refl split: prod.splits option.splits if_splits
      dest!: xmalloc_alloc setters_alloc; metis alloc.frame_trans)

lemma elf_info_binpatch_alloc: "elf_info_binpatch x pin ei s = (r, t) \<Longrightarrow> alloc_frame s t"
  by (auto simp: elf_info_binpatch_def alloc.frame_refl split: prod.splits option.splits if_splits
      dest!: xmalloc_alloc unpack_alloc dest: alloc.frame_trans)

section \<open>Jump buffers\<close>

text \<open>Every jump of a description has a buffer of eight bytes.\<close>

definition jumps_8 :: "func_jump_s list \<Rightarrow> bool" where
  "jumps_8 fjs \<longleftrightarrow> list_all (\<lambda>fj. length (func_jump fj) = 8) fjs"

lemma create_each_all:
  assumes "\<And>a s b t. create a s = (Some b, t) \<Longrightarrow> P b"
  shows "create_each create as s = (Some bs, t) \<Longrightarrow> list_all P bs"
  by (induction as arbitrary: s bs) (auto split: prod.splits option.splits intro: assms)

lemma set_patch_func_jumps_8: "set_patch_func_jumps x pin bp s = ((0, q), t) \<Longrightarrow> jumps_8 (func_jumps q)"
  unfolding jumps_8_def
  by (auto simp: set_patch_func_jumps_def split: prod.splits option.splits
      intro!: create_each_all[of "create_funcjump x" "\<lambda>fj. length (func_jump fj) = 8"])
    (auto simp: create_funcjump_def split: prod.splits option.splits)

lemma other_setters_jumps:
  "set_patch_manual_syms x pin bp s = ((e, q), t) \<Longrightarrow> func_jumps q = func_jumps pin"
  "set_patch_global_syms x pin bp s = ((e, q), t) \<Longrightarrow> func_jumps q = func_jumps pin"
  "set_patch_static_syms x pin bp s = ((e, q), t) \<Longrightarrow> func_jumps q = func_jumps pin"
  by (auto simp: set_patch_manual_syms_def set_patch_global_syms_def set_patch_static_syms_def
      split: prod.splits option.splits)

lemma unpack_jumps_8: "unpack_protobuf_binpatch x pin data s = ((0, q), t) \<Longrightarrow> jumps_8 (func_jumps q)"
  by (auto simp: unpack_protobuf_binpatch_def Let_def split: prod.splits option.splits if_splits
      dest!: other_setters_jumps set_patch_func_jumps_8)

lemma elf_info_binpatch_8: "elf_info_binpatch x pin ei s = ((0, q), t) \<Longrightarrow> jumps_8 (func_jumps q)"
  by (auto simp: elf_info_binpatch_def split: prod.splits option.splits if_splits dest!: unpack_jumps_8)

section \<open>Tuning\<close>

text \<open>Tuning the jumps of a patch changes only its jumps, and keeps their buffers.\<close>

definition tune_frame :: "ptr \<Rightarrow> 'w pst \<Rightarrow> 'w pst \<Rightarrow> bool" where
  "tune_frame p s t \<longleftrightarrow> vma_of t = vma_of s \<and> dlm_of t = dlm_of s \<and> ei_of t = ei_of s
     \<and> process_context t = process_context s \<and> brk t = brk s \<and> (\<forall>q. q \<noteq> p \<longrightarrow> patch_of t q = patch_of s q)
     \<and> patch_dlm (patch_of t p) = patch_dlm (patch_of s p) \<and> target_dlm (patch_of t p) = target_dlm (patch_of s p)
     \<and> target_bid (pi (patch_of t p)) = target_bid (pi (patch_of s p))
     \<and> patch_bid (pi (patch_of t p)) = patch_bid (pi (patch_of s p))
     \<and> (jumps_8 (jumps_of s p) \<longrightarrow> jumps_8 (jumps_of t p))"

interpretation tuning: state_frame "tune_frame p" for p
  by unfold_locales (auto simp: tune_frame_def)

lemma tune_frame_io: "io_frame s t \<Longrightarrow> tune_frame p s t"
  by (simp add: tune_frame_def io_frame_def jumps_of_def)

lemma tune_frame_upd:
  assumes "jumps_8 (jumps_of s p) \<Longrightarrow> i < length (jumps_of s p) \<Longrightarrow> length (func_jump (f (fj_at s p i))) = 8"
  shows "tune_frame p s (upd_fj p i f s)"
proof -
  have "jumps_8 (jumps_of (upd_fj p i f s) p)" if "jumps_8 (jumps_of s p)"
    using that assms by (cases "i < length (jumps_of s p)")
      (auto simp: jumps_8_def list_all_length nth_list_update upd_fj_def jumps_of_def fj_at_def list_update_beyond)
  then show ?thesis by (simp add: tune_frame_def) (simp add: upd_fj_def)
qed

lemma jumps_8_at: "jumps_8 (jumps_of s p) \<Longrightarrow> i < length (jumps_of s p) \<Longrightarrow> length (func_jump (fj_at s p i)) = 8"
  by (simp add: jumps_8_def list_all_length fj_at_def jumps_of_def)

lemma tune_patch_func_jump_frame:
  assumes "tune_patch_func_jump x p i s = Some (e, t)"
  shows "tune_frame p s t"
proof -
  from assms obtain td tb pb r j s' where j: "x86_jmpq_instruction (func_jump (fj_at s' p i)) (func_addr (fj_at s' p i))
        (pb + patch_value (fj_at s' p i)) = Some (r, j)"
    and e: "(if r < 0 then Some (r, upd_fj p i (\<lambda>fj. fj\<lparr>func_jump := j\<rparr>) s')
       else read_func_jump_code x td p i (upd_fj p i (\<lambda>fj. fj\<lparr>func_jump := j\<rparr>) s')) = Some (e, t)"
    and s': "s' = upd_fj p i (\<lambda>fj. fj\<lparr>func_addr := tb + func_value fj\<rparr>) s"
    by (auto simp: tune_patch_func_jump_def Let_def split: bind_splits prod.splits)
  let ?t = "upd_fj p i (\<lambda>fj. fj\<lparr>func_jump := j\<rparr>) s'"
  have "tune_frame p s s'" unfolding s' by (rule tune_frame_upd) (simp add: jumps_8_at)
  moreover have "tune_frame p s' ?t"
    using jmpq_8[OF jumps_8_at j] by (intro tune_frame_upd) simp
  ultimately have st: "tune_frame p s ?t" by (rule tuning.frame_trans)
  show ?thesis
  proof (cases "r < 0")
    case True
    with e st show ?thesis by simp
  next
    case False
    with e have "read_func_jump_code x td p i ?t = Some (e, t)" by simp
    from read_func_jump_code_frame[OF this] obtain c where
      "io_frame (upd_fj p i (\<lambda>fj. fj\<lparr>code := c fj\<rparr>) ?t) t" by (rule exE)
    then have "tune_frame p (upd_fj p i (\<lambda>fj. fj\<lparr>code := c fj\<rparr>) ?t) t" by (rule tune_frame_io)
    moreover have "tune_frame p ?t (upd_fj p i (\<lambda>fj. fj\<lparr>code := c fj\<rparr>) ?t)"
      by (rule tune_frame_upd) (simp add: jumps_8_at)
    ultimately show ?thesis by (rule tuning.frame_trans[OF tuning.frame_trans[OF st], rotated])
  qed
qed

lemma tune_patch_func_jumps_frame: "tune_patch_func_jumps x p s = Some (e, t) \<Longrightarrow> tune_frame p s t"
  by (auto simp: tune_patch_func_jumps_def iterate_patch_function_jumps_def split: bind_splits
      intro: tuning.iterate_frame[OF tune_patch_func_jump_frame])

section \<open>The patches of a process\<close>

text \<open>The object with a Build ID, the first one when there are several.\<close>

definition object_with_bid :: "'w pst \<Rightarrow> string \<Rightarrow> ptr option" where
  "object_with_bid s bid = find (\<lambda>d. elf_bid (ei_of s (dl_ei (dlm_of s d))) = Some bid) (ctx_dl_maps (ctx s))"

definition has_patch :: "'w pst \<Rightarrow> ptr \<Rightarrow> bool" where
  "has_patch s d \<longleftrightarrow> elf_has_section (ei_of s (dl_ei (dlm_of s d))) VZPATCH_SECTION"

definition patch_of_object :: "'w pst \<Rightarrow> ptr \<Rightarrow> ptr \<Rightarrow> bool" where
  "patch_of_object s d p \<longleftrightarrow> patch_dlm (patch_of s p) = Some d
     \<and> target_dlm (patch_of s p) = object_with_bid s (target_bid (pi (patch_of s p)))
     \<and> jumps_8 (jumps_of s p)"

text \<open>What collecting patches leaves alone: everything but new patches and the list of them.\<close>

definition patch_frame :: "'w pst \<Rightarrow> 'w pst \<Rightarrow> bool" where
  "patch_frame s t \<longleftrightarrow> vma_of t = vma_of s \<and> dlm_of t = dlm_of s \<and> ei_of t = ei_of s \<and> brk s \<le> brk t
     \<and> (\<forall>q < brk s. patch_of t q = patch_of s q)
     \<and> (ctx t)\<lparr>ctx_applied_patches := []\<rparr> = (ctx s)\<lparr>ctx_applied_patches := []\<rparr>"

interpretation patches: state_frame patch_frame
  by unfold_locales (auto simp: patch_frame_def)

lemma patch_frame_ctx:
  assumes "patch_frame s t"
  shows "ctx_vmas (ctx t) = ctx_vmas (ctx s)" "ctx_dl_maps (ctx t) = ctx_dl_maps (ctx s)"
proof -
  have "(ctx t)\<lparr>ctx_applied_patches := []\<rparr> = (ctx s)\<lparr>ctx_applied_patches := []\<rparr>"
    using assms by (simp add: patch_frame_def)
  from arg_cong[OF this, of ctx_vmas] arg_cong[OF this, of ctx_dl_maps]
  show "ctx_vmas (ctx t) = ctx_vmas (ctx s)" "ctx_dl_maps (ctx t) = ctx_dl_maps (ctx s)" by simp_all
qed

lemma patch_frame_objects:
  assumes "patch_frame s t"
  shows "has_patch t = has_patch s" "object_with_bid t = object_with_bid s"
    and "p < brk s \<Longrightarrow> patch_of_object t d p = patch_of_object s d p"
proof -
  show h: "has_patch t = has_patch s" "object_with_bid t = object_with_bid s"
    using assms patch_frame_ctx(2)[OF assms] by (simp_all add: fun_eq_iff has_patch_def object_with_bid_def patch_frame_def)
  show "p < brk s \<Longrightarrow> patch_of_object t d p = patch_of_object s d p"
    using assms by (simp add: patch_of_object_def h patch_frame_def jumps_of_def)
qed

text \<open>The steps of \<open>create_patch_by_dlm\<close> on the new patch \<open>p\<close>.\<close>

definition new_patch :: "ptr \<Rightarrow> 'w pst \<Rightarrow> 'w pst \<Rightarrow> bool" where
  "new_patch p s t \<longleftrightarrow> patch_frame s t \<and> ctx t = ctx s \<and> brk s \<le> p \<and> p < brk t"

lemma new_patch_steps:
  assumes "new_patch p s t"
  shows "new_patch p s (upd_patch p f t)" "alloc_frame t u \<Longrightarrow> new_patch p s u" "tune_frame p t u \<Longrightarrow> new_patch p s u"
  using assms by (auto simp: new_patch_def patch_frame_def alloc_frame_def tune_frame_def upd_patch_def)

lemma create_patch_by_dlm_spec:
  assumes "create_patch_by_dlm x d s = Some ((err, p), t)"
  shows "patch_frame s t \<and> ctx t = ctx s \<and> (err = 0 \<longrightarrow> brk s \<le> p \<and> p < brk t \<and> patch_of_object t d p)"
proof -
  obtain r s1 where m: "xmalloc x s = (r, s1)" by force
  note k = xmalloc_keeps[OF m]
  show ?thesis
  proof (cases r)
    case None
    with assms m k show ?thesis by (auto simp: create_patch_by_dlm_def patch_frame_def)
  next
    case (Some q)
    define s2 where "s2 = upd_patch q (\<lambda>q. q\<lparr>patch_dlm := Some d\<rparr>) s1"
    obtain e pin s3 where b: "elf_info_binpatch x (pi (patch_of s2 q)) (ei_of s2 (dl_ei (dlm_of s2 d))) s2 = ((e, pin), s3)"
      by (metis surj_pair)
    define s4 where "s4 = upd_patch q (\<lambda>p. p\<lparr>pi := pin\<rparr>) s3"
    note run = assms[unfolded create_patch_by_dlm_def m Some prod.case option.case Let_def, folded s2_def,
        unfolded b prod.case, folded s4_def]
    have "new_patch q s s1" using k Some by (auto simp: new_patch_def patch_frame_def)
    then have "new_patch q s s2" unfolding s2_def by (rule new_patch_steps(1))
    then have "new_patch q s s3" by (rule new_patch_steps(2)) (rule elf_info_binpatch_alloc[OF b])
    then have n4: "new_patch q s s4" unfolding s4_def by (rule new_patch_steps(1))
    show ?thesis
    proof (cases "e = 0")
      case False
      with run n4 show ?thesis by (auto simp: new_patch_def)
    next
      case True
      define s5 where "s5 = upd_patch q (\<lambda>p. p\<lparr>target_dlm := object_with_bid s4 (target_bid pin)\<rparr>) s4"
      have set: "patch_set_target_dlm q s4 = Some (0, s5)"
        by (simp add: patch_set_target_dlm_def find_dl_map_by_bid_eq object_with_bid_def s5_def) (simp add: s4_def)
      from run[unfolded set bind.bind_lunit prod.case] True obtain e6 s6 where
        t6: "(if target_dlm (patch_of s5 q) \<noteq> None \<and> exec_vma (dlm_of s5 d) \<noteq> None
          then tune_patch_func_jumps x q s5 else Some (0, s5)) = Some (e6, s6)"
        and t: "(if e6 \<noteq> 0 then Some ((e6, 0), s6)
          else Some ((0, q), upd_patch q (\<lambda>q. q\<lparr>rela_plt := [], rela_dyn := []\<rparr>) s6)) = Some ((err, p), t)"
        by (simp split: bind_splits prod.splits)
      have f6: "tune_frame q s5 s6" using t6 tune_patch_func_jumps_frame[of x q s5]
        by (auto simp: tuning.frame_refl split: if_splits)
      have "new_patch q s s5" unfolding s5_def by (rule new_patch_steps(1)[OF n4])
      then have n6: "new_patch q s s6" by (rule new_patch_steps(3)) (rule f6)
      show ?thesis
      proof (cases "e6 = 0")
        case False
        with t n6 show ?thesis by (auto simp: new_patch_def)
      next
        case True
        with t have t: "t = upd_patch q (\<lambda>q. q\<lparr>rela_plt := [], rela_dyn := []\<rparr>) s6" "err = 0" "p = q" by auto
        have n: "new_patch q s t" unfolding t(1) by (rule new_patch_steps(1)[OF n6])
        have "patch_dlm (patch_of s3 q) = Some d"
          using elf_info_binpatch_alloc[OF b] by (simp add: alloc_frame_def s2_def)
        moreover have "jumps_8 (func_jumps pin)" using elf_info_binpatch_8 b \<open>e = 0\<close> by blast
        moreover have "object_with_bid s4 = object_with_bid s" "object_with_bid t = object_with_bid s"
          using n n4 patch_frame_objects(2) by (auto simp: new_patch_def)
        moreover have "patch_dlm (patch_of t q) = patch_dlm (patch_of s5 q)"
          "target_dlm (patch_of t q) = target_dlm (patch_of s5 q)"
          "target_bid (pi (patch_of t q)) = target_bid (pi (patch_of s5 q))"
          "jumps_8 (jumps_of s5 q) \<longrightarrow> jumps_8 (jumps_of t q)"
          using f6 by (simp_all add: t(1) tune_frame_def jumps_of_def)
        ultimately have "patch_of_object t d q"
          by (simp add: patch_of_object_def s5_def s4_def jumps_of_def)
        with n t show ?thesis by (simp add: new_patch_def)
      qed
    qed
  qed
qed

lemma check_vzpatch_spec:
  assumes "check_vzpatch x d s = Some (err, t)"
  shows "patch_frame s t \<and> (err = 0 \<longrightarrow>
    (\<exists>ps. ctx_applied_patches (ctx t) = ctx_applied_patches (ctx s) @ ps \<and> distinct ps
      \<and> (\<forall>p \<in> set ps. brk s \<le> p \<and> p < brk t)
      \<and> list_all2 (patch_of_object t) (filter (has_patch s) [d]) ps))"
proof (cases "has_patch s d")
  case False
  with assms show ?thesis by (auto simp: check_vzpatch_def has_patch_def patches.frame_refl)
next
  case True
  with assms obtain e p u where c: "create_patch_by_dlm x d s = Some ((e, p), u)"
    and t: "(if e \<noteq> 0 then Some (e, u)
      else Some (0, upd_ctx (\<lambda>c. c\<lparr>ctx_applied_patches := ctx_applied_patches c @ [p]\<rparr>) u)) = Some (err, t)"
    by (auto simp: check_vzpatch_def has_patch_def split: bind_splits)
  note sp = create_patch_by_dlm_spec[OF c]
  show ?thesis
  proof (cases "e = 0")
    case True
    with t have t: "t = upd_ctx (\<lambda>c. c\<lparr>ctx_applied_patches := ctx_applied_patches c @ [p]\<rparr>) u" "err = 0" by auto
    have "patch_frame u t" by (simp add: t(1) patch_frame_def)
    with True sp patch_frame_objects(3)[OF this, of p d] have "patch_of_object t d p" by simp
    with sp \<open>has_patch s d\<close> \<open>patch_frame u t\<close> True show ?thesis
      by (auto simp: t intro: patches.frame_trans)
  qed (use t sp in auto)
qed

lemma collect_patches_loop:
  assumes "iterate (check_vzpatch x) ds s = Some (err, t)"
  shows "patch_frame s t \<and> (err = 0 \<longrightarrow>
    (\<exists>ps. ctx_applied_patches (ctx t) = ctx_applied_patches (ctx s) @ ps \<and> distinct ps
      \<and> (\<forall>p \<in> set ps. brk s \<le> p \<and> p < brk t)
      \<and> list_all2 (patch_of_object t) (filter (has_patch s) ds) ps))"
  using assms
proof (induction ds arbitrary: s)
  case Nil
  then show ?case by (auto simp: patches.frame_refl)
next
  case (Cons d ds)
  then obtain e1 s1 where s1: "check_vzpatch x d s = Some (e1, s1)" by (auto split: bind_splits)
  note one = check_vzpatch_spec[OF s1]
  show ?case
  proof (cases "e1 = 0")
    case False
    with Cons.prems s1 one show ?thesis by auto
  next
    case True
    with Cons.prems s1 have "iterate (check_vzpatch x) ds s1 = Some (err, t)" by simp
    from Cons.IH[OF this] have f: "patch_frame s1 t" and rest: "err = 0 \<Longrightarrow> \<exists>ps. ctx_applied_patches (ctx t)
        = ctx_applied_patches (ctx s1) @ ps \<and> distinct ps \<and> (\<forall>p \<in> set ps. brk s1 \<le> p \<and> p < brk t)
        \<and> list_all2 (patch_of_object t) (filter (has_patch s1) ds) ps" by auto
    have fr: "patch_frame s t" using one f patches.frame_trans by blast
    have "\<exists>ps. ctx_applied_patches (ctx t) = ctx_applied_patches (ctx s) @ ps \<and> distinct ps
      \<and> (\<forall>p \<in> set ps. brk s \<le> p \<and> p < brk t) \<and> list_all2 (patch_of_object t) (filter (has_patch s) (d # ds)) ps"
      if err: "err = 0"
    proof -
      from one True obtain ps where ps: "ctx_applied_patches (ctx s1) = ctx_applied_patches (ctx s) @ ps" "distinct ps"
        "\<forall>p \<in> set ps. brk s \<le> p \<and> p < brk s1" "list_all2 (patch_of_object s1) (filter (has_patch s) [d]) ps" by blast
      from rest[OF err] obtain qs where qs: "ctx_applied_patches (ctx t) = ctx_applied_patches (ctx s1) @ qs" "distinct qs"
        "\<forall>p \<in> set qs. brk s1 \<le> p \<and> p < brk t" "list_all2 (patch_of_object t) (filter (has_patch s1) ds) qs" by blast
      have "brk s \<le> brk s1" "brk s1 \<le> brk t" "has_patch s1 = has_patch s"
        using one f patch_frame_objects(1) by (auto simp: patch_frame_def)
      moreover have "list_all2 (patch_of_object t) (filter (has_patch s) [d]) ps"
        using ps(4) by (rule list.rel_mono_strong) (use ps(3) patch_frame_objects(3)[OF f] in auto)
      then have "list_all2 (patch_of_object t) (filter (has_patch s) [d] @ filter (has_patch s) ds) (ps @ qs)"
        using qs(4) calculation(3) by (intro list_all2_appendI) simp_all
      moreover have "filter (has_patch s) [d] @ filter (has_patch s) ds = filter (has_patch s) (d # ds)" by simp
      ultimately show ?thesis using ps(1-3) qs(1-3)
        by (intro exI[of _ "ps @ qs"]) (fastforce intro: order.trans order.strict_trans2)
    qed
    with fr show ?thesis by blast
  qed
qed

section \<open>Areas and objects\<close>

text \<open>Areas that belong to no object yet, and a context that is not touched.\<close>

definition fresh_areas :: "process_ctx_s \<Rightarrow> 'w pst \<times> ptr list \<Rightarrow> bool" where
  "fresh_areas c = (\<lambda>(s, head). vmas_ok (s, head) \<and> (\<forall>p \<in> set head. vdlm (vma_of s p) = None) \<and> ctx s = c)"

lemma create_vma_context: "create_vma x pid template s = ((err, p), t) \<Longrightarrow> process_context t = process_context s"
  by (auto simp: create_vma_def Let_def split: prod.splits if_splits option.splits dest!: xmalloc_keeps ext_call_keeps)

lemma fresh_areas_step:
  assumes "fresh_areas c sh" "collect_one_vma x pid vma sh = Some (e, th)"
  shows "fresh_areas c th"
proof -
  obtain s h t h' where p: "sh = (s, h)" "th = (t, h')" by (cases sh, cases th)
  from assms have ok: "vmas_ok (s, h)" "\<forall>p \<in> set h. vdlm (vma_of s p) = None" "ctx s = c"
    and run: "collect_vma x pid vma (s, h) = Some (e, t, h')" by (auto simp: p fresh_areas_def collect_one_vma_def)
  obtain e1 q t1 where cr: "create_vma x pid vma s = ((e1, q), t1)" by (metis prod.exhaust)
  note sp = create_vma_spec[OF cr]
  have old: "\<forall>p \<in> set h. vdlm (vma_of t1 p) = None" using ok(1,2) sp by (auto simp: vmas_ok_def)
  have new: "vdlm (vma_of t1 q) = None" if "e1 = 0"
  proof -
    from sp that have "(vma_of t1 q)\<lparr>vmap_file := None\<rparr> = vma\<lparr>vdlm := None, vmap_file := None\<rparr>" by blast
    then have "vdlm ((vma_of t1 q)\<lparr>vmap_file := None\<rparr>) = vdlm (vma\<lparr>vdlm := None, vmap_file := None\<rparr>)" by (rule arg_cong)
    then show ?thesis by simp
  qed
  have keys: "map (\<lambda>p. vma_start (vma_of t1 p)) h = map (\<lambda>p. vma_start (vma_of s p)) h"
    using ok(1) sp by (simp add: vmas_ok_def)
  have srt: "sorted (map (\<lambda>p. vma_start (vma_of t1 p)) h)" unfolding keys using ok(1) by (simp add: vmas_ok_def)
  have ins: "set (insert_at_key (\<lambda>p. vma_start (vma_of t1 p)) q h) = insert q (set h)"
    by (metis mset_insert_at_key set_mset_add_mset_insert set_mset_mset)
  have "t = t1" "set h' \<subseteq> (if e1 = 0 then insert q (set h) else set h)"
    using run cr add_vma_sorted_eq[OF srt, of q] ins by (auto simp: collect_vma_def split: if_splits)
  with old new create_vma_context[OF cr] collect_vma_spec[OF run ok(1)] ok(3) show ?thesis
    by (auto simp: fresh_areas_def p split: if_splits)
qed

lemma collect_vmas_fresh:
  assumes "collect_vmas x pid (s, []) = Some (ret, t, head)"
  shows "fresh_areas (ctx s) (t, head)"
proof -
  have start: "fresh_areas (ctx s) (s\<lparr>world := w\<rparr>, [])" for w by (simp add: fresh_areas_def vmas_ok_def)
  show ?thesis using assms
    by (auto simp: collect_vmas_def iter_map_files_def ext_call_def split: prod.splits option.splits
        intro: iter_map_lines_invariant[where I = "fresh_areas (ctx s)"] fresh_areas_step simp: start)
qed

text \<open>Grouping the areas changes nothing of them but the object they belong to.\<close>

definition group_frame :: "'w pst \<times> dl_info \<Rightarrow> 'w pst \<times> dl_info \<Rightarrow> bool" where
  "group_frame sd td \<longleftrightarrow> ctx (fst td) = ctx (fst sd) \<and> brk (fst sd) \<le> brk (fst td)
     \<and> (\<forall>q. (vma_of (fst td) q)\<lparr>vdlm := None\<rparr> = (vma_of (fst sd) q)\<lparr>vdlm := None\<rparr>)"

interpretation grouping: state_frame group_frame
  by unfold_locales (auto simp: group_frame_def)

lemma create_dl_map_by_vma_group:
  assumes "create_dl_map_by_vma x v s = Some ((err, p), t)"
  shows "group_frame (s, h) (t, h')"
proof -
  have "ctx t = ctx s"
    using assms elf_destroy_info_frame[of 0 _ x]
    by (auto simp: create_dl_map_by_vma_def alloc_dl_map_def ei_fresh_def ei_frame_def
        split: bind_splits if_splits prod.splits option.splits dest!: xmalloc_keeps elf_create_info_fresh)
  with create_dl_map_by_vma_spec[OF assms] show ?thesis by (simp add: group_frame_def)
qed

lemma add_dl_vma_sorted_group: "add_dl_vma_sorted d v s = Some (e, t) \<Longrightarrow> group_frame (s, h) (t, h')"
  by (auto simp: add_dl_vma_sorted_def Let_def group_frame_def split: bind_splits if_splits)

lemma collect_dl_map_vma_group:
  assumes "collect_dl_map_vma x v sd = Some (e, td)"
  shows "group_frame sd td"
proof -
  obtain s head cur where sd: "sd = (s, head, cur)" by (cases sd)
  show ?thesis
  proof (cases "vmap_file (vma_of s v)")
    case None
    with assms show ?thesis by (auto simp: collect_dl_map_vma_def sd group_frame_def)
  next
    case (Some f)
    obtain b s1 where e: "is_elf_file x f s = (b, s1)" by force
    have s1: "group_frame (s, h) (s1, h')" for h h' using is_elf_file_frame[OF e, of 0] by (auto simp: ei_frame_def group_frame_def)
    show ?thesis
    proof (cases b)
      case False
      with assms Some e s1 show ?thesis by (auto simp: collect_dl_map_vma_def sd)
    next
      case True
      from assms Some e True obtain same e1 d s2 where
        c: "(if same then Some ((0, the cur), s1) else create_dl_map_by_vma x v s1) = Some ((e1, d), s2)"
        and r: "(if e1 \<noteq> 0 then Some (e1, s2, head, cur)
          else let head = (if same then head else map_option (\<lambda>h. h @ [d]) head); s = upd_vma v (\<lambda>v. v\<lparr>vdlm := Some d\<rparr>) s2
               in do { (err, s) \<leftarrow> add_dl_vma_sorted d v s; Some (err, s, head, Some d) }) = Some (e, td)"
        by (auto simp: collect_dl_map_vma_def sd split: bind_splits)
      have "group_frame (s1, h) (s2, h')" for h h'
        using c create_dl_map_by_vma_group[of x v s1 e1 d s2 h h'] by (cases same) (simp_all add: group_frame_def)
      with s1 have s2: "group_frame (s, h) (s2, h')" for h h' by (rule grouping.frame_trans)
      show ?thesis
      proof (cases "e1 = 0")
        case False
        with r s2 show ?thesis by (auto simp: sd)
      next
        case True
        let ?u = "upd_vma v (\<lambda>v. v\<lparr>vdlm := Some d\<rparr>) s2"
        have u: "group_frame (s2, h) (?u, h')" for h h' by (simp add: group_frame_def)
        from r True obtain s3 h3 c3 where a: "add_dl_vma_sorted d v ?u = Some (e, s3)" and td: "td = (s3, h3, c3)"
          by (auto simp: Let_def split: bind_splits)
        show ?thesis unfolding sd td
          by (rule grouping.frame_trans[OF s2 grouping.frame_trans[OF u add_dl_vma_sorted_group[OF a]]])
      qed
    qed
  qed
qed

section \<open>What is known of the process\<close>

text \<open>
  The areas are in address order and listed once; the objects are listed once, their areas are
  theirs, in order, with the executable one marked; an area that belongs to an object is on its
  list; the patches belong one to one and in order to the objects with a patch section, each with
  the object of its target and with jump buffers of the right size.
\<close>

definition collected :: "'w pst \<Rightarrow> bool" where
  "collected s \<longleftrightarrow> vmas_ok (s, ctx_vmas (ctx s))
     \<and> distinct (ctx_dl_maps (ctx s))
     \<and> (\<forall>d \<in> set (ctx_dl_maps (ctx s)). dlm_ok (vma_of s) (dlm_of s d)
          \<and> (\<forall>v \<in> set (dl_vmas (dlm_of s d)). vdlm (vma_of s v) = Some d))
     \<and> (\<forall>v \<in> set (ctx_vmas (ctx s)). linked s (ctx_dl_maps (ctx s)) v)
     \<and> distinct (ctx_applied_patches (ctx s))
     \<and> list_all2 (patch_of_object s) (filter (has_patch s) (ctx_dl_maps (ctx s))) (ctx_applied_patches (ctx s))"

lemma group_frame_vmas:
  assumes "group_frame (s, h) (t, h')" "vmas_ok (s, vmas)"
  shows "vmas_ok (t, vmas)"
proof -
  have "vma_start (vma_of t q) = vma_start (vma_of s q)" for q
  proof -
    have "vma_start ((vma_of t q)\<lparr>vdlm := None\<rparr>) = vma_start ((vma_of s q)\<lparr>vdlm := None\<rparr>)"
      using assms(1) by (simp add: group_frame_def)
    then show ?thesis by (simp add: vma_accessors)
  qed
  with assms show ?thesis by (auto simp: vmas_ok_def group_frame_def intro: order.strict_trans2)
qed

text \<open>
  C23: After a successful collection the patcher's view of a process is well formed: the areas are
  in address order without duplicates; every object is listed once, its areas are in order, point
  back to it and have at most the one executable area it records; every area that names an object
  is on the object's list; and the applied patches are exactly the objects with a patch section, in
  the order of the objects, each with the first object that has its target's Build ID as target
  and with jump buffers of eight bytes.
\<close>

theorem process_collect_well_formed:
  assumes "process_collect_vmas x s = Some (0, t)"
    and "ctx_vmas (ctx s) = []" and "ctx_dl_maps (ctx s) = []" and "ctx_applied_patches (ctx s) = []"
  shows "collected t"
proof -
  from assms obtain s1 vmas s2 ds where v: "collect_vmas x (ctx_pid (ctx s)) (s, []) = Some (0, s1, vmas)"
    and d: "collect_dl_maps x vmas (ctx_dl_maps (ctx s1)) (upd_ctx (\<lambda>c. c\<lparr>ctx_vmas := vmas\<rparr>) s1) = Some (0, s2, ds)"
    and p: "collect_patches x (upd_ctx (\<lambda>c. c\<lparr>ctx_dl_maps := ds\<rparr>) s2) = Some (0, t)"
    by (auto simp: process_collect_vmas_def Let_def split: bind_splits if_splits)
  let ?s1 = "upd_ctx (\<lambda>c. c\<lparr>ctx_vmas := vmas\<rparr>) s1" and ?s2 = "upd_ctx (\<lambda>c. c\<lparr>ctx_dl_maps := ds\<rparr>) s2"
  have f1: "vmas_ok (?s1, vmas)" "\<forall>p \<in> set vmas. vdlm (vma_of ?s1 p) = None" "ctx s1 = ctx s"
    using collect_vmas_fresh[OF v] by (simp_all add: fresh_areas_def vmas_ok_def)
  then have "distinct vmas" by (simp add: vmas_ok_def)
  from d f1(3) assms(3) obtain h' c where it: "iterate (collect_dl_map_vma x) vmas (?s1, Some [], None) = Some (0, s2, h', c)"
    and ds: "ds = the h'" by (auto simp: collect_dl_maps_def iterate_vmas_def split: bind_splits)
  have "link_inv ?s1 [] None" by (simp add: link_inv_def)
  from collect_all[OF it this \<open>distinct vmas\<close> f1(2)] obtain h where "h' = Some h" "link_inv s2 h c" "\<forall>v \<in> set vmas. linked s2 h v"
    by blast
  with ds have l: "link_inv s2 ds c" "\<forall>v \<in> set vmas. linked s2 ds v" by simp_all
  have g: "group_frame (?s1, Some [], None) (s2, h', c)"
    by (rule grouping.iterate_frame[OF collect_dl_map_vma_group it])
  then have c2: "ctx s2 = (ctx s)\<lparr>ctx_vmas := vmas\<rparr>" by (simp add: group_frame_def f1(3))
  from p have "iterate (check_vzpatch x) ds ?s2 = Some (0, t)" by (simp add: collect_patches_def iterate_dl_maps_def)
  from collect_patches_loop[OF this] obtain ps where fr: "patch_frame ?s2 t" and ps: "ctx_applied_patches (ctx t) = ps"
    "distinct ps" "list_all2 (patch_of_object t) (filter (has_patch ?s2) ds) ps" by (auto simp: c2 assms(4))
  have ct: "ctx_vmas (ctx t) = vmas" "ctx_dl_maps (ctx t) = ds" using patch_frame_ctx[OF fr] c2 by simp_all
  have same: "vma_of t = vma_of s2" "dlm_of t = dlm_of s2" "brk s2 \<le> brk t" using fr by (simp_all add: patch_frame_def)
  show ?thesis unfolding collected_def ct ps(1) same(1,2)
  proof (intro conjI)
    show "vmas_ok (t, vmas)"
      using group_frame_vmas[OF g f1(1)] same by (auto simp: vmas_ok_def intro: order.strict_trans2)
    show "distinct ds" "\<forall>d \<in> set ds. dlm_ok (vma_of s2) (dlm_of s2 d) \<and> (\<forall>v \<in> set (dl_vmas (dlm_of s2 d)). vdlm (vma_of s2 v) = Some d)"
      using l(1) by (simp_all add: link_inv_def)
    show "\<forall>v \<in> set vmas. linked t ds v" using l(2) by (simp add: linked_def same)
    show "list_all2 (patch_of_object t) (filter (has_patch t) ds) ps"
      unfolding patch_frame_objects(1)[OF fr] by (rule ps(3))
  qed (rule ps(2))
qed

text \<open>A process with one area, of an object that is a patch.\<close>

definition coll_elf :: Elf where
  "coll_elf = demo_elf\<lparr>elf_scns := [1, 2, 3, 4, 5], elf_strptr := (\<lambda>scn off.
     if scn = 9 then Some ([[], ''.dynamic'', ''.dynsym'', ''.dynstr'', ''.note.gnu.build-id'', ''vzpatch''] ! unat off)
     else if scn = 3 then Some ([[], ''libc.so.6'', ''libdemo.so'', ''foo''] ! unat off) else None)\<rparr>"

definition coll_ext :: "simw ext" where
  "coll_ext = sim_ext\<lparr>x_unpack := (\<lambda>bs. Some sim_bp)\<rparr>"

definition coll_start :: "simw pst" where
  "coll_start = sim_state\<lparr>world := sim_world\<lparr>sim_maps := [sim_line 0x7000], sim_files := (\<lambda>p. Some coll_elf)\<rparr>\<rparr>"

lemmas coll_eval = process_collect_vmas_def collect_eval coll_start_def coll_ext_def sim_ctx_def upd_ctx_def
  map_file_name_def int_string_def collect_dl_maps_def collect_dl_map_vma_def is_elf_file_def check_file_type_def
  create_dl_map_by_vma_def alloc_dl_map_def add_dl_vma_sorted_def link_dl_vma_def last_dl_vma_def coll_elf_def elf_demo_eval
  collect_patches_def iterate_dl_maps_def check_vzpatch_def create_patch_by_dlm_def elf_has_section_def upd_patch_def
  elf_info_binpatch_def unpack_protobuf_binpatch_def set_patch_func_jumps_def set_patch_manual_syms_def
  set_patch_global_syms_def set_patch_static_syms_def create_funcjump_def create_manual_sym_def create_static_sym_def
  sim_bp_def sim_patch_def sim_pi_def patch_set_target_dlm_def find_dl_map_by_bid_def compare_bid_def elf_bid_def

lemma coll_runs:
  "map_option (\<lambda>(e, t). (e, ctx_vmas (ctx t), ctx_dl_maps (ctx t), ctx_applied_patches (ctx t)))
     (process_collect_vmas coll_ext coll_start) = Some (0, [100], [110], [111])"
  by (simp add: coll_eval)

theorem process_collect_well_formed_witness:
  "\<exists>t. process_collect_vmas coll_ext coll_start = Some (0, t) \<and> ctx_vmas (ctx t) = [100]
     \<and> ctx_applied_patches (ctx t) = [111] \<and> collected t"
proof -
  from coll_runs obtain t where t: "process_collect_vmas coll_ext coll_start = Some (0, t)"
    "ctx_vmas (ctx t) = [100]" "ctx_applied_patches (ctx t) = [111]" by auto
  have "ctx_vmas (ctx coll_start) = []" "ctx_dl_maps (ctx coll_start) = []" "ctx_applied_patches (ctx coll_start) = []"
    by (simp_all add: coll_start_def sim_ctx_def)
  from process_collect_well_formed[OF t(1) this] t show ?thesis by blast
qed

end
