(* ===== verification/Inspection.thy ===== *)
theory Inspection
  imports Patch Process_Collect
begin

text \<open>
  The commands \<open>check\<close> and \<open>list\<close> only look at a process: they read its memory map and the files it
  maps. \<open>looks x I\<close> says that the calls for this (allocation, the map, and access, stat, open, seek,
  read, close and libelf on files) keep \<open>I\<close>; nothing is assumed of the calls that write to the
  target, run code in it, stop its threads or talk to the service.
\<close>

context state_frame
begin

lemma dyn_loop_frame:
  assumes "\<And>d s r t. actor d s = Some (r, t) \<Longrightarrow> frame s t"
  shows "iter_dyn_in actor g is s = Some (r, t) \<Longrightarrow> frame s t"
proof (induction "is" arbitrary: s)
  case (Cons i "is")
  then show ?case
    by (auto simp: frame_refl split: option.splits bind_splits if_splits dest!: assms intro: frame_trans)
qed (simp add: frame_refl)

lemma sym_loop_frame:
  assumes "\<And>symb s r t. compare symb s = Some (r, t) \<Longrightarrow> frame s t"
  shows "find_sym_in getsym compare is s = Some (r, t) \<Longrightarrow> frame s t"
proof (induction "is" arbitrary: s)
  case (Cons i "is")
  then show ?case
    by (auto simp: frame_refl split: option.splits bind_splits if_splits dest!: assms intro: frame_trans)
qed (simp add: frame_refl)

lemma rela_loop_frame:
  assumes "\<And>rela s r t. actor rela s = Some (r, t) \<Longrightarrow> frame s t"
  shows "iter_rela_in actor g is s = Some (r, t) \<Longrightarrow> frame s t"
proof (induction "is" arbitrary: s)
  case (Cons i "is")
  then show ?case
    by (auto simp: frame_refl split: option.splits bind_splits if_splits dest!: assms intro: frame_trans)
qed (simp add: frame_refl)

lemma dentry_loop_frame:
  assumes "\<And>d s r t. actor d s = Some (r, t) \<Longrightarrow> frame s t"
  shows "iter_dentries actor ds fin dirent s = Some (r, d, t) \<Longrightarrow> frame s t"
proof (induction ds arbitrary: s dirent)
  case (Cons a ds)
  then show ?case by (auto split: if_splits bind_splits dest!: assms) (blast intro: frame_trans)
qed (simp add: frame_refl)

end

definition looks :: "'w ext \<Rightarrow> ('w \<Rightarrow> bool) \<Rightarrow> bool" where
  "looks x I \<longleftrightarrow> (\<forall>w. I w \<longrightarrow> I (snd (x_malloc x w))
     \<and> (\<forall>pid. I (snd (x_maps x pid w))) \<and> (\<forall>path. I (snd (x_access x path w))) \<and> (\<forall>path. I (snd (x_stat x path w)))
     \<and> (\<forall>path. I (snd (x_open x path w))) \<and> (\<forall>fd off. I (snd (x_lseek x fd off w)))
     \<and> (\<forall>fd n. I (snd (x_read x fd n w))) \<and> (\<forall>fd. I (snd (x_close x fd w))) \<and> (\<forall>fd. I (snd (x_elf_begin x fd w))))"

text \<open>What only looks keeps \<open>I\<close> and the list of threads.\<close>

definition still :: "('w \<Rightarrow> bool) \<Rightarrow> 'w pst \<Rightarrow> 'w pst \<Rightarrow> bool" where
  "still I s t \<longleftrightarrow> (I (world s) \<longrightarrow> I (world t)) \<and> ctx_threads (ctx t) = ctx_threads (ctx s)"

interpretation still: state_frame "still I" for I
  by unfold_locales (auto simp: still_def)

lemma still_upd [simp]:
  "still I s (upd_vma p v t) = still I s t" "still I s (upd_dlm p d t) = still I s t"
  "still I s (upd_ei p e t) = still I s t" "still I s (upd_patch p q t) = still I s t"
  "still I s (upd_fj p i f t) = still I s t" "still I s (t\<lparr>errno := n\<rparr>) = still I s t"
  "still I (upd_vma p v s) t = still I s t"
  "still I (upd_ei p e s) t = still I s t" "still I (upd_patch p q s) t = still I s t" "still I (upd_fj p i f s) t = still I s t"
  by (simp_all add: still_def upd_fj_def)

lemma still_upd_ctx [simp]:
  "ctx_threads (c (ctx t)) = ctx_threads (ctx t) \<Longrightarrow> still I s (upd_ctx c t) = still I s t"
  "ctx_threads (c (ctx s)) = ctx_threads (ctx s) \<Longrightarrow> still I (upd_ctx c s) t = still I s t"
  by (simp_all add: still_def)

lemma still_ext_call: "ext_call f s = (r, t) \<Longrightarrow> (\<And>w. I w \<Longrightarrow> I (snd (f w))) \<Longrightarrow> still I s t"
  by (auto simp: ext_call_def still_def split: prod.splits) (metis snd_conv)

lemma still_sys_call: "sys_call f s = (r, t) \<Longrightarrow> (\<And>w. I w \<Longrightarrow> I (snd (f w))) \<Longrightarrow> still I s t"
  by (auto simp: sys_call_def split: prod.splits sum.splits dest!: still_ext_call[where I = I])

lemma still_calls:
  assumes "looks x I"
  shows "xmalloc x s = (r, t) \<Longrightarrow> still I s t"
    and "ext_call (x_maps x pid) s = (r1, t) \<Longrightarrow> still I s t" and "ext_call (x_access x path) s = (r2, t) \<Longrightarrow> still I s t"
    and "sys_call (x_stat x path) s = (r3, t) \<Longrightarrow> still I s t" and "sys_call (x_open x path) s = (r4, t) \<Longrightarrow> still I s t"
    and "sys_call (x_lseek x fd off) s = (r5, t) \<Longrightarrow> still I s t" and "sys_call (x_read x fd n) s = (r6, t) \<Longrightarrow> still I s t"
    and "ext_call (x_close x fd) s = (r7, t) \<Longrightarrow> still I s t" and "ext_call (x_elf_begin x fd) s = (r8, t) \<Longrightarrow> still I s t"
proof -
  have "ext_call (x_malloc x) s = (b, u) \<Longrightarrow> still I s u" for b u
    using assms by (auto simp: looks_def intro: still_ext_call)
  then show "xmalloc x s = (r, t) \<Longrightarrow> still I s t"
    by (auto simp: xmalloc_def still_def split: prod.splits if_splits)
qed (use assms in \<open>auto simp: looks_def intro: still_ext_call still_sys_call\<close>)

section \<open>ELF files\<close>

lemma elf_open_still:
  assumes "looks x I"
  shows "elf_open x path s = (r, t) \<Longrightarrow> still I s t"
  by (auto simp: elf_open_def elf_fd_def split: prod.splits option.splits if_splits dest!: still_calls[OF assms])
    (auto simp: still_def)

lemma elf_destroy_info_still: "looks x I \<Longrightarrow> still I s (elf_destroy_info x ei s)"
  unfolding elf_destroy_info_def by (cases "ext_call (x_close x (ei_fd (ei_of s ei))) s") (auto dest: still_calls(8))

lemma is_elf_file_still:
  assumes "looks x I"
  shows "is_elf_file x path s = (r, t) \<Longrightarrow> still I s t"
  by (auto simp: is_elf_file_def check_file_type_def split: prod.splits option.splits if_splits
      dest!: still_calls[OF assms] elf_open_still[OF assms]) (auto simp: still_def)

lemma elf_alloc_info_still:
  assumes "looks x I"
  shows "elf_alloc_info x e path fd s = (r, t) \<Longrightarrow> still I s t"
  by (auto simp: elf_alloc_info_def split: prod.splits option.splits dest!: still_calls[OF assms]) (auto simp: still_def)

lemma elf_set_dynamic_scn_still:
  assumes "looks x I"
  shows "elf_set_dynamic_scn x ei s = Some (r, t) \<Longrightarrow> still I s t"
  by (auto simp: elf_set_dynamic_scn_def elf_set_scn_def elf_create_scn_def still.frame_refl
      split: bind_splits prod.splits option.splits if_splits dest!: still_calls[OF assms])

lemma find_dyn_still:
  assumes "looks x I"
  shows "find_dyn x ei cmp s = Some (r, t) \<Longrightarrow> still I s t"
  by (auto simp: find_dyn_def split: bind_splits option.splits dest!: elf_set_dynamic_scn_still[OF assms])

lemma elf_get_strtab_scn_still:
  assumes "looks x I"
  shows "elf_get_strtab_scn x ei s = Some (r, t) \<Longrightarrow> still I s t"
  by (auto simp: elf_get_strtab_scn_def Let_def still.frame_refl split: bind_splits if_splits
      dest!: find_dyn_still[OF assms])

lemma elf_do_get_soname_still:
  assumes "looks x I"
  shows "elf_do_get_soname x ei s = Some (r, t) \<Longrightarrow> still I s t"
  by (auto simp: elf_do_get_soname_def split: bind_splits if_splits option.splits prod.splits
      dest!: still_calls[OF assms] find_dyn_still[OF assms] elf_get_strtab_scn_still[OF assms]) (auto simp: still_def)

lemma collect_needed_dyn_still:
  assumes "looks x I"
  shows "collect_needed_dyn x ei d s = Some (r, t) \<Longrightarrow> still I s t"
  by (auto simp: collect_needed_dyn_def split: bind_splits if_splits option.splits prod.splits
      dest!: still_calls[OF assms] elf_get_strtab_scn_still[OF assms]) (auto simp: still_def)

lemma iter_needed_still:
  assumes "looks x I"
  shows "iter_dyn_in (collect_needed_dyn x ei) g is s = Some (r, t) \<Longrightarrow> still I s t"
  by (rule still.dyn_loop_frame[OF collect_needed_dyn_still[OF assms]])

lemma elf_collect_needed_still:
  assumes "looks x I"
  shows "elf_collect_needed x ei s = Some (r, t) \<Longrightarrow> still I s t"
  by (auto simp: elf_collect_needed_def iter_dyn_sym_def still.frame_refl split: if_splits bind_splits option.splits
      dest!: elf_set_dynamic_scn_still[OF assms] iter_needed_still[OF assms]) (auto simp: still_def)

lemma elf_get_bid_still:
  assumes "looks x I"
  shows "elf_get_bid x e s = Some (r, t) \<Longrightarrow> still I s t"
  by (auto simp: elf_get_bid_def get_build_id_def still.frame_refl split: if_splits option.splits prod.splits
      dest!: still_calls[OF assms])

lemma elf_create_info_still:
  assumes "looks x I"
  shows "elf_create_info x path s = Some (r, t) \<Longrightarrow> still I s t"
proof -
  have des: "still I s u \<Longrightarrow> still I s (elf_destroy_info x ei u)" for s u ei
    by (rule still.frame_trans[OF _ elf_destroy_info_still[OF assms]])
  show "elf_create_info x path s = Some (r, t) \<Longrightarrow> still I s t"
    by (auto simp: elf_create_info_def Let_def split: prod.splits if_splits bind_splits option.splits
        intro!: des dest!: elf_open_still[OF assms] elf_alloc_info_still[OF assms] elf_do_get_soname_still[OF assms]
          elf_collect_needed_still[OF assms] elf_get_bid_still[OF assms]) (auto simp: still_def)
qed

section \<open>Areas, objects and patches\<close>

lemma create_vma_still:
  assumes "looks x I"
  shows "create_vma x pid template s = (r, t) \<Longrightarrow> still I s t"
  by (auto simp: create_vma_def Let_def split: prod.splits if_splits option.splits dest!: still_calls[OF assms])
    (auto simp: still_def)

lemma iter_map_files_still:
  assumes "looks x I" and "\<And>vma sd e td. actor pid vma sd = Some (e, td) \<Longrightarrow> still I (fst sd) (fst td)"
    and "iter_map_files x pid actor sd = Some (e, td)"
  shows "still I (fst sd) (fst td)"
proof -
  have lines: "still I s (fst td)" if "iter_map_lines (actor pid) ret bufs sd = Some (r, td)" "still I s (fst sd)" for s ret bufs sd r td
    using that by (rule iter_map_lines_invariant[where I = "\<lambda>sd. still I s (fst sd)"]) (blast intro: still.frame_trans assms(2))
  from assms(3) show ?thesis
    by (auto simp: iter_map_files_def split: prod.splits option.splits dest!: still_calls(2)[OF assms(1)] intro: lines)
qed

lemma collect_vmas_still:
  assumes "looks x I" "collect_vmas x pid (s, head) = Some (ret, t, head')"
  shows "still I s t"
proof -
  have "still I (fst sd) (fst td)" if "collect_one_vma x pid vma sd = Some (e, td)" for vma sd e td
    using that by (auto simp: collect_one_vma_def collect_vma_def still.frame_refl split: prod.splits if_splits bind_splits
        dest!: create_vma_still[OF assms(1)])
  from iter_map_files_still[OF assms(1) this assms(2)[unfolded collect_vmas_def]] show ?thesis by simp
qed

lemma create_dl_map_by_vma_still:
  assumes "looks x I"
  shows "create_dl_map_by_vma x v s = Some (r, t) \<Longrightarrow> still I s t"
proof -
  have des: "still I s u \<Longrightarrow> still I s (elf_destroy_info x ei u)" for s u ei
    by (rule still.frame_trans[OF _ elf_destroy_info_still[OF assms]])
  show "create_dl_map_by_vma x v s = Some (r, t) \<Longrightarrow> still I s t"
    by (auto simp: create_dl_map_by_vma_def alloc_dl_map_def split: prod.splits if_splits bind_splits option.splits
        intro!: des dest!: elf_create_info_still[OF assms] still_calls[OF assms]) (auto simp: still_def)
qed

lemma add_dl_vma_sorted_still: "add_dl_vma_sorted d v s = Some (e, t) \<Longrightarrow> still I s t"
  by (auto simp: add_dl_vma_sorted_def Let_def still.frame_refl split: bind_splits if_splits)

lemma collect_dl_map_vma_still:
  assumes "looks x I"
  shows "collect_dl_map_vma x v sd = Some (e, td) \<Longrightarrow> still I (fst sd) (fst td)"
  by (auto simp: collect_dl_map_vma_def Let_def still.frame_refl split: prod.splits option.splits bool.splits bind_splits if_splits
      dest!: is_elf_file_still[OF assms] create_dl_map_by_vma_still[OF assms] add_dl_vma_sorted_still[where I = I])
    (auto simp: still_def)

interpretation still_pair: state_frame "\<lambda>sd td. still I (fst sd) (fst td)" for I
  by unfold_locales (auto simp: still_def)

lemma collect_dl_maps_still:
  assumes "looks x I"
  shows "collect_dl_maps x vmas head s = Some (e, t, head') \<Longrightarrow> still I s t"
proof -
  have "still I (fst sd) (fst td)" if "iterate (collect_dl_map_vma x) vmas sd = Some (e, td)" for sd td e
    by (rule still_pair.iterate_frame[OF _ that]) (rule collect_dl_map_vma_still[OF assms])
  from this[of "(s, Some head, None)"] show "collect_dl_maps x vmas head s = Some (e, t, head') \<Longrightarrow> still I s t"
    by (auto simp: collect_dl_maps_def iterate_vmas_def split: bind_splits)
qed

lemma creators_still:
  assumes "looks x I"
  shows "create_funcjump x fj s = (r, t) \<Longrightarrow> still I s t" and "create_manual_sym x ms s = (r1, t) \<Longrightarrow> still I s t"
    and "create_global_sym x ms s = (r2, t) \<Longrightarrow> still I s t" and "create_static_sym x ss s = (r3, t) \<Longrightarrow> still I s t"
  by (auto simp: create_funcjump_def create_manual_sym_def create_global_sym_def create_static_sym_def
      split: prod.splits option.splits dest!: still_calls[OF assms] dest: still.frame_trans)

lemma setters_still:
  assumes "looks x I"
  shows "set_patch_func_jumps x pin bp s = (r, t) \<Longrightarrow> still I s t" and "set_patch_manual_syms x pin bp s = (r, t) \<Longrightarrow> still I s t"
    and "set_patch_global_syms x pin bp s = (r, t) \<Longrightarrow> still I s t" and "set_patch_static_syms x pin bp s = (r, t) \<Longrightarrow> still I s t"
  by (auto simp: set_patch_func_jumps_def set_patch_manual_syms_def set_patch_global_syms_def set_patch_static_syms_def
      split: prod.splits option.splits dest!: still_calls[OF assms] still.create_each_frame[rotated]
      intro: creators_still[OF assms] dest: still.frame_trans)

lemma elf_info_binpatch_still:
  assumes "looks x I"
  shows "elf_info_binpatch x pin ei s = (r, t) \<Longrightarrow> still I s t"
  by (auto simp: elf_info_binpatch_def unpack_protobuf_binpatch_def Let_def still.frame_refl
      split: prod.splits option.splits if_splits dest!: still_calls[OF assms] setters_still[OF assms]) (auto simp: still_def)

lemma create_patch_still:
  assumes "looks x I"
  shows "create_patch x ei s = (r, t) \<Longrightarrow> still I s t"
  by (auto simp: create_patch_def Let_def split: prod.splits option.splits if_splits
      dest!: still_calls[OF assms] elf_info_binpatch_still[OF assms]) (auto simp: still_def)

lemma read_func_jump_code_still:
  assumes "looks x I"
  shows "read_func_jump_code x td p i s = Some (e, t) \<Longrightarrow> still I s t"
  by (auto simp: read_func_jump_code_def Let_def still.frame_refl split: bind_splits prod.splits option.splits if_splits
      dest!: still_calls[OF assms]) (auto simp: still_def)

lemma tune_patch_func_jumps_still:
  assumes "looks x I"
  shows "tune_patch_func_jumps x p s = Some (e, t) \<Longrightarrow> still I s t"
proof -
  have "tune_patch_func_jump x p i s = Some (e, t) \<Longrightarrow> still I s t" for i s e t
    by (auto simp: tune_patch_func_jump_def Let_def still.frame_refl split: bind_splits prod.splits if_splits
        dest!: read_func_jump_code_still[OF assms])
  from still.iterate_frame[OF this] show "tune_patch_func_jumps x p s = Some (e, t) \<Longrightarrow> still I s t"
    by (auto simp: tune_patch_func_jumps_def iterate_patch_function_jumps_def split: bind_splits)
qed

lemma create_patch_by_dlm_still:
  assumes "looks x I"
  shows "create_patch_by_dlm x d s = Some (r, t) \<Longrightarrow> still I s t"
  by (auto simp: create_patch_by_dlm_def patch_set_target_dlm_def Let_def
      split: bind_splits prod.splits option.splits if_splits
      dest!: still_calls[OF assms] elf_info_binpatch_still[OF assms] tune_patch_func_jumps_still[OF assms]) (auto simp: still_def)

lemma process_collect_vmas_still:
  assumes "looks x I"
  shows "process_collect_vmas x s = Some (e, t) \<Longrightarrow> still I s t"
proof -
  have "check_vzpatch x d s = Some (e, t) \<Longrightarrow> still I s t" for d s e t
    by (auto simp: check_vzpatch_def still.frame_refl split: bind_splits if_splits dest!: create_patch_by_dlm_still[OF assms])
  from still.iterate_frame[OF this] have "collect_patches x s = Some (e, t) \<Longrightarrow> still I s t" for s e t
    by (auto simp: collect_patches_def iterate_dl_maps_def)
  then show "process_collect_vmas x s = Some (e, t) \<Longrightarrow> still I s t"
    by (auto simp: process_collect_vmas_def Let_def split: bind_splits if_splits
        dest!: collect_vmas_still[OF assms] collect_dl_maps_still[OF assms]) (auto simp: still_def)
qed

lemma init_context_still:
  assumes "looks x I"
  shows "init_context x pid f d s = Some (e, t) \<Longrightarrow> still I s t"
proof -
  have des: "still I s u \<Longrightarrow> still I s (elf_destroy_info x ei u)" for s u ei
    by (rule still.frame_trans[OF _ elf_destroy_info_still[OF assms]])
  show "init_context x pid f d s = Some (e, t) \<Longrightarrow> still I s t"
    by (auto simp: init_context_def init_patch_def still.frame_refl split: bind_splits if_splits prod.splits
        intro!: des dest!: elf_create_info_still[OF assms] create_patch_still[OF assms]) (auto simp: still_def)
qed

section \<open>The commands that only look\<close>

text \<open>
  C17: Checking for a patch and listing the patches leave the process alone. Whatever is kept by
  reading the map of the process and the files it maps, such as the memory of the target and
  the state of its threads, is kept by both commands, on every path: they never write to the
  target, run a system call or code in it, stop or resume a thread, or talk to the service.
\<close>

theorem inspection_is_read_only:
  assumes "looks x I" and "I (world s)"
  shows "(case check_process x pid patchfile s of None \<Rightarrow> True | Some (ret, t) \<Rightarrow> I (world t))
    \<and> (case list_process_patches x pid s of None \<Rightarrow> True | Some (ret, t) \<Rightarrow> I (world t))"
proof
  have "still I s t" if "check_process x pid patchfile s = Some (ret, t)" for ret t
    using that by (auto simp: check_process_def split: bind_splits if_splits
        dest!: init_context_still[OF assms(1)] process_collect_vmas_still[OF assms(1)]) (auto simp: still_def)
  with assms(2) show "case check_process x pid patchfile s of None \<Rightarrow> True | Some (ret, t) \<Rightarrow> I (world t)"
    by (auto simp: still_def split: option.splits)
  have "still I s t" if "list_process_patches x pid s = Some (ret, t)" for ret t
    using that by (auto simp: list_process_patches_def still.frame_refl split: bind_splits if_splits
        dest!: process_collect_vmas_still[OF assms(1)])
  with assms(2) show "case list_process_patches x pid s of None \<Rightarrow> True | Some (ret, t) \<Rightarrow> I (world t)"
    by (auto simp: still_def split: option.splits)
qed

lemma coll_looks: "looks coll_ext (\<lambda>w. sim_mem w = m \<and> sim_sent w = [])"
  by (auto simp: looks_def coll_ext_def sim_ext_def)

lemma coll_lists: "map_option fst (list_process_patches coll_ext 10 coll_start) = Some (0, ''  /lib/libc.so (bb) - '')"
  by (simp add: list_process_patches_def elf_library_status_def list_patch_def path_text_def coll_eval)

theorem inspection_is_read_only_witness:
  "\<exists>t. list_process_patches coll_ext 10 coll_start = Some ((0, ''  /lib/libc.so (bb) - ''), t)
     \<and> sim_mem (world t) = (\<lambda>a. 0x90) \<and> sim_sent (world t) = []"
proof -
  from coll_lists obtain t where t: "list_process_patches coll_ext 10 coll_start = Some ((0, ''  /lib/libc.so (bb) - ''), t)"
    by auto
  have "sim_mem (world coll_start) = (\<lambda>a. 0x90) \<and> sim_sent (world coll_start) = []"
    by (simp add: coll_start_def sim_world_def)
  from inspection_is_read_only[OF coll_looks this, of 10 "''p''"] t show ?thesis by simp
qed

end
