(* ===== verification/Reports.thy ===== *)
theory Reports
  imports Nsb_Log Inspection
begin

text \<open>
  The functions that only write to the log or to the terminal: the areas (\<open>patcher/vma.c\<close>,
  \<open>dl_map.c\<close>), the mappings made in the target (\<open>process.c\<close>), the tables of relocations
  (\<open>relocations.c\<close>) and the usage (\<open>main.c\<close>). A message is its level and its text; whether it is
  written is decided in \<open>Nsb_Log\<close>.
\<close>

section \<open>Conversions of \<open>printf\<close>\<close>

definition pad :: "char \<Rightarrow> nat \<Rightarrow> string \<Rightarrow> string" where
  "pad c w t = replicate (w - length t) c @ t"

definition fmt_lx :: "u64 \<Rightarrow> string" where "fmt_lx n = hex_string (unat n)"
definition fmt_alt_lx :: "u64 \<Rightarrow> string" where "fmt_alt_lx n = (if n = 0 then ''0'' else ''0x'' @ hex_string (unat n))"
definition fmt_s :: "string option \<Rightarrow> string" where "fmt_s t = (case t of None \<Rightarrow> ''(null)'' | Some cs \<Rightarrow> cs)"
definition newline :: string where "newline = [CHR 0x0a]"

type_synonym log_line = "u32 \<times> string"

section \<open>Areas and mappings\<close>

definition print_vma :: "vma_area \<Rightarrow> log_line" where
  "print_vma vma = (LOG_DEBUG, ''    VMA: '' @ fmt_lx (vma_start vma) @ ''-'' @ fmt_lx (vma_end vma) @ '' ''
     @ [if vma_prot vma AND PROT_READ \<noteq> 0 then CHR ''r'' else CHR ''-'',
        if vma_prot vma AND PROT_WRITE \<noteq> 0 then CHR ''w'' else CHR ''-'',
        if vma_prot vma AND PROT_EXEC \<noteq> 0 then CHR ''x'' else CHR ''-'',
        if vma_flags vma = MAP_SHARED then CHR ''s'' else CHR ''p'']
     @ '' '' @ pad (CHR '' '') 8 (fmt_lx (vma_offset vma)) @ '' '' @ (case vpath vma of None \<Rightarrow> [] | Some p \<Rightarrow> p) @ newline)"

definition print_dl_vma :: "(ptr \<Rightarrow> vma_area) \<Rightarrow> ptr \<Rightarrow> log_line list \<Rightarrow> (int \<times> log_line list) option" where
  "print_dl_vma vm vma l = Some (0, l @ [print_vma (vm vma)])"

definition print_dl_vmas :: "(ptr \<Rightarrow> vma_area) \<Rightarrow> dl_map \<Rightarrow> log_line list \<Rightarrow> log_line list option" where
  "print_dl_vmas vm dlm l = do { (_, l) \<leftarrow> iterate_dl_vmas dlm (print_dl_vma vm) l; Some l }"

definition process_print_munmap :: "vma_area \<Rightarrow> log_line" where
  "process_print_munmap vma =
     (LOG_INFO, ''  - munmap: '' @ fmt_alt_lx (vma_start vma) @ ''-'' @ fmt_alt_lx (vma_end vma) @ newline)"

definition process_print_mmap :: "vma_area \<Rightarrow> log_line" where
  "process_print_mmap vma =
     (LOG_INFO, ''  - mmap: '' @ fmt_alt_lx (vma_start vma) @ ''-'' @ fmt_alt_lx (vma_end vma) @ '', off: '' @ fmt_alt_lx (vma_offset vma)
        @ '', prot: '' @ map_prot (vma_prot vma) @ '', flags: '' @ map_flags (vma_flags vma) @ newline)"

section \<open>Relocations\<close>

definition relocation_line :: "extern_symbol \<Rightarrow> log_line" where
  "relocation_line es = (LOG_DEBUG, ''    '' @ pad (CHR ''0'') 12 (fmt_lx (es_r_offset es)) @ ''  '' @ pad (CHR ''0'') 12 (fmt_lx (es_r_info es))
     @ ''  '' @ pad (CHR '' '') 17 (take 17 (fmt_s (es_relocation es))) @ ''  '' @ pad (CHR ''0'') 16 (fmt_lx (es_s_value es))
     @ ''  '' @ es_name es @ '' + '' @ int_string (sint (es_r_addend es)) @ '':'' @ newline)"

definition print_relocation :: "extern_symbol list \<Rightarrow> string \<Rightarrow> log_line list" where
  "print_relocation head name =
     (if head = [] then []
      else (LOG_DEBUG, ''  '' @ name @ '':'' @ newline)
        # (LOG_DEBUG, ''    Offset        Info          Type               Symbol value      Name + Addend'' @ newline)
        # map relocation_line head)"

text \<open>What \<open>collect_relocations\<close> prints, beside what it does: the second table is the first one again.\<close>

definition collect_relocations_log :: "'w ext \<Rightarrow> 'w pst \<Rightarrow> log_line list option" where
  "collect_relocations_log x s = do {
     ei \<leftarrow> ctx_patch_ei (ctx s);
     p \<leftarrow> ctx_patch (ctx s);
     (err, s, plt) \<leftarrow> elf_rela_plt x ei (s, rela_plt (patch_of s p));
     let l = (if err = 0 then print_relocation plt ''.rela.plt'' else []);
     let s = upd_patch p (\<lambda>q. q\<lparr>rela_plt := plt\<rparr>) s;
     (err, s, dyn) \<leftarrow> elf_rela_dyn x ei (s, rela_dyn (patch_of s p));
     let s = upd_patch p (\<lambda>q. q\<lparr>rela_dyn := dyn\<rparr>) s;
     Some ((LOG_DEBUG, ''= Collect relocations:'' @ newline) # l
       @ (if err = 0 then print_relocation (rela_plt (patch_of s p)) ''.rela.plt'' else [])) }"

section \<open>Usage\<close>

definition print_usage :: "string list" where
  "print_usage = [[], ''Usage:'', ''  nsb COMMAND OPTIONS'', [],
     ''Commands:'',
     ''  patch           - apply patch to process'',
     ''  check           - check whether patch is applied to process'',
     ''  list            - list all applied patches'',
     ''  revert          - revert patch in process'', [],
     ''Options:'',
     ''  -p, --pid       - Process PID'',
     ''  -f, --filename  - Patch file path'',
     ''      --dry-run   - Do not perform any actual changes to process'',
     ''      --no-plugin - Don'' @ [CHR 0x27] @ ''t use plugin injection'',
     ''  -v, --verbosity - Log level verbosity'',
     ''                      0 - Silent (default)'',
     ''                      1 - Error messages only'',
     ''                      2 - Error and warning messages'',
     ''                      3 - Error, warning and information messages'',
     ''                      4 - Error, warning, information and debug messages'']"

section \<open>What the reports say\<close>

lemma print_dl_vmas_each: "print_dl_vmas vm dlm l = Some (l @ map (\<lambda>v. print_vma (vm v)) (dl_vmas dlm))"
proof -
  have "iterate (print_dl_vma vm) vs l = Some (0, l @ map (\<lambda>v. print_vma (vm v)) vs)" for vs
    by (induction vs arbitrary: l) (simp_all add: print_dl_vma_def)
  then show ?thesis by (simp add: print_dl_vmas_def iterate_dl_vmas_def)
qed

text \<open>The addresses of an area can be read back from its line.\<close>

lemma print_vma_addresses:
  "\<exists>t u. scan_unsigned 16 (drop 9 (snd (print_vma vma))) = Some (vma_start vma, CHR ''-'' # t)
     \<and> scan_unsigned 16 t = Some (vma_end vma, CHR '' '' # u)"
proof -
  have "\<exists>u. snd (print_vma vma) = ''    VMA: '' @ hex_string (unat (vma_start vma)) @ ''-'' @ hex_string (unat (vma_end vma)) @ '' '' @ u"
    unfolding print_vma_def fmt_lx_def snd_conv by (intro exI) (rule refl)
  then obtain u where u: "snd (print_vma vma)
      = ''    VMA: '' @ hex_string (unat (vma_start vma)) @ ''-'' @ hex_string (unat (vma_end vma)) @ '' '' @ u" ..
  have lt: "unat a < 2 ^ 64" for a :: u64 using unsigned_less[where 'a = nat, of a] by simp
  have "scan_unsigned 16 (drop 9 (snd (print_vma vma))) = Some (vma_start vma, CHR ''-'' # hex_string (unat (vma_end vma)) @ CHR '' '' # u)"
    "scan_unsigned 16 (hex_string (unat (vma_end vma)) @ CHR '' '' # u) = Some (vma_end vma, CHR '' '' # u)"
    by (simp_all add: u scan_hex lt[simplified])
  then show ?thesis by blast
qed

text \<open>
  The table of \<open>.rela.dyn\<close> is never printed: where it should be, the table of \<open>.rela.plt\<close> is printed
  a second time.
\<close>

interpretation patches: state_frame "\<lambda>sd td. patch_of (fst td) = patch_of (fst sd)"
  by unfold_locales auto

lemma elf_set_scn_patches: "elf_set_scn get put n x ei s = Some (r, t) \<Longrightarrow> patch_of t = patch_of s"
  by (auto simp: elf_set_scn_def elf_create_scn_def split: if_splits bind_splits option.splits prod.splits dest!: xmalloc_keeps)

lemma elf_rela_dyn_patches:
  assumes "elf_rela_dyn x ei sd = Some (r, td)"
  shows "patch_of (fst td) = patch_of (fst sd)"
proof -
  have es: "patch_of (fst td) = patch_of (fst sd)" if "collect_es x ei rela sd = Some (r, td)" for rela sd r td
    using that by (auto simp: collect_es_def create_ext_sym_def dynsym_name_def elf_set_dynsym_scn_def Let_def
        split: prod.splits option.splits bind_splits if_splits dest!: elf_set_scn_patches xmalloc_keeps)
  have it: "patch_of (fst td) = patch_of u" if "iter_rela_in (collect_es x ei) g is (u, h) = Some (r, td)" for g "is" u h r td
    using patches.rela_loop_frame[OF es that] by simp
  from assms show ?thesis
    by (auto simp: elf_rela_dyn_def elf_collect_rela_def iter_rela_def elf_set_rela_dyn_scn_def split: bind_splits option.splits if_splits
        dest!: elf_set_scn_patches it)
qed

lemma rela_dyn_not_printed:
  assumes "ctx_patch_ei (ctx s) = Some ei" "ctx_patch (ctx s) = Some p"
    and "elf_rela_plt x ei (s, rela_plt (patch_of s p)) = Some (0, s1, plt)"
    and "elf_rela_dyn x ei (upd_patch p (\<lambda>q. q\<lparr>rela_plt := plt\<rparr>) s1, rela_dyn (patch_of s1 p)) = Some (0, s2, dyn)"
  shows "collect_relocations_log x s = Some ((LOG_DEBUG, ''= Collect relocations:'' @ newline)
    # print_relocation plt ''.rela.plt'' @ print_relocation plt ''.rela.plt'')"
  using assms elf_rela_dyn_patches[OF assms(4)] by (simp add: collect_relocations_log_def Let_def)

end
