(* ===== verification/Plugin_Service.thy ===== *)
theory Plugin_Service
  imports Service_Msg
begin

text \<open>
  The service itself, \<open>plugins/service.c\<close>: the library that runs inside the target and maps
  and unmaps memory on request. Its calls out are the parameter \<open>pext\<close>, its static variables
  the record \<open>plug\<close>. A function returns \<open>None\<close> when it crashes, leaves a buffer, or gives up
  the control with \<open>emergency_sigreturn\<close>.
\<close>

record 'w pext =
  p_munmap :: "u64 \<Rightarrow> u64 \<Rightarrow> 'w \<Rightarrow> (int \<times> int) \<times> 'w"
  p_mmap :: "u64 \<Rightarrow> u64 \<Rightarrow> u32 \<Rightarrow> u32 \<Rightarrow> int \<Rightarrow> u64 \<Rightarrow> 'w \<Rightarrow> (u64 \<times> int) \<times> 'w"
  p_close :: "int \<Rightarrow> 'w \<Rightarrow> (int \<times> int) \<times> 'w"
  p_recv :: "int \<Rightarrow> nat \<Rightarrow> bool \<Rightarrow> 'w \<Rightarrow> (int + byte list) \<times> 'w"
  p_send :: "int \<Rightarrow> byte list \<Rightarrow> 'w \<Rightarrow> (int + nat) \<times> 'w"
  p_accept4 :: "int \<Rightarrow> 'w \<Rightarrow> (int + int) \<times> 'w"
  p_recvmsg :: "int \<Rightarrow> 'w \<Rightarrow> (int \<times> byte list) \<times> 'w"
  p_socket :: "'w \<Rightarrow> (int + int) \<times> 'w"
  p_bind :: "int \<Rightarrow> byte list \<Rightarrow> 'w \<Rightarrow> (int \<times> int) \<times> 'w"
  p_listen :: "int \<Rightarrow> 'w \<Rightarrow> (int \<times> int) \<times> 'w"
  p_getpid :: pid
  p_slack :: "nat \<Rightarrow> byte"
  p_mem :: "u64 \<Rightarrow> byte"
  p_r_map :: u64
  p_sigframe_size :: nat

record 'w plug =
  pworld :: 'w
  perrno :: int
  listen_sock :: int
  cmd_sock :: int
  nsb_service_stop :: bool
  emergency_sigframe :: "byte list"

definition p_call :: "('w \<Rightarrow> 'r \<times> 'w) \<Rightarrow> 'w plug \<Rightarrow> 'r \<times> 'w plug" where
  "p_call f s = (case f (pworld s) of (r, w) \<Rightarrow> (r, s\<lparr>pworld := w\<rparr>))"

definition p_sys :: "('w \<Rightarrow> (int + 'r) \<times> 'w) \<Rightarrow> 'w plug \<Rightarrow> 'r option \<times> 'w plug" where
  "p_sys f s = (case p_call f s of
     (Inl e, s) \<Rightarrow> (None, s\<lparr>perrno := e\<rparr>) | (Inr r, s) \<Rightarrow> (Some r, s))"

section \<open>Responses\<close>

definition nsb_service_send_response :: "'w pext \<Rightarrow> byte list \<Rightarrow> 'w plug \<Rightarrow> int \<times> 'w plug" where
  "nsb_service_send_response x rs s =
     (case p_sys (p_send x (cmd_sock s) rs) s of
        (None, s) \<Rightarrow> (- perrno s, s) | (Some n, s) \<Rightarrow> (int n, s))"

text \<open>The size or error, and the request buffer after the call.\<close>

definition nsb_service_receive_request :: "'w pext \<Rightarrow> bool \<Rightarrow> 'w plug \<Rightarrow> (int \<times> byte list) \<times> 'w plug" where
  "nsb_service_receive_request x dontwait s =
     (let uninit = map (p_slack x) [0..<4 + NSB_SERVICE_MESSAGE_DATA_SIZE] in
      case p_sys (p_recv x (cmd_sock s) (4 + NSB_SERVICE_MESSAGE_DATA_SIZE) dontwait) s of
        (None, s) \<Rightarrow> ((- perrno s, uninit), s)
      | (Some msg, s) \<Rightarrow>
          let rq = msg @ drop (length msg) uninit in
          if msg \<noteq> [] \<and> length msg < 4 then ((- EINVAL, rq), s) else ((int (length msg), rq), s))"

record nsb_response_data =
  rd_used :: nat
  rd_data :: "byte list"

definition put :: "byte list \<Rightarrow> nat \<Rightarrow> byte list \<Rightarrow> byte list" where
  "put data off bs = take off data @ bs @ drop (off + length bs) data"

text \<open>
  \<open>vsnprintf\<close> writes what fits, ends it with a zero byte and returns the full length. The
  space left is unsigned: it is huge when more was \<open>used\<close> than there is, and the text is then
  written behind the buffer.
\<close>

definition nsb_service_response_print :: "string \<Rightarrow> nsb_response_data \<Rightarrow> nsb_response_data option" where
  "nsb_service_response_print text rd =
     (if NSB_SERVICE_MESSAGE_DATA_SIZE < rd_used rd then None
      else let left = NSB_SERVICE_MESSAGE_DATA_SIZE - rd_used rd in
           if left = 0 then Some rd
           else Some (rd\<lparr>rd_data := put (rd_data rd) (rd_used rd) (map of_char (take (left - 1) text) @ [0]),
                         rd_used := rd_used rd + length text + 1\<rparr>))"

text \<open>The conversions \<open>%#lx\<close>, \<open>%#x\<close>, \<open>%ld\<close> and \<open>%d\<close> of the messages.\<close>

definition fmt_hex :: "nat \<Rightarrow> string" where
  "fmt_hex n = (if n = 0 then ''0'' else ''0x'' @ hex_string n)"

definition fmt_ld :: "u64 \<Rightarrow> string" where
  "fmt_ld w = int_string (sint w)"

definition fmt_d :: "u64 \<Rightarrow> string" where
  "fmt_d w = int_string (sint (ucast w :: u32))"

section \<open>Handlers\<close>

definition nsb_service_cmd_emerg_sigframe ::
    "'w pext \<Rightarrow> byte list \<Rightarrow> nat \<Rightarrow> nsb_response_data \<Rightarrow> 'w plug \<Rightarrow> (int \<times> nsb_response_data \<times> 'w plug) option" where
  "nsb_service_cmd_emerg_sigframe x data len rd s =
     (if len \<noteq> p_sigframe_size x then do {
        rd \<leftarrow> nsb_service_response_print (''frame size is invalid: '' @ fmt_ld (of_nat len) @ '' (''
                @ fmt_ld (of_nat (p_sigframe_size x)) @ '')'') rd;
        Some (- EINVAL, rd, s) }
      else Some (0, rd, s\<lparr>emergency_sigframe := take len data\<rparr>))"

definition nsb_service_cmd_stop ::
    "'w pext \<Rightarrow> byte list \<Rightarrow> nat \<Rightarrow> nsb_response_data \<Rightarrow> 'w plug \<Rightarrow> (int \<times> nsb_response_data \<times> 'w plug) option" where
  "nsb_service_cmd_stop x data len rd s = Some (0, rd, s\<lparr>nsb_service_stop := True\<rparr>)"

definition nsb_service_cmd_do_munmap ::
    "'w pext \<Rightarrow> nsb_service_map_addr_info \<Rightarrow> nsb_response_data \<Rightarrow> 'w plug \<Rightarrow> (int \<times> nsb_response_data \<times> 'w plug) option" where
  "nsb_service_cmd_do_munmap x mai rd s =
     (case p_call (p_munmap x (mai_addr mai) (mai_length mai)) s of
        ((err, e), s) \<Rightarrow>
          if err = -1 then do {
            rd \<leftarrow> nsb_service_response_print (''failed to munmap '' @ fmt_hex (unat (mai_addr mai)) @ ''-''
                    @ fmt_hex (unat (mai_addr mai + mai_length mai))) rd;
            let s = s\<lparr>perrno := e\<rparr>;
            Some (- perrno s, rd, s) }
          else Some (0, rd, s))"

fun munmap_all ::
    "'w pext \<Rightarrow> nsb_service_map_addr_info list \<Rightarrow> nsb_response_data \<Rightarrow> 'w plug \<Rightarrow> (int \<times> nsb_response_data \<times> 'w plug) option" where
  "munmap_all x [] rd s = Some (0, rd, s)"
| "munmap_all x (mai # mais) rd s = do {
     (err, rd, s) \<leftarrow> nsb_service_cmd_do_munmap x mai rd s;
     if err \<noteq> 0 then Some (err, rd, s) else munmap_all x mais rd s }"

definition nsb_service_cmd_munmap ::
    "'w pext \<Rightarrow> byte list \<Rightarrow> nat \<Rightarrow> nsb_response_data \<Rightarrow> 'w plug \<Rightarrow> (int \<times> nsb_response_data \<times> 'w plug) option" where
  "nsb_service_cmd_munmap x data len rd s =
     (let nr_munmaps = word_at data 0; max_munmaps = NSB_SERVICE_MUNMAP_DATA_SIZE_MAX div 16 in
      if max_munmaps < unat nr_munmaps then do {
        rd \<leftarrow> nsb_service_response_print (''too many numap requests: '' @ fmt_d nr_munmaps @ '' (max: ''
                @ fmt_ld (of_nat max_munmaps) @ '')'') rd;
        Some (- E2BIG, rd, s) }
      else munmap_all x (map (\<lambda>nr. dec_mai (drop (nr * 16) (drop 8 data))) [0..<unat nr_munmaps]) rd s)"

text \<open>
  A failed mapping is also reported with \<open>printf\<close> on the standard output of the target, before \<open>errno\<close> is read.
  This output is not modelled; \<open>e\<close> stands for the value that \<open>errno\<close> has when it is read, which is that of
  \<open>mmap\<close> when \<open>printf\<close> does not fail.
\<close>

definition nsb_service_cmd_do_mmap ::
    "'w pext \<Rightarrow> int \<Rightarrow> nsb_service_mmap_info \<Rightarrow> nsb_response_data \<Rightarrow> 'w plug \<Rightarrow> (int \<times> nsb_response_data \<times> 'w plug) option" where
  "nsb_service_cmd_do_mmap x fd mi rd s =
     (let mai = mi_info mi in
      case p_call (p_mmap x (mai_addr mai) (mai_length mai) (mi_prot mi) (mi_flags mi) fd (mi_offset mi)) s of
        ((address, e), s) \<Rightarrow>
          if address = -1 then do {
            rd \<leftarrow> nsb_service_response_print (''failed to create new mapping '' @ fmt_hex (unat (mai_addr mai)) @ ''-''
                    @ fmt_hex (unat (mai_addr mai + mai_length mai)) @ '' with flags '' @ fmt_hex (unat (mi_prot mi))
                    @ '', prot '' @ fmt_hex (unat (mi_flags mi)) @ '', offset '' @ fmt_hex (unat (mi_offset mi))) rd;
            let s = s\<lparr>perrno := e\<rparr>;
            Some (- perrno s, rd, s) }
          else Some (0, rd, s))"

text \<open>The number of areas that were mapped is returned with the error.\<close>

fun mmap_all ::
    "'w pext \<Rightarrow> int \<Rightarrow> nat \<Rightarrow> nsb_service_mmap_info list \<Rightarrow> nsb_response_data \<Rightarrow> 'w plug
      \<Rightarrow> (int \<times> nat \<times> nsb_response_data \<times> 'w plug) option" where
  "mmap_all x fd nr [] rd s = Some (0, nr, rd, s)"
| "mmap_all x fd nr (mi # mis) rd s = do {
     (err, rd, s) \<leftarrow> nsb_service_cmd_do_mmap x fd mi rd s;
     if err \<noteq> 0 then Some (err, nr, rd, s) else mmap_all x fd (nr + 1) mis rd s }"

text \<open>The clean-up loop starts at the area that could not be mapped and stops before the first one.\<close>

fun unmap_back ::
    "'w pext \<Rightarrow> (nat \<Rightarrow> nsb_service_mmap_info) \<Rightarrow> nat \<Rightarrow> nsb_response_data \<Rightarrow> 'w plug \<Rightarrow> (nsb_response_data \<times> 'w plug) option" where
  "unmap_back x mi 0 rd s = Some (rd, s)"
| "unmap_back x mi (Suc nr) rd s = do {
     (_, rd, s) \<leftarrow> nsb_service_cmd_do_munmap x (mi_info (mi (Suc nr))) rd s;
     unmap_back x mi nr rd s }"

definition nsb_service_cmd_mmap ::
    "'w pext \<Rightarrow> byte list \<Rightarrow> nat \<Rightarrow> nsb_response_data \<Rightarrow> 'w plug \<Rightarrow> (int \<times> nsb_response_data \<times> 'w plug) option" where
  "nsb_service_cmd_mmap x data len rd s =
     (let fd = sint (int_at data 0); nr_mmaps = word_at data 8; max_mmaps = NSB_SERVICE_MMAP_DATA_SIZE_MAX div 32;
          mmap = (\<lambda>nr. dec_mi (drop (nr * 32) (drop 16 data)))
      in if max_mmaps < unat nr_mmaps then do {
           rd \<leftarrow> nsb_service_response_print (''too many map requests: '' @ fmt_d nr_mmaps @ '' (max: ''
                   @ fmt_ld (of_nat max_mmaps) @ '')'') rd;
           Some (- E2BIG, rd, s) }
         else if nr_mmaps \<noteq> 2 then do {
           rd \<leftarrow> nsb_service_response_print (''rq->nr_mmaps: '' @ fmt_d nr_mmaps) rd;
           Some (- EINVAL, rd, s) }
         else do {
           (err, nr, rd, s) \<leftarrow> mmap_all x fd 0 (map mmap [0..<unat nr_mmaps]) rd s;
           if err \<noteq> 0 then do {
             (rd, s) \<leftarrow> unmap_back x mmap nr rd s;
             Some (err, rd, s) }
           else case p_call (p_close x fd) s of (_, s) \<Rightarrow> Some (0, rd, s) })"

section \<open>The list of loaded objects\<close>

definition mem_at :: "'w pext \<Rightarrow> u64 \<Rightarrow> u64" where
  "mem_at x a = le_word (map (\<lambda>i. p_mem x (a + of_nat i)) [0..<8])"

partial_function (option) nsb_service_dynamic_tag_val :: "'w pext \<Rightarrow> u64 \<Rightarrow> u32 \<Rightarrow> int option" where
  "nsb_service_dynamic_tag_val x d tag =
     (if mem_at x d = 0 then Some (- ENOENT)
      else if mem_at x d = ucast tag then Some (sint (mem_at x (d + 8)))
      else nsb_service_dynamic_tag_val x (d + 16) tag)"

partial_function (option) needed_loop ::
    "'w pext \<Rightarrow> u64 \<Rightarrow> nat \<Rightarrow> nsb_response_data \<Rightarrow> (int \<times> nat \<times> nsb_response_data) option" where
  "needed_loop x lm nr rd =
     (let max_base_addrs = NSB_SERVICE_NEEDED_LIST_SIZE_MAX div 8 in
      if nr = max_base_addrs then do {
        rd \<leftarrow> nsb_service_response_print (''to many base addresses (max: '' @ fmt_ld (of_nat max_base_addrs) @ '')'')
                (rd\<lparr>rd_used := 0\<rparr>);
        Some (- E2BIG, nr, rd) }
      else if lm = 0 then None
      else do {
        dt_symtab_addr \<leftarrow> nsb_service_dynamic_tag_val x (mem_at x (lm + 16)) 6;
        if dt_symtab_addr = - ENOENT then do {
          rd \<leftarrow> nsb_service_response_print (''failed to find DT_SYMTAB (l_addr: '' @ hex_string (unat (mem_at x lm)) @ '')'')
                  (rd\<lparr>rd_used := 0\<rparr>);
          Some (- ENOENT, nr, rd) }
        else do {
          let (nr, rd) = (if sint (mem_at x lm) \<le> dt_symtab_addr
             then (nr + 1, rd\<lparr>rd_data := put (rd_data rd) (8 + 8 * nr) (le_bytes 8 (of_int dt_symtab_addr)),
                              rd_used := rd_used rd + 8\<rparr>)
             else (nr, rd));
          let lm = mem_at x (lm + 24);
          if lm = 0 then None
          else if mem_at x (lm + 24) \<noteq> 0 then needed_loop x lm nr rd
          else Some (0, nr, rd) } })"

definition nsb_service_cmd_needed_list ::
    "'w pext \<Rightarrow> byte list \<Rightarrow> nat \<Rightarrow> nsb_response_data \<Rightarrow> 'w plug \<Rightarrow> (int \<times> nsb_response_data \<times> 'w plug) option" where
  "nsb_service_cmd_needed_list x data len rd s = do {
     (err, nr, rd) \<leftarrow> needed_loop x (p_r_map x) 0 rd;
     if err \<noteq> 0 then Some (err, rd, s)
     else Some (0, rd\<lparr>rd_data := put (rd_data rd) 0 (le_bytes 8 (of_nat nr)), rd_used := 8 + 8 * nr\<rparr>, s) }"

section \<open>Dispatch\<close>

text \<open>The table has five entries; the check lets the index five through.\<close>

definition nsb_service_cmd_handlers ::
    "'w pext \<Rightarrow> u32 \<Rightarrow> (byte list \<Rightarrow> nat \<Rightarrow> nsb_response_data \<Rightarrow> 'w plug \<Rightarrow> (int \<times> nsb_response_data \<times> 'w plug) option) option" where
  "nsb_service_cmd_handlers x cmd =
     (if cmd = NSB_SERVICE_CMD_EMERG_SIGFRAME then Some (nsb_service_cmd_emerg_sigframe x)
      else if cmd = NSB_SERVICE_CMD_STOP then Some (nsb_service_cmd_stop x)
      else if cmd = NSB_SERVICE_CMD_NEEDED_LIST then Some (nsb_service_cmd_needed_list x)
      else if cmd = NSB_SERVICE_CMD_MMAP then Some (nsb_service_cmd_mmap x)
      else if cmd = NSB_SERVICE_CMD_MUNMAP then Some (nsb_service_cmd_munmap x)
      else None)"

definition nsb_do_handle_cmd ::
    "'w pext \<Rightarrow> byte list \<Rightarrow> nat \<Rightarrow> nsb_response_data \<Rightarrow> 'w plug \<Rightarrow> (int \<times> nsb_response_data \<times> 'w plug) option" where
  "nsb_do_handle_cmd x rq data_size rd s =
     (let cmd = int_at rq 0 in
      if NSB_SERVICE_CMD_MAX < cmd then do {
        rd \<leftarrow> nsb_service_response_print (''unknown command: '' @ fmt_d (ucast cmd)) rd;
        Some (- EINVAL, rd, s) }
      else do {
        handler \<leftarrow> nsb_service_cmd_handlers x cmd;
        handler (drop 4 rq) data_size rd s })"

text \<open>\<open>emergency_sigreturn\<close> restores the registers of the interrupted code: it does not return.\<close>

definition emergency_sigreturn :: "'w pext \<Rightarrow> 'w plug \<Rightarrow> (int \<times> 'w plug) option" where
  "emergency_sigreturn x s = None"

definition nsb_handle_command :: "'w pext \<Rightarrow> byte list \<Rightarrow> nat \<Rightarrow> 'w plug \<Rightarrow> (int \<times> 'w plug) option" where
  "nsb_handle_command x rq data_size s = do {
     (ret, rd, s) \<leftarrow> nsb_do_handle_cmd x rq data_size
        \<lparr>rd_used = 0, rd_data = replicate NSB_SERVICE_MESSAGE_DATA_SIZE 0\<rparr> s;
     if NSB_SERVICE_MESSAGE_DATA_SIZE < rd_used rd then None
     else case nsb_service_send_response x (nsb_service_response ret (take (rd_used rd) (rd_data rd))) s of
            (sent, s) \<Rightarrow>
              if sent < 0 then Some (to_int sent, s)
              else if sent = 0 then emergency_sigreturn x s
              else Some (0, s) }"

definition nsb_service_run :: "'w pext \<Rightarrow> bool \<Rightarrow> 'w plug \<Rightarrow> (int \<times> 'w plug) option" where
  "nsb_service_run x wait s =
     (case nsb_service_receive_request x (\<not> wait) s of
        ((len, rq), s) \<Rightarrow>
          if len < 0 then (if len = - EAGAIN then Some (0, s) else Some (to_int len, s))
          else if len = 0 then emergency_sigreturn x s
          else nsb_handle_command x rq (nat len - 4) s)"

partial_function (option) nsb_service_run_loop :: "'w pext \<Rightarrow> bool \<Rightarrow> bool \<Rightarrow> 'w plug \<Rightarrow> (int \<times> 'w plug) option" where
  "nsb_service_run_loop x once wait s = do {
     (ret, s) \<leftarrow> nsb_service_run x wait s;
     if \<not> nsb_service_stop s \<and> \<not> once then nsb_service_run_loop x once wait s else Some (ret, s) }"

definition nsb_service_accept :: "'w pext \<Rightarrow> 'w plug \<Rightarrow> int \<times> 'w plug" where
  "nsb_service_accept x s =
     (let s = (if cmd_sock s \<noteq> -1 then snd (p_call (p_close x (cmd_sock s)) s) else s) in
      case p_sys (p_accept4 x (listen_sock s)) s of
        (None, s) \<Rightarrow> (perrno s, s\<lparr>cmd_sock := -1\<rparr>)
      | (Some sock, s) \<Rightarrow> (0, s\<lparr>cmd_sock := sock\<rparr>))"

definition nsb_service_receive_fd :: "'w pext \<Rightarrow> 'w plug \<Rightarrow> (int \<times> 'w plug) option" where
  "nsb_service_receive_fd x s =
     (if cmd_sock s = -1 then Some (- ENOENT, s)
      else case p_call (p_recvmsg x (cmd_sock s)) s of
             (r, s) \<Rightarrow> do { fd \<leftarrow> recv_fd r; Some (fd, s) })"

definition nsb_service_destructor :: "'w pext \<Rightarrow> 'w plug \<Rightarrow> int \<times> 'w plug" where
  "nsb_service_destructor x s =
     (let s = (if cmd_sock s \<noteq> -1 then snd (p_call (p_close x (cmd_sock s)) s) else s);
          s = snd (p_call (p_close x (listen_sock s)) s)
      in (0, s))"

definition nsb_service_constructor :: "'w pext \<Rightarrow> 'w plug \<Rightarrow> int \<times> 'w plug" where
  "nsb_service_constructor x s =
     (if 107 < length (''NSB-SERVICE-'' @ int_string (p_getpid x)) then (ENOMEM, s)
      else case p_sys (p_socket x) s of
             (None, s) \<Rightarrow> (perrno s, s\<lparr>listen_sock := -1\<rparr>)
           | (Some sock, s) \<Rightarrow>
               let s = s\<lparr>listen_sock := sock\<rparr> in
               case p_call (p_bind x sock (service_sockaddr (p_slack x) (p_getpid x))) s of
                 ((ret, e), s) \<Rightarrow>
                   if ret \<noteq> 0 then (e, snd (p_call (p_close x sock) s))
                   else case p_call (p_listen x sock) s of
                          ((ret, e), s) \<Rightarrow>
                            if ret \<noteq> 0 then (e, snd (p_call (p_close x sock) s)) else (0, s))"

section \<open>What a request does\<close>

text \<open>
  The memory calls of a service, as its world takes note of them. It is a simplified kernel: the calls in \<open>fails\<close>
  always fail, with \<open>ENOMEM\<close>, and the others always succeed. \<open>logs\<close> is the world that is just the list of the calls.
\<close>

datatype pop = Mmap u64 u64 u32 u32 int u64 | Munmap u64 u64 | Close int

definition noting :: "(pop \<Rightarrow> 'w \<Rightarrow> 'w) \<Rightarrow> 'w pext \<Rightarrow> pop set \<Rightarrow> bool" where
  "noting note x fails \<longleftrightarrow>
     (\<forall>a l p f fd off w. \<exists>r. p_mmap x a l p f fd off w
        = ((if Mmap a l p f fd off \<in> fails then -1 else r, ENOMEM), note (Mmap a l p f fd off) w) \<and> r \<noteq> -1)
   \<and> (\<forall>a l w. p_munmap x a l w = ((if Munmap a l \<in> fails then -1 else 0, ENOMEM), note (Munmap a l) w))
   \<and> (\<forall>fd w. p_close x fd w = ((0, 0), note (Close fd) w))"

definition logs :: "pop list pext \<Rightarrow> pop set \<Rightarrow> bool" where
  "logs = noting (\<lambda>op w. w @ [op])"

definition mmap_op :: "int \<Rightarrow> nsb_service_mmap_info \<Rightarrow> pop" where
  "mmap_op fd mi = Mmap (mai_addr (mi_info mi)) (mai_length (mi_info mi)) (mi_prot mi) (mi_flags mi) fd (mi_offset mi)"

definition munmap_op :: "nsb_service_map_addr_info \<Rightarrow> pop" where
  "munmap_op mai = Munmap (mai_addr mai) (mai_length mai)"

text \<open>The messages that explain a failure.\<close>

definition mmap_error :: "nsb_service_mmap_info \<Rightarrow> string" where
  "mmap_error mi = (let mai = mi_info mi in
     ''failed to create new mapping '' @ fmt_hex (unat (mai_addr mai)) @ ''-''
       @ fmt_hex (unat (mai_addr mai + mai_length mai)) @ '' with flags '' @ fmt_hex (unat (mi_prot mi))
       @ '', prot '' @ fmt_hex (unat (mi_flags mi)) @ '', offset '' @ fmt_hex (unat (mi_offset mi)))"

definition munmap_error :: "nsb_service_map_addr_info \<Rightarrow> string" where
  "munmap_error mai = ''failed to munmap '' @ fmt_hex (unat (mai_addr mai)) @ ''-''
     @ fmt_hex (unat (mai_addr mai + mai_length mai))"

fun print_all :: "string list \<Rightarrow> nsb_response_data \<Rightarrow> nsb_response_data option" where
  "print_all [] rd = Some rd"
| "print_all (m # ms) rd = do { rd \<leftarrow> nsb_service_response_print m rd; print_all ms rd }"

text \<open>The state after the calls \<open>ops\<close>, with the error number of the last failure if there was one.\<close>

definition did :: "(pop \<Rightarrow> 'w \<Rightarrow> 'w) \<Rightarrow> pop list \<Rightarrow> bool \<Rightarrow> 'w plug \<Rightarrow> 'w plug" where
  "did note ops failed s = s\<lparr>pworld := fold note ops (pworld s), perrno := if failed then ENOMEM else perrno s\<rparr>"

lemma did_simps [simp]:
  "did note [] False s = s" "did note ops2 b (did note ops1 False s) = did note (ops1 @ ops2) b s"
  "did note ops2 True (did note ops1 b s) = did note (ops1 @ ops2) True s"
  "did note ops2 False (did note ops1 b s) = did note (ops1 @ ops2) b s"
  by (simp_all add: did_def)

lemma fold_snoc [simp]: "fold (\<lambda>op w. w @ [op]) ops w = w @ ops"
  by (induction ops arbitrary: w) simp_all

lemma did_logs: "did (\<lambda>op w. w @ [op]) ops b s = s\<lparr>pworld := pworld s @ ops, perrno := if b then ENOMEM else perrno s\<rparr>"
  by (simp add: did_def)

lemma do_mmap_noted:
  assumes "noting note x fails"
  shows "nsb_service_cmd_do_mmap x fd mi rd s =
    (if mmap_op fd mi \<in> fails then map_option (\<lambda>rd. (- ENOMEM, rd, did note [mmap_op fd mi] True s)) (print_all [mmap_error mi] rd)
     else Some (0, rd, did note [mmap_op fd mi] False s))"
proof -
  obtain r where "p_mmap x (mai_addr (mi_info mi)) (mai_length (mi_info mi)) (mi_prot mi) (mi_flags mi) fd (mi_offset mi) (pworld s)
      = ((if mmap_op fd mi \<in> fails then -1 else r, ENOMEM), note (mmap_op fd mi) (pworld s))" "r \<noteq> -1"
    using assms unfolding mmap_op_def noting_def by blast
  then show ?thesis
    by (simp add: nsb_service_cmd_do_mmap_def p_call_def did_def mmap_error_def Let_def map_conv_bind_option)
qed

lemma do_munmap_noted:
  assumes "noting note x fails"
  shows "nsb_service_cmd_do_munmap x mai rd s =
    (if munmap_op mai \<in> fails then map_option (\<lambda>rd. (- ENOMEM, rd, did note [munmap_op mai] True s)) (print_all [munmap_error mai] rd)
     else Some (0, rd, did note [munmap_op mai] False s))"
  using assms by (simp add: nsb_service_cmd_do_munmap_def p_call_def noting_def munmap_op_def munmap_error_def did_def map_conv_bind_option)

text \<open>What a request to unmap, and one to map two areas, comes to: the answer, the calls, and the messages.\<close>

fun munmap_outcome :: "pop set \<Rightarrow> nsb_service_map_addr_info list \<Rightarrow> int \<times> pop list \<times> string list" where
  "munmap_outcome fails [] = (0, [], [])"
| "munmap_outcome fails (m # ms) =
     (if munmap_op m \<in> fails then (- ENOMEM, [munmap_op m], [munmap_error m])
      else case munmap_outcome fails ms of (ret, ops, msgs) \<Rightarrow> (ret, munmap_op m # ops, msgs))"

definition mmap_outcome :: "pop set \<Rightarrow> int \<Rightarrow> nsb_service_mmap_info \<Rightarrow> nsb_service_mmap_info \<Rightarrow> int \<times> pop list \<times> string list" where
  "mmap_outcome fails fd m1 m2 =
     (if mmap_op fd m1 \<in> fails then (- ENOMEM, [mmap_op fd m1], [mmap_error m1])
      else if mmap_op fd m2 \<in> fails
      then (- ENOMEM, [mmap_op fd m1, mmap_op fd m2, munmap_op (mi_info m2)],
            mmap_error m2 # (if munmap_op (mi_info m2) \<in> fails then [munmap_error (mi_info m2)] else []))
      else (0, [mmap_op fd m1, mmap_op fd m2, Close fd], []))"

text \<open>The answer of a handler that printed \<open>msgs\<close>.\<close>

definition answers :: "(pop \<Rightarrow> 'w \<Rightarrow> 'w) \<Rightarrow> int \<times> pop list \<times> string list \<Rightarrow> nsb_response_data \<Rightarrow> 'w plug
    \<Rightarrow> (int \<times> nsb_response_data \<times> 'w plug) option" where
  "answers note out rd s = (case out of (ret, ops, msgs) \<Rightarrow>
     map_option (\<lambda>rd. (ret, rd, did note ops (ret = - ENOMEM) s)) (print_all msgs rd))"

lemma munmap_all_noted:
  assumes "noting note x fails"
  shows "munmap_all x mais rd s = answers note (munmap_outcome fails mais) rd s"
proof (induction mais arbitrary: s)
  case (Cons mai mais)
  then show ?case
    by (auto simp: do_munmap_noted[OF assms] answers_def map_conv_bind_option split: prod.splits)
qed (simp add: answers_def)

lemma request_mmaps:
  assumes "length (mrq_mmap mrq) < 2 ^ 64"
  shows "map (\<lambda>nr. dec_mi (drop (nr * 32) (drop 16 (mmap_request_bytes mrq @ rest))))
    [0..<unat (word_at (mmap_request_bytes mrq @ rest) 8)] = mrq_mmap mrq"
  using mi_codec.decode_array[of "mrq_mmap mrq" rest] assms
  by (simp add: mmap_request_fields unat_of_nat del: drop_append drop_drop)

lemma request_munmaps:
  assumes "length (mrq_munmap mrq) < 2 ^ 64"
  shows "map (\<lambda>nr. dec_mai (drop (nr * 16) (drop 8 (munmap_request_bytes mrq @ rest))))
    [0..<unat (word_at (munmap_request_bytes mrq @ rest) 0)] = mrq_munmap mrq"
  using mai_codec.decode_array[of "mrq_munmap mrq" rest] assms
  by (simp add: munmap_request_fields unat_of_nat del: drop_append drop_drop)

lemma cmd_of_request: "int_at (nsb_service_request cmd data @ rest) 0 = cmd"
  "drop 4 (nsb_service_request cmd data @ rest) = data @ rest"
  by (simp_all add: nsb_service_request_def)

lemma handle_munmap_noted:
  assumes "noting note x fails" "length (mrq_munmap mrq) \<le> 511"
  shows "nsb_do_handle_cmd x (nsb_service_request NSB_SERVICE_CMD_MUNMAP (munmap_request_bytes mrq) @ rest) n rd s
    = answers note (munmap_outcome fails (mrq_munmap mrq)) rd s"
proof -
  have nr: "unat (word_at (munmap_request_bytes mrq @ rest) 0) = length (mrq_munmap mrq)"
    using assms(2) by (simp add: munmap_request_fields unat_of_nat)
  have "map (\<lambda>nr. dec_mai (drop (nr * 16) (drop 8 (munmap_request_bytes mrq @ rest))))
      [0..<length (mrq_munmap mrq)] = mrq_munmap mrq"
    using request_munmaps[of mrq rest] assms(2) unfolding nr by simp
  then show ?thesis
    using assms(2) unfolding nsb_do_handle_cmd_def cmd_of_request Let_def
    by (simp add: nsb_service_cmd_handlers_def nsb_service_cmd_munmap_def nr nsb_service_sizes
        munmap_all_noted[OF assms(1)] Let_def del: drop_append drop_drop)
qed

lemma handle_mmap_noted:
  assumes "noting note x fails" "mrq_mmap mrq = [m1, m2]" "- (2 ^ 31) \<le> mrq_fd mrq" "mrq_fd mrq < 2 ^ 31"
  shows "nsb_do_handle_cmd x (nsb_service_request NSB_SERVICE_CMD_MMAP (mmap_request_bytes mrq) @ rest) n rd s
    = answers note (mmap_outcome fails (mrq_fd mrq) m1 m2) rd s"
proof -
  let ?data = "mmap_request_bytes mrq @ rest"
  let ?mmap = "\<lambda>nr. dec_mi (drop (nr * 32) (drop 16 ?data))"
  have nr: "word_at ?data 8 = 2" using assms(2) by (simp add: mmap_request_fields)
  have fd: "sint (int_at ?data 0) = mrq_fd mrq"
    using assms(3,4) by (simp add: mmap_request_fields signed_of_int signed_take_bit_int_eq_self)
  have mmaps: "map ?mmap [0..<2] = [m1, m2]" using request_mmaps[of mrq rest] assms(2) unfolding nr by simp
  then have m2: "dec_mi (drop 32 (drop 16 ?data)) = m2" by (simp add: upt_rec del: drop_append drop_drop)
  have cl: "p_close x (mrq_fd mrq) w = ((0, 0), note (Close (mrq_fd mrq)) w)" for w
    using assms(1) by (simp add: noting_def)
  have "nsb_service_cmd_mmap x ?data n rd s = answers note (mmap_outcome fails (mrq_fd mrq) m1 m2) rd s"
    unfolding nsb_service_cmd_mmap_def Let_def fd
    using mmaps by (simp add: nr nsb_service_sizes p_call_def cl do_mmap_noted[OF assms(1)] do_munmap_noted[OF assms(1)] m2
        answers_def mmap_outcome_def map_conv_bind_option del: drop_append drop_drop) (simp add: did_def)
  then show ?thesis unfolding nsb_do_handle_cmd_def cmd_of_request Let_def by (simp add: nsb_service_cmd_handlers_def)
qed

text \<open>Any other number of areas is refused.\<close>

lemma handle_mmap_refused:
  assumes "length (mrq_mmap mrq) \<le> 255" "length (mrq_mmap mrq) \<noteq> 2"
  shows "nsb_do_handle_cmd x (nsb_service_request NSB_SERVICE_CMD_MMAP (mmap_request_bytes mrq) @ rest) n rd s
    = answers note (- EINVAL, [], [''rq->nr_mmaps: '' @ fmt_d (of_nat (length (mrq_mmap mrq)))]) rd s"
proof -
  let ?nr = "word_at (mmap_request_bytes mrq @ rest) 8"
  have nr: "?nr = of_nat (length (mrq_mmap mrq))" by (simp add: mmap_request_fields)
  then have u: "unat ?nr = length (mrq_mmap mrq)" using assms(1) by (simp add: unat_of_nat)
  have "?nr \<noteq> 2"
  proof
    assume "?nr = 2"
    then have "unat ?nr = unat (2 :: u64)" by (simp only:)
    with u assms(2) show False by simp
  qed
  then have "nsb_service_cmd_mmap x (mmap_request_bytes mrq @ rest) n rd s
      = answers note (- EINVAL, [], [''rq->nr_mmaps: '' @ fmt_d ?nr]) rd s"
    using assms(1) u unfolding nsb_service_cmd_mmap_def Let_def
    by (simp add: nsb_service_sizes answers_def map_conv_bind_option)
  then show ?thesis unfolding nsb_do_handle_cmd_def cmd_of_request Let_def nr by (simp add: nsb_service_cmd_handlers_def)
qed

lemma handle_munmap:
  assumes "logs x fails" "\<forall>mai \<in> set (mrq_munmap mrq). munmap_op mai \<notin> fails" "length (mrq_munmap mrq) \<le> 511"
  shows "nsb_do_handle_cmd x (nsb_service_request NSB_SERVICE_CMD_MUNMAP (munmap_request_bytes mrq) @ rest) n rd s
    = Some (0, rd, s\<lparr>pworld := pworld s @ map munmap_op (mrq_munmap mrq)\<rparr>)"
proof -
  have "munmap_outcome fails ms = (0, map munmap_op ms, [])" if "\<forall>m \<in> set ms. munmap_op m \<notin> fails" for ms
    using that by (induction ms) simp_all
  with assms(2) handle_munmap_noted[OF assms(1)[unfolded logs_def] assms(3)] show ?thesis
    by (simp add: answers_def did_logs)
qed

lemma handle_mmap:
  assumes "logs x fails" "mrq_mmap mrq = [m1, m2]" "mmap_op (mrq_fd mrq) m1 \<notin> fails" "mmap_op (mrq_fd mrq) m2 \<notin> fails"
    and fd: "- (2 ^ 31) \<le> mrq_fd mrq" "mrq_fd mrq < 2 ^ 31"
  shows "nsb_do_handle_cmd x (nsb_service_request NSB_SERVICE_CMD_MMAP (mmap_request_bytes mrq) @ rest) n rd s
    = Some (0, rd, s\<lparr>pworld := pworld s @ [mmap_op (mrq_fd mrq) m1, mmap_op (mrq_fd mrq) m2, Close (mrq_fd mrq)]\<rparr>)"
  using handle_mmap_noted[OF assms(1)[unfolded logs_def] assms(2) fd] assms(3,4)
  by (simp add: answers_def mmap_outcome_def did_logs)

text \<open>
  When the second of the two mappings of a request fails, the service unmaps the area that
  was not mapped and leaves the one that was: the clean-up loop runs over the wrong areas.
\<close>

lemma mmap_failure_leaks_first:
  assumes "logs x fails" "mrq_mmap mrq = [m1, m2]" "mmap_op (mrq_fd mrq) m1 \<notin> fails" "mmap_op (mrq_fd mrq) m2 \<in> fails"
    and "munmap_op (mi_info m2) \<notin> fails" "- (2 ^ 31) \<le> mrq_fd mrq" "mrq_fd mrq < 2 ^ 31"
  shows "\<exists>rd p. nsb_do_handle_cmd x (nsb_service_request NSB_SERVICE_CMD_MMAP (mmap_request_bytes mrq) @ rest) n
      \<lparr>rd_used = 0, rd_data = replicate NSB_SERVICE_MESSAGE_DATA_SIZE 0\<rparr> s = Some (- ENOMEM, rd, p)
    \<and> pworld p = pworld s @ [mmap_op (mrq_fd mrq) m1, mmap_op (mrq_fd mrq) m2, munmap_op (mi_info m2)]"
  using handle_mmap_noted[OF assms(1)[unfolded logs_def] assms(2,6,7)] assms(3-5)
  by (simp add: answers_def mmap_outcome_def did_logs nsb_service_response_print_def Let_def nsb_service_sizes)

text \<open>
  The command number that equals \<open>NSB_SERVICE_CMD_MAX\<close> passes the check of the dispatcher,
  which then reads behind the table of handlers.
\<close>

lemma dispatch_reads_past_table:
  "nsb_do_handle_cmd x (nsb_service_request NSB_SERVICE_CMD_MAX data) n rd s = None"
  using cmd_of_request[of NSB_SERVICE_CMD_MAX data "[]"]
  by (simp add: nsb_do_handle_cmd_def nsb_service_cmd_handlers_def)

section \<open>The response fits\<close>

definition rd_ok :: "nat \<Rightarrow> nsb_response_data \<Rightarrow> bool" where
  "rd_ok b rd \<longleftrightarrow> rd_used rd \<le> b \<and> length (rd_data rd) = NSB_SERVICE_MESSAGE_DATA_SIZE"

lemma length_put: "off + length bs \<le> length data \<Longrightarrow> length (put data off bs) = length data"
  by (simp add: put_def)

lemma response_print_ok:
  assumes "nsb_service_response_print text rd = Some rd'" "rd_ok b rd" "length text \<le> 255"
  shows "rd_ok (b + 256) rd'"
  using assms by (auto simp: nsb_service_response_print_def rd_ok_def Let_def length_put split: if_splits)

lemma response_print_total:
  "rd_used rd \<le> NSB_SERVICE_MESSAGE_DATA_SIZE \<Longrightarrow> \<exists>rd'. nsb_service_response_print msg rd = Some rd'"
  by (cases "rd_used rd = NSB_SERVICE_MESSAGE_DATA_SIZE") (simp_all add: nsb_service_response_print_def Let_def)

lemma rd_ok_mono: "rd_ok b rd \<Longrightarrow> b \<le> c \<Longrightarrow> rd_ok c rd"
  by (simp add: rd_ok_def)

lemma length_fmt_hex: "length (fmt_hex (unat (w :: 'a :: len word))) \<le> 18" if "LENGTH('a) \<le> 64"
proof -
  have "unat w < 2 ^ LENGTH('a)" by simp
  also have "\<dots> \<le> 2 ^ 64" using that by (rule power_increasing) simp
  finally have "unat w < 16 ^ 16" by simp
  from length_hex_string[OF this] show ?thesis by (simp add: fmt_hex_def)
qed

lemma length_fmt_ld: "length (fmt_ld w) \<le> 21"
proof -
  have "\<bar>sint w\<bar> < 10 ^ 20" by (simp add: sint_u64 split: if_splits) (use uint_lt2p[of w] in simp)
  then show ?thesis by (simp add: fmt_ld_def length_int_string)
qed

lemma length_fmt_d: "length (fmt_d w) \<le> 21"
proof -
  have "\<bar>sint (ucast w :: u32)\<bar> < 10 ^ 20"
    using sint_ge[of "ucast w :: u32"] sint_lt[of "ucast w :: u32"] by simp
  then show ?thesis by (simp add: fmt_d_def length_int_string)
qed

text \<open>A failing call reports a positive error number.\<close>

definition errno_positive :: "'w pext \<Rightarrow> bool" where
  "errno_positive x \<longleftrightarrow> (\<forall>a l w. fst (fst (p_munmap x a l w)) = -1 \<longrightarrow> 0 < snd (fst (p_munmap x a l w)))
     \<and> (\<forall>a l p f fd off w. fst (fst (p_mmap x a l p f fd off w)) = -1 \<longrightarrow> 0 < snd (fst (p_mmap x a l p f fd off w)))"

lemma do_munmap_rd:
  assumes "nsb_service_cmd_do_munmap x mai rd s = Some (e, rd', t)" "rd_ok b rd" "errno_positive x"
  shows "rd_ok (b + 256) rd' \<and> (e = 0 \<longrightarrow> rd' = rd)"
proof -
  obtain r n w where fields: "p_munmap x (mai_addr mai) (mai_length mai) (pworld s) = ((r, n), w)"
    by (metis prod.exhaust)
  have len: "length (''failed to munmap '' @ fmt_hex (unat (mai_addr mai)) @ ''-''
      @ fmt_hex (unat (mai_addr mai + mai_length mai))) \<le> 255"
    using length_fmt_hex[of "mai_addr mai"] length_fmt_hex[of "mai_addr mai + mai_length mai"] by simp
  show ?thesis
  proof (cases "r = -1")
    case True
    have "0 < n" using assms(3) fields True unfolding errno_positive_def by (metis fst_conv snd_conv)
    with assms(1) fields True obtain "nsb_service_response_print (''failed to munmap '' @ fmt_hex (unat (mai_addr mai)) @ ''-''
        @ fmt_hex (unat (mai_addr mai + mai_length mai))) rd = Some rd'" "e = - n"
      by (auto simp: nsb_service_cmd_do_munmap_def p_call_def split: bind_splits)
    from response_print_ok[OF this(1) assms(2) len] this(2) \<open>0 < n\<close> show ?thesis by simp
  next
    case False
    with assms(1,2) fields show ?thesis
      by (auto simp: nsb_service_cmd_do_munmap_def p_call_def intro: rd_ok_mono)
  qed
qed

lemma do_mmap_rd:
  assumes "nsb_service_cmd_do_mmap x fd mi rd s = Some (e, rd', t)" "rd_ok b rd" "errno_positive x"
  shows "rd_ok (b + 256) rd' \<and> (e = 0 \<longrightarrow> rd' = rd)"
proof -
  let ?a = "mai_addr (mi_info mi)" and ?l = "mai_length (mi_info mi)"
  let ?text = "''failed to create new mapping '' @ fmt_hex (unat ?a) @ ''-''
      @ fmt_hex (unat (?a + ?l)) @ '' with flags '' @ fmt_hex (unat (mi_prot mi))
      @ '', prot '' @ fmt_hex (unat (mi_flags mi)) @ '', offset '' @ fmt_hex (unat (mi_offset mi))"
  obtain r n w where p: "p_mmap x ?a ?l (mi_prot mi) (mi_flags mi) fd (mi_offset mi) (pworld s) = ((r, n), w)"
    by (metis prod.exhaust)
  have len: "length ?text \<le> 255"
    using length_fmt_hex[of ?a] length_fmt_hex[of "?a + ?l"] length_fmt_hex[of "mi_prot mi"]
      length_fmt_hex[of "mi_flags mi"] length_fmt_hex[of "mi_offset mi"] by simp
  show ?thesis
  proof (cases "r = -1")
    case True
    have "0 < n" using assms(3) p True unfolding errno_positive_def by (metis fst_conv snd_conv)
    with assms(1) p True obtain "nsb_service_response_print ?text rd = Some rd'" "e = - n"
      by (auto simp: nsb_service_cmd_do_mmap_def p_call_def Let_def split: bind_splits)
    from response_print_ok[OF this(1) assms(2) len] this(2) \<open>0 < n\<close> show ?thesis by simp
  next
    case False
    with assms(1,2) p show ?thesis
      by (auto simp: nsb_service_cmd_do_mmap_def p_call_def Let_def intro: rd_ok_mono)
  qed
qed

lemma munmap_all_rd:
  assumes "munmap_all x mais rd s = Some (e, rd', t)" "rd_ok b rd" "errno_positive x"
  shows "rd_ok (b + 256) rd'"
  using assms(1)
proof (induction mais arbitrary: s)
  case Nil
  with assms(2) show ?case by (auto intro: rd_ok_mono)
next
  case (Cons mai mais)
  then obtain e1 rd1 s1 where m: "nsb_service_cmd_do_munmap x mai rd s = Some (e1, rd1, s1)"
    by (cases "nsb_service_cmd_do_munmap x mai rd s") auto
  with do_munmap_rd[OF m assms(2,3)] Cons show ?case by (auto split: if_splits)
qed

lemma mmap_all_rd:
  assumes "mmap_all x fd nr mis rd s = Some (e, nr', rd', t)" "rd_ok b rd" "errno_positive x"
  shows "rd_ok (b + 256) rd' \<and> nr' \<le> nr + length mis"
  using assms(1)
proof (induction mis arbitrary: s nr)
  case Nil
  with assms(2) show ?case by (auto intro: rd_ok_mono)
next
  case (Cons mi mis)
  then obtain e1 rd1 s1 where m: "nsb_service_cmd_do_mmap x fd mi rd s = Some (e1, rd1, s1)"
    by (cases "nsb_service_cmd_do_mmap x fd mi rd s") auto
  with do_mmap_rd[OF m assms(2,3)] Cons.prems Cons.IH[of "nr + 1" s1] show ?case by (auto split: if_splits)
qed

lemma unmap_back_rd:
  assumes "unmap_back x mi nr rd s = Some (rd', t)" "rd_ok b rd" "errno_positive x"
  shows "rd_ok (b + 256 * nr) rd'"
  using assms(1,2)
proof (induction nr arbitrary: rd s b)
  case (Suc nr)
  then obtain e1 rd1 s1 where m: "nsb_service_cmd_do_munmap x (mi_info (mi (Suc nr))) rd s = Some (e1, rd1, s1)"
    and rest: "unmap_back x mi nr rd1 s1 = Some (rd', t)"
    by (cases "nsb_service_cmd_do_munmap x (mi_info (mi (Suc nr))) rd s") auto
  from do_munmap_rd[OF m Suc.prems(2) assms(3)] Suc.IH[OF rest, of "b + 256"] show ?case by (simp add: add.assoc)
qed simp

lemma cmd_munmap_rd:
  assumes "nsb_service_cmd_munmap x data n rd s = Some (e, rd', t)" "rd_ok 0 rd" "errno_positive x"
  shows "rd_ok 256 rd'"
proof -
  have "length (''too many numap requests: '' @ fmt_d (word_at data 0) @ '' (max: '' @ fmt_ld (of_nat k) @ '')'') \<le> 255" for k
    using length_fmt_d[of "word_at data 0"] length_fmt_ld[of "of_nat k"] by simp
  then show ?thesis
    using assms munmap_all_rd[OF _ assms(2,3)] response_print_ok[OF _ assms(2)]
    by (auto simp: nsb_service_cmd_munmap_def Let_def split: if_splits bind_splits)
qed

lemma cmd_mmap_rd:
  assumes "nsb_service_cmd_mmap x data n rd s = Some (e, rd', t)" "rd_ok 0 rd" "errno_positive x"
  shows "rd_ok 1000 rd'"
proof -
  let ?mmap = "\<lambda>nr. dec_mi (drop (nr * 32) (drop 16 data))"
  have len: "length (''too many map requests: '' @ fmt_d (word_at data 8) @ '' (max: '' @ fmt_ld (of_nat k) @ '')'') \<le> 255"
      "length (''rq->nr_mmaps: '' @ fmt_d (word_at data 8)) \<le> 255" for k
    using length_fmt_d[of "word_at data 8"] length_fmt_ld[of "of_nat k"] by simp_all
  consider (print) msg where "nsb_service_response_print msg rd = Some rd'" "length msg \<le> 255"
    | (run) e1 nr rd1 s1 where "mmap_all x (sint (int_at data 0)) 0 (map ?mmap [0..<2]) rd s = Some (e1, nr, rd1, s1)"
        "rd' = rd1 \<or> (\<exists>t. unmap_back x ?mmap nr rd1 s1 = Some (rd', t))"
  proof (cases "NSB_SERVICE_MMAP_DATA_SIZE_MAX div 32 < unat (word_at data 8) \<or> word_at data 8 \<noteq> 2")
    case True
    with assms(1) len show ?thesis unfolding nsb_service_cmd_mmap_def Let_def
      by (auto split: if_splits bind_splits intro: print)
  next
    case False
    then have c: "word_at data 8 = 2" by auto
    then obtain e1 nr rd1 s1 where m: "mmap_all x (sint (int_at data 0)) 0 (map ?mmap [0..<2]) rd s = Some (e1, nr, rd1, s1)"
      and r: "(if e1 \<noteq> 0 then do { (rd, s) \<leftarrow> unmap_back x ?mmap nr rd1 s1; Some (e1, rd, s) }
        else case p_call (p_close x (sint (int_at data 0))) s1 of (_, s) \<Rightarrow> Some (0, rd1, s)) = Some (e, rd', t)"
      using assms(1) c unfolding nsb_service_cmd_mmap_def Let_def
      by (cases "mmap_all x (sint (int_at data 0)) 0 (map ?mmap [0..<2]) rd s"; clarsimp simp: nsb_service_sizes simp del: drop_drop)
    from r have "rd' = rd1 \<or> (\<exists>t. unmap_back x ?mmap nr rd1 s1 = Some (rd', t))"
      by (cases "unmap_back x ?mmap nr rd1 s1") (auto split: if_splits prod.splits simp del: drop_drop)
    with m show ?thesis by (rule run)
  qed
  then show ?thesis
  proof cases
    case print
    then show ?thesis using response_print_ok[OF print(1) assms(2)] by (auto intro: rd_ok_mono)
  next
    case run
    note m = mmap_all_rd[OF run(1) assms(2,3)]
    from m have "rd_ok 256 rd1" "nr \<le> 2" by auto
    from run(2) show ?thesis
    proof
      assume "\<exists>t. unmap_back x ?mmap nr rd1 s1 = Some (rd', t)"
      then obtain t where "unmap_back x ?mmap nr rd1 s1 = Some (rd', t)" by blast
      from unmap_back_rd[OF this \<open>rd_ok 256 rd1\<close> assms(3)] show ?thesis
        by (rule rd_ok_mono) (use \<open>nr \<le> 2\<close> in simp)
    qed (use \<open>rd_ok 256 rd1\<close> in \<open>auto intro: rd_ok_mono\<close>)
  qed
qed

text \<open>The addresses written so far leave room for the count and, at the end, for a message.\<close>

lemma needed_loop_rd:
  assumes "needed_loop x lm nr rd = Some r" "nr \<le> 1022" "length (rd_data rd) = NSB_SERVICE_MESSAGE_DATA_SIZE"
  shows "fst (snd r) \<le> 1022 \<and> length (rd_data (snd (snd r))) = NSB_SERVICE_MESSAGE_DATA_SIZE
    \<and> (fst r \<noteq> 0 \<longrightarrow> rd_ok 256 (snd (snd r)))"
proof -
  define G where "G = (\<lambda>r :: int \<times> nat \<times> nsb_response_data. fst (snd r) \<le> 1022
    \<and> length (rd_data (snd (snd r))) = NSB_SERVICE_MESSAGE_DATA_SIZE \<and> (fst r \<noteq> 0 \<longrightarrow> rd_ok 256 (snd (snd r))))"
  have "nr \<le> 1022 \<longrightarrow> length (rd_data rd) = NSB_SERVICE_MESSAGE_DATA_SIZE \<longrightarrow> G r"
  proof (rule needed_loop.raw_induct[where P = "\<lambda>x lm nr rd r. nr \<le> 1022
        \<longrightarrow> length (rd_data rd) = NSB_SERVICE_MESSAGE_DATA_SIZE \<longrightarrow> G r" and xa = "(((x, lm), nr), rd)" and y = r,
        unfolded prod.case, OF _ assms(1)], intro impI)
    fix loop :: "'a pext \<Rightarrow> u64 \<Rightarrow> nat \<Rightarrow> nsb_response_data \<Rightarrow> (int \<times> nat \<times> nsb_response_data) option"
      and x :: "'a pext" and lm nr and rd :: nsb_response_data and r
    let ?max = "NSB_SERVICE_NEEDED_LIST_SIZE_MAX div 8"
    let ?big = "''to many base addresses (max: '' @ fmt_ld (of_nat ?max) @ '')''"
    let ?none = "''failed to find DT_SYMTAB (l_addr: '' @ hex_string (unat (mem_at x lm)) @ '')''"
    let ?next = "\<lambda>a. if sint (mem_at x lm) \<le> a
      then (nr + 1, rd\<lparr>rd_data := put (rd_data rd) (8 + 8 * nr) (le_bytes 8 (of_int a)), rd_used := rd_used rd + 8\<rparr>)
      else (nr, rd)"
    assume IH: "\<And>x lm nr rd r. loop x lm nr rd = Some r \<Longrightarrow> nr \<le> 1022
        \<longrightarrow> length (rd_data rd) = NSB_SERVICE_MESSAGE_DATA_SIZE \<longrightarrow> G r"
      and step: "(let max_base_addrs = NSB_SERVICE_NEEDED_LIST_SIZE_MAX div 8 in
      if nr = max_base_addrs then do {
        rd \<leftarrow> nsb_service_response_print (''to many base addresses (max: '' @ fmt_ld (of_nat max_base_addrs) @ '')'')
                (rd\<lparr>rd_used := 0\<rparr>);
        Some (- E2BIG, nr, rd) }
      else if lm = 0 then None
      else do {
        dt_symtab_addr \<leftarrow> nsb_service_dynamic_tag_val x (mem_at x (lm + 16)) 6;
        if dt_symtab_addr = - ENOENT then do {
          rd \<leftarrow> nsb_service_response_print (''failed to find DT_SYMTAB (l_addr: '' @ hex_string (unat (mem_at x lm)) @ '')'')
                  (rd\<lparr>rd_used := 0\<rparr>);
          Some (- ENOENT, nr, rd) }
        else do {
          let (nr, rd) = (if sint (mem_at x lm) \<le> dt_symtab_addr
             then (nr + 1, rd\<lparr>rd_data := put (rd_data rd) (8 + 8 * nr) (le_bytes 8 (of_int dt_symtab_addr)),
                              rd_used := rd_used rd + 8\<rparr>)
             else (nr, rd));
          let lm = mem_at x (lm + 24);
          if lm = 0 then None
          else if mem_at x (lm + 24) \<noteq> 0 then loop x lm nr rd
          else Some (0, nr, rd) } }) = Some r"
      and nr: "nr \<le> 1022" and len: "length (rd_data rd) = NSB_SERVICE_MESSAGE_DATA_SIZE"
    have rd0: "rd_ok 0 (rd\<lparr>rd_used := 0\<rparr>)" using len by (simp add: rd_ok_def)
    have "unat (mem_at x lm) < 2 ^ LENGTH(64)" by (rule unsigned_less)
    then have texts: "length ?big \<le> 255" "length ?none \<le> 255"
      using length_fmt_ld[of "of_nat ?max"] length_hex_string[of "unat (mem_at x lm)" 16] by simp_all
    have printed: "G (e, nr, rd')" if "nsb_service_response_print msg (rd\<lparr>rd_used := 0\<rparr>) = Some rd'" "length msg \<le> 255" for e msg rd'
      using response_print_ok[OF that(1) rd0 that(2)] nr by (simp add: G_def rd_ok_def)
    show "G r"
    proof (cases "nr = ?max")
      case True
      with step obtain rd' where "nsb_service_response_print ?big (rd\<lparr>rd_used := 0\<rparr>) = Some rd'" "r = (- E2BIG, nr, rd')"
        by (auto simp: Let_def split: bind_splits)
      with printed texts(1) show ?thesis by blast
    next
      case False
      with nr have lt: "nr < 1022" by (simp add: nsb_service_sizes)
      from step False obtain a where a: "nsb_service_dynamic_tag_val x (mem_at x (lm + 16)) 6 = Some a"
        by (auto simp: Let_def split: bind_splits if_splits)
      show ?thesis
      proof (cases "a = - ENOENT")
        case True
        with step False a obtain rd' where "nsb_service_response_print ?none (rd\<lparr>rd_used := 0\<rparr>) = Some rd'" "r = (- ENOENT, nr, rd')"
          by (auto simp: Let_def split: bind_splits if_splits)
        with printed texts(2) show ?thesis by blast
      next
        case ok: False
        obtain nr1 rd1 where n: "?next a = (nr1, rd1)" by fastforce
        have n1: "nr1 \<le> 1022" "length (rd_data rd1) = NSB_SERVICE_MESSAGE_DATA_SIZE"
          using n lt len by (auto simp: length_put nsb_service_sizes split: if_splits)
        from step False a ok n have "loop x (mem_at x (lm + 24)) nr1 rd1 = Some r \<or> r = (0, nr1, rd1)"
          by (auto simp: Let_def split: if_splits)
        moreover have "G (0, nr1, rd1)" using n1 by (simp add: G_def)
        ultimately show ?thesis using IH n1 by blast
      qed
    qed
  qed
  with assms(2,3) show ?thesis by (simp add: G_def)
qed

lemma cmd_needed_list_rd:
  assumes "nsb_service_cmd_needed_list x data n rd s = Some (e, rd', t)" "rd_ok 0 rd"
  shows "rd_ok NSB_SERVICE_MESSAGE_DATA_SIZE rd'"
proof -
  obtain e1 nr rd1 where l: "needed_loop x (p_r_map x) 0 rd = Some (e1, nr, rd1)"
    using assms(1) by (cases "needed_loop x (p_r_map x) 0 rd") (auto simp: nsb_service_cmd_needed_list_def)
  from needed_loop_rd[OF l] assms(2) have k: "nr \<le> 1022" "length (rd_data rd1) = NSB_SERVICE_MESSAGE_DATA_SIZE"
    "e1 \<noteq> 0 \<longrightarrow> rd_ok 256 rd1" by (simp_all add: rd_ok_def)
  with assms(1) l show ?thesis
    by (auto simp: nsb_service_cmd_needed_list_def rd_ok_def length_put nsb_service_sizes split: if_splits)
qed

lemma cmd_emerg_sigframe_rd:
  assumes "nsb_service_cmd_emerg_sigframe x data n rd s = Some (e, rd', t)" "rd_ok 0 rd"
  shows "rd_ok 256 rd'"
proof -
  have "length (''frame size is invalid: '' @ fmt_ld v @ '' ('' @ fmt_ld w @ '')'') \<le> 255" for v w
    using length_fmt_ld[of v] length_fmt_ld[of w] by simp
  note print = response_print_ok[OF _ assms(2) this, simplified]
  show ?thesis
  proof (cases "n = p_sigframe_size x")
    case True
    with assms show ?thesis by (auto simp: nsb_service_cmd_emerg_sigframe_def rd_ok_def)
  next
    case False
    with assms(1) show ?thesis by (auto simp: nsb_service_cmd_emerg_sigframe_def split: bind_splits intro: print)
  qed
qed

text \<open>
  C21: Whatever the request, a handler that returns has kept its response inside the message
  buffer: no more bytes are used than the buffer has, and the buffer keeps its size. So the
  answer is sent from initialised memory of the structure.
\<close>

theorem response_fits:
  assumes "nsb_do_handle_cmd x rq n \<lparr>rd_used = 0, rd_data = replicate NSB_SERVICE_MESSAGE_DATA_SIZE 0\<rparr> s = Some (ret, rd, t)"
    and "errno_positive x"
  shows "rd_used rd \<le> NSB_SERVICE_MESSAGE_DATA_SIZE \<and> length (rd_data rd) = NSB_SERVICE_MESSAGE_DATA_SIZE"
proof -
  let ?rd = "\<lparr>rd_used = 0, rd_data = replicate NSB_SERVICE_MESSAGE_DATA_SIZE 0\<rparr>"
  have rd0: "rd_ok 0 ?rd" by (simp add: rd_ok_def)
  have m: "rd_ok b r \<Longrightarrow> b \<le> 1000 \<Longrightarrow> rd_ok NSB_SERVICE_MESSAGE_DATA_SIZE r" for b r
    by (auto simp: rd_ok_def nsb_service_sizes)
  have unknown: "length (''unknown command: '' @ fmt_d w) \<le> 255" for w using length_fmt_d[of w] by simp
  have "rd_ok NSB_SERVICE_MESSAGE_DATA_SIZE rd"
  proof (cases "NSB_SERVICE_CMD_MAX < int_at rq 0")
    case True
    with assms(1) have "nsb_service_response_print (''unknown command: '' @ fmt_d (ucast (int_at rq 0))) ?rd = Some rd"
      by (auto simp: nsb_do_handle_cmd_def Let_def split: bind_splits)
    from response_print_ok[OF this rd0 unknown] show ?thesis by (rule m) simp
  next
    case False
    with assms(1) obtain h where h: "nsb_service_cmd_handlers x (int_at rq 0) = Some h" "h (drop 4 rq) n ?rd s = Some (ret, rd, t)"
      by (auto simp: nsb_do_handle_cmd_def Let_def split: bind_splits)
    from h(1) consider "h = nsb_service_cmd_emerg_sigframe x" | "h = nsb_service_cmd_stop x"
      | "h = nsb_service_cmd_needed_list x" | "h = nsb_service_cmd_mmap x" | "h = nsb_service_cmd_munmap x"
      by (auto simp: nsb_service_cmd_handlers_def split: if_splits)
    then show ?thesis
    proof cases
      case 1
      with h(2) cmd_emerg_sigframe_rd[OF _ rd0, of x _ n s ret rd t] m[of 256] show ?thesis by auto
    next
      case 2
      with h(2) m[OF rd0] show ?thesis by (auto simp: nsb_service_cmd_stop_def)
    next
      case 3
      with h(2) rd0 show ?thesis by (auto dest: cmd_needed_list_rd)
    next
      case 4
      with h(2) cmd_mmap_rd[OF _ rd0 assms(2)] m show ?thesis by blast
    next
      case 5
      with h(2) cmd_munmap_rd[OF _ rd0 assms(2), of _ n s ret rd t] m[of 256] show ?thesis by auto
    qed
  qed
  then show ?thesis by (simp add: rd_ok_def)
qed

section \<open>A concrete service\<close>

definition sim_pext :: "pop set \<Rightarrow> pop list pext" where
  "sim_pext fails = \<lparr>
     p_munmap = (\<lambda>a l w. ((if Munmap a l \<in> fails then -1 else 0, ENOMEM), w @ [Munmap a l])),
     p_mmap = (\<lambda>a l p f fd off w. ((if Mmap a l p f fd off \<in> fails then -1 else 0, ENOMEM), w @ [Mmap a l p f fd off])),
     p_close = (\<lambda>fd w. ((0, 0), w @ [Close fd])),
     p_recv = (\<lambda>fd n nowait w. (Inl EAGAIN, w)), p_send = (\<lambda>fd bs w. (Inr (length bs), w)),
     p_accept4 = (\<lambda>fd w. (Inr 5, w)), p_recvmsg = (\<lambda>fd w. ((1, scm_rights 6), w)), p_socket = (\<lambda>w. (Inr 4, w)),
     p_bind = (\<lambda>fd a w. ((0, 0), w)), p_listen = (\<lambda>fd w. ((0, 0), w)), p_getpid = 10, p_slack = (\<lambda>i. 0),
     p_mem = (\<lambda>a. 0), p_r_map = 0, p_sigframe_size = 1000\<rparr>"

definition sim_plug :: "pop list plug" where
  "sim_plug = \<lparr>pworld = [], perrno = 0, listen_sock = 4, cmd_sock = 5, nsb_service_stop = False, emergency_sigframe = []\<rparr>"

lemma sim_pext_logs: "logs (sim_pext fails) fails"
  unfolding logs_def noting_def by (simp add: sim_pext_def exI[of _ 0])

lemma sim_pext_errno: "errno_positive (sim_pext fails)"
  by (simp add: errno_positive_def sim_pext_def)

definition sim_mi :: "u64 \<Rightarrow> nsb_service_mmap_info" where
  "sim_mi a = \<lparr>mi_info = \<lparr>mai_addr = a, mai_length = 0x1000\<rparr>, mi_prot = 5, mi_flags = 0x12, mi_offset = 0\<rparr>"

lemma mmap_failure_leaks_first_witness:
  "\<exists>rd p. nsb_do_handle_cmd (sim_pext {mmap_op 6 (sim_mi 0x2000)})
      (nsb_service_request NSB_SERVICE_CMD_MMAP (mmap_request_bytes \<lparr>mrq_fd = 6, mrq_mmap = [sim_mi 0x1000, sim_mi 0x2000]\<rparr>) @ []) 0
      \<lparr>rd_used = 0, rd_data = replicate NSB_SERVICE_MESSAGE_DATA_SIZE 0\<rparr> sim_plug = Some (- ENOMEM, rd, p)
    \<and> pworld p = [Mmap 0x1000 0x1000 5 0x12 6 0, Mmap 0x2000 0x1000 5 0x12 6 0, Munmap 0x2000 0x1000]"
  using mmap_failure_leaks_first[OF sim_pext_logs, of "\<lparr>mrq_fd = 6, mrq_mmap = [sim_mi 0x1000, sim_mi 0x2000]\<rparr>"
      "sim_mi 0x1000" "sim_mi 0x2000" "{mmap_op 6 (sim_mi 0x2000)}" "[]" 0 sim_plug]
  by (simp add: mmap_op_def munmap_op_def sim_mi_def sim_plug_def)

theorem response_fits_witness:
  "\<exists>rd t. nsb_do_handle_cmd (sim_pext {}) [9, 0, 0, 0] 0 \<lparr>rd_used = 0, rd_data = replicate NSB_SERVICE_MESSAGE_DATA_SIZE 0\<rparr> sim_plug
      = Some (- EINVAL, rd, t) \<and> rd_used rd \<le> NSB_SERVICE_MESSAGE_DATA_SIZE
    \<and> length (rd_data rd) = NSB_SERVICE_MESSAGE_DATA_SIZE"
proof -
  have cmd: "int_at [9, 0, 0, 0] 0 = 9" by (simp add: int_at_def)
  let ?rd = "\<lparr>rd_used = 0, rd_data = replicate NSB_SERVICE_MESSAGE_DATA_SIZE 0\<rparr>"
  obtain rd where p: "nsb_service_response_print (''unknown command: '' @ fmt_d (ucast (9 :: u32))) ?rd = Some rd"
    using response_print_total[of ?rd] by fastforce
  have h: "nsb_do_handle_cmd (sim_pext {}) [9, 0, 0, 0] 0 ?rd sim_plug = Some (- EINVAL, rd, sim_plug)"
    unfolding nsb_do_handle_cmd_def Let_def cmd p by simp
  with response_fits[OF h sim_pext_errno] show ?thesis by blast
qed

end
