(* ===== verification/Service_Link.thy ===== *)
theory Service_Link
  imports Service Plugin_Service Rtld
begin

text \<open>
  The two ends of the service protocol together: what the patcher puts into a request
  (\<open>patcher/service.c\<close>) is what the service in the target does (\<open>plugins/service.c\<close>), and what
  the service answers is what the patcher reads. The request buffer of the service holds the
  message and, behind it, bytes of its stack: \<open>rest\<close> below.
\<close>

section \<open>Mapping and unmapping\<close>

text \<open>
  Unmapping a loaded object through the service: for up to 511 areas the patcher sends one
  request, and the handler of the service unmaps exactly the areas of the object, in the order
  of its list, and answers 0; with more areas nothing is sent and the result is \<open>-E2BIG\<close>.
\<close>

lemma service_munmap_end_to_end:
  assumes "logs px fails" "\<forall>v \<in> set (dl_vmas dlm). munmap_op (addr_info_of (vma_of s v)) \<notin> fails"
  shows "(length (dl_vmas dlm) \<le> 511 \<longrightarrow>
      service_munmap_dlm x dlm s
        = map_option (\<lambda>((err, rs), t). (err, t)) (service_exchange x (munmap_message (map (vma_of s) (dl_vmas dlm))) s)
      \<and> nsb_do_handle_cmd px (munmap_message (map (vma_of s) (dl_vmas dlm)) @ rest) n rd p
        = Some (0, rd, p\<lparr>pworld := pworld p
            @ map (\<lambda>v. Munmap (vma_start (vma_of s v)) (vma_length (vma_of s v))) (dl_vmas dlm)\<rparr>))
    \<and> (511 < length (dl_vmas dlm) \<longrightarrow> service_munmap_dlm x dlm s = Some (- E2BIG, s))"
proof -
  let ?mrq = "\<lparr>mrq_munmap = map addr_info_of (map (vma_of s) (dl_vmas dlm))\<rparr>"
  have "\<forall>mai \<in> set (mrq_munmap ?mrq). munmap_op mai \<notin> fails" using assms(2) by auto
  from handle_munmap[OF assms(1) this] show ?thesis
    by (simp add: service_munmap_dlm_eq munmap_message_def munmap_op_def addr_info_of_def comp_def)
qed

text \<open>
  Mapping an object of two areas through the service: the handler maps exactly the two
  areas, in order, with the start, length, protection, flags and offset of each and the
  descriptor that was sent, closes the descriptor and answers 0.
\<close>

lemma service_mmap_end_to_end:
  assumes "logs px fails" "dl_vmas dlm = [v1, v2]" "- (2 ^ 31) \<le> fd" "fd < 2 ^ 31"
    and "\<forall>v \<in> set (dl_vmas dlm). mmap_op fd (mmap_info_of (vma_of s v)) \<notin> fails"
  shows "service_mmap_dlm x dlm fd s
      = map_option (\<lambda>((err, rs), t). (err, t)) (service_exchange x (mmap_message (map (vma_of s) (dl_vmas dlm)) fd) s)
    \<and> nsb_do_handle_cmd px (mmap_message (map (vma_of s) (dl_vmas dlm)) fd @ rest) n rd p
      = Some (0, rd, p\<lparr>pworld := pworld p @ map (\<lambda>v. let a = vma_of s v in
          Mmap (vma_start a) (vma_length a) (vma_prot a) (vma_flags a) fd (vma_offset a)) (dl_vmas dlm) @ [Close fd]\<rparr>)"
  using handle_mmap[OF assms(1), of "\<lparr>mrq_fd = fd, mrq_mmap = map mmap_info_of (map (vma_of s) (dl_vmas dlm))\<rparr>"
      "mmap_info_of (vma_of s v1)" "mmap_info_of (vma_of s v2)" rest n rd p] assms
  by (simp add: service_mmap_dlm_eq mmap_message_def mmap_op_def mmap_info_of_def Let_def)

text \<open>
  The patcher sends requests for up to 255 areas, but the service accepts a mapping request
  for two areas only: any other number is refused with \<open>-EINVAL\<close> and nothing is mapped.
\<close>

lemma service_mmap_refuses_other_counts:
  assumes "length (dl_vmas dlm) \<le> 255" "length (dl_vmas dlm) \<noteq> 2"
  shows "\<exists>rd. nsb_do_handle_cmd px (mmap_message (map (vma_of s) (dl_vmas dlm)) fd @ rest) n
      \<lparr>rd_used = 0, rd_data = replicate NSB_SERVICE_MESSAGE_DATA_SIZE 0\<rparr> p = Some (- EINVAL, rd, p)"
  using handle_mmap_refused[of "\<lparr>mrq_fd = fd, mrq_mmap = map mmap_info_of (map (vma_of s) (dl_vmas dlm))\<rparr>" px rest n _ p] assms
  by (simp add: mmap_message_def answers_def nsb_service_response_print_def nsb_service_sizes Let_def)

section \<open>The list of loaded objects\<close>

lemma take_put: "off \<le> length data \<Longrightarrow> take (off + length bs) (put data off bs) = take off data @ bs"
  by (simp add: put_def)

lemma mem_at_eq: "mem_at px a = mem_word (p_mem px) a"
  by (simp add: mem_at_def mem_word_def mem_bytes_def)

lemma nsb_service_dynamic_tag_val_eq:
  "dyn_val (p_mem px) (ucast tag) v a \<Longrightarrow> nsb_service_dynamic_tag_val px a tag = Some (sint v)"
proof (induction rule: dyn_val.induct)
  case (dyn_here a)
  then show ?case by (subst nsb_service_dynamic_tag_val.simps) (simp add: mem_at_eq)
next
  case (dyn_next a)
  then show ?case by (subst nsb_service_dynamic_tag_val.simps) (simp add: mem_at_eq)
qed

text \<open>One turn of the loop that does not fail.\<close>

definition note_addr :: "u64 \<times> u64 \<Rightarrow> nat \<times> nsb_response_data \<Rightarrow> nat \<times> nsb_response_data" where
  "note_addr lv nrd = (case lv of (l, v) \<Rightarrow> case nrd of (nr, rd) \<Rightarrow>
     if sint l \<le> sint v
     then (nr + 1, rd\<lparr>rd_data := put (rd_data rd) (8 + 8 * nr) (le_bytes 8 v), rd_used := rd_used rd + 8\<rparr>)
     else (nr, rd))"

lemma needed_loop_step:
  assumes "dyn_val (p_mem px) (ucast (6 :: u32)) v (mem_at px (a + 16))" "v \<noteq> - 2" "a \<noteq> 0" "nr \<noteq> 1022" "mem_at px (a + 24) \<noteq> 0"
  shows "needed_loop px a nr rd = (case note_addr (mem_at px a, v) (nr, rd) of (nr, rd) \<Rightarrow>
     if mem_at px (mem_at px (a + 24) + 24) \<noteq> 0 then needed_loop px (mem_at px (a + 24)) nr rd else Some (0, nr, rd))"
proof -
  have "sint v \<noteq> - 2" using assms(2) by (metis of_int_neg_numeral of_int_sint scast_id)
  with nsb_service_dynamic_tag_val_eq[OF assms(1)] assms(3-) show ?thesis
    by (subst needed_loop.simps) (simp add: nsb_service_sizes note_addr_def Let_def)
qed

lemma note_addr_data:
  assumes "note_addr (l, v) (nr, rd) = (nr', rd')" "nr < 1022" "length (rd_data rd) = NSB_SERVICE_MESSAGE_DATA_SIZE"
  shows "length (rd_data rd') = NSB_SERVICE_MESSAGE_DATA_SIZE \<and> nr' = nr + length (needed_of [(l, v)])
    \<and> take (8 + 8 * nr') (rd_data rd') = take (8 + 8 * nr) (rd_data rd) @ concat (map (le_bytes 8) (needed_of [(l, v)]))"
proof (cases "sint l \<le> sint v")
  case True
  with assms have "nr' = nr + 1" "rd_data rd' = put (rd_data rd) (8 + 8 * nr) (le_bytes 8 v)" by (auto simp: note_addr_def)
  with True assms(2,3) take_put[of "8 + 8 * nr" "rd_data rd" "le_bytes 8 v"] show ?thesis
    by (simp add: length_put nsb_service_sizes needed_of_def algebra_simps)
next
  case False
  with assms show ?thesis by (simp add: note_addr_def needed_of_def)
qed

lemma needed_of_Cons: "needed_of (lv # lms) = needed_of [lv] @ needed_of lms"
  by (simp add: needed_of_def)

lemma length_needed_of: "length (needed_of lms) \<le> length lms"
  by (simp add: needed_of_def)

lemma link_chain_nonempty: "link_chain m a lms \<Longrightarrow> lms \<noteq> []"
  by (auto elim: link_chain.cases)

lemma link_chain_single: "link_chain m a lms \<Longrightarrow> length lms = 1 \<longleftrightarrow> mem_word m (a + 24) = 0"
  by (erule link_chain.cases) (auto dest: link_chain_nonempty)

lemma needed_loop_eq:
  assumes "link_chain (p_mem px) a lms" "a \<noteq> 0" "2 \<le> length lms" "nr + length lms \<le> 1023"
    "length (rd_data rd) = NSB_SERVICE_MESSAGE_DATA_SIZE" "\<forall>(l, v) \<in> set lms. v \<noteq> - 2"
  shows "\<exists>rd'. needed_loop px a nr rd = Some (0, nr + length (needed_of (butlast lms)), rd')
    \<and> length (rd_data rd') = NSB_SERVICE_MESSAGE_DATA_SIZE
    \<and> take (8 + 8 * (nr + length (needed_of (butlast lms)))) (rd_data rd')
        = take (8 + 8 * nr) (rd_data rd) @ concat (map (le_bytes 8) (needed_of (butlast lms)))"
  using assms
proof (induction arbitrary: nr rd rule: link_chain.induct)
  case (link_last v a)
  then show ?case by simp
next
  case (link_more v a lms)
  let ?b = "mem_word (p_mem px) (a + 24)" and ?l = "mem_word (p_mem px) a"
  obtain nr1 rd1 where n: "note_addr (?l, v) (nr, rd) = (nr1, rd1)" by fastforce
  have lt: "nr < 1022" and v: "v \<noteq> - 2" using link_more.prems by auto
  note d = note_addr_data[OF n lt link_more.prems(4)]
  have st: "needed_loop px a nr rd = (if mem_word (p_mem px) (?b + 24) \<noteq> 0 then needed_loop px ?b nr1 rd1 else Some (0, nr1, rd1))"
    using needed_loop_step[of px v a nr rd] link_more.hyps(1,2) link_more.prems(1) lt v n by (simp add: mem_at_eq)
  show ?case
  proof (cases "length lms = 1")
    case True
    with link_chain_single[OF link_more.hyps(3)] have "mem_word (p_mem px) (?b + 24) = 0" by simp
    with st d True show ?thesis by (simp add: length_Suc_conv) (auto simp: needed_of_def)
  next
    case False
    have ne: "lms \<noteq> []" using link_chain_nonempty[OF link_more.hyps(3)] .
    with False have two: "2 \<le> length lms" by (cases lms; cases "tl lms") auto
    have nz: "mem_word (p_mem px) (?b + 24) \<noteq> 0" using link_chain_single[OF link_more.hyps(3)] two by simp
    have "nr1 + length lms \<le> 1023" using d length_needed_of[of "[(?l, v)]"] link_more.prems(3) by simp
    moreover have "\<forall>(l, v) \<in> set lms. v \<noteq> - 2" using link_more.prems(5) by simp
    ultimately obtain rd' where r: "needed_loop px ?b nr1 rd1 = Some (0, nr1 + length (needed_of (butlast lms)), rd')"
      "length (rd_data rd') = NSB_SERVICE_MESSAGE_DATA_SIZE"
      "take (8 + 8 * (nr1 + length (needed_of (butlast lms)))) (rd_data rd')
        = take (8 + 8 * nr1) (rd_data rd1) @ concat (map (le_bytes 8) (needed_of (butlast lms)))"
      using link_more.IH[OF link_more.hyps(2) two] d by blast
    have bl: "needed_of (butlast ((?l, v) # lms)) = needed_of [(?l, v)] @ needed_of (butlast lms)"
      using ne needed_of_Cons[of "(?l, v)" "butlast lms"] by simp
    have nr1: "nr1 + length (needed_of (butlast lms)) = nr + length (needed_of (butlast ((?l, v) # lms)))"
      unfolding bl using d by simp
    have "take (8 + 8 * (nr1 + length (needed_of (butlast lms)))) (rd_data rd')
        = take (8 + 8 * nr) (rd_data rd) @ concat (map (le_bytes 8) (needed_of (butlast ((?l, v) # lms))))"
      unfolding r(3) bl conjunct2[OF conjunct2[OF d]] by simp
    with r(1,2) st nz show ?thesis unfolding nr1 by (intro exI[of _ rd']) simp
  qed
qed

lemma handle_needed_list_rd:
  assumes "link_chain (p_mem px) (p_r_map px) lms" "p_r_map px \<noteq> 0" "2 \<le> length lms" "length lms \<le> 1023"
    "\<forall>(l, v) \<in> set lms. v \<noteq> - 2"
  shows "\<exists>rd. nsb_do_handle_cmd px (nsb_service_request NSB_SERVICE_CMD_NEEDED_LIST [] @ rest) n
      \<lparr>rd_used = 0, rd_data = replicate NSB_SERVICE_MESSAGE_DATA_SIZE 0\<rparr> p = Some (0, rd, p)
    \<and> take (rd_used rd) (rd_data rd) = needed_list_bytes (needed_of (butlast lms))
    \<and> rd_used rd \<le> NSB_SERVICE_MESSAGE_DATA_SIZE \<and> length (rd_data rd) = NSB_SERVICE_MESSAGE_DATA_SIZE"
proof -
  let ?rd = "\<lparr>rd_used = 0, rd_data = replicate NSB_SERVICE_MESSAGE_DATA_SIZE 0\<rparr>"
  let ?addrs = "needed_of (butlast lms)"
  obtain rd1 where r: "needed_loop px (p_r_map px) 0 ?rd = Some (0, length ?addrs, rd1)"
    "length (rd_data rd1) = NSB_SERVICE_MESSAGE_DATA_SIZE"
    "take (8 + 8 * length ?addrs) (rd_data rd1) = replicate 8 0 @ concat (map (le_bytes 8) ?addrs)"
    using needed_loop_eq[OF assms(1-3), of 0 ?rd] assms(4,5) by (auto simp: nsb_service_sizes)
  let ?rd2 = "rd1\<lparr>rd_data := put (rd_data rd1) 0 (le_bytes 8 (of_nat (length ?addrs))), rd_used := 8 + 8 * length ?addrs\<rparr>"
  have "take (rd_used ?rd2) (rd_data ?rd2)
      = le_bytes 8 (of_nat (length ?addrs)) @ drop 8 (take (8 + 8 * length ?addrs) (rd_data rd1))"
    by (simp add: put_def drop_take)
  also have "\<dots> = needed_list_bytes ?addrs" unfolding r(3) by (simp add: needed_list_bytes_def)
  finally have "take (rd_used ?rd2) (rd_data ?rd2) = needed_list_bytes ?addrs" .
  moreover have "length ?addrs \<le> 1022" using length_needed_of[of "butlast lms"] assms(4) by simp
  ultimately show ?thesis using r(1,2) unfolding nsb_do_handle_cmd_def cmd_of_request Let_def
    by (simp add: nsb_service_cmd_handlers_def nsb_service_cmd_needed_list_def length_put nsb_service_sizes)
qed

lemma handle_needed_list:
  assumes "link_chain (p_mem px) (p_r_map px) lms" "p_r_map px \<noteq> 0" "2 \<le> length lms" "length lms \<le> 1023"
    "\<forall>(l, v) \<in> set lms. v \<noteq> - 2"
  shows "\<exists>rd. nsb_do_handle_cmd px (nsb_service_request NSB_SERVICE_CMD_NEEDED_LIST [] @ rest) n
      \<lparr>rd_used = 0, rd_data = replicate NSB_SERVICE_MESSAGE_DATA_SIZE 0\<rparr> p = Some (0, rd, p)
    \<and> take (rd_used rd) (rd_data rd) = needed_list_bytes (needed_of (butlast lms))"
  using handle_needed_list_rd[OF assms] by blast

lemma read_needed_list:
  assumes "service_exchange x (nsb_service_request NSB_SERVICE_CMD_NEEDED_LIST []) s
      = Some ((0, nsb_service_response 0 (needed_list_bytes addrs) @ rest), t)"
    and "fst (x_malloc x (world t))" "length addrs \<le> 1023"
  shows "\<exists>u. service_needed_array x s = Some ((int (length addrs), addrs), u) \<and> u = snd (xmalloc x t)"
proof -
  let ?nl = "needed_list_bytes addrs @ rest"
  have nl: "drop 4 (nsb_service_response 0 (needed_list_bytes addrs) @ rest) = ?nl"
    by (simp add: nsb_service_response_def)
  have w: "word_at ?nl 0 = of_nat (length addrs)" by (rule needed_list_fields)
  have u: "unat (8 * (of_nat (length addrs) :: u64)) = 8 * length addrs" "sint (of_nat (length addrs) :: u64) = int (length addrs)"
    using assms(3) by (simp_all add: unat_word_ariths unat_of_nat signed_of_nat signed_take_bit_int_eq_self)
  have "map (\<lambda>i. word_at (drop (i * 8) (drop 8 ?nl)) 0) [0..<length addrs] = addrs"
    unfolding needed_list_fields(2) by (rule addr_codec.decode_array)
  moreover obtain q v where "xmalloc x t = (Some q, v)"
    using assms(2) by (cases "x_malloc x (world t)") (auto simp: xmalloc_def ext_call_def)
  ultimately show ?thesis
    using assms(1,3) unfolding service_needed_array_def
    by (simp add: Let_def nl w u nsb_service_sizes del: drop_append drop_drop)
qed

text \<open>
  C20: The two ways of listing the loaded objects agree but for the last one. For a target whose
  link maps form a chain of 2 to 1023 objects, of which at most ten are listed (an object is listed when its
  symbol table is not below its load address, as that of the VDSO is), the service answers with the
  addresses of the listed objects but the last of the chain (which is the service), the patcher reads
  exactly these from the answer, and the patcher's own search, without the service, gives the addresses of all listed objects. With more
  than ten listed objects the patcher's own search overflows its array.
\<close>

theorem needed_lists_agree:
  assumes "link_chain (p_mem px) (p_r_map px) lms" "p_r_map px \<noteq> 0" "2 \<le> length lms" "length lms \<le> 1023"
    and "\<forall>(l, v) \<in> set lms. v \<noteq> - 2"
    and "p_r_map px = mem_word (p_mem px) (r_debug_addr + 8)" "reads x (p_mem px) (world s)" "length (needed_of lms) \<le> 10"
  shows "(\<exists>rd. nsb_do_handle_cmd px (nsb_service_request NSB_SERVICE_CMD_NEEDED_LIST [] @ rest) n
        \<lparr>rd_used = 0, rd_data = replicate NSB_SERVICE_MESSAGE_DATA_SIZE 0\<rparr> p = Some (0, rd, p)
      \<and> (\<forall>y t u slack. service_exchange y (nsb_service_request NSB_SERVICE_CMD_NEEDED_LIST []) t
            = Some ((0, nsb_service_response 0 (take (rd_used rd) (rd_data rd)) @ slack), u) \<and> fst (x_malloc y (world u))
          \<longrightarrow> (\<exists>v. service_needed_array y t
                = Some ((int (length (needed_of (butlast lms))), needed_of (butlast lms)), v))))
    \<and> (\<exists>t. rtld_needed_array x r_debug_addr s = Some ((int (length (needed_of lms)), needed_of lms), t))"
proof -
  have "length (needed_of (butlast lms)) \<le> 1023" using length_needed_of[of "butlast lms"] assms(4) by simp
  moreover have "\<exists>t. rtld_needed_array x r_debug_addr s = Some ((int (length (needed_of lms)), needed_of lms), t)"
    using rtld_needed_loop_eq[OF assms(1,7,5), of "[]"] assms(6-8)
    by (auto simp: rtld_needed_array_def read_reads word_at_mem_bytes)
  ultimately show ?thesis using handle_needed_list[OF assms(1-5), of rest n p] read_needed_list by fastforce
qed

section \<open>Error messages\<close>

definition c_strings :: "string list \<Rightarrow> byte list" where
  "c_strings ms = concat (map (\<lambda>m. map of_char m @ [0]) ms)"

lemma print_all_data:
  assumes "rd_used rd + length (c_strings ms) \<le> NSB_SERVICE_MESSAGE_DATA_SIZE"
    "length (rd_data rd) = NSB_SERVICE_MESSAGE_DATA_SIZE"
  shows "\<exists>rd'. print_all ms rd = Some rd' \<and> rd_used rd' = rd_used rd + length (c_strings ms)
    \<and> length (rd_data rd') = NSB_SERVICE_MESSAGE_DATA_SIZE
    \<and> take (rd_used rd') (rd_data rd') = take (rd_used rd) (rd_data rd) @ c_strings ms"
  using assms
proof (induction ms arbitrary: rd)
  case (Cons m ms)
  let ?bs = "map of_char m @ [0] :: byte list"
  let ?rd = "rd\<lparr>rd_data := put (rd_data rd) (rd_used rd) ?bs, rd_used := rd_used rd + length ?bs\<rparr>"
  have le: "rd_used rd + length ?bs + length (c_strings ms) \<le> NSB_SERVICE_MESSAGE_DATA_SIZE"
    using Cons.prems(1) by (simp add: c_strings_def)
  then have p: "nsb_service_response_print m rd = Some ?rd"
    by (simp add: nsb_service_response_print_def Let_def)
  have len: "length (rd_data ?rd) = NSB_SERVICE_MESSAGE_DATA_SIZE" using le Cons.prems(2) by (simp add: length_put)
  have t: "take (rd_used ?rd) (rd_data ?rd) = take (rd_used rd) (rd_data rd) @ ?bs"
    using take_put[of "rd_used rd" "rd_data rd" ?bs] le Cons.prems(2) by simp
  obtain rd' where r: "print_all ms ?rd = Some rd'" "rd_used rd' = rd_used ?rd + length (c_strings ms)"
    "length (rd_data rd') = NSB_SERVICE_MESSAGE_DATA_SIZE"
    "take (rd_used rd') (rd_data rd') = take (rd_used ?rd) (rd_data ?rd) @ c_strings ms"
    using Cons.IH[of ?rd] le len by auto
  show ?case using p r(1-3) r(4)[unfolded t] by (intro exI[of _ rd']) (simp add: c_strings_def)
qed (simp add: c_strings_def)

text \<open>
  The messages with which the service explains a failure arrive: when they fit the
  response together, the patcher prints exactly the texts that the handlers wrote, in the same
  order, and reads nothing behind the response.
\<close>

lemma error_messages_roundtrip:
  assumes "length (c_strings ms) \<le> NSB_SERVICE_MESSAGE_DATA_SIZE" "\<forall>m \<in> set ms. CHR 0x00 \<notin> set m"
  shows "\<exists>rd. print_all ms \<lparr>rd_used = 0, rd_data = replicate NSB_SERVICE_MESSAGE_DATA_SIZE 0\<rparr> = Some rd
    \<and> (let rs = nsb_service_response ret (take (rd_used rd) (rd_data rd)) in
        nsb_service_print_errors (rs @ slack) (length rs) = Some ms)"
proof -
  let ?rd = "\<lparr>rd_used = 0, rd_data = replicate NSB_SERVICE_MESSAGE_DATA_SIZE 0\<rparr>"
  obtain rd where rd: "print_all ms ?rd = Some rd" "take (rd_used rd) (rd_data rd) = c_strings ms"
    using print_all_data[of ?rd ms] assms(1) by auto
  have "nsb_service_print_errors (nsb_service_response ret (c_strings ms) @ slack)
      (length (nsb_service_response ret (c_strings ms))) = Some ms"
    using print_errors_messages[OF assms(2), of "[]" slack]
    by (simp add: nsb_service_print_errors_def nsb_service_response_def c_strings_def)
  with rd(1) show ?thesis unfolding Let_def by (intro exI[of _ rd]) (simp only: rd(2) simp_thms)
qed

section \<open>Instances\<close>

definition demo_pext :: "pop list pext" where
  "demo_pext = (sim_pext {})\<lparr>p_mem := chain_mem 2, p_r_map := 0x1000\<rparr>"

theorem needed_lists_agree_witness:
  "(\<exists>rd. nsb_do_handle_cmd demo_pext (nsb_service_request NSB_SERVICE_CMD_NEEDED_LIST [] @ []) 0
      \<lparr>rd_used = 0, rd_data = replicate NSB_SERVICE_MESSAGE_DATA_SIZE 0\<rparr> sim_plug = Some (0, rd, sim_plug))
    \<and> (\<exists>t. rtld_needed_array sim_ext 0x10 (chain_state 2) = Some ((2, [0x55, 0x55]), t))"
proof -
  let ?lms = "[(0, 0x55), (0, 0x55)] :: (u64 \<times> u64) list"
  have n: "needed_of ?lms = [0x55, 0x55]" by (simp add: needed_of_def)
  have "link_chain (p_mem demo_pext) (p_r_map demo_pext) ?lms" using chain_2 by (simp add: demo_pext_def)
  moreover have "p_r_map demo_pext = mem_word (p_mem demo_pext) (0x10 + 8)"
    using chain_start[of 2] by (simp add: demo_pext_def)
  moreover have "reads sim_ext (p_mem demo_pext) (world (chain_state 2))" using chain_reads[of 2] by (simp add: demo_pext_def)
  ultimately show ?thesis
    using needed_lists_agree[of demo_pext ?lms "0x10" sim_ext "chain_state 2" "[]" 0 sim_plug]
    by (simp add: n) (auto simp: demo_pext_def)
qed

lemma error_messages_roundtrip_witness:
  "\<exists>rd. print_all [''a'', ''bc''] \<lparr>rd_used = 0, rd_data = replicate NSB_SERVICE_MESSAGE_DATA_SIZE 0\<rparr> = Some rd
    \<and> (let rs = nsb_service_response (- 12) (take (rd_used rd) (rd_data rd)) in
        nsb_service_print_errors (rs @ []) (length rs) = Some [''a'', ''bc''])"
  by (rule error_messages_roundtrip) (simp_all add: c_strings_def nsb_service_sizes)

lemma service_munmap_end_to_end_witness:
  "nsb_do_handle_cmd (sim_pext {}) (munmap_message (map (vma_of two_areas) [2, 4]) @ []) 0
      \<lparr>rd_used = 0, rd_data = []\<rparr> sim_plug
    = Some (0, \<lparr>rd_used = 0, rd_data = []\<rparr>, sim_plug\<lparr>pworld := [Munmap 0x2000 0x1000, Munmap 0x4000 0x1000]\<rparr>)"
  using service_munmap_end_to_end[OF sim_pext_logs, where fails = "{}" and dlm = "dlm_of two_areas 0" and s = two_areas
      and x = sim_ext and rest = "[]" and n = 0 and rd = "\<lparr>rd_used = 0, rd_data = []\<rparr>" and p = sim_plug]
  by (simp add: two_areas_def sim_dlm_def sim_vma_def vma_accessors sim_plug_def)

lemma service_mmap_end_to_end_witness:
  "nsb_do_handle_cmd (sim_pext {}) (mmap_message (map (vma_of two_areas) [2, 4]) 6 @ []) 0
      \<lparr>rd_used = 0, rd_data = []\<rparr> sim_plug
    = Some (0, \<lparr>rd_used = 0, rd_data = []\<rparr>, sim_plug\<lparr>pworld :=
        [Mmap 0x2000 0x1000 5 0 6 0, Mmap 0x4000 0x1000 1 0 6 0, Close 6]\<rparr>)"
  using service_mmap_end_to_end[OF sim_pext_logs, where fails = "{}" and dlm = "dlm_of two_areas 0" and s = two_areas
      and x = sim_ext and rest = "[]" and n = 0 and rd = "\<lparr>rd_used = 0, rd_data = []\<rparr>" and p = sim_plug
      and fd = 6 and ?v1.0 = 2 and ?v2.0 = 4]
  by (simp add: two_areas_def sim_dlm_def sim_vma_def vma_accessors sim_plug_def)

lemma service_mmap_refuses_other_counts_witness:
  "\<exists>rd. nsb_do_handle_cmd (sim_pext {}) (mmap_message (map (vma_of two_areas) []) 6 @ []) 0
      \<lparr>rd_used = 0, rd_data = replicate NSB_SERVICE_MESSAGE_DATA_SIZE 0\<rparr> sim_plug = Some (- EINVAL, rd, sim_plug)"
  using service_mmap_refuses_other_counts[of "sim_dlm" "sim_pext {}" two_areas 6 "[]" 0 sim_plug]
  by (simp add: sim_dlm_def)

end
