(* ===== verification/Service_Session.thy ===== *)
theory Service_Session
  imports Service_Link
begin

text \<open>
  Patcher and service as one system. A request of \<open>patcher/service.c\<close> goes through the socket, the
  call stub that is written into the target and run there calls \<open>nsb_service_run_loop\<close> of
  \<open>plugins/service.c\<close>, and the answer comes back through the socket. The connection is a list of
  messages for each direction. \<open>joined\<close> and \<open>serving\<close> say how the two environments are connected;
  nothing else is assumed of them. The theory shows that the two programs together implement the
  abstract service \<open>request_outcome\<close>, for any sequence of requests.
\<close>

section \<open>The connection\<close>

record conn =
  to_service :: "byte list list"
  to_patcher :: "byte list list"
  done_ops :: "pop list"

definition note_op :: "pop \<Rightarrow> conn \<Rightarrow> conn" where
  "note_op op c = c\<lparr>done_ops := done_ops c @ [op]\<rparr>"

lemma fold_note_op: "fold note_op ops c = c\<lparr>done_ops := done_ops c @ ops\<rparr>"
  by (induction ops arbitrary: c) (simp_all add: note_op_def)

text \<open>
  The environment of the service: a connected socket whose messages arrive whole and in order
  (\<open>SOCK_SEQPACKET\<close>), and memory calls that are noted.
\<close>

definition serving :: "conn pext \<Rightarrow> int \<Rightarrow> pop set \<Rightarrow> bool" where
  "serving px sock fails \<longleftrightarrow> noting note_op px fails
     \<and> (\<forall>n dontwait c m ms. to_service c = m # ms \<longrightarrow> p_recv px sock n dontwait c = (Inr (take n m), c\<lparr>to_service := ms\<rparr>))
     \<and> (\<forall>bs c. p_send px sock bs c = (Inr (length bs), c\<lparr>to_patcher := to_patcher c @ [bs]\<rparr>))"

text \<open>The function a call stub calls, and its first two arguments, as the processor reads them.\<close>

definition stub_call :: "byte list \<Rightarrow> u64 \<Rightarrow> (u64 \<times> u64 \<times> u64) option" where
  "stub_call stub pos = do {
     (rex1, op1, rdi) \<leftarrow> mov_imm64 (drop 50 stub);
     (rex2, op2, rsi) \<leftarrow> mov_imm64 (drop 40 stub);
     f \<leftarrow> call_target (drop 60 stub) (pos + 60);
     if (rex1, op1) = (0x48, 0xbf) \<and> (rex2, op2) = (0x48, 0xbe) then Some (f, rdi, rsi) else None }"

text \<open>
  The environment of the patcher. \<open>plug\<close> is the state of the service in the target, \<open>place\<close> the address
  for code, \<open>run\<close> the address of \<open>nsb_service_run_loop\<close>. Writing to \<open>place\<close> and allocating leave the
  service alone, the socket is the other end of its socket, and running a stub that calls \<open>run\<close>
  runs the loop with the arguments of the stub; its \<open>int\<close> is in the low half of the result.
\<close>

definition joined :: "'w ext \<Rightarrow> conn pext \<Rightarrow> u64 \<Rightarrow> u64 \<Rightarrow> int \<Rightarrow> ('w \<Rightarrow> u64 \<Rightarrow> byte) \<Rightarrow> ('w \<Rightarrow> conn plug) \<Rightarrow> bool" where
  "joined x px run place sock mem plug \<longleftrightarrow> memory_ext x mem
     \<and> (\<forall>pid bs w. length bs \<le> 4096 \<longrightarrow> plug (snd (x_poke x pid bs place w)) = plug w)
     \<and> (\<forall>w. fst (x_malloc x w) \<and> plug (snd (x_malloc x w)) = plug w)
     \<and> (\<forall>rq w. \<exists>n w'. x_send x sock rq w = (Inr n, w')
          \<and> plug w' = (plug w)\<lparr>pworld := (pworld (plug w))\<lparr>to_service := to_service (pworld (plug w)) @ [rq]\<rparr>\<rparr>)
     \<and> (\<forall>n w m ms. to_patcher (pworld (plug w)) = m # ms \<longrightarrow> (\<exists>w'. x_recv x sock n w = (Inr (take n m), w')
          \<and> plug w' = (plug w)\<lparr>pworld := (pworld (plug w))\<lparr>to_patcher := ms\<rparr>\<rparr>))
     \<and> (\<forall>w once wait r p. stub_call (mem_bytes (mem w) place 66) place = Some (run, once, wait)
          \<and> nsb_service_run_loop px (once \<noteq> 0) (wait \<noteq> 0) (plug w) = Some (r, p)
          \<longrightarrow> (\<exists>ax w'. x_run_at x place w = ((0, ax), w') \<and> (ucast ax :: u32) = of_int r \<and> plug w' = p))"

text \<open>Between two requests: the patcher is connected, and no message is on its way.\<close>

definition in_sync :: "u64 \<Rightarrow> u64 \<Rightarrow> int \<Rightarrow> int \<Rightarrow> ('w \<Rightarrow> conn plug) \<Rightarrow> 'w pst \<Rightarrow> bool" where
  "in_sync run place sock csock plug s \<longleftrightarrow> ctx_ctl (ctx s) \<and> vma_start (ctx_remote_vma (ctx s)) = place
     \<and> sv_runner (ctx_service (ctx s)) = run \<and> sv_sock (ctx_service (ctx s)) = sock
     \<and> cmd_sock (plug (world s)) = csock
     \<and> to_service (pworld (plug (world s))) = [] \<and> to_patcher (pworld (plug (world s))) = []"

definition reachable_from :: "u64 \<Rightarrow> u64 \<Rightarrow> bool" where
  "reachable_from place run \<longleftrightarrow> \<bar>sint (run - (place + 65))\<bar> < 2 ^ 31"

abbreviation empty_rd :: nsb_response_data where
  "empty_rd \<equiv> \<lparr>rd_used = 0, rd_data = replicate NSB_SERVICE_MESSAGE_DATA_SIZE 0\<rparr>"

text \<open>What the dispatcher of the service makes of a request, whatever lies behind it in the buffer.\<close>

definition replies :: "conn pext \<Rightarrow> byte list \<Rightarrow> conn plug \<Rightarrow> int \<Rightarrow> byte list \<Rightarrow> conn plug \<Rightarrow> bool" where
  "replies px rq p ret data q \<longleftrightarrow> (\<forall>rest n. \<exists>rd. nsb_do_handle_cmd px (rq @ rest) n empty_rd p = Some (ret, rd, q)
     \<and> rd_used rd \<le> NSB_SERVICE_MESSAGE_DATA_SIZE \<and> take (rd_used rd) (rd_data rd) = data
     \<and> length (rd_data rd) = NSB_SERVICE_MESSAGE_DATA_SIZE)"

lemma replies_length: "replies px rq p ret data q \<Longrightarrow> length data \<le> NSB_SERVICE_MESSAGE_DATA_SIZE"
  unfolding replies_def by (metis length_take min.bounded_iff order_refl)

section \<open>One exchange\<close>

text \<open>The loop of the service, run once without waiting, takes one request and sends one answer.\<close>

lemma run_once_serves:
  assumes "serving px (cmd_sock p) fails" "to_service (pworld p) = [rq]" "4 \<le> length rq"
    "length rq \<le> 4 + NSB_SERVICE_MESSAGE_DATA_SIZE"
    "replies px rq (p\<lparr>pworld := (pworld p)\<lparr>to_service := []\<rparr>\<rparr>) ret data q" "cmd_sock q = cmd_sock p"
  shows "nsb_service_run_loop px True False p
    = Some (0, q\<lparr>pworld := (pworld q)\<lparr>to_patcher := to_patcher (pworld q) @ [nsb_service_response ret data]\<rparr>\<rparr>)"
proof -
  let ?p = "p\<lparr>pworld := (pworld p)\<lparr>to_service := []\<rparr>\<rparr>"
  let ?rest = "drop (length rq) (map (p_slack px) [0..<4 + NSB_SERVICE_MESSAGE_DATA_SIZE])"
  from assms(5) obtain rd where rd: "nsb_do_handle_cmd px (rq @ ?rest) (length rq - 4) empty_rd ?p = Some (ret, rd, q)"
    "rd_used rd \<le> NSB_SERVICE_MESSAGE_DATA_SIZE" "take (rd_used rd) (rd_data rd) = data"
    unfolding replies_def by blast
  have "nsb_service_receive_request px True p = ((int (length rq), rq @ ?rest), ?p)"
    using assms(1-4) by (auto simp: nsb_service_receive_request_def p_sys_def p_call_def serving_def Let_def)
  moreover have "nsb_handle_command px (rq @ ?rest) (length rq - 4) ?p
      = Some (0, q\<lparr>pworld := (pworld q)\<lparr>to_patcher := to_patcher (pworld q) @ [nsb_service_response ret data]\<rparr>\<rparr>)"
    using rd assms(1,6) by (simp add: nsb_handle_command_def nsb_service_send_response_def p_sys_def p_call_def serving_def)
  ultimately have "nsb_service_run px False p
      = Some (0, q\<lparr>pworld := (pworld q)\<lparr>to_patcher := to_patcher (pworld q) @ [nsb_service_response ret data]\<rparr>\<rparr>)"
    using assms(3) by (auto simp: nsb_service_run_def)
  then show ?thesis by (subst nsb_service_run_loop.simps) simp
qed

lemma joined_memory: "joined x px run place sock mem plug \<Longrightarrow> memory_ext x mem"
  by (simp add: joined_def)

lemma joined_run:
  assumes "joined x px run place sock mem plug" "stub_call (mem_bytes (mem w) place 66) place = Some (run, once, wait)"
    "nsb_service_run_loop px (once \<noteq> 0) (wait \<noteq> 0) (plug w) = Some (r, p)"
  shows "\<exists>ax w'. x_run_at x place w = ((0, ax), w') \<and> (ucast ax :: u32) = of_int r \<and> plug w' = p"
  using assms(2,3) assms(1)[unfolded joined_def, THEN conjunct2, THEN conjunct2, THEN conjunct2, THEN conjunct2, THEN conjunct2]
  by blast

text \<open>The stub is written, run, and calls the loop with \<open>once\<close> set and \<open>wait\<close> clear.\<close>

lemma service_run_calls_loop:
  assumes "joined x px run place sock mem plug" "reachable_from place run" "ctx_ctl (ctx s)"
    "vma_start (ctx_remote_vma (ctx s)) = place" "sv_runner (ctx_service (ctx s)) = run"
    "nsb_service_run_loop px True False (plug (world s)) = Some (r, q)" "- (2 ^ 31) \<le> r" "r < 2 ^ 31"
  shows "\<exists>w. service_run x s = Some (r, s\<lparr>world := w\<rparr>) \<and> plug w = q"
proof -
  obtain blob where blob: "x86_64_call run place 1 0 0 0 0 0 = Some (66, blob)" "length blob = 66"
    "stub_call blob place = Some (run, 1, 0)"
  proof -
    let ?blob = "(mov_reg 0x49 0xb9 0 @ mov_reg 0x49 0xb8 0 @ mov_reg 0x48 0xb9 0 @ mov_reg 0x48 0xba 0 @ mov_reg 0x48 0xbe 0
       @ mov_reg 0x48 0xbf 1) @ (0xe8 # le_bytes 4 (ucast (ucast (run - (place + 60 + 5)) :: u32))) @ [0xcc]"
    have fits: "\<bar>sint (run - (place + 60 + 5))\<bar> < 2 ^ 31" using assms(2) by (simp add: reachable_from_def add.assoc)
    have "call_target (drop 60 ?blob) (place + 60) = Some run"
      using rel32_target_encoded[OF fits, of "0xe8" "[0xcc]"] by (simp add: mov_reg_def call_target_def)
    then have "stub_call ?blob place = Some (run, 1, 0)" by (simp add: stub_call_def, simp add: mov_reg_def mov_imm64_def)
    moreover have "x86_64_call run place 1 0 0 0 0 0 = Some (66, ?blob)" using fits by (simp add: x86_64_call_eq)
    moreover have "length ?blob = 66" by (simp add: mov_reg_def)
    ultimately show thesis by (intro that)
  qed
  have len: "length (padded x blob) = 72" using length_padded[of blob x] blob(2) by simp
  have "length (padded x blob) < 2 ^ 64" unfolding len by simp
  then obtain w where w: "x_poke x (ctx_pid (ctx s)) (padded x blob) place (world s) = ((0, 0), w)"
    "mem w = mem_write (mem (world s)) place (padded x blob)"
    using joined_memory[OF assms(1)] unfolding memory_ext_def by blast
  have "mem_bytes (mem w) place 72 = padded x blob" using read_written[of "padded x blob"] len unfolding w(2) by simp
  then have "take 66 (mem_bytes (mem w) place 72) = blob" using blob(2) by (simp add: padded_def)
  then have stub: "mem_bytes (mem w) place 66 = blob" by (simp add: mem_bytes_def take_map take_upt)
  have "plug (snd (x_poke x (ctx_pid (ctx s)) (padded x blob) place (world s))) = plug (world s)"
    using assms(1) len unfolding joined_def by simp
  then have "plug w = plug (world s)" using w(1) by simp
  then obtain ax w2 where run: "x_run_at x place w = ((0, ax), w2)" "(ucast ax :: u32) = of_int r" "plug w2 = q"
    using joined_run[OF assms(1), of w 1 0 r q] assms(6) stub blob(3) by auto
  have "to_int (sint ax) = sint (ucast ax :: u32)"
    by (simp add: to_int_def sint_uint signed_take_bit_take_bit unsigned_ucast_eq take_bit_signed_take_bit)
  also have "\<dots> = r" unfolding run(2) using assms(7,8) by (simp add: signed_of_int signed_take_bit_int_eq_self)
  finally have "to_int (sint ax) = r" .
  with blob(1) w(1) run(1,3) assms(3-5) show ?thesis
    by (intro exI[of _ w2]) (simp add: service_run_def service_do_def process_exec_code_def process_write_data_def ext_call_def)
qed

lemma joined_send:
  assumes "joined x px run place sock mem plug"
  shows "\<exists>n w'. x_send x sock rq w = (Inr n, w')
    \<and> plug w' = (plug w)\<lparr>pworld := (pworld (plug w))\<lparr>to_service := to_service (pworld (plug w)) @ [rq]\<rparr>\<rparr>"
  using assms unfolding joined_def by blast

lemma joined_recv:
  assumes "joined x px run place sock mem plug" "to_patcher (pworld (plug w)) = m # ms"
  shows "\<exists>w'. x_recv x sock n w = (Inr (take n m), w') \<and> plug w' = (plug w)\<lparr>pworld := (pworld (plug w))\<lparr>to_patcher := ms\<rparr>\<rparr>"
  using assms(2) assms(1)[unfolded joined_def, THEN conjunct2, THEN conjunct2, THEN conjunct2, THEN conjunct2, THEN conjunct1]
  by blast

text \<open>The texts of a negative answer end inside it, so that they can be printed.\<close>

definition printable :: "int \<Rightarrow> byte list \<Rightarrow> bool" where
  "printable ret data \<longleftrightarrow> (ret < 0 \<longrightarrow> (\<exists>msgs. data = c_strings msgs \<and> (\<forall>m \<in> set msgs. CHR 0x00 \<notin> set m)))"

lemma print_errors_printable:
  assumes "printable ret data" "ret < 0"
  shows "\<exists>msgs. nsb_service_print_errors (nsb_service_response ret data @ slack) (length (nsb_service_response ret data)) = Some msgs"
proof -
  obtain msgs where m: "data = c_strings msgs" "\<forall>m \<in> set msgs. CHR 0x00 \<notin> set m"
    using assms unfolding printable_def by blast
  have "nsb_service_print_errors (nsb_service_response ret data @ slack) (length (nsb_service_response ret data)) = Some msgs"
    using print_errors_messages[OF m(2), of "[]" slack] m(1)
    by (simp add: nsb_service_print_errors_def nsb_service_response_def c_strings_def)
  then show ?thesis ..
qed

lemma rs_ret_response: "- (2 ^ 31) \<le> ret \<Longrightarrow> ret < 2 ^ 31 \<Longrightarrow> rs_ret (nsb_service_response ret data @ slack) = ret"
  by (simp add: rs_ret_def nsb_service_response_def signed_of_int signed_take_bit_int_eq_self)

lemma exchange_replies:
  assumes "joined x px run place sock mem plug" "serving px csock fails" "reachable_from place run"
    "in_sync run place sock csock plug s" "4 \<le> length rq" "length rq \<le> 4 + NSB_SERVICE_MESSAGE_DATA_SIZE"
    "replies px rq (plug (world s)) ret data q" "cmd_sock q = csock" "to_patcher (pworld q) = []"
    "- (2 ^ 31) \<le> ret" "ret < 2 ^ 31" "printable ret data"
  shows "\<exists>w e slack. service_exchange x rq s = Some ((min ret 0, nsb_service_response ret data @ slack), s\<lparr>world := w, errno := e\<rparr>)
    \<and> plug w = q"
proof -
  let ?p = "plug (world s)" and ?rs = "nsb_service_response ret data"
  have sync: "ctx_ctl (ctx s)" "vma_start (ctx_remote_vma (ctx s)) = place" "sv_runner (ctx_service (ctx s)) = run"
    "sv_sock (ctx_service (ctx s)) = sock" "cmd_sock ?p = csock" "to_service (pworld ?p) = []" "to_patcher (pworld ?p) = []"
    using assms(4) by (simp_all add: in_sync_def)
  obtain n w1 where send: "x_send x sock rq (world s) = (Inr n, w1)" "plug w1 = ?p\<lparr>pworld := (pworld ?p)\<lparr>to_service := [rq]\<rparr>\<rparr>"
    using joined_send[OF assms(1), of rq "world s"] sync(6) by auto
  have "(plug w1)\<lparr>pworld := (pworld (plug w1))\<lparr>to_service := []\<rparr>\<rparr> = ?p" using send(2) sync(6) by simp
  then have "nsb_service_run_loop px True False (plug w1) = Some (0, q\<lparr>pworld := (pworld q)\<lparr>to_patcher := [?rs]\<rparr>\<rparr>)"
    using run_once_serves[of px "plug w1" fails rq ret data q] assms(2,5-9) send(2) sync(5) by simp
  then obtain w2 where run: "service_run x (s\<lparr>world := w1\<rparr>) = Some (0, s\<lparr>world := w2\<rparr>)"
    "plug w2 = q\<lparr>pworld := (pworld q)\<lparr>to_patcher := [?rs]\<rparr>\<rparr>"
    using service_run_calls_loop[OF assms(1,3), of "s\<lparr>world := w1\<rparr>"] sync(1-3) by auto
  have "length ?rs \<le> 4 + NSB_SERVICE_MESSAGE_DATA_SIZE" using replies_length[OF assms(7)] by simp
  then obtain w3 where recv: "x_recv x sock (4 + NSB_SERVICE_MESSAGE_DATA_SIZE) w2 = (Inr ?rs, w3)" "plug w3 = q"
    using joined_recv[OF assms(1), of w2 ?rs "[]" "4 + NSB_SERVICE_MESSAGE_DATA_SIZE"] run(2) assms(9) by auto
  let ?slack = "drop (length ?rs) (map (x_slack x) [0..<4 + NSB_SERVICE_MESSAGE_DATA_SIZE])"
  have "nsb_service_receive_response x (s\<lparr>world := w2\<rparr>) = Some ((int (length ?rs), ?rs @ ?slack), s\<lparr>world := w3\<rparr>)"
  proof (cases "ret < 0")
    case True
    from print_errors_printable[OF assms(12) True] obtain msgs
      where "nsb_service_print_errors (?rs @ ?slack) (length ?rs) = Some msgs" by blast
    with True recv(1) sync(4) rs_ret_response[OF assms(10,11)] show ?thesis
      by (simp add: nsb_service_receive_response_def sys_call_def ext_call_def Let_def)
  next
    case False
    with recv(1) sync(4) rs_ret_response[OF assms(10,11)] show ?thesis
      by (simp add: nsb_service_receive_response_def sys_call_def ext_call_def Let_def)
  qed
  then have "service_exchange x rq s = Some ((min ret 0, ?rs @ ?slack), s\<lparr>world := w3, errno := if ret < 0 then - ret else errno s\<rparr>)"
    using send(1) run(1) sync(4) rs_ret_response[OF assms(10,11), of data ?slack]
    by (simp add: service_exchange_def nsb_service_send_request_def sys_call_def ext_call_def)
  with recv(2) show ?thesis by blast
qed

section \<open>The abstract service\<close>

datatype svc_request = Req_mmap dl_map int | Req_munmap dl_map | Req_needed

text \<open>
  What a request comes to when the areas are those of \<open>vm\<close>: the answer, the memory calls in the
  target, and the messages. Mapping works for two areas only.
\<close>

fun request_outcome :: "(ptr \<Rightarrow> vma_area) \<Rightarrow> pop set \<Rightarrow> svc_request \<Rightarrow> int \<times> pop list \<times> string list" where
  "request_outcome vm fails (Req_mmap dlm fd) =
     (if 255 < length (dl_vmas dlm) then (- E2BIG, [], [])
      else case map (\<lambda>v. mmap_info_of (vm v)) (dl_vmas dlm) of
             [m1, m2] \<Rightarrow> mmap_outcome fails fd m1 m2
           | _ \<Rightarrow> (- EINVAL, [], [''rq->nr_mmaps: '' @ fmt_d (of_nat (length (dl_vmas dlm)))]))"
| "request_outcome vm fails (Req_munmap dlm) =
     (if 511 < length (dl_vmas dlm) then (- E2BIG, [], [])
      else munmap_outcome fails (map (\<lambda>v. addr_info_of (vm v)) (dl_vmas dlm)))"
| "request_outcome vm fails Req_needed = (0, [], [])"

fun request_result :: "(ptr \<Rightarrow> vma_area) \<Rightarrow> pop set \<Rightarrow> (u64 \<times> u64) list \<Rightarrow> svc_request \<Rightarrow> int \<times> u64 list" where
  "request_result vm fails lms Req_needed = (int (length (needed_of (butlast lms))), needed_of (butlast lms))"
| "request_result vm fails lms req = (fst (request_outcome vm fails req), [])"

fun request_ok :: "svc_request \<Rightarrow> bool" where
  "request_ok (Req_mmap dlm fd) \<longleftrightarrow> - (2 ^ 31) \<le> fd \<and> fd < 2 ^ 31"
| "request_ok req \<longleftrightarrow> True"

text \<open>The calls of the patcher, and a sequence of them.\<close>

fun service_request :: "'w ext \<Rightarrow> svc_request \<Rightarrow> 'w pst \<Rightarrow> ((int \<times> u64 list) \<times> 'w pst) option" where
  "service_request x (Req_mmap dlm fd) s = map_option (\<lambda>(err, t). ((err, []), t)) (service_mmap_dlm x dlm fd s)"
| "service_request x (Req_munmap dlm) s = map_option (\<lambda>(err, t). ((err, []), t)) (service_munmap_dlm x dlm s)"
| "service_request x Req_needed s = service_needed_array x s"

fun service_session :: "'w ext \<Rightarrow> svc_request list \<Rightarrow> 'w pst \<Rightarrow> ((int \<times> u64 list) list \<times> 'w pst) option" where
  "service_session x [] s = Some ([], s)"
| "service_session x (req # reqs) s = do {
     (res, s) \<leftarrow> service_request x req s;
     (ress, s) \<leftarrow> service_session x reqs s;
     Some (res # ress, s) }"

section \<open>The handlers\<close>

definition no_nul :: "string \<Rightarrow> bool" where
  "no_nul m \<longleftrightarrow> CHR 0x00 \<notin> set m"

lemma no_nul_append [simp]: "no_nul (a @ b) \<longleftrightarrow> no_nul a \<and> no_nul b" and no_nul_Cons [simp]: "no_nul (c # b) \<longleftrightarrow> c \<noteq> CHR 0x00 \<and> no_nul b"
  and no_nul_Nil [simp]: "no_nul []"
  by (auto simp: no_nul_def)

lemma no_nul_numbers [simp]: "no_nul (fmt_hex n)" "no_nul (fmt_d w)"
proof -
  have "\<not> is_digit b (CHR 0x00)" for b by (simp add: is_digit_def digit_val_def)
  then have "no_nul (hex_string k)" "no_nul (dec_string k)" for k
    using hex_string_digits dec_string_digits unfolding no_nul_def by blast+
  then show "no_nul (fmt_hex n)" "no_nul (fmt_d w)" by (simp_all add: fmt_hex_def fmt_d_def int_string_def)
qed

definition msgs_ok :: "string list \<Rightarrow> bool" where
  "msgs_ok msgs \<longleftrightarrow> length msgs \<le> 2 \<and> (\<forall>m \<in> set msgs. length m \<le> 255 \<and> no_nul m)"

lemma msgs_ok_c_strings: "msgs_ok msgs \<Longrightarrow> length (c_strings msgs) \<le> 512"
proof -
  assume ok: "msgs_ok msgs"
  have "length (c_strings ms) \<le> 256 * length ms" if "\<forall>m \<in> set ms. length m \<le> 255" for ms
    using that by (induction ms) (auto simp: c_strings_def)
  from this[of msgs] ok show ?thesis by (auto simp: msgs_ok_def)
qed

lemma error_texts_ok: "length (mmap_error mi) \<le> 255 \<and> no_nul (mmap_error mi)" "length (munmap_error mai) \<le> 255 \<and> no_nul (munmap_error mai)"
  using length_fmt_hex[of "mai_addr (mi_info mi)"] length_fmt_hex[of "mai_addr (mi_info mi) + mai_length (mi_info mi)"]
    length_fmt_hex[of "mi_prot mi"] length_fmt_hex[of "mi_flags mi"] length_fmt_hex[of "mi_offset mi"]
    length_fmt_hex[of "mai_addr mai"] length_fmt_hex[of "mai_addr mai + mai_length mai"]
  by (simp_all add: mmap_error_def munmap_error_def Let_def)

text \<open>The answers are error codes, and the messages are few and short.\<close>

definition outcome_ok :: "int \<times> pop list \<times> string list \<Rightarrow> bool" where
  "outcome_ok out \<longleftrightarrow> - 4096 < fst out \<and> fst out \<le> 0 \<and> msgs_ok (snd (snd out))"

lemma munmap_outcome_ok: "outcome_ok (munmap_outcome fails mais)"
  by (induction mais) (auto simp: outcome_ok_def msgs_ok_def error_texts_ok split: prod.splits)

lemma request_outcome_ok: "outcome_ok (request_outcome vm fails req)"
proof (cases req)
  case (Req_mmap dlm fd)
  have "length (''rq->nr_mmaps: '' @ fmt_d w) \<le> 255" for w using length_fmt_d[of w] by simp
  with Req_mmap show ?thesis
    by (auto simp: outcome_ok_def msgs_ok_def mmap_outcome_def error_texts_ok split: list.splits)
qed (auto simp: munmap_outcome_ok, auto simp: outcome_ok_def msgs_ok_def)

lemma answers_replies:
  assumes "\<And>rest n. nsb_do_handle_cmd px (rq @ rest) n empty_rd p = answers note_op out empty_rd p" "outcome_ok out"
  shows "replies px rq p (fst out) (c_strings (snd (snd out))) (did note_op (fst (snd out)) (fst out = - ENOMEM) p)"
proof -
  obtain ret ops msgs where out: "out = (ret, ops, msgs)" by (cases out) auto
  have "length (c_strings msgs) \<le> 512" using assms(2) by (simp add: outcome_ok_def out msgs_ok_c_strings)
  then obtain rd where "print_all msgs empty_rd = Some rd" "rd_used rd = length (c_strings msgs)"
    "length (rd_data rd) = NSB_SERVICE_MESSAGE_DATA_SIZE" "take (rd_used rd) (rd_data rd) = c_strings msgs"
    using print_all_data[of empty_rd msgs] by (auto simp: nsb_service_sizes)
  with assms(1) \<open>length (c_strings msgs) \<le> 512\<close> show ?thesis
    by (auto simp: replies_def answers_def out nsb_service_sizes)
qed

lemma outcome_printable: "outcome_ok out \<Longrightarrow> printable ret (c_strings (snd (snd out)))"
  unfolding printable_def outcome_ok_def msgs_ok_def no_nul_def by blast

section \<open>One request\<close>

text \<open>The target of a session: its objects, as the service finds them.\<close>

definition objects :: "conn pext \<Rightarrow> (u64 \<times> u64) list \<Rightarrow> bool" where
  "objects px lms \<longleftrightarrow> link_chain (p_mem px) (p_r_map px) lms \<and> p_r_map px \<noteq> 0 \<and> 2 \<le> length lms \<and> length lms \<le> 1023
     \<and> (\<forall>(l, v) \<in> set lms. v \<noteq> - 2)"

abbreviation target_ops :: "('w \<Rightarrow> conn plug) \<Rightarrow> 'w pst \<Rightarrow> pop list" where
  "target_ops plug s \<equiv> done_ops (pworld (plug (world s)))"

lemma exchange_answers:
  assumes "joined x px run place sock mem plug" "serving px csock fails" "reachable_from place run"
    "in_sync run place sock csock plug s" "4 \<le> length rq" "length rq \<le> 4 + NSB_SERVICE_MESSAGE_DATA_SIZE"
    "\<And>rest n. nsb_do_handle_cmd px (rq @ rest) n empty_rd (plug (world s)) = answers note_op out empty_rd (plug (world s))"
    "outcome_ok out"
  shows "\<exists>w e rs. service_exchange x rq s = Some ((fst out, rs), s\<lparr>world := w, errno := e\<rparr>)
    \<and> in_sync run place sock csock plug (s\<lparr>world := w, errno := e\<rparr>)
    \<and> done_ops (pworld (plug w)) = target_ops plug s @ fst (snd out)"
proof -
  let ?q = "did note_op (fst (snd out)) (fst out = - ENOMEM) (plug (world s))"
  have sync: "cmd_sock ?q = csock" "to_patcher (pworld ?q) = []" "to_service (pworld ?q) = []"
    using assms(4) by (simp_all add: in_sync_def did_def fold_note_op)
  have ret: "- (2 ^ 31) \<le> fst out" "fst out < 2 ^ 31" "min (fst out) 0 = fst out" using assms(8) by (auto simp: outcome_ok_def)
  from exchange_replies[OF assms(1-6) answers_replies[OF assms(7,8)] sync(1,2) ret(1,2) outcome_printable[OF assms(8)]]
  obtain w e rs where "service_exchange x rq s = Some ((fst out, rs), s\<lparr>world := w, errno := e\<rparr>)" "plug w = ?q"
    unfolding ret(3) by blast
  with assms(4) sync show ?thesis by (intro exI[of _ w] exI[of _ e] exI[of _ rs]) (auto simp: in_sync_def did_def fold_note_op)
qed

lemma in_sync_xmalloc:
  assumes "joined x px run place sock mem plug" "in_sync run place sock csock plug s"
  shows "in_sync run place sock csock plug (snd (xmalloc x s)) \<and> vma_of (snd (xmalloc x s)) = vma_of s
    \<and> target_ops plug (snd (xmalloc x s)) = target_ops plug s"
proof -
  have "plug (snd (x_malloc x (world s))) = plug (world s)" using assms(1) by (simp add: joined_def)
  with assms(2) show ?thesis
    by (cases "x_malloc x (world s)") (simp add: xmalloc_def ext_call_def in_sync_def)
qed

lemma service_request_serves:
  assumes "joined x px run place sock mem plug" "serving px csock fails" "reachable_from place run" "objects px lms"
    "in_sync run place sock csock plug s" "request_ok req"
  shows "\<exists>t. service_request x req s = Some (request_result (vma_of s) fails lms req, t)
    \<and> in_sync run place sock csock plug t \<and> vma_of t = vma_of s
    \<and> target_ops plug t = target_ops plug s @ fst (snd (request_outcome (vma_of s) fails req))"
proof -
  have nt: "noting note_op px fails" using assms(2) by (simp add: serving_def)
  note ex = exchange_answers[OF assms(1-3,5)]
  show ?thesis
  proof (cases req)
    case (Req_mmap dlm fd)
    let ?mrq = "\<lparr>mrq_fd = fd, mrq_mmap = map mmap_info_of (map (vma_of s) (dl_vmas dlm))\<rparr>"
    let ?rq = "mmap_message (map (vma_of s) (dl_vmas dlm)) fd" and ?out = "request_outcome (vma_of s) fails req"
    show ?thesis
    proof (cases "length (dl_vmas dlm) \<le> 255")
      case True
      have h: "nsb_do_handle_cmd px (?rq @ rest) n empty_rd p = answers note_op ?out empty_rd p" for rest n p
      proof (cases "length (dl_vmas dlm) = 2")
        case two: True
        then obtain v1 v2 where "dl_vmas dlm = [v1, v2]" by (auto simp: length_Suc_conv numeral_2_eq_2)
        with handle_mmap_noted[OF nt, of ?mrq] assms(6) Req_mmap show ?thesis by (simp add: mmap_message_def)
      next
        case False
        then have "?out = (- EINVAL, [], [''rq->nr_mmaps: '' @ fmt_d (of_nat (length (mrq_mmap ?mrq)))])"
          using True Req_mmap by (auto split: list.splits)
        with handle_mmap_refused[of ?mrq px rest n empty_rd p] False True show ?thesis by (simp add: mmap_message_def)
      qed
      have "4 \<le> length ?rq" "length ?rq \<le> 4 + NSB_SERVICE_MESSAGE_DATA_SIZE"
        using True message_lengths(1)[of "map (vma_of s) (dl_vmas dlm)"] by (simp_all add: mmap_message_def)
      from ex[OF this h request_outcome_ok] True Req_mmap show ?thesis by (auto simp: service_mmap_dlm_eq)
    qed (use Req_mmap assms(5) in \<open>simp add: service_mmap_dlm_eq\<close>)
  next
    case (Req_munmap dlm)
    let ?rq = "munmap_message (map (vma_of s) (dl_vmas dlm))"
    show ?thesis
    proof (cases "length (dl_vmas dlm) \<le> 511")
      case True
      have h: "nsb_do_handle_cmd px (?rq @ rest) n empty_rd p = answers note_op (request_outcome (vma_of s) fails req) empty_rd p" for rest n p
        using handle_munmap_noted[OF nt, of "\<lparr>mrq_munmap = map addr_info_of (map (vma_of s) (dl_vmas dlm))\<rparr>"] True Req_munmap
        by (simp add: munmap_message_def comp_def)
      have "4 \<le> length ?rq" "length ?rq \<le> 4 + NSB_SERVICE_MESSAGE_DATA_SIZE"
        using True message_lengths(2)[of "map (vma_of s) (dl_vmas dlm)"] by (simp_all add: munmap_message_def)
      from ex[OF this h request_outcome_ok] True Req_munmap show ?thesis by (auto simp: service_munmap_dlm_eq)
    qed (use Req_munmap assms(5) in \<open>simp add: service_munmap_dlm_eq\<close>)
  next
    case Req_needed
    let ?rq = "nsb_service_request NSB_SERVICE_CMD_NEEDED_LIST []" and ?addrs = "needed_of (butlast lms)"
    have len: "length ?addrs \<le> 1023" using length_needed_of[of "butlast lms"] assms(4) by (auto simp: objects_def)
    have "replies px ?rq (plug (world s)) 0 (needed_list_bytes ?addrs) (plug (world s))"
      unfolding replies_def using handle_needed_list_rd[of px lms] assms(4)[unfolded objects_def] by blast
    then obtain w e slack where x: "service_exchange x ?rq s
        = Some ((0, nsb_service_response 0 (needed_list_bytes ?addrs) @ slack), s\<lparr>world := w, errno := e\<rparr>)" "plug w = plug (world s)"
      using exchange_replies[OF assms(1-3,5), of ?rq 0 "needed_list_bytes ?addrs" "plug (world s)"] assms(5)
      by (auto simp: in_sync_def printable_def)
    have "fst (x_malloc x w)" using assms(1) by (simp add: joined_def)
    then have "service_needed_array x s = Some ((int (length ?addrs), ?addrs), snd (xmalloc x (s\<lparr>world := w, errno := e\<rparr>)))"
      using read_needed_list[OF x(1) _ len] by simp
    moreover have "in_sync run place sock csock plug (s\<lparr>world := w, errno := e\<rparr>)" using assms(5) x(2) by (simp add: in_sync_def)
    ultimately show ?thesis using in_sync_xmalloc[OF assms(1), of csock "s\<lparr>world := w, errno := e\<rparr>"] x(2) Req_needed by simp
  qed
qed

text \<open>
  C19: Patcher and service together refine the abstract service. When the patcher is connected to
  the service and no message is on its way, every sequence of requests (map an object, unmap one,
  list the loaded objects) runs to its end: each request gets the answer and makes the target do the
  memory calls that \<open>request_outcome\<close> says, no more and in this order, whichever calls of the target
  fail; and the connection is in step again after it, so no request ever reads the answer to
  another one.
\<close>

theorem service_session_refines:
  assumes "joined x px run place sock mem plug" and "serving px csock fails" and "reachable_from place run"
    and "objects px lms" and "in_sync run place sock csock plug s" and "list_all request_ok reqs"
  shows "\<exists>t. service_session x reqs s = Some (map (request_result (vma_of s) fails lms) reqs, t)
    \<and> in_sync run place sock csock plug t
    \<and> target_ops plug t = target_ops plug s @ concat (map (\<lambda>req. fst (snd (request_outcome (vma_of s) fails req))) reqs)"
  using assms(5,6)
proof (induction reqs arbitrary: s)
  case (Cons req reqs)
  then obtain t where t: "service_request x req s = Some (request_result (vma_of s) fails lms req, t)"
    "in_sync run place sock csock plug t" "vma_of t = vma_of s"
    "target_ops plug t = target_ops plug s @ fst (snd (request_outcome (vma_of s) fails req))"
    using service_request_serves[OF assms(1-4), of s req] by auto
  from Cons.IH[OF t(2)] Cons.prems(2) t show ?case by auto
qed simp

section \<open>A concrete session\<close>

text \<open>A target with the service at 0x5000, in which unmapping the area at 0x4000 fails.\<close>

definition sess_fails :: "pop set" where
  "sess_fails = {Munmap 0x4000 0x1000}"

definition sess_pext :: "conn pext" where
  "sess_pext = \<lparr>
     p_munmap = (\<lambda>a l c. ((if Munmap a l \<in> sess_fails then -1 else 0, ENOMEM), note_op (Munmap a l) c)),
     p_mmap = (\<lambda>a l p f fd off c. ((if Mmap a l p f fd off \<in> sess_fails then -1 else 0, ENOMEM), note_op (Mmap a l p f fd off) c)),
     p_close = (\<lambda>fd c. ((0, 0), note_op (Close fd) c)),
     p_recv = (\<lambda>fd n nowait c. case to_service c of [] \<Rightarrow> (Inl EAGAIN, c) | m # ms \<Rightarrow> (Inr (take n m), c\<lparr>to_service := ms\<rparr>)),
     p_send = (\<lambda>fd bs c. (Inr (length bs), c\<lparr>to_patcher := to_patcher c @ [bs]\<rparr>)),
     p_accept4 = (\<lambda>fd c. (Inr 5, c)), p_recvmsg = (\<lambda>fd c. ((1, scm_rights 6), c)), p_socket = (\<lambda>c. (Inr 4, c)),
     p_bind = (\<lambda>fd a c. ((0, 0), c)), p_listen = (\<lambda>fd c. ((0, 0), c)), p_getpid = 10, p_slack = (\<lambda>i. 0),
     p_mem = chain_mem 2, p_r_map = 0x1000, p_sigframe_size = 1000\<rparr>"

record jworld =
  j_mem :: "u64 \<Rightarrow> byte"
  j_plug :: "conn plug"

definition sess_run :: "u64 \<Rightarrow> jworld \<Rightarrow> (int \<times> u64) \<times> jworld" where
  "sess_run a w = (case do { (f, once, wait) \<leftarrow> stub_call (mem_bytes (j_mem w) a 66) a;
       if f = 0x5000 then nsb_service_run_loop sess_pext (once \<noteq> 0) (wait \<noteq> 0) (j_plug w) else None } of
     None \<Rightarrow> ((-1, 0), w) | Some (r, p) \<Rightarrow> ((0, of_int r), w\<lparr>j_plug := p\<rparr>))"

definition sess_ext :: "jworld ext" where
  "sess_ext = \<lparr>x_malloc = (\<lambda>w. (True, w)), x_poke = (\<lambda>pid bs a w. ((0, 0), w\<lparr>j_mem := mem_write (j_mem w) a bs\<rparr>)),
     x_peek = (\<lambda>pid a n w. ((0, 0, mem_bytes (j_mem w) a n), w)), x_syscall = (\<lambda>nr args w. ((0, 0), w)),
     x_prepare = (\<lambda>pid w. (True, w)), x_cure = (\<lambda>w. (0, w)), x_run_at = sess_run,
     x_stop_task = (\<lambda>pid w. ((1, 0), w)), x_resume_task = (\<lambda>pid w. (0, w)), x_usleep = (\<lambda>n w. w),
     x_readdir = (\<lambda>path w. (Inr ([], 0), w)), x_maps = (\<lambda>pid w. (Some [], w)), x_access = (\<lambda>path w. (True, w)),
     x_stat = (\<lambda>path w. (Inl 2, w)), x_readlink = (\<lambda>path w. (Inr path, w)), x_open = (\<lambda>path w. (Inr 3, w)),
     x_lseek = (\<lambda>fd off w. (Inr off, w)), x_read = (\<lambda>fd n w. (Inr [], w)), x_close = (\<lambda>fd w. ((0, 0), w)),
     x_elf_begin = (\<lambda>fd w. (None, w)), x_elf_version = True, x_slack = (\<lambda>i. 0), x_unpack = (\<lambda>bs. None),
     x_unw_init = (\<lambda>pid w. ((-1, \<lambda>i. \<lparr>unw_ip = (0, 0), unw_sp = (0, 0), unw_name = [], unw_signal = 0, unw_step = 0\<rparr>), w)),
     x_socket = (\<lambda>w. (Inr 7, w)), x_connect = (\<lambda>fd addr w. ((0, 0), w)),
     x_send = (\<lambda>fd bs w. (Inr (length bs), w\<lparr>j_plug := (j_plug w)\<lparr>pworld := (pworld (j_plug w))\<lparr>to_service :=
        to_service (pworld (j_plug w)) @ [bs]\<rparr>\<rparr>\<rparr>)),
     x_recv = (\<lambda>fd n w. case to_patcher (pworld (j_plug w)) of [] \<Rightarrow> (Inl 11, w)
        | m # ms \<Rightarrow> (Inr (take n m), w\<lparr>j_plug := (j_plug w)\<lparr>pworld := (pworld (j_plug w))\<lparr>to_patcher := ms\<rparr>\<rparr>\<rparr>)),
     x_sendmsg = (\<lambda>sock data control w. ((1, 0), w))\<rparr>"

definition sess_state :: "jworld pst" where
  "sess_state = \<lparr>world = \<lparr>j_mem = (\<lambda>a. 0), j_plug = \<lparr>pworld = \<lparr>to_service = [], to_patcher = [], done_ops = []\<rparr>, perrno = 0,
       listen_sock = 4, cmd_sock = 5, nsb_service_stop = False, emergency_sigframe = []\<rparr>\<rparr>, errno = 0, brk = 100,
     vma_of = (\<lambda>p. sim_vma\<lparr>vaddr := 0x1000 * of_nat p, vlen := 0x1000, vprot := 5\<rparr>), dlm_of = (\<lambda>d. sim_dlm), ei_of = (\<lambda>p. sim_ei),
     patch_of = (\<lambda>p. sim_patch), process_context = sim_ctx\<lparr>ctx_ctl := True, ctx_remote_vma := sim_vma\<lparr>vaddr := 0x4000\<rparr>,
       ctx_service := (ctx_service sim_ctx)\<lparr>sv_runner := 0x5000, sv_sock := 7\<rparr>\<rparr>\<rparr>"

lemma sess_joined: "joined sess_ext sess_pext 0x5000 0x4000 7 j_mem j_plug"
proof -
  have "(ucast (of_int r :: u64) :: u32) = of_int r" for r by (rule bit_word_eqI) (simp add: bit_simps)
  then show ?thesis by (auto simp: joined_def memory_ext_def sess_ext_def sess_run_def)
qed

lemma sess_serving: "serving sess_pext 5 sess_fails"
  by (simp add: serving_def noting_def sess_pext_def exI[of _ 0])

lemma sess_objects: "objects sess_pext [(0, 0x55), (0, 0x55)]"
  using chain_2 by (simp add: objects_def sess_pext_def)

lemma sess_in_sync: "in_sync 0x5000 0x4000 7 5 j_plug sess_state"
  by (simp add: in_sync_def sess_state_def sim_vma_def vma_accessors)

theorem service_session_refines_witness:
  "\<exists>t. service_session sess_ext [Req_mmap (sim_dlm\<lparr>dl_vmas := [2, 3]\<rparr>) 6, Req_munmap (sim_dlm\<lparr>dl_vmas := [2, 4]\<rparr>), Req_needed] sess_state
      = Some ([(0, []), (- ENOMEM, []), (1, [0x55])], t)
    \<and> done_ops (pworld (j_plug (world t))) = [Mmap 0x2000 0x1000 5 0 6 0, Mmap 0x3000 0x1000 5 0 6 0, Close 6,
        Munmap 0x2000 0x1000, Munmap 0x4000 0x1000]"
proof -
  let ?reqs = "[Req_mmap (sim_dlm\<lparr>dl_vmas := [2, 3]\<rparr>) 6, Req_munmap (sim_dlm\<lparr>dl_vmas := [2, 4]\<rparr>), Req_needed]"
  have r: "map (request_result (vma_of sess_state) sess_fails [(0, 0x55), (0, 0x55)]) ?reqs = [(0, []), (- ENOMEM, []), (1, [0x55])]"
    "target_ops j_plug sess_state @ concat (map (\<lambda>req. fst (snd (request_outcome (vma_of sess_state) sess_fails req))) ?reqs)
      = [Mmap 0x2000 0x1000 5 0 6 0, Mmap 0x3000 0x1000 5 0 6 0, Close 6, Munmap 0x2000 0x1000, Munmap 0x4000 0x1000]"
    by (simp_all add: needed_of_def sess_fails_def mmap_outcome_def mmap_op_def munmap_op_def mmap_info_of_def addr_info_of_def
        sess_state_def sim_vma_def sim_dlm_def vma_accessors)
  have "reachable_from 0x4000 0x5000" "list_all request_ok ?reqs" by (simp_all add: reachable_from_def)
  from service_session_refines[OF sess_joined sess_serving this(1) sess_objects sess_in_sync this(2)] show ?thesis
    unfolding r by blast
qed

end
