(* ===== verification/Patch_Apply.thy ===== *)
theory Patch_Apply
  imports Patch
begin

text \<open>
  Applying a patch as a whole: \<open>apply_dyn_binpatch\<close> of \<open>patcher/patch.c\<close> runs through the loader,
  the relocations, the static references and the jumps. This theory puts the lemmas about these
  parts together: what the memory of the target holds when the call returns, and that on the
  abstract patch stack it is a push, the operation that reverting the patch undoes.
\<close>

section \<open>Reading the original code\<close>

text \<open>
  Opening the file \<open>path\<close>, seeking, reading eight bytes and closing it again works, gives the
  bytes \<open>content\<close> has at the offset, and does not touch the memory of the target. \<open>I\<close> is what has
  to hold of the world for this; it is not changed by these calls or by writing to the target.
\<close>

definition file_ext :: "'w ext \<Rightarrow> ('w \<Rightarrow> u64 \<Rightarrow> byte) \<Rightarrow> ('w \<Rightarrow> bool) \<Rightarrow> string \<Rightarrow> (u64 \<Rightarrow> byte list) \<Rightarrow> bool" where
  "file_ext x mem I path content \<longleftrightarrow>
     (\<forall>pid bs a w. I w \<longrightarrow> I (snd (x_poke x pid bs a w)))
   \<and> (\<forall>off. length (content off) = 8)
   \<and> (\<forall>w off. I w \<longrightarrow> (\<exists>fd r w1 w2 w3 w4. x_open x path w = (Inr fd, w1) \<and> x_lseek x fd off w1 = (Inr off, w2)
        \<and> x_read x fd 8 w2 = (Inr (content off), w3) \<and> x_close x fd w3 = (r, w4) \<and> mem w4 = mem w \<and> I w4))"

text \<open>The place of a function in the file of its object.\<close>

definition file_off :: "'w pst \<Rightarrow> ptr \<Rightarrow> func_jump_s \<Rightarrow> u64" where
  "file_off s td fj = func_value fj - of_int (elf_section_virt_base (ei_of s (dl_ei (dlm_of s td))) (ucast (shndx fj)))"

lemma upd_fj_cong: "f (fj_at s p i) = g (fj_at s p i) \<Longrightarrow> upd_fj p i f s = upd_fj p i g s"
  by (simp add: upd_fj_def upd_patch_def fj_at_def)

lemma upd_fj_world [simp]: "upd_fj p i f (s\<lparr>world := w\<rparr>) = (upd_fj p i f s)\<lparr>world := w\<rparr>"
  by (simp add: upd_fj_def upd_patch_def)

lemma file_off_frame [simp]:
  "file_off (s\<lparr>world := w\<rparr>) = file_off s" "file_off (upd_fj p i f s) = file_off s"
  by (simp_all add: file_off_def fun_eq_iff)

lemma file_off_jump [simp]: "file_off s td (fj\<lparr>func_addr := a, func_jump := j\<rparr>) = file_off s td fj"
  by (simp add: file_off_def)

lemma read_func_jump_code_file:
  assumes "file_ext x mem I path content" "I (world s)" "exec_vma (dlm_of s td) = Some ev"
    and "vmap_file (vma_of s ev) = Some path" "length (code (fj_at s p i)) = 8"
  shows "\<exists>w. read_func_jump_code x td p i s
      = Some (0, (upd_fj p i (\<lambda>fj. fj\<lparr>code := content (file_off s td fj)\<rparr>) s)\<lparr>world := w\<rparr>)
    \<and> mem w = mem (world s) \<and> I w"
proof -
  let ?off = "file_off s td (fj_at s p i)"
  obtain fd r w1 w2 w3 w4 where calls: "x_open x path (world s) = (Inr fd, w1)" "x_lseek x fd ?off w1 = (Inr ?off, w2)"
    "x_read x fd 8 w2 = (Inr (content ?off), w3)" "x_close x fd w3 = (r, w4)" "mem w4 = mem (world s)" "I w4"
    using assms(1,2) unfolding file_ext_def by metis
  have "length (content ?off) = 8" using assms(1) by (simp add: file_ext_def)
  with calls assms(3-5) show ?thesis
    by (intro exI[of _ w4])
      (auto simp: read_func_jump_code_def file_off_def[symmetric] sys_call_def ext_call_def Let_def intro!: arg_cong[of _ _ "\<lambda>u. u\<lparr>world := w4\<rparr>"] upd_fj_cong)
qed

section \<open>Tuning all jumps\<close>

definition tuned :: "'w pst \<Rightarrow> ptr \<Rightarrow> u64 \<Rightarrow> u64 \<Rightarrow> (u64 \<Rightarrow> byte list) \<Rightarrow> func_jump_s \<Rightarrow> func_jump_s" where
  "tuned s td tb pb content fj =
     (let distance = pb + patch_value fj - (tb + func_value fj + 5) in
      fj\<lparr>func_addr := tb + func_value fj,
         func_jump := 0xe9 # le_bytes 4 (ucast (ucast distance :: u32)) @ replicate 3 0x90,
         code := content (file_off s td fj)\<rparr>)"

text \<open>The jumps of a patch that have buffers of eight bytes and reach the patch.\<close>

definition jumps_fit :: "u64 \<Rightarrow> u64 \<Rightarrow> func_jump_s list \<Rightarrow> bool" where
  "jumps_fit tb pb fjs \<longleftrightarrow> (\<forall>fj \<in> set fjs. length (func_jump fj) = 8 \<and> length (code fj) = 8
     \<and> \<bar>sint (pb + patch_value fj - (tb + func_value fj + 5))\<bar> < 2 ^ 31)"

lemma tune_patch_func_jump_file:
  assumes "file_ext x mem I path content" "I (world s)" "exec_vma (dlm_of s td) = Some ev"
    and "vmap_file (vma_of s ev) = Some path" "i < length (jumps_of s p)" "jumps_fit tb pb [fj_at s p i]"
    and "target_dlm (patch_of s p) = Some td" "dlm_load_base s (dlm_of s td) = Some tb"
    and "patch_dlm (patch_of s p) = Some pd" "dlm_load_base s (dlm_of s pd) = Some pb"
  shows "\<exists>w. tune_patch_func_jump x p i s = Some (0, (upd_fj p i (tuned s td tb pb content) s)\<lparr>world := w\<rparr>)
    \<and> mem w = mem (world s) \<and> I w"
proof -
  let ?fj = "fj_at s p i"
  define j :: "byte list" where "j = 0xe9 # le_bytes 4 (ucast (ucast (pb + patch_value ?fj - (tb + func_value ?fj + 5)) :: u32)) @ replicate 3 0x90"
  let ?u = "upd_fj p i (\<lambda>fj. fj\<lparr>func_jump := j\<rparr>) (upd_fj p i (\<lambda>fj. fj\<lparr>func_addr := tb + func_value fj\<rparr>) s)"
  have "x86_jmpq_instruction (func_jump ?fj) (tb + func_value ?fj) (pb + patch_value ?fj) = Some (5, j)"
    using assms(6) by (simp add: jumps_fit_def x86_jmpq_instruction_eq j_def del: le_bytes.simps)
  then have tune: "tune_patch_func_jump x p i s = read_func_jump_code x td p i ?u"
    using assms(5,7-10) by (simp add: tune_patch_func_jump_def fj_at_upd)
  have "length (code (fj_at ?u p i)) = 8" using assms(5,6) by (simp add: upd_fj_upd_fj fj_at_upd jumps_fit_def)
  with read_func_jump_code_file[OF assms(1), of ?u td ev p i] assms(2-4) obtain w where
    w: "read_func_jump_code x td p i ?u
      = Some (0, (upd_fj p i (\<lambda>fj. fj\<lparr>code := content (file_off ?u td fj)\<rparr>) ?u)\<lparr>world := w\<rparr>)"
      "mem w = mem (world s)" "I w" by auto
  have "upd_fj p i (\<lambda>fj. fj\<lparr>code := content (file_off ?u td fj)\<rparr>) ?u = upd_fj p i (tuned s td tb pb content) s"
    unfolding upd_fj_upd_fj by (rule upd_fj_cong) (simp add: tuned_def Let_def j_def)
  with w tune show ?thesis by auto
qed


text \<open>The state when the first \<open>k\<close> jumps of the patch are tuned.\<close>

definition tuned_upto :: "(func_jump_s \<Rightarrow> func_jump_s) \<Rightarrow> ptr \<Rightarrow> nat \<Rightarrow> 'w pst \<Rightarrow> 'w pst" where
  "tuned_upto f p k s = upd_patch p (\<lambda>q. q\<lparr>pi := (pi q)\<lparr>func_jumps :=
     map f (take k (func_jumps (pi q))) @ drop k (func_jumps (pi q))\<rparr>\<rparr>) s"

lemma tuned_upto_0 [simp]: "tuned_upto f p 0 s = s"
  by (simp add: tuned_upto_def upd_patch_def)

lemma tuned_upto_Suc: "k < length (jumps_of s p) \<Longrightarrow> upd_fj p k f (tuned_upto f p k s) = tuned_upto f p (Suc k) s"
proof -
  assume "k < length (jumps_of s p)"
  then have "(map f (take k xs) @ drop k xs)[k := f ((map f (take k xs) @ drop k xs) ! k)]
      = map f (take (Suc k) xs) @ drop (Suc k) xs" if "xs = jumps_of s p" for xs
    using that by (simp add: nth_append take_Suc_conv_app_nth list_update_append Cons_nth_drop_Suc[symmetric])
  then show ?thesis by (simp add: upd_fj_def tuned_upto_def upd_patch_def jumps_of_def)
qed

lemma tuned_upto_sel [simp]:
  "process_context (tuned_upto f p k s) = process_context s" "world (tuned_upto f p k s) = world s"
  "errno (tuned_upto f p k s) = errno s" "vma_of (tuned_upto f p k s) = vma_of s" "dlm_of (tuned_upto f p k s) = dlm_of s"
  "ei_of (tuned_upto f p k s) = ei_of s" "target_dlm (patch_of (tuned_upto f p k s) q) = target_dlm (patch_of s q)"
  "patch_dlm (patch_of (tuned_upto f p k s) q) = patch_dlm (patch_of s q)"
  "dlm_load_base (tuned_upto f p k s) = dlm_load_base s" "file_off (tuned_upto f p k s) = file_off s"
  "length (jumps_of (tuned_upto f p k s) p) = length (jumps_of s p)"
  "tuned_upto f p k (s\<lparr>world := w\<rparr>) = (tuned_upto f p k s)\<lparr>world := w\<rparr>"
  by (auto simp: tuned_upto_def dlm_load_base_def file_off_def fun_eq_iff jumps_of_def upd_patch_def)

lemma tuned_frame [simp]: "tuned (s\<lparr>world := w\<rparr>) = tuned s" "tuned (tuned_upto f p k s) = tuned s"
  by (simp_all add: tuned_def fun_eq_iff)

lemma fj_at_tuned_upto: "k \<le> j \<Longrightarrow> j < length (jumps_of s p) \<Longrightarrow> fj_at (tuned_upto f p k s) p j = fj_at s p j"
  by (simp add: fj_at_def tuned_upto_def jumps_of_def nth_append)

lemma tune_loop_file:
  assumes "file_ext x mem I path content" "exec_vma (dlm_of s td) = Some ev"
    and "vmap_file (vma_of s ev) = Some path" "jumps_fit tb pb (jumps_of s p)"
    and "target_dlm (patch_of s p) = Some td" "dlm_load_base s (dlm_of s td) = Some tb"
    and "patch_dlm (patch_of s p) = Some pd" "dlm_load_base s (dlm_of s pd) = Some pb"
  defines "f \<equiv> tuned s td tb pb content" and "n \<equiv> length (jumps_of s p)"
  shows "I w \<Longrightarrow> k \<le> n \<Longrightarrow> \<exists>w'. iterate (tune_patch_func_jump x p) [k..<n] ((tuned_upto f p k s)\<lparr>world := w\<rparr>)
      = Some (0, (tuned_upto f p n s)\<lparr>world := w'\<rparr>) \<and> mem w' = mem w \<and> I w'"
proof (induction "n - k" arbitrary: k w)
  case 0
  then show ?case by (intro exI[of _ w]) simp
next
  case (Suc m)
  then have k: "k < n" "[k..<n] = k # [Suc k..<n]" by (simp_all add: upt_rec)
  let ?u = "(tuned_upto f p k s)\<lparr>world := w\<rparr>"
  have at: "fj_at ?u p k = fj_at s p k" using k(1) by (simp add: fj_at_tuned_upto n_def)
  have "fj_at s p k \<in> set (jumps_of s p)" using k(1) by (simp add: fj_at_def jumps_of_def n_def)
  then have "jumps_fit tb pb [fj_at ?u p k]" unfolding at using assms(4) by (simp add: jumps_fit_def)
  from tune_patch_func_jump_file[OF assms(1) _ _ _ _ this, of td ev pd] obtain w1 where
    w1: "tune_patch_func_jump x p k ?u = Some (0, (tuned_upto f p (Suc k) s)\<lparr>world := w1\<rparr>)" "mem w1 = mem w" "I w1"
    using assms Suc.prems(1) k(1) by (auto simp: tuned_upto_Suc)
  from Suc.hyps(1)[of "Suc k" w1] Suc.hyps(2) k(1) w1 show ?case by (auto simp: k(2))
qed

section \<open>All static references\<close>

definition ref_block :: "u64 \<Rightarrow> u64 \<Rightarrow> static_sym_s \<Rightarrow> block" where
  "ref_block tb pb ss = (pb + patch_address ss, le_bytes (unat (patch_size ss)) (target_value ss + tb - pb))"

definition refs_fit :: "u64 \<Rightarrow> u64 \<Rightarrow> static_sym_s list \<Rightarrow> bool" where
  "refs_fit tb pb sss \<longleftrightarrow> (\<forall>ss \<in> set sss. patch_size ss \<in> {4, 8}
     \<and> (patch_size ss = 4 \<longrightarrow> - (2 ^ 31) \<le> sint (target_value ss + tb - pb) \<and> sint (target_value ss + tb - pb) < 2 ^ 31))"

lemma static_refs_mem:
  assumes "memory_ext x mem" "ctx_patch (ctx s) = Some p" "refs_fit tb pb sss"
    and "target_dlm (patch_of s p) = Some td" "dlm_load_base s (dlm_of s td) = Some tb"
    and "patch_dlm (patch_of s p) = Some pd" "dlm_load_base s (dlm_of s pd) = Some pb"
  shows "\<exists>w'. iterate (apply_static_ref x) sss (s\<lparr>world := w\<rparr>) = Some (0, s\<lparr>world := w'\<rparr>)
    \<and> mem w' = writes (map (ref_block tb pb) sss) (mem w)"
  using assms(3)
proof (induction sss arbitrary: w)
  case Nil
  then show ?case by auto
next
  case (Cons ss sss)
  have "patch_size ss \<in> {4, 8}" using Cons.prems by (simp add: refs_fit_def)
  from apply_static_ref_cases[OF assms(1), of "s\<lparr>world := w\<rparr>" p td tb pd pb ss] this assms Cons.prems obtain w1 where
    w1: "apply_static_ref x ss (s\<lparr>world := w\<rparr>) = Some (0, s\<lparr>world := w1\<rparr>)"
    "mem w1 = mem_write (mem w) (fst (ref_block tb pb ss)) (snd (ref_block tb pb ss))"
    by (auto simp: refs_fit_def ref_block_def split: if_splits)
  moreover have "refs_fit tb pb sss" using Cons.prems by (simp add: refs_fit_def)
  ultimately show ?case using Cons.IH[of w1] by simp
qed

section \<open>From the loaded patch to the applied one\<close>

text \<open>What the calls of the program need of the world survives the writes to the target.\<close>

lemma write_data_keeps:
  assumes "file_ext x mem I path content" "I (world s)" "process_write_data x a bs s = (r, t)"
  shows "I (world t)"
proof -
  have "I (snd (x_poke x (ctx_pid (ctx s)) bs a (world s)))" using assms(1,2) by (simp add: file_ext_def)
  with assms(3) show ?thesis
    by (auto simp: process_write_data_def ext_call_def Let_def split: prod.splits if_splits)
qed

lemma apply_es_keeps:
  assumes "file_ext x mem I path content" "I (world s)" "apply_es x es s = Some (r, t)"
  shows "I (world t)"
  using assms(3) by (auto simp: apply_es_def split: bind_splits dest!: write_data_keeps[OF assms(1,2)])

lemma apply_static_ref_writes:
  assumes "memory_ext x mem" "apply_static_ref x ss s = Some (r, t)"
  shows "t = s \<or> (\<exists>a bs. process_write_data x a bs s = (r, t))"
  using assms(2)
  by (auto simp: apply_static_ref_def write_static_ref_def process_read_data_mem[OF assms(1)] Let_def
      split: bind_splits if_splits)

lemma apply_static_ref_keeps:
  assumes "file_ext x mem I path content" "memory_ext x mem" "I (world s)" "apply_static_ref x ss s = Some (r, t)"
  shows "I (world t)"
  using apply_static_ref_writes[OF assms(2,4)] write_data_keeps[OF assms(1,3)] assms(3) by blast

lemma apply_relocations_keeps:
  assumes "file_ext x mem I path content" "I (world s)" "apply_relocations x s = Some (r, t)"
  shows "I (world t)"
proof -
  have it: "I (world v)" if "iterate (apply_es x) ess u = Some (e, v)" "I (world u)" for ess u e v
    by (rule iter_core.iter_invariant[where I = "\<lambda>s. I (world s)", OF _ that(2,1)]) (rule apply_es_keeps[OF assms(1)])
  from assms(3) obtain p e u where "iterate (apply_es x) (rela_plt (patch_of s p)) s = Some (e, u)"
    and "if e \<noteq> 0 then (r, t) = (e, u) else iterate (apply_es x) (rela_dyn (patch_of u p)) u = Some (r, t)"
    by (auto simp: apply_relocations_def split: bind_splits if_splits)
  with it[OF _ assms(2)] it[of "rela_dyn (patch_of u p)" u r t] show ?thesis by (auto split: if_splits)
qed

lemma apply_static_refs_keeps:
  assumes "file_ext x mem I path content" "memory_ext x mem" "I (world s)" "apply_static_refs x s = Some (r, t)"
  shows "I (world t)"
proof -
  from assms(4) obtain sss where it: "iterate (apply_static_ref x) sss s = Some (r, t)"
    by (auto simp: apply_static_refs_def split: bind_splits)
  show ?thesis
    by (rule iter_core.iter_invariant[where I = "\<lambda>s. I (world s)", OF _ assms(3) it]) (rule apply_static_ref_keeps[OF assms(1,2)])
qed

text \<open>
  A patch \<open>p\<close> whose object \<open>pd\<close> is loaded at \<open>pb\<close>, for the object \<open>td\<close> at \<open>tb\<close>, with everything in it
  that has to be fixed up: symbols that were found in loaded objects, references and jumps
  that fit.
\<close>

definition loaded :: "'w pst \<Rightarrow> ptr \<Rightarrow> ptr \<Rightarrow> u64 \<Rightarrow> ptr \<Rightarrow> u64 \<Rightarrow> bool" where
  "loaded s p td tb pd pb \<longleftrightarrow> ctx_patch (ctx s) = Some p
     \<and> target_dlm (patch_of s p) = Some td \<and> dlm_load_base s (dlm_of s td) = Some tb
     \<and> patch_dlm (patch_of s p) = Some pd \<and> dlm_load_base s (dlm_of s pd) = Some pb
     \<and> (\<forall>es \<in> set (rela_plt (patch_of s p) @ rela_dyn (patch_of s p)). \<forall>d. es_dlm es = Some d \<longrightarrow> based s d)
     \<and> refs_fit tb pb (static_syms (pi (patch_of s p))) \<and> jumps_fit tb pb (jumps_of s p)"

text \<open>The blocks of the patch itself that are filled in.\<close>

definition own_blocks :: "'w pst \<Rightarrow> ptr \<Rightarrow> u64 \<Rightarrow> ptr \<Rightarrow> u64 \<Rightarrow> block list" where
  "own_blocks s p tb pd pb = map (slot s pd) (rela_plt (patch_of s p) @ rela_dyn (patch_of s p))
     @ map (ref_block tb pb) (static_syms (pi (patch_of s p)))"

abbreviation tuned_patch :: "'w pst \<Rightarrow> ptr \<Rightarrow> ptr \<Rightarrow> u64 \<Rightarrow> u64 \<Rightarrow> (u64 \<Rightarrow> byte list) \<Rightarrow> 'w pst" where
  "tuned_patch s p td tb pb content \<equiv> tuned_upto (tuned s td tb pb content) p (length (jumps_of s p)) s"

lemma jumps_of_tuned: "jumps_of (tuned_upto f p (length (jumps_of s p)) s) p = map f (jumps_of s p)"
  by (simp add: tuned_upto_def jumps_of_def)

lemma tune_func_jumps_file:
  assumes "file_ext x mem I path content" "I (world s)" "loaded s p td tb pd pb" "exec_vma (dlm_of s td) = Some ev"
    and "vmap_file (vma_of s ev) = Some path"
  shows "\<exists>w. tune_func_jumps x s = Some (0, (tuned_patch s p td tb pb content)\<lparr>world := w\<rparr>) \<and> mem w = mem (world s) \<and> I w"
proof -
  have l: "ctx_patch (ctx s) = Some p" "patch_dlm (patch_of s p) = Some pd" "dlm_load_base s (dlm_of s pd) = Some pb"
    using assms(3) by (simp_all add: loaded_def)
  have "\<exists>w. iterate (tune_patch_func_jump x p) [0..<length (jumps_of s p)] s
      = Some (0, (tuned_patch s p td tb pb content)\<lparr>world := w\<rparr>) \<and> mem w = mem (world s) \<and> I w"
    using tune_loop_file[OF assms(1,4,5), of tb pb p pd "world s" 0] assms(2,3) by (simp add: loaded_def)
  then obtain w where w: "iterate (tune_patch_func_jump x p) [0..<length (jumps_of s p)] s
      = Some (0, (tuned_patch s p td tb pb content)\<lparr>world := w\<rparr>)" "mem w = mem (world s)" "I w" by blast
  have "iterate (print_patch_func_jump p) xs ((tuned_patch s p td tb pb content)\<lparr>world := w\<rparr>)
      = Some (0, (tuned_patch s p td tb pb content)\<lparr>world := w\<rparr>)" for xs
    using l by (induction xs) (simp_all add: print_patch_func_jump_def)
  with w l(1) show ?thesis
    by (intro exI[of _ w]) (simp add: tune_func_jumps_def tune_patch_func_jumps_def iterate_patch_function_jumps_def flip: jumps_of_def)
qed

lemma apply_steps:
  assumes "memory_ext x mem" "file_ext x mem I path content" "I (world s)" "loaded s p td tb pd pb"
    and "exec_vma (dlm_of s td) = Some ev" "vmap_file (vma_of s ev) = Some path" "\<not> ctx_dry_run (ctx s)"
  defines "u \<equiv> tuned_patch s p td tb pb content"
  shows "\<exists>w1 w2 w3 w. apply_relocations x s = Some (0, s\<lparr>world := w1\<rparr>)
    \<and> apply_static_refs x (s\<lparr>world := w1\<rparr>) = Some (0, s\<lparr>world := w2\<rparr>)
    \<and> tune_func_jumps x (s\<lparr>world := w2\<rparr>) = Some (0, u\<lparr>world := w3\<rparr>)
    \<and> apply_func_jumps x (u\<lparr>world := w3\<rparr>) = Some (0, u\<lparr>world := w\<rparr>)
    \<and> mem w = writes (own_blocks s p tb pd pb @ blocks_of u p) (mem (world s))"
proof -
  let ?P = "patch_of s p"
  have l: "ctx_patch (ctx s) = Some p" "target_dlm ?P = Some td" "dlm_load_base s (dlm_of s td) = Some tb"
    "patch_dlm ?P = Some pd" "dlm_load_base s (dlm_of s pd) = Some pb" "refs_fit tb pb (static_syms (pi ?P))"
    "jumps_fit tb pb (jumps_of s p)"
    "\<forall>es \<in> set (rela_plt ?P @ rela_dyn ?P). \<forall>d. es_dlm es = Some d \<longrightarrow> based s d"
    using assms(4) by (simp_all add: loaded_def)
  obtain w1 where w1: "apply_relocations x s = Some (0, s\<lparr>world := w1\<rparr>)"
      "mem w1 = writes (map (slot s pd) (rela_plt ?P @ rela_dyn ?P)) (mem (world s))"
    using apply_relocations_mem[OF assms(1) l(1,4,2) _ l(8)] l(5) by (auto simp: based_def)
  have I1: "I w1" using apply_relocations_keeps[OF assms(2,3) w1(1)] by simp
  obtain w2 where w2: "apply_static_refs x (s\<lparr>world := w1\<rparr>) = Some (0, s\<lparr>world := w2\<rparr>)"
      "mem w2 = writes (map (ref_block tb pb) (static_syms (pi ?P))) (mem w1)"
    using static_refs_mem[OF assms(1) l(1,6,2-5), of w1] l(1) by (auto simp: apply_static_refs_def)
  have I2: "I w2" using apply_static_refs_keeps[OF assms(2,1) _ w2(1)] I1 by simp
  have "loaded (s\<lparr>world := w2\<rparr>) p td tb pd pb" using assms(4) by (simp add: loaded_def based_def)
  from tune_func_jumps_file[OF assms(2) _ this, of ev] I2 assms(5,6) obtain w3 where
    w3: "tune_func_jumps x (s\<lparr>world := w2\<rparr>) = Some (0, u\<lparr>world := w3\<rparr>)" "mem w3 = mem w2" by (auto simp: u_def)
  have len: "\<forall>fj \<in> set (jumps_of u p). length (func_jump fj) = 8"
    by (simp add: u_def jumps_of_tuned tuned_def Let_def)
  obtain w where w: "iterate (write_func_jump x p) [0..<length (jumps_of u p)] (u\<lparr>world := w3\<rparr>) = Some (0, u\<lparr>world := w\<rparr>)"
      "mem w = writes (blocks_of u p) (mem w3)"
    using apply_loop_mem[OF assms(1) _ _ _ len, of pd pb 0 w3] assms(7) l(4,5) by (auto simp: u_def)
  have "apply_func_jumps x (u\<lparr>world := w3\<rparr>) = Some (0, u\<lparr>world := w\<rparr>)"
    using w(1) l(1) by (simp add: apply_func_jumps_def iterate_patch_function_jumps_def u_def flip: jumps_of_def)
  with w1 w2 w3 w show ?thesis by (intro exI conjI) (auto simp: own_blocks_def writes_append)
qed

text \<open>
  C4: What applying a patch does to the target, from end to end. When the patch could be loaded
  and everything in it fits, \<open>apply_dyn_binpatch\<close> succeeds, and the memory of the target is the one
  after loading with exactly these blocks written, in this order: the slots of the relocations,
  the references to static variables, and for each function the jump to its replacement. Of
  the state of the patcher only the jumps of the patch changed: they hold the addresses, the
  jump instructions and the original code from the file of the target object.
\<close>

theorem binpatch_applied:
  assumes "memory_ext x mem" and "file_ext x mem I path content"
    and "load_patch x s = Some (0, s1)" and "I (world s1)" and "loaded s1 p td tb pd pb"
    and "exec_vma (dlm_of s1 td) = Some ev" and "vmap_file (vma_of s1 ev) = Some path" and "\<not> ctx_dry_run (ctx s1)"
  defines "u \<equiv> tuned_patch s1 p td tb pb content"
  shows "\<exists>w. apply_dyn_binpatch x s = Some (0, u\<lparr>world := w\<rparr>)
    \<and> mem w = writes (own_blocks s1 p tb pd pb @ blocks_of u p) (mem (world s1))"
  using apply_steps[OF assms(1,2,4-8)] assms(3) unfolding u_def apply_dyn_binpatch_def by auto

section \<open>Applying is a push\<close>

text \<open>Blocks that share no address.\<close>

definition disjoint_blocks :: "block \<Rightarrow> block \<Rightarrow> bool" where
  "disjoint_blocks b c \<longleftrightarrow> (\<forall>k. \<not> (unat (k - fst b) < length (snd b) \<and> unat (k - fst c) < length (snd c)))"

lemma apart_disjoint:
  assumes "apart n (fst b) (fst c)" "length (snd b) \<le> n" "length (snd c) \<le> n"
  shows "disjoint_blocks b c"
  unfolding disjoint_blocks_def
proof (intro allI notI)
  fix k assume k: "unat (k - fst b) < length (snd b) \<and> unat (k - fst c) < length (snd c)"
  have "fst c + of_nat (unat (k - fst c)) = k" by simp
  with apart_offset[OF assms(1), of "unat (k - fst c)"] k assms(2,3) show False by simp
qed

lemma write_disjoint:
  "disjoint_blocks b c \<Longrightarrow> mem_write (mem_write m (fst b) (snd b)) (fst c) (snd c)
     = mem_write (mem_write m (fst c) (snd c)) (fst b) (snd b)"
  by (auto simp: disjoint_blocks_def mem_write_def fun_eq_iff)

lemma writes_disjoint_one:
  "\<forall>c \<in> set cs. disjoint_blocks b c \<Longrightarrow> writes cs (mem_write m (fst b) (snd b)) = mem_write (writes cs m) (fst b) (snd b)"
  by (induction cs arbitrary: m) (simp_all add: write_disjoint)

lemma writes_disjoint:
  "\<forall>b \<in> set bs. \<forall>c \<in> set cs. disjoint_blocks b c \<Longrightarrow> writes cs (writes bs m) = writes bs (writes cs m)"
  by (induction bs arbitrary: m) (simp_all add: writes_disjoint_one)

lemma read_disjoint:
  assumes "\<forall>b \<in> set bs. disjoint_blocks b (a, d)" "length d = n" "n < 2 ^ 64"
  shows "mem_bytes (writes bs m) a n = mem_bytes m a n"
  using assms(1)
proof (induction bs arbitrary: m)
  case (Cons b bs)
  have "mem_bytes (mem_write m (fst b) (snd b)) a n = mem_bytes m a n"
  proof (rule nth_equalityI)
    fix i assume "i < length (mem_bytes (mem_write m (fst b) (snd b)) a n)"
    moreover have "\<not> (unat (a + of_nat i - fst b) < length (snd b) \<and> unat (a + of_nat i - a) < n)"
      using Cons.prems assms(2) by (auto simp: disjoint_blocks_def)
    ultimately show "mem_bytes (mem_write m (fst b) (snd b)) a n ! i = mem_bytes m a n ! i"
      using assms(3) by (simp add: mem_write_def unat_of_nat)
  qed simp
  with Cons show ?case by simp
qed simp

lemma stack_ok_own:
  assumes ok: "stack_ok s m ps" and own: "\<forall>b \<in> set bs. \<forall>c \<in> set (stack_of s ps). disjoint_blocks b c"
  shows "stack_ok s (writes bs m) ps"
proof -
  have "patch_ok s (writes bs m) p" if p: "p \<in> set ps" for p
  proof -
    have same: "mem_bytes (writes bs m) (func_addr fj) 8 = mem_bytes m (func_addr fj) 8" if "fj \<in> set (jumps_of s p)" for fj
    proof (rule read_disjoint)
      have c: "(func_addr fj, func_jump fj) \<in> set (stack_of s ps)"
        using p that by (auto simp: stack_of_def blocks_of_def jumps_of_def)
      with own show "\<forall>b \<in> set bs. disjoint_blocks b (func_addr fj, func_jump fj)" by blast
      from ok have "blocks_ok (stack_of s ps)" unfolding stack_ok_def by blast
      with c show "length (func_jump fj) = 8" unfolding blocks_ok_def by force
    qed simp
    from ok p have "patch_ok s m p" unfolding stack_ok_def by blast
    with same show ?thesis by (simp add: patch_ok_def)
  qed
  with ok show ?thesis unfolding stack_ok_def by blast
qed

lemma stack_of_tuned: "p \<notin> set qs \<Longrightarrow> stack_of (tuned_upto f p k s) qs = stack_of s qs"
  by (induction qs) (simp_all add: blocks_of_def tuned_upto_def)

lemma apply_push:
  assumes "memory_ext x mem" and "file_ext x mem I path content"
    and "load_patch x s = Some (0, s1)" and "I (world s1)" and "loaded s1 p td tb pd pb"
    and "exec_vma (dlm_of s1 td) = Some ev" and "vmap_file (vma_of s1 ev) = Some path" and "\<not> ctx_dry_run (ctx s1)"
    and "mem (world s1) = writes (stack_of s1 qs) m"
    and "stack_ok (tuned_patch s1 p td tb pb content) m (qs @ [p])"
    and "\<forall>b \<in> set (own_blocks s1 p tb pd pb). \<forall>c \<in> set (stack_of (tuned_patch s1 p td tb pb content) (qs @ [p])). disjoint_blocks b c"
  defines "m' \<equiv> writes (own_blocks s1 p tb pd pb) m"
  shows "\<exists>t. apply_dyn_binpatch x s = Some (0, t) \<and> ctx t = ctx s1
    \<and> stack_ok t m' (qs @ [p]) \<and> mem (world t) = writes (stack_of t (qs @ [p])) m' \<and> stack_of t qs = stack_of s1 qs"
proof -
  let ?u = "tuned_patch s1 p td tb pb content"
  obtain w where w: "apply_dyn_binpatch x s = Some (0, ?u\<lparr>world := w\<rparr>)"
      "mem w = writes (own_blocks s1 p tb pd pb @ blocks_of ?u p) (mem (world s1))"
    using apply_steps[OF assms(1,2,4-8)] assms(3) unfolding apply_dyn_binpatch_def by auto
  have "p \<notin> set qs" using assms(10) by (simp add: stack_ok_def)
  then have below: "stack_of ?u qs = stack_of s1 qs" by (rule stack_of_tuned)
  have "writes (own_blocks s1 p tb pd pb) (writes (stack_of s1 qs) m) = writes (stack_of s1 qs) m'"
    unfolding m'_def using assms(11) by (intro writes_disjoint[symmetric]) (simp add: below)
  then have "mem w = writes (stack_of ?u (qs @ [p])) m'" using w(2) assms(9) below by (simp add: writes_append)
  with w(1) stack_ok_own[OF assms(10,11)] show ?thesis
    by (intro exI[of _ "?u\<lparr>world := w\<rparr>"]) (simp add: m'_def below)
qed

text \<open>
  C5: On the stack of patches, applying is a push. Let the functions of the target be patched
  by \<open>qs\<close> over the original memory \<open>m\<close> when the new patch \<open>p\<close> is loaded, let the stack with \<open>p\<close> on top
  be in order, and let the slots and references of the patch lie apart from the patched
  functions. Then after \<open>apply_dyn_binpatch\<close> the memory is the one of the stack \<open>qs @ [p]\<close> over the
  original memory in which only the slots and references are filled, and the stack is in order
  over it, so that any of its patches can be reverted.
\<close>

theorem apply_refines_push:
  assumes "memory_ext x mem" and "file_ext x mem I path content"
    and "load_patch x s = Some (0, s1)" and "I (world s1)" and "loaded s1 p td tb pd pb"
    and "exec_vma (dlm_of s1 td) = Some ev" and "vmap_file (vma_of s1 ev) = Some path" and "\<not> ctx_dry_run (ctx s1)"
    and "mem (world s1) = writes (stack_of s1 qs) m"
    and "stack_ok (tuned_patch s1 p td tb pb content) m (qs @ [p])"
    and "\<forall>b \<in> set (own_blocks s1 p tb pd pb). \<forall>c \<in> set (stack_of (tuned_patch s1 p td tb pb content) (qs @ [p])). disjoint_blocks b c"
  defines "m' \<equiv> writes (own_blocks s1 p tb pd pb) m"
  shows "\<exists>t. apply_dyn_binpatch x s = Some (0, t) \<and> ctx t = ctx s1
    \<and> stack_ok t m' (qs @ [p]) \<and> mem (world t) = writes (stack_of t (qs @ [p])) m'"
  unfolding m'_def using apply_push[OF assms(1-11)] by blast

text \<open>
  C6: Applying a patch and reverting it again, from end to end: for a patch that is applied on
  top of others as above, reverting its jumps after \<open>apply_dyn_binpatch\<close> leaves the target as it was
  when the patch had just been loaded, but for the slots and references inside the patch. In
  particular every function is as it was, with the jumps of the patches below.
\<close>

theorem apply_then_revert:
  assumes "memory_ext x mem" and "file_ext x mem I path content"
    and "load_patch x s = Some (0, s1)" and "I (world s1)" and "loaded s1 p td tb pd pb"
    and "exec_vma (dlm_of s1 td) = Some ev" and "vmap_file (vma_of s1 ev) = Some path" and "\<not> ctx_dry_run (ctx s1)"
    and "mem (world s1) = writes (stack_of s1 qs) m" and "ctx_applied_patches (ctx s1) = qs @ [p]"
    and "stack_ok (tuned_patch s1 p td tb pb content) m (qs @ [p])"
    and "\<forall>b \<in> set (own_blocks s1 p tb pd pb). \<forall>c \<in> set (stack_of (tuned_patch s1 p td tb pb content) (qs @ [p])). disjoint_blocks b c"
  shows "\<exists>t w. apply_dyn_binpatch x s = Some (0, t) \<and> patch_revert_func_jumps x p t = Some (0, t\<lparr>world := w\<rparr>)
    \<and> mem w = writes (own_blocks s1 p tb pd pb) (mem (world s1))"
proof -
  let ?own = "own_blocks s1 p tb pd pb" and ?u = "tuned_patch s1 p td tb pb content"
  obtain t where t: "apply_dyn_binpatch x s = Some (0, t)" "ctx t = ctx s1" "stack_ok t (writes ?own m) (qs @ [p])"
      "mem (world t) = writes (stack_of t (qs @ [p])) (writes ?own m)" "stack_of t qs = stack_of s1 qs"
    using apply_push[OF assms(1-9,11,12)] by blast
  have "\<exists>w. patch_revert_func_jumps x p t = Some (0, t\<lparr>world := w\<rparr>) \<and> mem w = writes (stack_of t (qs @ [])) (writes ?own m)"
    using t(2-4) assms(8,10) by (intro patch_revert_stack[OF assms(1)]) simp_all
  moreover have "\<forall>b \<in> set ?own. \<forall>c \<in> set (stack_of s1 qs). disjoint_blocks b c"
    using assms(11,12) by (simp add: stack_of_tuned stack_ok_def)
  then have "writes (stack_of s1 qs) (writes ?own m) = writes ?own (mem (world s1))"
    unfolding assms(9) by (rule writes_disjoint)
  ultimately show ?thesis using t(1,5) by auto
qed

section \<open>Instances\<close>

text \<open>
  A process with one patch applied (number 2, to the function at 0x21000 of the object at
  0x20000), and a second patch of the same function with one slot and one reference.
\<close>

definition sim_apply :: "simw pst" where
  "sim_apply = sim_state\<lparr>
     vma_of := (\<lambda>p. sim_vma\<lparr>vaddr := 0x10000 * of_nat p, vlen := 0x8000, vmap_file := Some ''/bin/target''\<rparr>),
     dlm_of := (\<lambda>d. sim_dlm\<lparr>dl_vmas := [2], exec_vma := Some (if d = 0 then 2 else 6)\<rparr>),
     ei_of := (\<lambda>e. sim_ei\<lparr>ei_elf := sim_elf\<lparr>elf_getphdrnum := Some 1,
        gelf_getphdr := (\<lambda>i. Some \<lparr>p_type = 1, p_flags = 5, p_offset = 0, p_vaddr = 0, p_filesz = 0x2000\<rparr>),
        elf_getscn := (\<lambda>i. True), gelf_getshdr := (\<lambda>i. Some \<lparr>sh_name = 0,
          sh_addr = 0x1000, sh_offset = 0x1000, sh_size = 0x4000, sh_entsize = 0\<rparr>)\<rparr>\<rparr>),
     patch_of := (\<lambda>p. if p = 2 then sim_patch\<lparr>pi := sim_pi\<lparr>func_jumps := [sim_jump 0x21000 1]\<rparr>,
          target_dlm := Some 0, patch_dlm := Some 9\<rparr>
        else sim_patch\<lparr>pi := sim_pi\<lparr>func_jumps := [(sim_jump 0x11000 0)\<lparr>func_addr := 0\<rparr>],
          static_syms := [\<lparr>patch_size = 4, patch_address = 0x40, target_value = 0x100\<rparr>]\<rparr>,
          target_dlm := Some 0, rela_plt := [(sim_es 0)\<lparr>es_address := 0x730\<rparr>]\<rparr>),
     process_context := sim_ctx\<lparr>ctx_vmas := [1, 2, 4], ctx_patch := Some 3, ctx_patch_ei := Some 7, ctx_ctl := True,
        ctx_applied_patches := [2]\<rparr>,
     world := sim_world\<lparr>sim_files := (\<lambda>f. Some sim_elf), sim_data := replicate 8 0x90,
        sim_mem := mem_write (\<lambda>a. 0x90) 0x21000 [0xe9, 1, 0, 0, 0, 0x90, 0x90, 0x90]\<rparr>\<rparr>"

text \<open>The same process when the patch is loaded at 0x18000; its name was written to the remote area at 0.\<close>

definition sim_loaded :: "simw pst" where
  "sim_loaded = upd_patch 3 (\<lambda>q. q\<lparr>patch_dlm := Some 100\<rparr>) (sim_apply\<lparr>brk := 102,
     dlm_of := (dlm_of sim_apply)(100 := \<lparr>dl_path = Some ''p.so'', dl_vmas = [101], dl_ei = 7, exec_vma = Some 101\<rparr>),
     vma_of := (vma_of sim_apply)(101 := sim_vma\<lparr>vaddr := 0x18000, vlen := 0x2000, vflags := 0x12, vprot := 5,
       vmap_file := Some ''/bin/target''\<rparr>),
     world := (world sim_apply)\<lparr>sim_mem := mem_write (sim_mem (world sim_apply)) 0 (padded sim_ext (c_string ''p.so''))\<rparr>,
     process_context := (process_context sim_apply)\<lparr>ctx_applied_patches := [2, 3]\<rparr>\<rparr>)"

lemma length_sim_name: "length (padded sim_ext (c_string ''p.so'')) = 8"
  by (simp add: length_padded c_string_def)

lemma sim_apply_load: "load_patch sim_ext sim_apply = Some (0, sim_loaded)"
proof -
  have "sim_mem (world sim_loaded) = sim_write (sim_mem (world sim_apply)) 0 (padded sim_ext (c_string ''p.so''))"
    by (simp add: sim_loaded_def sim_write_eq length_sim_name)
  then show ?thesis
  by (simp add: sim_loaded_def length_sim_name load_patch_def alloc_dl_map_def xmalloc_def ext_call_def load_elf_def create_elf_mmaps_def upt_rec create_elf_vma_def
        add_dl_vma_sorted_def link_dl_vma_def elf_prot_def process_mmap_dl_map_def process_mmap_dlm_manual_def process_open_file_def
        process_do_open_file_def process_write_data_def process_syscall_def process_map_vma_def process_close_file_def
        pin_elf_mmaps_def sim_apply_def dl_map_end_def dl_map_start_def last_dl_vma_def first_dl_vma_def
        sim_dlm_def sim_vma_def vma_accessors sim_ctx_def sim_patch_def dl_map_jump_hint_def elf_type_dyn_def sim_ei_def sim_elf_def sim_world_def
        x86_jump_min_address_def x86_jump_max_address_def X86_64_JUMP_RANGE_def ELF_PAGESTART_def ELF_PAGEALIGN_def ELF_PAGEOFFSET_def
        process_find_place_for_elf_def iterate_vmas_def find_hole_def next_vma_def dl_map_check_jump_range_def
        iterate_dl_vmas_def pin_elf_mmap_def upd_vma_def upd_dlm_def upd_ctx_def upd_patch_def Let_def del: sim_write.simps)
qed

lemma sim_loaded_sel:
  "patch_of sim_loaded 3 = sim_patch\<lparr>pi := sim_pi\<lparr>func_jumps := [(sim_jump 0x11000 0)\<lparr>func_addr := 0\<rparr>],
      static_syms := [\<lparr>patch_size = 4, patch_address = 0x40, target_value = 0x100\<rparr>]\<rparr>,
      target_dlm := Some 0, rela_plt := [(sim_es 0)\<lparr>es_address := 0x730\<rparr>], patch_dlm := Some 100\<rparr>"
  "patch_of sim_loaded 2 = sim_patch\<lparr>pi := sim_pi\<lparr>func_jumps := [sim_jump 0x21000 1]\<rparr>, target_dlm := Some 0, patch_dlm := Some 9\<rparr>"
  "dlm_load_base sim_loaded (dlm_of sim_loaded 0) = Some 0x20000"
  "dlm_load_base sim_loaded (dlm_of sim_loaded 100) = Some 0x18000"
  "dlm_load_base sim_loaded (dlm_of sim_loaded 9) = Some 0x60000"
  "ctx_patch (ctx sim_loaded) = Some 3" "ctx_applied_patches (ctx sim_loaded) = [2] @ [3]" "\<not> ctx_dry_run (ctx sim_loaded)"
  "exec_vma (dlm_of sim_loaded 0) = Some 2" "vmap_file (vma_of sim_loaded 2) = Some ''/bin/target''"
  by (simp_all add: sim_loaded_def sim_apply_def sim_ctx_def sim_dlm_def sim_vma_def dlm_load_base_def elf_type_dyn_def
      sim_ei_def vma_accessors)

lemma sim_loaded_loaded: "loaded sim_loaded 3 0 0x20000 100 0x18000"
  by (simp add: loaded_def sim_loaded_sel jumps_of_def jumps_fit_def refs_fit_def sim_jump_def sim_es_def sim_patch_def sim_pi_def)

definition sim_readable :: "simw \<Rightarrow> bool" where
  "sim_readable w \<longleftrightarrow> sim_files w ''/bin/target'' \<noteq> None \<and> sim_data w = replicate 8 0x90"

lemma sim_file_ext: "file_ext sim_ext sim_mem sim_readable ''/bin/target'' (\<lambda>off. replicate 8 0x90)"
  by (simp add: file_ext_def sim_readable_def sim_ext_def)

lemma sim_loaded_readable: "sim_readable (world sim_loaded)"
  by (simp add: sim_readable_def sim_loaded_def sim_apply_def)

lemma read_written_8: "length bs = 8 \<Longrightarrow> mem_bytes (mem_write m a bs) a 8 = bs"
  using read_written[of bs m a] by simp

theorem binpatch_applied_witness:
  "\<exists>t. apply_dyn_binpatch sim_ext sim_apply = Some (0, t)
     \<and> mem_bytes (sim_mem (world t)) 0x21000 8 = [0xe9, 0x1b, 0x70, 0xff, 0xff, 0x90, 0x90, 0x90]"
proof -
  let ?u = "tuned_patch sim_loaded 3 0 0x20000 0x18000 (\<lambda>off. replicate 8 0x90)"
  obtain w where w: "apply_dyn_binpatch sim_ext sim_apply = Some (0, ?u\<lparr>world := w\<rparr>)"
    "sim_mem w = writes (own_blocks sim_loaded 3 0x20000 100 0x18000 @ blocks_of ?u 3) (sim_mem (world sim_loaded))"
    using binpatch_applied[OF sim_memory_ext sim_file_ext sim_apply_load sim_loaded_readable sim_loaded_loaded sim_loaded_sel(9,10,8)]
    by blast
  have b: "blocks_of ?u 3 = [(0x21000, [0xe9, 0x1b, 0x70, 0xff, 0xff, 0x90, 0x90, 0x90])]"
    by (simp add: blocks_of_def flip: jumps_of_def) (simp add: jumps_of_tuned, simp add: jumps_of_def sim_loaded_sel tuned_def sim_jump_def Let_def byte_eval)
  have "mem_bytes (sim_mem w) 0x21000 8 = [0xe9, 0x1b, 0x70, 0xff, 0xff, 0x90, 0x90, 0x90]"
    unfolding w(2) b writes_append by (simp add: read_written_8)
  with w(1) show ?thesis by (intro exI[of _ "?u\<lparr>world := w\<rparr>"]) simp
qed

text \<open>The memory of the process before any patch, and the stack of patches over it.\<close>

definition sim_orig :: "u64 \<Rightarrow> byte" where
  "sim_orig = mem_write (\<lambda>a. 0x90) 0 (padded sim_ext (c_string ''p.so''))"

abbreviation sim_tuned :: "simw pst" where
  "sim_tuned \<equiv> tuned_patch sim_loaded 3 0 0x20000 0x18000 (\<lambda>off. replicate 8 0x90)"

lemma sim_tuned_jumps:
  "jumps_of sim_tuned 3 = [(sim_jump 0x11000 0)\<lparr>func_addr := 0x21000, func_jump := [0xe9, 0x1b, 0x70, 0xff, 0xff, 0x90, 0x90, 0x90]\<rparr>]"
  "jumps_of sim_tuned 2 = [sim_jump 0x21000 1]"
  by (simp_all add: jumps_of_tuned, simp_all add: tuned_upto_def jumps_of_def sim_loaded_sel tuned_def sim_jump_def Let_def byte_eval)

lemma sim_tuned_stack:
  "stack_of sim_tuned ([2] @ [3]) = [(0x21000, [0xe9, 1, 0, 0, 0, 0x90, 0x90, 0x90]), (0x21000, [0xe9, 0x1b, 0x70, 0xff, 0xff, 0x90, 0x90, 0x90])]"
  by (simp add: blocks_of_def flip: jumps_of_def) (simp add: sim_tuned_jumps, simp add: sim_jump_def)

lemma sim_loaded_mem: "sim_mem (world sim_loaded) = writes (stack_of sim_loaded [2]) sim_orig"
proof -
  let ?j = "[0xe9, 1, 0, 0, 0, 0x90, 0x90, 0x90] :: byte list" and ?n = "padded sim_ext (c_string ''p.so'')"
  have "stack_of sim_loaded [2] = [(0x21000, ?j)]" by (simp add: blocks_of_def sim_loaded_sel sim_jump_def)
  then show ?thesis using write_commute[of 8 "0x21000" 0 ?j ?n "\<lambda>a. 0x90"]
    by (simp add: sim_orig_def sim_loaded_def sim_apply_def length_sim_name apart_def)
qed

lemma sim_tuned_ok: "stack_ok sim_tuned sim_orig ([2] @ [3])"
proof -
  have r: "mem_bytes sim_orig 0x21000 8 = replicate 8 0x90"
    unfolding sim_orig_def using read_apart[of 8 0 "0x21000" "padded sim_ext (c_string ''p.so'')" "\<lambda>a. 0x90"]
    by (simp add: length_sim_name apart_def mem_bytes_def map_replicate_const)
  show ?thesis unfolding stack_ok_def sim_tuned_stack
    by (simp add: blocks_ok_def patch_ok_def sim_tuned_jumps r, simp add: sim_jump_def sim_loaded_sel r)
qed

lemma sim_own_blocks:
  "own_blocks sim_loaded 3 0x20000 100 0x18000 = [(0x1b018, le_bytes 8 0x18730), (0x18040, le_bytes 4 0x8100)]"
  by (simp add: own_blocks_def slot_def ref_block_def sim_loaded_sel sim_es_def es_r_offset_def sim_patch_def sim_pi_def del: le_bytes.simps)

lemma sim_own_apart:
  "\<forall>b \<in> set (own_blocks sim_loaded 3 0x20000 100 0x18000). \<forall>c \<in> set (stack_of sim_tuned ([2] @ [3])). disjoint_blocks b c"
  unfolding sim_own_blocks sim_tuned_stack by (auto intro!: apart_disjoint[of 8] simp: apart_def simp del: le_bytes.simps)

theorem apply_refines_push_witness:
  "\<exists>t m'. apply_dyn_binpatch sim_ext sim_apply = Some (0, t) \<and> ctx_applied_patches (ctx t) = [2, 3]
     \<and> stack_ok t m' [2, 3] \<and> sim_mem (world t) = writes (stack_of t [2, 3]) m'"
  using apply_refines_push[OF sim_memory_ext sim_file_ext sim_apply_load sim_loaded_readable sim_loaded_loaded
      sim_loaded_sel(9,10,8) sim_loaded_mem sim_tuned_ok sim_own_apart] sim_loaded_sel(7)
  by fastforce

theorem apply_then_revert_witness:
  "\<exists>t w. apply_dyn_binpatch sim_ext sim_apply = Some (0, t) \<and> patch_revert_func_jumps sim_ext 3 t = Some (0, t\<lparr>world := w\<rparr>)
     \<and> sim_mem w = writes [(0x1b018, le_bytes 8 0x18730), (0x18040, le_bytes 4 0x8100)] (sim_mem (world sim_loaded))"
  using apply_then_revert[OF sim_memory_ext sim_file_ext sim_apply_load sim_loaded_readable sim_loaded_loaded
      sim_loaded_sel(9,10,8) sim_loaded_mem sim_loaded_sel(7) sim_tuned_ok sim_own_apart]
  unfolding sim_own_blocks .

end
