(* ===== verification/Safe_Stop.thy ===== *)
theory Safe_Stop
  imports Inspection
begin

text \<open>
  Nothing of the target changes before it is stopped at a safe point. \<open>watches x I\<close> adds to the
  calls that only look those with which a process is stopped: listing its threads, stopping and
  resuming them, pausing, and unwinding their stacks. These change the list of threads, so
  only \<open>quiet\<close>, the part of \<open>still\<close> about the world, is kept.
\<close>

definition watches :: "'w ext \<Rightarrow> ('w \<Rightarrow> bool) \<Rightarrow> bool" where
  "watches x I \<longleftrightarrow> looks x I \<and> (\<forall>w. I w \<longrightarrow> (\<forall>path. I (snd (x_readdir x path w)))
     \<and> (\<forall>pid. I (snd (x_stop_task x pid w))) \<and> (\<forall>pid. I (snd (x_resume_task x pid w)))
     \<and> (\<forall>n. I (x_usleep x n w)) \<and> (\<forall>pid. I (snd (x_unw_init x pid w))))"

definition quiet :: "('w \<Rightarrow> bool) \<Rightarrow> 'w pst \<Rightarrow> 'w pst \<Rightarrow> bool" where
  "quiet I s t \<longleftrightarrow> (I (world s) \<longrightarrow> I (world t))"

interpretation quiet: state_frame "quiet I" for I
  by unfold_locales (auto simp: quiet_def)

lemma quiet_upd [simp]:
  "quiet I s (upd_ctx c t) = quiet I s t" "quiet I s (t\<lparr>errno := n\<rparr>) = quiet I s t" "quiet I (upd_ctx c s) t = quiet I s t"
  by (simp_all add: quiet_def)

lemma still_quiet: "still I s t \<Longrightarrow> quiet I s t"
  by (simp add: still_def quiet_def)

lemmas quiet_ext_call = still_ext_call[THEN still_quiet]
lemmas quiet_sys_call = still_sys_call[THEN still_quiet]
lemmas quiet_calls = still_calls[THEN still_quiet]
lemmas init_context_quiet = init_context_still[THEN still_quiet]

lemma watch_calls:
  assumes "watches x I"
  shows "sys_call (x_readdir x path) s = (r, t) \<Longrightarrow> quiet I s t"
    and "ext_call (x_stop_task x pid) s = (r1, t) \<Longrightarrow> quiet I s t"
    and "ext_call (x_resume_task x pid) s = (r2, t) \<Longrightarrow> quiet I s t"
    and "ext_call (x_unw_init x pid) s = (r3, t) \<Longrightarrow> quiet I s t"
    and "quiet I s (s\<lparr>world := x_usleep x n (world s)\<rparr>)"
  using assms by (auto simp: watches_def intro: quiet_ext_call quiet_sys_call) (simp add: quiet_def)

lemma watches_looks: "watches x I \<Longrightarrow> looks x I"
  by (simp add: watches_def)

section \<open>Threads\<close>

lemma cure_threads_quiet:
  assumes "watches x I"
  shows "cure_threads x ts s = (r, u) \<Longrightarrow> quiet I s u"
proof (induction ts arbitrary: s)
  case (Cons t ts)
  obtain r1 s1 where 1: "task_cure x t s = (r1, s1)" by fastforce
  then have "quiet I s s1"
    by (auto simp: task_cure_def quiet.frame_refl split: if_splits prod.splits dest!: watch_calls(3)[OF assms])
  with Cons 1 show ?case by (auto split: if_splits intro: quiet.frame_trans)
qed (simp add: quiet.frame_refl)

lemma process_cure_quiet:
  assumes "watches x I"
  shows "process_cure_threads x s = (r, u) \<Longrightarrow> quiet I s u"
  by (auto simp: process_cure_threads_def split: prod.splits dest!: cure_threads_quiet[OF assms])

lemma infect_threads_quiet:
  assumes "watches x I"
  shows "infect_threads x ts s = (r, u) \<Longrightarrow> quiet I s u"
proof (induction ts arbitrary: s r u)
  case (Cons t ts)
  obtain r1 s1 where 1: "task_infect x t s = (r1, s1)" by fastforce
  then have q: "quiet I s s1"
    by (auto simp: task_infect_def Let_def split: prod.splits if_splits dest!: watch_calls(2)[OF assms])
  obtain r2 s2 where 2: "infect_threads x ts s1 = (r2, s2)" by fastforce
  from Cons.prems 1 2 have "u = s1 \<or> u = s2" by (auto split: prod.splits if_splits)
  with q Cons.IH[OF 2] show ?case by (auto intro: quiet.frame_trans)
qed (simp add: quiet.frame_refl)

lemma process_collect_threads_quiet:
  assumes "watches x I"
  shows "process_collect_threads x s = Some (r, t) \<Longrightarrow> quiet I s t"
proof -
  have act: "collect_thread x d s = Some (r, t) \<Longrightarrow> quiet I s t" for d s r t
    by (auto simp: collect_thread_def Let_def quiet.frame_refl split: if_splits prod.splits option.splits
        dest!: quiet_calls(1)[OF watches_looks[OF assms]])
  have it: "iter_dentries (collect_thread x) ds fin dirent u = Some (r, d, t) \<Longrightarrow> quiet I u t" for ds fin dirent u r d t
    by (rule quiet.dentry_loop_frame[OF act])
  show "process_collect_threads x s = Some (r, t) \<Longrightarrow> quiet I s t"
    by (auto simp: process_collect_threads_def iterate_dir_name_def iter_dentry_def split: prod.splits option.splits bind_splits
        dest!: watch_calls(1)[OF assms] it) (auto simp: quiet_def)
qed

lemma infect_loop_quiet:
  assumes "watches x I" "infect_loop x s = Some r"
  shows "quiet I s (snd r)"
proof -
  have "watches x I \<longrightarrow> quiet I s (snd r)"
  proof (rule infect_loop.raw_induct[where P = "\<lambda>x s r. watches x I \<longrightarrow> quiet I s (snd r)" and xa = "(x, s)" and y = r,
        unfolded prod.case, OF _ assms(2)], intro impI)
    fix loop :: "'a ext \<Rightarrow> 'a pst \<Rightarrow> (int \<times> 'a pst) option" and x s r
    assume IH: "\<And>x s r. loop x s = Some r \<Longrightarrow> watches x I \<longrightarrow> quiet I s (snd r)"
      and step: "do {
         (err, s) \<leftarrow> process_collect_threads x s;
         if err \<noteq> 0 then Some (err, s)
         else if \<not> process_needs_seize s then Some (0, s)
         else case process_infect_threads x s of
                (err, s) \<Rightarrow> if err \<noteq> 0 then Some (err, s) else loop x s } = Some r"
      and w: "watches x I"
    show "quiet I s (snd r)" using step
      by (auto simp: process_infect_threads_def split: bind_splits if_splits prod.splits
          dest!: process_collect_threads_quiet[OF w] infect_threads_quiet[OF w] mp[OF IH w]) (auto simp: quiet_def)
  qed
  with assms(1) show ?thesis by blast
qed

lemma process_infect_quiet:
  assumes "watches x I"
  shows "process_infect x s = Some (e, t) \<Longrightarrow> quiet I s t"
  by (auto simp: process_infect_def split: bind_splits if_splits prod.splits
      dest!: infect_loop_quiet[OF assms] process_cure_quiet[OF assms]) (auto simp: quiet_def)

section \<open>Stacks\<close>

lemma do_backtrace_quiet:
  assumes "watches x I"
  shows "do_backtrace x cursor n cs s = (r, t) \<Longrightarrow> quiet I s t"
proof (induction "MAX_DEPTH + 1 - length cs" arbitrary: n cs s rule: less_induct)
  case less
  have cf: "create_frame x ip sp sg nm s = (c, u) \<Longrightarrow> quiet I s u" for ip sp sg nm c u
    by (auto simp: create_frame_def Let_def split: prod.splits option.splits if_splits
        dest!: quiet_calls(1)[OF watches_looks[OF assms]]) (auto simp: quiet_def)
  have IH: "quiet I u t" if "do_backtrace x cursor (Suc n) (cs @ [bf]) u = (r, t)" "\<not> MAX_DEPTH < length cs" for bf u
    using less.hyps[of "cs @ [bf]" "Suc n" u] that by simp
  show ?case using less.prems
    by (subst (asm) do_backtrace.simps)
      (auto simp: Let_def quiet.frame_refl split: if_splits prod.splits option.splits dest!: cf intro: quiet.frame_trans IH)
qed

lemma pid_backtrace_quiet:
  assumes "watches x I"
  shows "pid_backtrace x pid s = (r, t) \<Longrightarrow> quiet I s t"
  by (auto simp: pid_backtrace_def split: prod.splits option.splits if_splits
      dest!: quiet_calls(1)[OF watches_looks[OF assms]] watch_calls(4)[OF assms] do_backtrace_quiet[OF assms])
    (auto simp: quiet_def)

lemma check_backtrace_quiet: "check_backtrace f bt start fin s = Some (e, t) \<Longrightarrow> quiet I s t"
proof -
  have "jump_check_backtrace bt start p i s = Some (e, t) \<Longrightarrow> quiet I s t" for p i s e t
    by (simp add: jump_check_backtrace_def quiet_def)
  from quiet.iterate_frame[OF this] show "check_backtrace f bt start fin s = Some (e, t) \<Longrightarrow> quiet I s t"
    by (cases f) (auto simp: check_backtrace_def jumps_check_backtrace_def patch_check_backtrace_def
        iterate_patch_function_jumps_def quiet.frame_refl split: bind_splits)
qed

lemma process_check_stack_quiet:
  assumes "watches x I"
  shows "process_check_stack x start fin s = Some (e, t) \<Longrightarrow> quiet I s t"
proof -
  have "task_check_stack x start fin th s = Some (e, t) \<Longrightarrow> quiet I s t" for th s e t
    by (auto simp: task_check_stack_def split: prod.splits if_splits
        dest!: pid_backtrace_quiet[OF assms] check_backtrace_quiet[where I = I] intro: quiet.frame_trans)
  from quiet.iterate_frame[OF this] show "process_check_stack x start fin s = Some (e, t) \<Longrightarrow> quiet I s t"
    by (simp add: process_check_stack_def)
qed

section \<open>Stopping\<close>

lemma compare_target_bid_still:
  assumes "looks x I"
  shows "compare_target_bid x bid pid vma sd = Some (e, td) \<Longrightarrow> still I (fst sd) (fst td)"
proof -
  have des: "still I s u \<Longrightarrow> still I s (elf_destroy_info x ei u)" for s u ei
    by (rule still.frame_trans[OF _ elf_destroy_info_still[OF assms]])
  show "compare_target_bid x bid pid vma sd = Some (e, td) \<Longrightarrow> still I (fst sd) (fst td)"
    by (auto simp: compare_target_bid_def Let_def still.frame_refl split: prod.splits if_splits bind_splits
        intro!: des dest!: still_calls(3)[OF assms] is_elf_file_still[OF assms] elf_create_info_still[OF assms])
      (auto simp: still_def)
qed

lemma process_get_target_info_quiet:
  assumes "looks x I"
  shows "process_get_target_info x pid bid s = Some (e, t, ti) \<Longrightarrow> quiet I s t"
proof -
  have "quiet I (fst sd) (fst td)" if "iter_map_files x pid (compare_target_bid x bid) sd = Some (e, td)" for sd e td
    by (rule still_quiet[OF iter_map_files_still[OF assms compare_target_bid_still[OF assms] that]])
  from this[of "(_, _)"] show "process_get_target_info x pid bid s = Some (e, t, ti) \<Longrightarrow> quiet I s t"
    by (auto simp: process_get_target_info_def split: bind_splits if_splits)
qed

lemma process_catch_quiet:
  assumes "watches x I"
  shows "process_catch x bid s = Some (e, t) \<Longrightarrow> quiet I s t"
  by (auto simp: process_catch_def process_cure_def split: bind_splits if_splits prod.splits
      dest!: process_infect_quiet[OF assms] process_get_target_info_quiet[OF watches_looks[OF assms]] process_check_stack_quiet[OF assms]
        process_cure_quiet[OF assms]) (auto simp: quiet_def)

lemma suspend_loop_quiet:
  assumes "watches x I"
  shows "suspend_loop x bid tried left tmo s = Some (e, t) \<Longrightarrow> quiet I s t"
proof (induction "left" arbitrary: tried tmo s)
  case (Suc "left")
  define s1 where "s1 = (if tried \<noteq> 0 then s\<lparr>world := x_usleep x (unat (tmo * 1000)) (world s)\<rparr> else s)"
  have s1: "quiet I s s1" using watch_calls(5)[OF assms, of s] by (simp add: s1_def quiet.frame_refl)
  obtain r u where c: "process_catch x bid s1 = Some (r, u)"
    and rest: "t = u \<or> suspend_loop x bid (tried + 1) left (if tried \<noteq> 0 then increase_timeout tmo else tmo) u = Some (e, t)"
    using Suc.prems unfolding suspend_loop.simps Let_def s1_def[symmetric]
    by (cases "process_catch x bid s1") (auto split: if_splits)
  have "quiet I s u" by (rule quiet.frame_trans[OF s1 process_catch_quiet[OF assms c]])
  with rest Suc.IH show ?case by (auto intro: quiet.frame_trans)
qed (simp add: quiet.frame_refl)

section \<open>The commands that change a process\<close>

lemma suspended_safely:
  assumes "watches x I" "stop_task_errno x" "open_errno x" "I (world s)" "ctx_threads (ctx s) = []"
    "process_suspend x bid s = Some (e, u)"
  shows "I (world u) \<and> (e = 0 \<longrightarrow> safely_stopped x bid s u)"
proof -
  have l: "suspend_loop x bid 0 25 1 s = Some (e, u)" using assms(6) by (simp add: process_suspend_def)
  with assms process_suspend_stops[of x bid s u] suspend_loop_quiet[OF assms(1) l] show ?thesis by (auto simp: quiet_def)
qed

lemma init_context_threads: "init_context x pid f d s = Some (0, t) \<Longrightarrow> ctx_threads (ctx t) = ctx_threads (ctx s)"
proof -
  have "create_patch x ei u = (r, v) \<Longrightarrow> ctx v = ctx u" for ei u r v
    by (auto simp: create_patch_def Let_def alloc_frame_def split: prod.splits option.splits if_splits
        dest!: xmalloc_alloc elf_info_binpatch_alloc)
  then show "init_context x pid f d s = Some (0, t) \<Longrightarrow> ctx_threads (ctx t) = ctx_threads (ctx s)"
    by (auto simp: init_context_def init_patch_def ei_fresh_def split: bind_splits if_splits prod.splits
        dest!: elf_create_info_fresh)
qed

lemma process_cease_stops:
  assumes "process_cease x bid s = Some (e, t)" "\<not> (e \<noteq> 0 \<and> I (world t))"
    "watches x I" "stop_task_errno x" "open_errno x" "I (world s)" "ctx_threads (ctx s) = []"
  shows "\<exists>u. process_suspend x bid s = Some (0, u) \<and> I (world u) \<and> safely_stopped x bid s u"
  using assms(1,2) by (auto simp: process_cease_def split: bind_splits if_splits dest: suspended_safely[OF assms(3-7)])

text \<open>
  The stop with which a command begins, for the check and the build ID it uses: the process is
  suspended, with \<open>I\<close> true before and after, at a moment that the check finds safe.
\<close>

definition stopped_first ::
    "'w ext \<Rightarrow> ('w \<Rightarrow> bool) \<Rightarrow> check_backtrace_t \<Rightarrow> (patch_info_s \<Rightarrow> string) \<Rightarrow> 'w pst \<Rightarrow> bool" where
  "stopped_first x I check bid s \<longleftrightarrow> (\<exists>p u. ctx_patch (ctx s) = Some p \<and>
     (let b = bid (pi (patch_of s p)); s = upd_ctx (\<lambda>c. c\<lparr>ctx_check_backtrace := check\<rparr>) s
      in process_suspend x b s = Some (0, u) \<and> I (world u) \<and> safely_stopped x b s u))"

text \<open>
  C2: Nothing of the target changes before it is stopped at a safe point. Let \<open>I\<close> be kept by
  reading the process and by stopping, resuming and unwinding its threads, such as the contents
  of its memory. If patching or reverting ends with \<open>I\<close> broken, then the process was stopped
  first, with \<open>I\<close> still true: threads were found, all of them seized, then the first area was
  looked up whose file has the Build ID of the target (patching) or of the patch itself
  (reverting), and then the stack of each thread was unwound and found to have no signal frame and no frame strictly inside a
  function to be replaced, at its address in that object (patching), or no signal frame and no frame in that
  area of the patch (reverting, for a position-independent patch). So a process that cannot be stopped safely is left as it was.
\<close>

theorem changes_need_safe_stop:
  assumes "watches x I" and "stop_task_errno x" and "open_errno x" and "I (world s)" and "ctx_threads (ctx s) = []"
  shows "(case patch_process x pid patchfile dry_run no_plugin s of None \<Rightarrow> True
     | Some (ret, t) \<Rightarrow> I (world t) \<or> (\<exists>s1. init_context x pid patchfile dry_run s = Some (0, s1)
                                      \<and> stopped_first x I Jumps_check_backtrace target_bid s1))
    \<and> (case unpatch_process x pid patchfile dry_run s of None \<Rightarrow> True
     | Some (ret, t) \<Rightarrow> I (world t) \<or> (\<exists>s1. init_context x pid patchfile dry_run s = Some (0, s1)
                                      \<and> stopped_first x I Patch_check_backtrace patch_bid s1))"
proof -
  have init: "I (world s1)" if "init_context x pid patchfile dry_run s = Some (e, s1)" for e s1
    using init_context_quiet[OF watches_looks[OF assms(1)] that] assms(4) by (simp add: quiet_def)
  have thr: "ctx_threads (ctx s1) = []" if "init_context x pid patchfile dry_run s = Some (0, s1)" for s1
    using init_context_threads[OF that] assms(5) by simp
  have cease: "stopped_first x I check bid s1" if "init_context x pid patchfile dry_run s = Some (0, s1)" "ctx_patch (ctx s1) = Some p"
      "process_cease x (bid (pi (patch_of s1 p))) (upd_ctx (\<lambda>c. c\<lparr>ctx_check_backtrace := check\<rparr>) s1) = Some (e, t)"
      "e = 0 \<or> \<not> I (world t)" for s1 p e t check bid
    using process_cease_stops[OF that(3) _ assms(1-3)] init[OF that(1)] thr[OF that(1)] that(2,4)
    by (auto simp: stopped_first_def Let_def)
  have "I (world t) \<or> (\<exists>s1. init_context x pid patchfile dry_run s = Some (0, s1) \<and> stopped_first x I Jumps_check_backtrace target_bid s1)"
    if "patch_process x pid patchfile dry_run no_plugin s = Some (ret, t)" for ret t
    using that cease[where check = Jumps_check_backtrace and bid = target_bid] init
    by (auto simp: patch_process_def Let_def split: bind_splits if_splits) blast+
  moreover have "I (world t) \<or> (\<exists>s1. init_context x pid patchfile dry_run s = Some (0, s1) \<and> stopped_first x I Patch_check_backtrace patch_bid s1)"
    if "unpatch_process x pid patchfile dry_run s = Some (ret, t)" for ret t
    using that cease[where check = Patch_check_backtrace and bid = patch_bid] init
    by (auto simp: unpatch_process_def Let_def split: bind_splits if_splits) blast+
  ultimately show ?thesis by (auto split: option.splits)
qed

definition stop_ext :: "simw ext" where
  "stop_ext = coll_ext\<lparr>x_unpack := (\<lambda>bs. Some (sim_bp\<lparr>old_bid := ''ab01''\<rparr>)),
     x_prepare := (\<lambda>pid w. (False, w\<lparr>sim_sent := [[1]]\<rparr>))\<rparr>"

definition stop_start :: "simw pst" where
  "stop_start = coll_start\<lparr>world := (world coll_start)\<lparr>sim_tasks := [''.'', ''..'', ''10''], sim_frames := sim_stack\<rparr>\<rparr>"

lemma suspend_once: "process_suspend x bid s = do { (ret, s) \<leftarrow> process_catch x bid s;
   if ret \<noteq> - EAGAIN then Some (ret, s) else suspend_loop x bid (0 + 1) 24 1 s }"
proof -
  have "process_suspend x bid s = suspend_loop x bid 0 (Suc 24) 1 s" by (simp add: process_suspend_def)
  then show ?thesis unfolding suspend_loop.simps by (simp add: Let_def)
qed

lemmas catch_eval = process_catch_def process_infect_def infect_loop.simps process_collect_threads_def
  iterate_dir_name_eq iterate_dir_name_def iter_dentry_def process_needs_seize_def process_infect_threads_def
  collect_thread_def task_infect_def atoi_eval process_get_target_info_def iter_map_files_def compare_target_bid_def parse_sim_line
  libc_text_def process_check_stack_def task_check_stack_def pid_backtrace_def do_backtrace.simps create_frame_def
  check_backtrace_def jumps_check_backtrace_def iterate_patch_function_jumps_def jump_check_backtrace_def
  fj_at_def backtrace_check_func_def sim_stack_def MAX_DEPTH_def vma_accessors elf_destroy_info_def

lemma stop_runs: "map_option (\<lambda>(e, t). (e, sim_sent (world t))) (patch_process stop_ext 10 ''p'' False False stop_start) = Some (-1, [[1]])"
  by (simp add: patch_process_def process_cease_def suspend_once catch_eval process_link_def resume_with_def process_resume_def
    process_shutdown_service_def process_unlink_def process_cure_def process_cure_threads_def task_cure_def
    init_context_def elf_library_status_def init_patch_def create_patch_def stop_ext_def stop_start_def coll_eval)

theorem changes_need_safe_stop_witness:
  "\<exists>t s1. patch_process stop_ext 10 ''p'' False False stop_start = Some (-1, t) \<and> sim_sent (world t) = [[1]]
     \<and> init_context stop_ext 10 ''p'' False stop_start = Some (0, s1)
     \<and> stopped_first stop_ext (\<lambda>w. sim_sent w = []) Jumps_check_backtrace target_bid s1"
proof -
  from stop_runs obtain t where t: "patch_process stop_ext 10 ''p'' False False stop_start = Some (-1, t)" "sim_sent (world t) = [[1]]"
    by auto
  have "watches stop_ext (\<lambda>w. sim_sent w = [])" by (simp add: watches_def looks_def stop_ext_def coll_ext_def sim_ext_def)
  moreover have "stop_task_errno stop_ext" by (simp add: stop_task_errno_def stop_ext_def coll_ext_def sim_ext_def)
  moreover have "open_errno stop_ext" by (simp add: open_errno_def stop_ext_def coll_ext_def sim_ext_def)
  moreover have "sim_sent (world stop_start) = []" "ctx_threads (ctx stop_start) = []"
    by (simp_all add: stop_start_def coll_start_def sim_world_def sim_ctx_def)
  ultimately show ?thesis using changes_need_safe_stop[of stop_ext "\<lambda>w. sim_sent w = []" stop_start 10 "''p''" False False] t by simp
qed

end
