(* ===== verification/Stopped.thy ===== *)
theory Stopped
  imports Safe_Stop
begin

text \<open>
  Once a process is stopped its threads are let go at the very end of a command and nowhere
  else. \<open>steady x I\<close> says that every call that is made between the stop and the end keeps \<open>I\<close>:
  those that only look, reading and writing the target, running system calls and code in it,
  attaching and detaching the control structure, and talking to the service. Only resuming
  a thread may break \<open>I\<close>, so \<open>I\<close> can say that the threads are stopped.
\<close>

definition steady :: "'w ext \<Rightarrow> ('w \<Rightarrow> bool) \<Rightarrow> bool" where
  "steady x I \<longleftrightarrow> looks x I \<and> (\<forall>w. I w \<longrightarrow>
     (\<forall>pid bs a. I (snd (x_poke x pid bs a w))) \<and> (\<forall>pid a n. I (snd (x_peek x pid a n w)))
     \<and> (\<forall>nr args. I (snd (x_syscall x nr args w))) \<and> (\<forall>a. I (snd (x_run_at x a w)))
     \<and> (\<forall>pid. I (snd (x_prepare x pid w))) \<and> I (snd (x_cure x w))
     \<and> (\<forall>path. I (snd (x_readdir x path w))) \<and> (\<forall>path. I (snd (x_readlink x path w)))
     \<and> I (snd (x_socket x w)) \<and> (\<forall>fd a. I (snd (x_connect x fd a w))) \<and> (\<forall>fd bs. I (snd (x_send x fd bs w)))
     \<and> (\<forall>fd n. I (snd (x_recv x fd n w))) \<and> (\<forall>fd bs cs. I (snd (x_sendmsg x fd bs cs w))))"

lemma steady_looks: "steady x I \<Longrightarrow> looks x I"
  by (simp add: steady_def)

lemma steady_calls:
  assumes "steady x I"
  shows "ext_call (x_poke x pid bs a) s = (r0, t) \<Longrightarrow> still I s t" and "ext_call (x_peek x pid a n) s = (r1, t) \<Longrightarrow> still I s t"
    and "ext_call (x_syscall x nr args) s = (r2, t) \<Longrightarrow> still I s t" and "ext_call (x_run_at x a) s = (r3, t) \<Longrightarrow> still I s t"
    and "ext_call (x_prepare x pid) s = (r4, t) \<Longrightarrow> still I s t" and "ext_call (x_cure x) s = (r5, t) \<Longrightarrow> still I s t"
    and "sys_call (x_readdir x path) s = (r6, t) \<Longrightarrow> still I s t" and "sys_call (x_readlink x path) s = (r7, t) \<Longrightarrow> still I s t"
    and "sys_call (x_socket x) s = (r8, t) \<Longrightarrow> still I s t" and "ext_call (x_connect x fd bs) s = (r9, t) \<Longrightarrow> still I s t"
    and "sys_call (x_send x fd bs) s = (r10, t) \<Longrightarrow> still I s t" and "sys_call (x_recv x fd n) s = (r11, t) \<Longrightarrow> still I s t"
    and "ext_call (x_sendmsg x fd bs cs) s = (r12, t) \<Longrightarrow> still I s t"
  using assms by (auto simp: steady_def intro: still_ext_call still_sys_call)

section \<open>Memory, system calls and mappings\<close>

lemma process_data_still:
  assumes "steady x I"
  shows "process_write_data x a bs s = (r, t) \<Longrightarrow> still I s t" and "process_read_data x a n s = (rb, t) \<Longrightarrow> still I s t"
  by (auto simp: process_write_data_def process_read_data_def Let_def split: prod.splits if_splits dest!: steady_calls[OF assms])

lemma process_syscall_still:
  assumes "steady x I"
  shows "process_syscall x nr args s = Some (r, t) \<Longrightarrow> still I s t"
  by (auto simp: process_syscall_def split: prod.splits if_splits dest!: steady_calls(3)[OF assms])

lemma process_map_still:
  assumes "steady x I"
  shows "process_map_vma x fd v s = Some (r, t) \<Longrightarrow> still I s t" and "process_unmap_vma x v s = Some (r, t) \<Longrightarrow> still I s t"
    and "process_close_file x fd s = Some (r, t) \<Longrightarrow> still I s t" and "process_open_file x path f m s = Some (r, t) \<Longrightarrow> still I s t"
  by (auto simp: process_map_vma_def process_unmap_vma_def process_close_file_def process_open_file_def process_do_open_file_def
      still.frame_refl split: prod.splits if_splits bind_splits dest!: process_syscall_still[OF assms] process_data_still[OF assms]
      intro: still.frame_trans)

lemma process_exec_code_still:
  assumes "steady x I"
  shows "process_exec_code x a blob s = Some (r, t) \<Longrightarrow> still I s t"
  by (auto simp: process_exec_code_def split: prod.splits if_splits
      dest!: process_data_still[OF assms] steady_calls(4)[OF assms] intro: still.frame_trans)

lemma process_link_still:
  assumes "steady x I"
  shows "process_link x s = Some (r, t) \<Longrightarrow> still I s t"
  by (auto simp: process_link_def Let_def split: prod.splits if_splits bind_splits
      dest!: steady_calls(5,6)[OF assms] process_map_still[OF assms]) (auto simp: still_def)

lemma process_unlink_still:
  assumes "steady x I"
  shows "process_unlink x s = Some (r, t) \<Longrightarrow> still I s t"
  by (auto simp: process_unlink_def still.frame_refl split: if_splits bind_splits
      dest!: steady_calls(6)[OF assms] process_map_still[OF assms] intro: still.frame_trans)

lemma unmap_mapped_still:
  assumes "steady x I"
  shows "unmap_mapped x vs s = Some t \<Longrightarrow> still I s t"
proof (induction vs arbitrary: s)
  case (Cons v vs)
  then show ?case by (auto split: bind_splits dest!: process_map_still[OF assms] intro: still.frame_trans)
qed (simp add: still.frame_refl)

lemma map_dl_vmas_still:
  assumes "steady x I"
  shows "map_dl_vmas x fd mapped vs s = Some (r, t) \<Longrightarrow> still I s t"
proof (induction vs arbitrary: mapped s)
  case (Cons v vs)
  then show ?case
    by (auto split: bind_splits if_splits dest!: process_map_still[OF assms] unmap_mapped_still[OF assms] intro: still.frame_trans)
qed (auto split: bind_splits dest!: process_map_still[OF assms])

lemma process_mmap_dlm_manual_still:
  assumes "steady x I"
  shows "process_mmap_dlm_manual x dlm s = Some (r, t) \<Longrightarrow> still I s t"
  by (auto simp: process_mmap_dlm_manual_def split: bind_splits if_splits
      dest!: process_map_still[OF assms] map_dl_vmas_still[OF assms] intro: still.frame_trans)

section \<open>Symbols and relocations of an object\<close>

lemma elf_set_scns_still:
  assumes "looks x I"
  shows "elf_set_dynsym_scn x ei s = Some (r, t) \<Longrightarrow> still I s t" and "elf_set_rela_plt_scn x ei s = Some (r, t) \<Longrightarrow> still I s t"
    and "elf_set_rela_dyn_scn x ei s = Some (r, t) \<Longrightarrow> still I s t"
  by (auto simp: elf_set_dynsym_scn_def elf_set_rela_plt_scn_def elf_set_rela_dyn_scn_def elf_set_scn_def elf_create_scn_def
      still.frame_refl split: bind_splits prod.splits option.splits if_splits dest!: still_calls[OF assms])

lemma dynsym_name_still: "dynsym_name symb ei s = (r, t) \<Longrightarrow> still I s t"
  by (auto simp: dynsym_name_def Let_def still.frame_refl split: option.splits if_splits)

lemma elf_dyn_sym_value_still:
  assumes "looks x I"
  shows "elf_dyn_sym_value x ei name s = Some (r, t) \<Longrightarrow> still I s t"
proof -
  have c: "compare_sym_name ei name symb s = Some (r, t) \<Longrightarrow> still I s t" for symb and s t :: "'a pst" and r
    by (auto simp: compare_sym_name_def still.frame_refl split: if_splits prod.splits bind_splits
        dest!: dynsym_name_still[where I = I])
  have f: "find_sym_in getsym (compare_sym_name ei name) is s = Some (r, t) \<Longrightarrow> still I s t" for getsym "is" s r t
    by (rule still.sym_loop_frame[OF c])
  show "elf_dyn_sym_value x ei name s = Some (r, t) \<Longrightarrow> still I s t"
    by (auto simp: elf_dyn_sym_value_def elf_find_dsym_by_name_def find_dyn_sym_def find_sym_def
        split: bind_splits option.splits if_splits dest!: elf_set_scns_still[OF assms] f intro: still.frame_trans)
qed

lemma dlm_find_sym_still:
  assumes "looks x I"
  shows "dlm_find_sym x name dlm sv = Some (r, tv) \<Longrightarrow> still I (fst sv) (fst tv)"
  by (auto simp: dlm_find_sym_def split: prod.splits bind_splits if_splits dest!: elf_dyn_sym_value_still[OF assms])

lemma dl_symbols_still:
  assumes "looks x I"
  shows "dl_map_symbol_value x dlm name s = Some (r, t) \<Longrightarrow> still I s t"
    and "dl_get_symbol_value x dlms name s = Some (r, t) \<Longrightarrow> still I s t"
  using dlm_find_sym_still[OF assms, where sv = "(s, 0)"] still_pair.iterate_frame[OF dlm_find_sym_still[OF assms], where s = "(s, 0)"]
  by (auto simp: dl_map_symbol_value_def dl_get_symbol_value_def iterate_dl_maps_def split: bind_splits) fastforce+


lemma collect_es_still:
  assumes "looks x I"
  shows "collect_es x ei rela sd = Some (r, td) \<Longrightarrow> still I (fst sd) (fst td)"
  by (auto simp: collect_es_def create_ext_sym_def split: prod.splits option.splits bind_splits if_splits
      dest!: still_calls(1)[OF assms] elf_set_scns_still[OF assms] dynsym_name_still[where I = I]) (auto simp: still_def)

lemma collect_relocations_still:
  assumes "looks x I"
  shows "collect_relocations x s = Some (r, t) \<Longrightarrow> still I s t"
proof -
  have it: "still I u (fst td)" if "iter_rela_in (collect_es x ei) g is (u, h) = Some (r, td)" for ei g "is" u h r td
    using still_pair.rela_loop_frame[OF collect_es_still[OF assms] that] by simp
  show "collect_relocations x s = Some (r, t) \<Longrightarrow> still I s t"
    by (auto simp: collect_relocations_def elf_rela_plt_def elf_rela_dyn_def elf_collect_rela_def iter_rela_def Let_def
        split: bind_splits option.splits if_splits dest!: elf_set_scns_still[OF assms] it) (auto simp: still_def)
qed

section \<open>The link maps\<close>

lemma rtld_dynamic_tag_val_still:
  assumes "steady x I" "rtld_dynamic_tag_val x d tag s = Some r"
  shows "still I s (snd r)"
proof -
  have "steady x I \<longrightarrow> still I s (snd r)"
  proof (rule rtld_dynamic_tag_val.raw_induct[where P = "\<lambda>x d tag s r. steady x I \<longrightarrow> still I s (snd r)"
        and xa = "(((x, d), tag), s)" and y = r, unfolded prod.case, OF _ assms(2)], intro impI)
    fix loop :: "'a ext \<Rightarrow> u64 \<Rightarrow> u32 \<Rightarrow> 'a pst \<Rightarrow> (int \<times> 'a pst) option" and x d tag s r
    assume IH: "\<And>x d tag s r. loop x d tag s = Some r \<Longrightarrow> steady x I \<longrightarrow> still I s (snd r)" and w: "steady x I"
      and step: "(case rtld_get_dyn x d s of ((err, dyn), s) \<Rightarrow>
         if err \<noteq> 0 then Some (err, s) else if d_tag dyn = DT_NULL then Some (- ENOENT, s)
         else if d_tag dyn = ucast tag then Some (sint (d_val dyn), s) else loop x (d + 16) tag s) = Some r"
    show "still I s (snd r)" using step
      by (auto simp: rtld_get_dyn_def split: if_splits prod.splits dest!: process_data_still(2)[OF w] mp[OF IH w])
        (auto simp: still_def)
  qed
  with assms(1) show ?thesis by blast
qed

lemma rtld_needed_loop_still:
  assumes "steady x I" "rtld_needed_loop x lm arr s = Some r"
  shows "still I s (snd r)"
proof -
  have "steady x I \<longrightarrow> still I s (snd r)"
  proof (rule rtld_needed_loop.raw_induct[where P = "\<lambda>x lm arr s r. steady x I \<longrightarrow> still I s (snd r)"
        and xa = "(((x, lm), arr), s)" and y = r, unfolded prod.case, OF _ assms(2)], intro impI)
    fix loop :: "'a ext \<Rightarrow> u64 \<Rightarrow> u64 list \<Rightarrow> 'a pst \<Rightarrow> ((int \<times> u64 list) \<times> 'a pst) option" and x a arr s r
    assume IH: "\<And>x a arr s r. loop x a arr s = Some r \<Longrightarrow> steady x I \<longrightarrow> still I s (snd r)" and w: "steady x I"
      and step: "(case rtld_get_lm x a s of ((err, lm), s) \<Rightarrow>
          if err \<noteq> 0 then Some ((err, []), s)
          else do {
            (dt_symtab_addr, s) \<leftarrow> rtld_dynamic_tag_val x (l_ld lm) DT_SYMTAB s;
            if dt_symtab_addr = - ENOENT then Some ((- ENOENT, []), s)
            else if sint (l_addr lm) \<le> dt_symtab_addr then
              (case (if length arr mod 10 = 0 then xmalloc x s else (Some 0, s)) of
                 (None, s) \<Rightarrow> Some ((- ENOMEM, []), s)
               | (Some _, s) \<Rightarrow>
                   if 10 \<le> length arr then None
                   else let arr = arr @ [of_int dt_symtab_addr] in
                        if l_next lm \<noteq> 0 then loop x (l_next lm) arr s
                        else Some ((int (length arr), arr), s))
            else if l_next lm \<noteq> 0 then loop x (l_next lm) arr s
            else Some ((int (length arr), arr), s) }) = Some r"
    show "still I s (snd r)" using step unfolding rtld_get_lm_def Let_def
      by (auto split: if_splits prod.splits bind_splits option.splits
          dest!: process_data_still(2)[OF w] rtld_dynamic_tag_val_still[OF w]
            still_calls(1)[OF steady_looks[OF w]] mp[OF IH w]) (auto simp: still_def)
  qed
  with assms(1) show ?thesis by blast
qed

lemma rtld_needed_array_still:
  assumes "steady x I"
  shows "rtld_needed_array x a s = Some (r, t) \<Longrightarrow> still I s t"
  by (auto simp: rtld_needed_array_def split: prod.splits if_splits dest!: process_data_still(2)[OF assms]
      rtld_needed_loop_still[OF assms] intro: still.frame_trans)

section \<open>The service\<close>

lemma service_exchange_still:
  assumes "steady x I"
  shows "service_do x a b c d e f g s = Some (r, t) \<Longrightarrow> still I s t" and "service_exchange x rq s = Some (rs, t) \<Longrightarrow> still I s t"
  by (auto simp: service_do_def service_exchange_def service_run_def nsb_service_send_request_def nsb_service_receive_response_def
      Let_def still.frame_refl split: prod.splits if_splits bind_splits option.splits
      dest!: process_exec_code_still[OF assms] steady_calls(11,12)[OF assms]) (auto simp: still_def)

lemma service_requests_still:
  assumes "steady x I"
  shows "service_mmap_dlm x dlm fd s = Some (r, t) \<Longrightarrow> still I s t" and "service_munmap_dlm x dlm s = Some (r, t) \<Longrightarrow> still I s t"
    and "service_needed_array x s = Some (ra, t) \<Longrightarrow> still I s t"
  by (auto simp: service_mmap_dlm_def service_munmap_dlm_def service_needed_array_def Let_def still.frame_refl
      split: prod.splits if_splits bind_splits option.splits
      dest!: service_exchange_still[OF assms] still_calls(1)[OF steady_looks[OF assms]] intro: still.frame_trans)

lemma service_sym_addr_still:
  assumes "looks x I"
  shows "service_sym_addr x name s = Some (r, t) \<Longrightarrow> still I s t"
  by (auto simp: service_sym_addr_def split: bind_splits dest!: dl_symbols_still[OF assms])

lemma service_transfer_fd_still:
  assumes "steady x I"
  shows "service_transfer_fd x fd s = Some (r, t) \<Longrightarrow> still I s t"
  by (auto simp: service_transfer_fd_def send_fd_def Let_def split: bind_splits prod.splits if_splits
      dest!: service_sym_addr_still[OF steady_looks[OF assms]] steady_calls(13)[OF assms] service_exchange_still[OF assms])
    (auto simp: still_def)

lemma service_connect_still:
  assumes "steady x I"
  shows "service_connect x s = Some (r, t) \<Longrightarrow> still I s t"
proof -
  have loc: "service_local_connect x s = (r, t) \<Longrightarrow> still I s t" for s r t
    by (auto simp: service_local_connect_def Let_def still.frame_refl split: prod.splits option.splits if_splits
        dest!: steady_calls(9,10)[OF assms] still_calls(8)[OF steady_looks[OF assms]]) (auto simp: still_def)
  have acc: "service_remote_accept x s = Some (r, t) \<Longrightarrow> still I s t" for s r t
    by (auto simp: service_remote_accept_def Let_def split: bind_splits if_splits
        dest!: service_sym_addr_still[OF steady_looks[OF assms]] process_exec_code_still[OF assms])
      (auto simp: still_def)
  show "service_connect x s = Some (r, t) \<Longrightarrow> still I s t"
    by (auto simp: service_connect_def service_find_runner_def split: bind_splits prod.splits if_splits
        dest!: service_sym_addr_still[OF steady_looks[OF assms]] loc acc) (auto simp: still_def)
qed


lemma service_start_still:
  assumes "steady x I"
  shows "service_start x s = Some (r, t) \<Longrightarrow> still I s t"
proof -
  note l = steady_looks[OF assms]
  have check: "check_map_file base d s = Some (r, t) \<Longrightarrow> still I s t" for base d and s t :: "'a pst" and r
    by (simp add: check_map_file_def still.frame_refl)
  have dentry: "find_dentry x dir (check_map_file base) d s = Some (r, d', t) \<Longrightarrow> still I s t" for dir base d s r d' t
    using still.dentry_loop_frame[OF check[where base = base]]
    by (auto simp: find_dentry_def iter_dentry_def split: bind_splits prod.splits option.splits if_splits
        dest!: steady_calls(7)[OF assms]) (auto simp: still_def)
  have path: "still I (fst sd) (fst td)" if "compare_vma_path x p pid vma sd = Some (e, td)" for p pid vma sd e td
    using that by (auto simp: compare_vma_path_def collect_vma_def still.frame_refl
        split: prod.splits if_splits bind_splits option.splits dest!: create_vma_still[OF l])
  have vmas: "still I u v" if "collect_vmas_by_path x pid p (u, h) = Some (e, v, h')" for pid p u h e v h'
    using iter_map_files_still[OF l path that[unfolded collect_vmas_by_path_def]] by simp
  have dlm: "still I u v" if "create_dl_map x vs u = Some (e, v)" for vs u e v
    using that still_pair.iterate_frame[OF collect_dl_map_vma_still[OF l], where s = "(u, None, None)"]
    by (auto simp: create_dl_map_def iterate_vmas_def split: bind_splits if_splits) fastforce+
  have coll: "service_collect_vmas x u = Some (e, v) \<Longrightarrow> still I u v" for u e v
    by (auto simp: service_collect_vmas_def Let_def split: bind_splits prod.splits option.splits if_splits
        dest!: process_data_still[OF assms] dentry steady_calls(8)[OF assms] vmas dlm) (auto simp: still_def)
  show "service_start x s = Some (r, t) \<Longrightarrow> still I s t"
    by (auto simp: service_start_def split: bind_splits if_splits dest!: coll service_connect_still[OF assms])
      (auto simp: still_def)
qed


section \<open>Injecting the service, finding what is needed\<close>

lemma process_find_sym_still:
  assumes "looks x I"
  shows "process_find_sym x name s = Some (r, t) \<Longrightarrow> still I s t"
  by (auto simp: process_find_sym_def split: bind_splits dest!: dl_symbols_still[OF assms])

lemma process_inject_service_still:
  assumes "steady x I"
  shows "process_inject_service x s = Some (r, t) \<Longrightarrow> still I s t"
proof -
  have dlopen: "process_call_dlopen x a so u = Some (e, v) \<Longrightarrow> still I u v" for a so u e v
    by (auto simp: process_call_dlopen_def Let_def still.frame_refl split: bind_splits prod.splits if_splits
        dest!: process_data_still[OF assms] process_exec_code_still[OF assms] intro: still.frame_trans)
  show "process_inject_service x s = Some (r, t) \<Longrightarrow> still I s t"
    by (auto simp: process_inject_service_def do_inject_service_def process_find_dlopen_def Let_def split: bind_splits if_splits
        dest!: process_find_sym_still[OF steady_looks[OF assms]] dlopen service_start_still[OF assms]) (auto simp: still_def)
qed

lemma process_shutdown_service_still:
  assumes "steady x I"
  shows "process_shutdown_service x s = Some (r, t) \<Longrightarrow> still I s t"
proof -
  have stop: "service_stop x u = (e, v) \<Longrightarrow> still I u v" for u e v
    by (auto simp: service_stop_def service_disconnect_def Let_def still.frame_refl split: prod.splits if_splits
        dest!: still_calls(8)[OF steady_looks[OF assms]])
  show "process_shutdown_service x s = Some (r, t) \<Longrightarrow> still I s t"
    by (auto simp: process_shutdown_service_def process_find_dlclose_def process_call_dlclose_def Let_def still.frame_refl
        split: bind_splits prod.splits if_splits
        dest!: stop process_find_sym_still[OF steady_looks[OF assms]] process_exec_code_still[OF assms]) (auto simp: still_def)
qed

lemma collect_needed_loop_still:
  assumes "looks x I"
  shows "collect_needed_loop x arr e i n s = Some (r, t) \<Longrightarrow> still I s t"
proof (induction n arbitrary: e i s)
  case (Suc n)
  have one: "collect_needed x dlm u = Some (e, v) \<Longrightarrow> still I u v" for dlm u e v
    by (auto simp: collect_needed_def Let_def split: bind_splits prod.splits option.splits dest!: still_calls(1)[OF assms])
  from Suc show ?case
    by (auto simp: still.frame_refl split: bind_splits option.splits if_splits dest!: one intro: still.frame_trans)
qed (simp add: still.frame_refl)

lemma process_collect_needed_still:
  assumes "steady x I"
  shows "process_collect_needed x s = Some (r, t) \<Longrightarrow> still I s t"
  by (auto simp: process_collect_needed_def process_needed_list_def split: bind_splits if_splits
      dest!: service_requests_still[OF assms] process_find_sym_still[OF steady_looks[OF assms]] rtld_needed_array_still[OF assms]
        collect_needed_loop_still[OF steady_looks[OF assms]]) (auto simp: still_def)

section \<open>Loading and unloading\<close>

lemma process_mmap_dl_map_still:
  assumes "steady x I"
  shows "process_mmap_dl_map x dlm s = Some (r, t) \<Longrightarrow> still I s t"
  by (auto simp: process_mmap_dl_map_def process_mmap_dlm_service_def still.frame_refl split: bind_splits if_splits
      dest!: service_transfer_fd_still[OF assms] service_requests_still[OF assms] process_mmap_dlm_manual_still[OF assms]
      intro: still.frame_trans)

lemma process_munmap_dl_map_still:
  assumes "steady x I"
  shows "process_munmap_dl_map x dlm s = Some (r, t) \<Longrightarrow> still I s t"
proof -
  have "unmap_dl_vma x v u = Some (e, w) \<Longrightarrow> still I u w" for v u e w
    by (auto simp: unmap_dl_vma_def dest!: process_map_still[OF assms])
  from still.iterate_frame[OF this] show "process_munmap_dl_map x dlm s = Some (r, t) \<Longrightarrow> still I s t"
    by (auto simp: process_munmap_dl_map_def iterate_dl_vmas_def still.frame_refl split: if_splits
        dest!: service_requests_still[OF assms])
qed

lemma elf_mmaps_loop_still:
  assumes "looks x I"
  shows "elf_mmaps_loop x dlm is e s = Some (r, t) \<Longrightarrow> still I s t"
proof (induction "is" arbitrary: e s)
  case (Cons i "is")
  then show ?case
    by (auto simp: create_elf_vma_def still.frame_refl split: option.splits if_splits prod.splits bind_splits
        dest!: still_calls(1)[OF assms] add_dl_vma_sorted_still[where I = I]) (auto simp: still_def)
qed (simp add: still.frame_refl)

lemma load_elf_still:
  assumes "steady x I"
  shows "load_elf x dlm s = Some (r, t) \<Longrightarrow> still I s t"
proof -
  have "pin_elf_mmap h v u = Some (e, w) \<Longrightarrow> still I u w" for h v u e w
    by (auto simp: pin_elf_mmap_def still.frame_refl)
  from still.iterate_frame[OF this] have pin: "pin_elf_mmaps dlm u = Some (e, v) \<Longrightarrow> still I u v" for u e v
    by (auto simp: pin_elf_mmaps_def iterate_dl_vmas_def Let_def still.frame_refl split: bind_splits if_splits)
  show "load_elf x dlm s = Some (r, t) \<Longrightarrow> still I s t"
    by (auto simp: load_elf_def create_elf_mmaps_def still.frame_refl split: bind_splits option.splits if_splits
        dest!: elf_mmaps_loop_still[OF steady_looks[OF assms]] pin process_mmap_dl_map_still[OF assms]) (auto simp: still_def)
qed


section \<open>Relocations, references and jumps\<close>

lemma find_in_deps_still:
  assumes "looks x I"
  shows "find_in_deps x stop es v deps s = Some (r, t) \<Longrightarrow> still I s t"
proof (induction deps arbitrary: s)
  case (Cons d deps)
  then show ?case
    by (auto simp: still.frame_refl split: if_splits bind_splits dest!: elf_dyn_sym_value_still[OF assms] intro: still.frame_trans)
qed (simp add: still.frame_refl)

lemma resolve_list_still:
  assumes "looks x I"
  shows "resolve_list x ess s = Some (r, t) \<Longrightarrow> still I s t"
proof (induction ess arbitrary: s r)
  case (Cons es ess)
  have "es_find_dyn_sym x es u = Some (e, v) \<Longrightarrow> still I u v" for es u e v
    by (auto simp: es_find_dyn_sym_def do_find_dym_sym_def Let_def still.frame_refl split: bind_splits if_splits prod.splits
        dest!: find_in_deps_still[OF assms] intro: still.frame_trans)
  then have one: "resolve_es x es u = Some (e, v) \<Longrightarrow> still I u v" for es u e v
    by (auto simp: resolve_es_def resolve_symbol_def Let_def still.frame_refl split: bind_splits if_splits prod.splits)
  from Cons show ?case
    by (auto simp: Let_def split: bind_splits if_splits option.splits dest!: one) (auto simp: still_def)
qed (simp add: still.frame_refl)

lemma resolve_relocations_still:
  assumes "looks x I"
  shows "resolve_relocations x s = Some (r, t) \<Longrightarrow> still I s t"
  by (auto simp: resolve_relocations_def Let_def split: bind_splits if_splits dest!: resolve_list_still[OF assms])
    (auto simp: still_def)

lemma apply_relocations_still:
  assumes "steady x I"
  shows "apply_relocations x s = Some (r, t) \<Longrightarrow> still I s t"
proof -
  have "apply_es x es u = Some (e, v) \<Longrightarrow> still I u v" for es u e v
    by (auto simp: apply_es_def split: bind_splits if_splits option.splits dest!: process_data_still[OF assms])
  then have it: "iterate (apply_es x) ess u = Some (e, v) \<Longrightarrow> still I u v" for ess u e v
    by (rule still.iterate_frame)
  show "apply_relocations x s = Some (r, t) \<Longrightarrow> still I s t"
    by (auto simp: apply_relocations_def split: bind_splits if_splits dest!: it) (auto simp: still_def)
qed

lemma apply_static_refs_still:
  assumes "steady x I"
  shows "apply_static_refs x s = Some (r, t) \<Longrightarrow> still I s t"
proof -
  have "apply_static_ref x ss u = Some (e, v) \<Longrightarrow> still I u v" for ss u e v
    by (auto simp: apply_static_ref_def write_static_ref_def Let_def still.frame_refl split: bind_splits if_splits prod.splits
        dest!: process_data_still[OF assms]) (auto simp: still_def)
  from still.iterate_frame[OF this] show "apply_static_refs x s = Some (r, t) \<Longrightarrow> still I s t"
    by (auto simp: apply_static_refs_def split: bind_splits)
qed

lemma write_func_jump_still:
  assumes "steady x I"
  shows "write_func_jump x p i s = Some (r, t) \<Longrightarrow> still I s t"
  by (auto simp: write_func_jump_def still.frame_refl split: bind_splits if_splits dest!: process_data_still[OF assms])

lemma func_jumps_still:
  assumes "steady x I"
  shows "apply_func_jumps x s = Some (r, t) \<Longrightarrow> still I s t" and "tune_func_jumps x s = Some (r, t) \<Longrightarrow> still I s t"
proof -
  show "apply_func_jumps x s = Some (r, t) \<Longrightarrow> still I s t"
    using still.iterate_frame[OF write_func_jump_still[OF assms]]
    by (auto simp: apply_func_jumps_def iterate_patch_function_jumps_def split: bind_splits)
  have "print_patch_func_jump p i u = Some (e, v) \<Longrightarrow> still I u v" for p i u e v
    by (auto simp: print_patch_func_jump_def still.frame_refl split: bind_splits)
  then have it: "iterate (print_patch_func_jump p) is u = Some (e, v) \<Longrightarrow> still I u v" for p "is" u e v
    by (rule still.iterate_frame)
  show "tune_func_jumps x s = Some (r, t) \<Longrightarrow> still I s t"
    by (auto simp: tune_func_jumps_def iterate_patch_function_jumps_def split: bind_splits if_splits
        dest!: it tune_patch_func_jumps_still[OF steady_looks[OF assms]] intro: still.frame_trans)
qed

lemma patch_revert_func_jumps_still:
  assumes "steady x I"
  shows "patch_revert_func_jumps x p s = Some (r, t) \<Longrightarrow> still I s t"
proof -
  have applied: "func_jump_applied x p i u = (e, v) \<Longrightarrow> still I u v" for p i u e v
    by (auto simp: func_jump_applied_def still.frame_refl split: if_splits prod.splits dest!: process_data_still[OF assms])
  have revert: "do_revert_func_jump x p i u = Some (e, v) \<Longrightarrow> still I u v" for p i u e v
    by (auto simp: do_revert_func_jump_def write_func_code_def still.frame_refl split: bind_splits sum.splits if_splits prod.splits
        dest!: process_data_still[OF assms] write_func_jump_still[OF assms])
  have "revert_func_jump x p i u = Some (e, v) \<Longrightarrow> still I u v" for p i u e v
    by (auto simp: revert_func_jump_def split: if_splits prod.splits dest!: applied revert intro: still.frame_trans)
  from still.iterate_frame[OF this] show "patch_revert_func_jumps x p s = Some (r, t) \<Longrightarrow> still I s t"
    by (auto simp: patch_revert_func_jumps_def iterate_patch_function_jumps_def split: bind_splits)
qed

section \<open>The work between stopping and resuming\<close>

lemma patch_unload_still:
  assumes "steady x I"
  shows "patch_unload x p s = Some (r, t) \<Longrightarrow> still I s t"
  by (auto simp: patch_unload_def unload_elf_def split: bind_splits dest!: process_munmap_dl_map_still[OF assms])

lemma apply_dyn_binpatch_still:
  assumes "steady x I"
  shows "apply_dyn_binpatch x s = Some (r, t) \<Longrightarrow> still I s t"
proof -
  have undo: "undo_load x e u = Some (e', v) \<Longrightarrow> still I u v" for e u e' v
    by (auto simp: undo_load_def unload_patch_def split: bind_splits dest!: patch_unload_still[OF assms])
  have load: "load_patch x u = Some (e, v) \<Longrightarrow> still I u v" for u e v
    by (auto simp: load_patch_def alloc_dl_map_def split: bind_splits prod.splits option.splits if_splits
        dest!: still_calls(1)[OF steady_looks[OF assms]] load_elf_still[OF assms]) (auto simp: still_def)
  have revert: "revert_func_jumps x u = Some (e, v) \<Longrightarrow> still I u v" for u e v
    by (auto simp: revert_func_jumps_def split: bind_splits dest!: patch_revert_func_jumps_still[OF assms])
  show "apply_dyn_binpatch x s = Some (r, t) \<Longrightarrow> still I s t"
    by (auto simp: apply_dyn_binpatch_def split: bind_splits if_splits
        dest!: load undo revert apply_relocations_still[OF assms] apply_static_refs_still[OF assms] func_jumps_still[OF assms])
      (auto simp: still_def)
qed

lemma patch_steps_still:
  assumes "steady x I"
  shows "patch_steps x no_plugin s = Some (r, t) \<Longrightarrow> still I s t"
proof -
  note l = steady_looks[OF assms]
  have find: "process_find_target_dlm u = Some (e, v) \<Longrightarrow> still I u v" for u e v
    by (auto simp: process_find_target_dlm_def still.frame_refl split: bind_splits option.splits)
  show "patch_steps x no_plugin s = Some (r, t) \<Longrightarrow> still I s t"
    by (auto simp: patch_steps_def still.frame_refl split: bind_splits if_splits
        dest!: find process_inject_service_still[OF assms] process_collect_needed_still[OF assms] collect_relocations_still[OF l]
          resolve_relocations_still[OF l] apply_dyn_binpatch_still[OF assms]) (auto simp: still_def)
qed

lemma revert_dyn_binpatch_still:
  assumes "steady x I"
  shows "revert_dyn_binpatch x p s = Some (r, t) \<Longrightarrow> still I s t"
  by (auto simp: revert_dyn_binpatch_def split: bind_splits if_splits
      dest!: patch_revert_func_jumps_still[OF assms] patch_unload_still[OF assms] intro: still.frame_trans)


section \<open>The commands\<close>

text \<open>The state at the end: either no thread was let go, or letting the threads \<open>ths\<close> go was the last thing done.\<close>

definition held_to_end :: "'w ext \<Rightarrow> ('w \<Rightarrow> bool) \<Rightarrow> thread_s list \<Rightarrow> 'w pst \<Rightarrow> bool" where
  "held_to_end x I ths t \<longleftrightarrow>
     (\<exists>v. I (world v) \<and> ctx_threads (ctx v) = ths \<and> (t = v \<or> (\<exists>e. process_cure x v = (e, t))))"

lemma resume_with_held:
  assumes "steady x I" "I (world s)" "resume_with x ret s = Some (e, t)"
  shows "held_to_end x I (ctx_threads (ctx s)) t"
proof -
  from assms(3) obtain e' where "process_resume x s = Some (e', t)" by (auto simp: resume_with_def split: bind_splits)
  then obtain v where "still I s v" "t = v \<or> (\<exists>e. process_cure x v = (e, t))"
    by (auto simp: process_resume_def split: bind_splits if_splits
        dest!: process_shutdown_service_still[OF assms(1)] process_unlink_still[OF assms(1)]) (auto dest: still.frame_trans)
  with assms(2) show ?thesis by (auto simp: held_to_end_def still_def)
qed

lemma process_cease_held:
  assumes "steady x I" "process_suspend x bid s = Some (0, u)" "I (world u)" "process_cease x bid s = Some (e, t)"
  shows "e = 0 \<and> I (world t) \<and> ctx_threads (ctx t) = ctx_threads (ctx u) \<or> e \<noteq> 0 \<and> held_to_end x I (ctx_threads (ctx u)) t"
proof -
  from assms(2,4) obtain v where v: "still I u v"
      and "e = 0 \<and> t = v \<or> (\<exists>ret. ret \<noteq> 0 \<and> resume_with x ret v = Some (e, t))"
    by (auto simp: process_cease_def split: bind_splits if_splits dest!: process_link_still[OF assms(1)]
        process_collect_vmas_still[OF steady_looks[OF assms(1)]]) (blast intro: still.frame_trans)+
  then show ?thesis
  proof (elim disjE exE conjE)
    fix ret
    assume r: "ret \<noteq> 0" "resume_with x ret v = Some (e, t)"
    then have "e \<noteq> 0" by (auto simp: resume_with_def split: bind_splits)
    with resume_with_held[OF assms(1) _ r(2)] v assms(3) show ?thesis by (simp add: still_def)
  qed (use v assms(3) in \<open>simp add: still_def\<close>)
qed

text \<open>
  C3: The target is changed only while it is stopped. Let \<open>I\<close> be kept by every call except the one
  that resumes a thread, such as that all threads are stopped. If patching or reverting has
  stopped the process, with \<open>I\<close> true, then \<open>I\<close> stays true through everything the command does
  (attaching, collecting, injecting the service, mapping the patch, relocations, references,
  jumps, clean-up after errors, shutting the service down, detaching): no thread is let go
  before that, on any path. At the end either none was let go, or letting go the threads that
  were stopped, the same list, was the last thing the command did.
\<close>

theorem changed_only_while_stopped:
  assumes "steady x I" and "init_context x pid patchfile dry_run s = Some (0, s1)" and "ctx_patch (ctx s1) = Some p"
  shows "(\<forall>u. process_suspend x (target_bid (pi (patch_of s1 p)))
                (upd_ctx (\<lambda>c. c\<lparr>ctx_check_backtrace := Jumps_check_backtrace\<rparr>) s1) = Some (0, u) \<and> I (world u) \<longrightarrow>
            (case patch_process x pid patchfile dry_run no_plugin s of None \<Rightarrow> True
             | Some (ret, t) \<Rightarrow> held_to_end x I (ctx_threads (ctx u)) t))
    \<and> (\<forall>u. process_suspend x (patch_bid (pi (patch_of s1 p)))
                (upd_ctx (\<lambda>c. c\<lparr>ctx_check_backtrace := Patch_check_backtrace\<rparr>) s1) = Some (0, u) \<and> I (world u) \<longrightarrow>
            (case unpatch_process x pid patchfile dry_run s of None \<Rightarrow> True
             | Some (ret, t) \<Rightarrow> held_to_end x I (ctx_threads (ctx u)) t))"
proof (intro conjI allI impI; elim conjE)
  fix u
  assume u: "process_suspend x (target_bid (pi (patch_of s1 p)))
      (upd_ctx (\<lambda>c. c\<lparr>ctx_check_backtrace := Jumps_check_backtrace\<rparr>) s1) = Some (0, u)" "I (world u)"
  have "held_to_end x I (ctx_threads (ctx u)) t" if "patch_process x pid patchfile dry_run no_plugin s = Some (ret, t)" for ret t
    using that assms(2,3)
    by (auto simp: patch_process_def split: bind_splits if_splits dest!: process_cease_held[OF assms(1) u]
        patch_steps_still[OF assms(1)] resume_with_held[OF assms(1), rotated]) (auto simp: still_def)
  then show "case patch_process x pid patchfile dry_run no_plugin s of None \<Rightarrow> True
      | Some (ret, t) \<Rightarrow> held_to_end x I (ctx_threads (ctx u)) t" by (auto split: option.splits)
next
  fix u
  assume u: "process_suspend x (patch_bid (pi (patch_of s1 p)))
      (upd_ctx (\<lambda>c. c\<lparr>ctx_check_backtrace := Patch_check_backtrace\<rparr>) s1) = Some (0, u)" "I (world u)"
  have "held_to_end x I (ctx_threads (ctx u)) t" if "unpatch_process x pid patchfile dry_run s = Some (ret, t)" for ret t
    using that assms(2,3)
    by (auto simp: unpatch_process_def split: bind_splits if_splits dest!: process_cease_held[OF assms(1) u]
        revert_dyn_binpatch_still[OF assms(1)] resume_with_held[OF assms(1), rotated]) (auto simp: still_def)
  then show "case unpatch_process x pid patchfile dry_run s of None \<Rightarrow> True
      | Some (ret, t) \<Rightarrow> held_to_end x I (ctx_threads (ctx u)) t" by (auto split: option.splits)
qed


text \<open>
  A process whose object is already patched: it is stopped, linked and collected, the patch is
  found to be applied, and the process goes on. Resuming the thread is visible in \<open>sim_sysret\<close>.
\<close>

definition held_ext :: "simw ext" where
  "held_ext = coll_ext\<lparr>x_unpack := (\<lambda>bs. Some (sim_bp\<lparr>old_bid := ''ab01'', pb_func_jumps := []\<rparr>)),
     x_resume_task := (\<lambda>pid w. (0, w\<lparr>sim_sysret := 1\<rparr>))\<rparr>"

lemma held_steady: "steady held_ext (\<lambda>w. sim_sysret w = 0)"
  by (simp add: steady_def looks_def held_ext_def coll_ext_def sim_ext_def)

lemma held_stops:
  "map_option (\<lambda>(e, s1). (e, ctx_patch (ctx s1) \<noteq> None, map_option (\<lambda>(e, u). (e, sim_sysret (world u), map t_pid (ctx_threads (ctx u))))
       (process_suspend held_ext (target_bid (pi (patch_of s1 (the (ctx_patch (ctx s1))))))
          (upd_ctx (\<lambda>c. c\<lparr>ctx_check_backtrace := Jumps_check_backtrace\<rparr>) s1))))
     (init_context held_ext 10 ''p'' False stop_start) = Some (0, True, Some (0, 0, [10]))"
  by (simp add: suspend_once catch_eval init_context_def elf_library_status_def init_patch_def create_patch_def held_ext_def
      stop_start_def coll_eval)

lemma held_runs:
  "map_option (\<lambda>(e, t). (e, sim_sysret (world t), ctx_threads (ctx t))) (patch_process held_ext 10 ''p'' False False stop_start)
    = Some (- EEXIST, 1, [])"
  by (simp add: patch_process_def process_cease_def suspend_once catch_eval process_link_def process_map_vma_def process_syscall_def
    process_unmap_vma_def resume_with_def process_resume_def process_shutdown_service_def process_unlink_def process_cure_def
    process_cure_threads_def task_cure_def init_context_def elf_library_status_def init_patch_def create_patch_def
    patch_steps_def process_find_patch_def tune_patch_func_jumps_def iterate_patch_function_jumps_def find_patch_by_bid_def held_ext_def stop_start_def coll_eval)


theorem changed_only_while_stopped_witness:
  "\<exists>t ths. patch_process held_ext 10 ''p'' False False stop_start = Some (- EEXIST, t) \<and> sim_sysret (world t) = 1
     \<and> map t_pid ths = [10] \<and> held_to_end held_ext (\<lambda>w. sim_sysret w = 0) ths t"
proof -
  from held_runs obtain t where t: "patch_process held_ext 10 ''p'' False False stop_start = Some (- EEXIST, t)" "sim_sysret (world t) = 1"
    by auto
  from held_stops obtain s1 p u where s1: "init_context held_ext 10 ''p'' False stop_start = Some (0, s1)" "ctx_patch (ctx s1) = Some p"
    and u: "process_suspend held_ext (target_bid (pi (patch_of s1 p)))
        (upd_ctx (\<lambda>c. c\<lparr>ctx_check_backtrace := Jumps_check_backtrace\<rparr>) s1) = Some (0, u)"
      "sim_sysret (world u) = 0" "map t_pid (ctx_threads (ctx u)) = [10]"
    by auto
  from changed_only_while_stopped[OF held_steady s1, of False] u t
  have "held_to_end held_ext (\<lambda>w. sim_sysret w = 0) (ctx_threads (ctx u)) t" by simp
  with t u(3) show ?thesis by (intro exI conjI)
qed

section \<open>A process is let go\<close>

text \<open>The threads are resumed one after the other, each successfully.\<close>

fun resumed :: "'w ext \<Rightarrow> thread_s list \<Rightarrow> 'w \<Rightarrow> 'w \<Rightarrow> bool" where
  "resumed x [] w w' \<longleftrightarrow> w' = w"
| "resumed x (th # ths) w w' \<longleftrightarrow> (case x_resume_task x (t_pid th) w of (r, v) \<Rightarrow> r = 0 \<and> resumed x ths v w')"

text \<open>
  From state \<open>u\<close>, in which the process is stopped, to state \<open>t\<close>: everything but resuming threads is done first, up to
  the world \<open>w\<close>; then every thread that was seized in \<open>u\<close> is resumed; no thread is left on the list.
\<close>

definition let_go :: "'w ext \<Rightarrow> 'w pst \<Rightarrow> 'w pst \<Rightarrow> bool" where
  "let_go x u t \<longleftrightarrow> ctx_threads (ctx t) = []
     \<and> (\<exists>w. (\<forall>I. steady x I \<and> I (world u) \<longrightarrow> I w) \<and> resumed x (filter t_seized (ctx_threads (ctx u))) w (world t))"

lemma cure_threads_resumed:
  "cure_threads x ts s = ((0, ts'), t) \<Longrightarrow> ts' = [] \<and> resumed x (filter t_seized ts) (world s) (world t)"
proof (induction ts arbitrary: s)
  case (Cons th ts)
  obtain r s1 where c: "task_cure x th s = (r, s1)" by fastforce
  with Cons.prems have "r = 0" "cure_threads x ts s1 = ((0, ts'), t)" by (auto split: if_splits)
  with Cons.IH[of s1] c show ?case by (auto simp: task_cure_def ext_call_def split: if_splits prod.splits)
qed auto

lemma steady_True: "steady x (\<lambda>_. True)"
  by (simp add: steady_def looks_def)

lemma process_resume_let_go:
  assumes "process_resume x s = Some (0, t)" "\<And>I. steady x I \<Longrightarrow> still I u s"
  shows "let_go x u t"
proof -
  from assms(1) obtain v1 v where v1: "process_shutdown_service x s = Some (0, v1)" and v: "process_unlink x v1 = Some (0, v)"
    and c: "process_cure x v = (0, t)"
    by (auto simp: process_resume_def split: bind_splits if_splits)
  have st: "still I u v" if "steady x I" for I
    using assms(2)[OF that] process_shutdown_service_still[OF that v1] process_unlink_still[OF that v]
    by (blast intro: still.frame_trans)
  from c obtain t' where "cure_threads x (ctx_threads (ctx v)) v = ((0, ctx_threads (ctx t)), t')" "world t = world t'"
    by (auto simp: process_cure_def process_cure_threads_def split: prod.splits)
  with cure_threads_resumed[of x "ctx_threads (ctx v)" v "ctx_threads (ctx t)" t'] st[OF steady_True]
  have "ctx_threads (ctx t) = []" "resumed x (filter t_seized (ctx_threads (ctx u))) (world v) (world t)"
    by (auto simp: still_def)
  with st show ?thesis unfolding let_go_def by (auto simp: still_def)
qed

lemma resume_with_let_go:
  assumes "resume_with x ret s = Some (0, t)" "\<And>I. steady x I \<Longrightarrow> still I u s"
  shows "let_go x u t"
  using assms(1) process_resume_let_go[OF _ assms(2)] by (auto simp: resume_with_def split: bind_splits if_splits)

lemma process_cease_let_go:
  assumes "process_cease x bid s = Some (0, t)"
  shows "\<exists>u. process_suspend x bid s = Some (0, u) \<and> (\<forall>I. steady x I \<longrightarrow> still I u t)"
proof -
  have r0: "resume_with x ret v = Some (0, t) \<Longrightarrow> ret = 0" for ret v t
    by (auto simp: resume_with_def split: bind_splits if_splits)
  from assms obtain u v where u: "process_suspend x bid s = Some (0, u)" "process_link x u = Some (0, v)"
      "process_collect_vmas x v = Some (0, t)"
    by (auto simp: process_cease_def split: bind_splits if_splits dest!: r0)
  have "still I u t" if "steady x I" for I
    using process_link_still[OF that u(2)] process_collect_vmas_still[OF steady_looks[OF that] u(3)] by (rule still.frame_trans)
  with u(1) show ?thesis by blast
qed

text \<open>
  C16: A command that reports success has let the process go. When patching or reverting returns
  0, the process was stopped first, and every thread that was seized then has been resumed,
  successfully and in order, as the last thing the command did (whatever all other calls
  keep is still true when the first thread is resumed); no thread is left on the list of stopped
  threads.
\<close>

theorem successful_commands_let_go:
  "(case patch_process x pid patchfile dry_run no_plugin s of None \<Rightarrow> True
    | Some (r, t) \<Rightarrow> (if r = 0 then (\<exists>s1 p u. init_context x pid patchfile dry_run s = Some (0, s1) \<and> ctx_patch (ctx s1) = Some p
         \<and> process_suspend x (target_bid (pi (patch_of s1 p)))
             (upd_ctx (\<lambda>c. c\<lparr>ctx_check_backtrace := Jumps_check_backtrace\<rparr>) s1) = Some (0, u) \<and> let_go x u t) else True))
   \<and> (case unpatch_process x pid patchfile dry_run s of None \<Rightarrow> True
    | Some (r, t) \<Rightarrow> (if r = 0 then (\<exists>s1 p u. init_context x pid patchfile dry_run s = Some (0, s1) \<and> ctx_patch (ctx s1) = Some p
         \<and> process_suspend x (patch_bid (pi (patch_of s1 p)))
             (upd_ctx (\<lambda>c. c\<lparr>ctx_check_backtrace := Patch_check_backtrace\<rparr>) s1) = Some (0, u) \<and> let_go x u t) else True))"
proof -
  have "\<exists>s1 p u. init_context x pid patchfile dry_run s = Some (0, s1) \<and> ctx_patch (ctx s1) = Some p
      \<and> process_suspend x (target_bid (pi (patch_of s1 p)))
          (upd_ctx (\<lambda>c. c\<lparr>ctx_check_backtrace := Jumps_check_backtrace\<rparr>) s1) = Some (0, u) \<and> let_go x u t"
    if r: "patch_process x pid patchfile dry_run no_plugin s = Some (0, t)" for t
  proof -
    from r obtain s1 p s2 e s3 where s1: "init_context x pid patchfile dry_run s = Some (0, s1)" "ctx_patch (ctx s1) = Some p"
      and c: "process_cease x (target_bid (pi (patch_of s1 p))) (upd_ctx (\<lambda>c. c\<lparr>ctx_check_backtrace := Jumps_check_backtrace\<rparr>) s1) = Some (0, s2)"
      and w: "patch_steps x no_plugin s2 = Some (e, s3)" "resume_with x e s3 = Some (0, t)"
      by (auto simp: patch_process_def split: bind_splits if_splits)
    from process_cease_let_go[OF c] obtain u where
      u: "process_suspend x (target_bid (pi (patch_of s1 p))) (upd_ctx (\<lambda>c. c\<lparr>ctx_check_backtrace := Jumps_check_backtrace\<rparr>) s1) = Some (0, u)"
      "\<forall>I. steady x I \<longrightarrow> still I u s2" by blast
    have "let_go x u t"
      by (rule resume_with_let_go[OF w(2)]) (use u(2) patch_steps_still[OF _ w(1)] in \<open>blast intro: still.frame_trans\<close>)
    with s1 u(1) show ?thesis by blast
  qed
  moreover have "\<exists>s1 p u. init_context x pid patchfile dry_run s = Some (0, s1) \<and> ctx_patch (ctx s1) = Some p
      \<and> process_suspend x (patch_bid (pi (patch_of s1 p)))
          (upd_ctx (\<lambda>c. c\<lparr>ctx_check_backtrace := Patch_check_backtrace\<rparr>) s1) = Some (0, u) \<and> let_go x u t"
    if r: "unpatch_process x pid patchfile dry_run s = Some (0, t)" for t
  proof -
    from r obtain s1 p s2 q e s3 where s1: "init_context x pid patchfile dry_run s = Some (0, s1)" "ctx_patch (ctx s1) = Some p"
      and c: "process_cease x (patch_bid (pi (patch_of s1 p))) (upd_ctx (\<lambda>c. c\<lparr>ctx_check_backtrace := Patch_check_backtrace\<rparr>) s1) = Some (0, s2)"
      and w: "revert_dyn_binpatch x q s2 = Some (e, s3)" "resume_with x e s3 = Some (0, t)"
      by (auto simp: unpatch_process_def split: bind_splits if_splits)
    from process_cease_let_go[OF c] obtain u where
      u: "process_suspend x (patch_bid (pi (patch_of s1 p))) (upd_ctx (\<lambda>c. c\<lparr>ctx_check_backtrace := Patch_check_backtrace\<rparr>) s1) = Some (0, u)"
      "\<forall>I. steady x I \<longrightarrow> still I u s2" by blast
    have "let_go x u t"
      by (rule resume_with_let_go[OF w(2)]) (use u(2) revert_dyn_binpatch_still[OF _ w(1)] in \<open>blast intro: still.frame_trans\<close>)
    with s1 u(1) show ?thesis by blast
  qed
  ultimately show ?thesis by (auto split: option.splits)
qed

end
