(* ===== verification/Nsb_Main.thy ===== *)
theory Nsb_Main
  imports Patch Nsb_Log
begin

text \<open>
  The command line, \<open>patcher/main.c\<close>. \<open>getopt_long\<close> is the one of the C library, which lets options and operands mix, accepts options in groups and long
  options by any unambiguous prefix; the environment variable \<open>POSIXLY_CORRECT\<close> is not set. The
  texts that are printed are not modelled, nor is the initialisation of compel's own log.
\<close>

section \<open>getopt\<close>

text \<open>What \<open>getopt_long\<close> returns: the value of the option, and its argument.\<close>

type_synonym opt_event = "int \<times> string"

abbreviation (input) OPT_HELP :: int where "OPT_HELP \<equiv> 104"
abbreviation (input) OPT_PID :: int where "OPT_PID \<equiv> 112"
abbreviation (input) OPT_VERBOSITY :: int where "OPT_VERBOSITY \<equiv> 118"
abbreviation (input) OPT_FILENAME :: int where "OPT_FILENAME \<equiv> 102"
abbreviation (input) OPT_DRY_RUN :: int where "OPT_DRY_RUN \<equiv> 1000"
abbreviation (input) OPT_NO_PLUGIN :: int where "OPT_NO_PLUGIN \<equiv> 1001"
abbreviation (input) OPT_BAD :: int where "OPT_BAD \<equiv> 63"

definition long_opts :: "(string \<times> bool \<times> int) list" where
  "long_opts = [(''help'', False, OPT_HELP), (''pid'', True, OPT_PID), (''verbosity'', True, OPT_VERBOSITY),
     (''filename'', True, OPT_FILENAME), (''dry-run'', False, OPT_DRY_RUN), (''no-plugin'', False, OPT_NO_PLUGIN)]"

text \<open>The entry a long name stands for: the exact one, or the only one it is a prefix of.\<close>

definition find_long :: "string \<Rightarrow> (bool \<times> int) option" where
  "find_long name =
     (case map_of long_opts name of
        Some e \<Rightarrow> Some e
      | None \<Rightarrow> (case filter (\<lambda>(n, _). take (length name) n = name) long_opts of
                   [(_, e)] \<Rightarrow> Some e | _ \<Rightarrow> None))"

text \<open>A letter of \<open>hp:v:f:\<close>, and whether it has an argument.\<close>

definition find_short :: "char \<Rightarrow> (bool \<times> int) option" where
  "find_short c = (if c = CHR ''h'' then Some (False, OPT_HELP) else if c = CHR ''p'' then Some (True, OPT_PID)
     else if c = CHR ''v'' then Some (True, OPT_VERBOSITY) else if c = CHR ''f'' then Some (True, OPT_FILENAME) else None)"

text \<open>An argument for an option from the next word; without one the option is bad.\<close>

definition take_arg :: "int \<Rightarrow> string list \<Rightarrow> opt_event \<times> string list" where
  "take_arg opt args = (case args of [] \<Rightarrow> ((OPT_BAD, []), []) | a # args \<Rightarrow> ((opt, a), args))"

definition get_long :: "string \<Rightarrow> string list \<Rightarrow> opt_event \<times> string list" where
  "get_long cs args =
     (let name = takeWhile (\<lambda>c. c \<noteq> CHR ''='') cs; has_value = length name < length cs; value = drop (length name + 1) cs
      in case find_long name of
           None \<Rightarrow> ((OPT_BAD, []), args)
         | Some (needs, opt) \<Rightarrow>
             if needs then (if has_value then ((opt, value), args) else take_arg opt args)
             else if has_value then ((OPT_BAD, []), args) else ((opt, []), args))"

fun get_group :: "string \<Rightarrow> string list \<Rightarrow> opt_event list \<times> string list" where
  "get_group [] args = ([], args)"
| "get_group (c # cs) args =
     (case find_short c of
        None \<Rightarrow> (case get_group cs args of (es, args) \<Rightarrow> ((OPT_BAD, []) # es, args))
      | Some (needs, opt) \<Rightarrow>
          if \<not> needs then (case get_group cs args of (es, args) \<Rightarrow> ((opt, []) # es, args))
          else if cs \<noteq> [] then ([(opt, cs)], args)
          else case take_arg opt args of (e, args) \<Rightarrow> ([e], args))"

lemma take_arg_shorter: "length (snd (take_arg opt args)) \<le> length args"
  by (simp add: take_arg_def split: list.splits)

lemma get_long_shorter: "length (snd (get_long cs args)) \<le> length args"
  using take_arg_shorter[of _ args] by (auto simp: get_long_def Let_def split: option.splits)

lemma get_group_shorter: "length (snd (get_group cs args)) \<le> length args"
  using take_arg_shorter[of _ args]
  by (induction cs args rule: get_group.induct) (auto split: option.splits prod.splits simp: take_arg_shorter, metis snd_conv take_arg_shorter)

text \<open>All options of the command line in order, and the operands, which end up behind them.\<close>

function getopt_long :: "string list \<Rightarrow> opt_event list \<times> string list" where
  "getopt_long [] = ([], [])"
| "getopt_long (a # args) =
     (if a = ''--'' then ([], args)
      else if take 2 a = ''--'' then
        (let r = get_long (drop 2 a) args in
         case getopt_long (snd r) of (es, ops) \<Rightarrow> (fst r # es, ops))
      else if 1 < length a \<and> hd a = CHR ''-'' then
        (let r = get_group (tl a) args in
         case getopt_long (snd r) of (es, ops) \<Rightarrow> (fst r @ es, ops))
      else case getopt_long args of (es, ops) \<Rightarrow> (es, a # ops))"
  by pat_completeness auto
termination
  by (relation "measure length") (auto simp: le_imp_less_Suc get_long_shorter get_group_shorter)

declare getopt_long.simps [simp del]

section \<open>Options and commands\<close>

datatype command = Cmd_patch_process | Cmd_check_process | Cmd_list_patches | Cmd_unpatch_process

record options =
  o_pid :: int
  o_patch_path :: "string option"
  o_verbosity :: int
  o_handler :: "command option"
  o_dry_run :: bool
  o_no_plugin :: bool

definition cmd_handler :: "string \<Rightarrow> command option" where
  "cmd_handler arg =
     (if arg = ''patch'' then Some Cmd_patch_process
      else if arg = ''check'' then Some Cmd_check_process
      else if arg = ''list'' then Some Cmd_list_patches
      else if arg = ''revert'' then Some Cmd_unpatch_process else None)"

text \<open>\<open>Inl\<close> is the exit status with which the program ends.\<close>

fun take_options :: "opt_event list \<Rightarrow> options \<Rightarrow> int + options" where
  "take_options [] opts = Inr opts"
| "take_options ((opt, optarg) # es) opts =
     (if opt = OPT_HELP then Inl 0
      else if opt = OPT_PID then
        (let opts = opts\<lparr>o_pid := atoi optarg\<rparr> in if o_pid opts \<le> 0 then Inl 1 else take_options es opts)
      else if opt = OPT_VERBOSITY then
        (let opts = opts\<lparr>o_verbosity := atoi optarg\<rparr> in if o_verbosity opts \<le> 0 then Inl 1 else take_options es opts)
      else if opt = OPT_FILENAME then take_options es (opts\<lparr>o_patch_path := Some optarg\<rparr>)
      else if opt = OPT_DRY_RUN then take_options es (opts\<lparr>o_dry_run := True\<rparr>)
      else if opt = OPT_NO_PLUGIN then take_options es (opts\<lparr>o_no_plugin := True\<rparr>)
      else Inl 1)"

definition no_options :: options where
  "no_options = \<lparr>o_pid = 0, o_patch_path = None, o_verbosity = 0, o_handler = None, o_dry_run = False, o_no_plugin = False\<rparr>"

definition parse_options :: "string list \<Rightarrow> int + options" where
  "parse_options argv =
     (case getopt_long argv of (es, operands) \<Rightarrow>
        case take_options es no_options of
          Inl e \<Rightarrow> Inl e
        | Inr opts \<Rightarrow>
            (case operands of
               [cmd] \<Rightarrow> (case cmd_handler cmd of None \<Rightarrow> Inl 1 | Some h \<Rightarrow> Inr (opts\<lparr>o_handler := Some h\<rparr>))
             | _ \<Rightarrow> Inl 1))"

definition cmd_patch_process :: "'w ext \<Rightarrow> options \<Rightarrow> 'w pst \<Rightarrow> (int \<times> 'w pst) option" where
  "cmd_patch_process x opts s =
     (if o_pid opts = 0 then Some (1, s)
      else case o_patch_path opts of
             None \<Rightarrow> Some (1, s)
           | Some path \<Rightarrow> patch_process x (o_pid opts) path (o_dry_run opts) (o_no_plugin opts) s)"

definition cmd_check_process :: "'w ext \<Rightarrow> options \<Rightarrow> 'w pst \<Rightarrow> (int \<times> 'w pst) option" where
  "cmd_check_process x opts s =
     (if o_pid opts = 0 then Some (1, s)
      else case o_patch_path opts of None \<Rightarrow> Some (1, s) | Some path \<Rightarrow> check_process x (o_pid opts) path s)"

definition cmd_list_patches :: "'w ext \<Rightarrow> options \<Rightarrow> 'w pst \<Rightarrow> (int \<times> 'w pst) option" where
  "cmd_list_patches x opts s =
     (if o_pid opts = 0 then Some (1, s)
      else map_option (\<lambda>((err, _), s). (err, s)) (list_process_patches x (o_pid opts) s))"

definition cmd_unpatch_process :: "'w ext \<Rightarrow> options \<Rightarrow> 'w pst \<Rightarrow> (int \<times> 'w pst) option" where
  "cmd_unpatch_process x opts s =
     (if o_pid opts = 0 then Some (1, s)
      else case o_patch_path opts of
             None \<Rightarrow> Some (1, s) | Some path \<Rightarrow> unpatch_process x (o_pid opts) path (o_dry_run opts) s)"

definition run_handler :: "'w ext \<Rightarrow> options \<Rightarrow> 'w pst \<Rightarrow> (int \<times> 'w pst) option" where
  "run_handler x opts s = do {
     h \<leftarrow> o_handler opts;
     case h of
       Cmd_patch_process \<Rightarrow> cmd_patch_process x opts s
     | Cmd_check_process \<Rightarrow> cmd_check_process x opts s
     | Cmd_list_patches \<Rightarrow> cmd_list_patches x opts s
     | Cmd_unpatch_process \<Rightarrow> cmd_unpatch_process x opts s }"

text \<open>The exit status, the state of the log, and the state; \<open>argv\<close> is without the program name.\<close>

definition nsb_main :: "'w ext \<Rightarrow> int \<Rightarrow> string list \<Rightarrow> log_state \<Rightarrow> 'w pst \<Rightarrow> ((int \<times> log_state) \<times> 'w pst) option" where
  "nsb_main x dup_stdout argv l s =
     (case parse_options argv of
        Inl e \<Rightarrow> Some ((e, l), s)
      | Inr opts \<Rightarrow> do {
          let l = log_set_loglevel (of_int (o_verbosity opts)) l;
          let l = snd (log_init dup_stdout (\<lambda>_. -1) None l);
          (err, s) \<leftarrow> run_handler x opts s;
          Some ((err, l), s) })"

section \<open>What the command line does\<close>

lemma take_options_pid:
  assumes "take_options es opts = Inr opts'" "\<forall>e \<in> set es. fst e \<noteq> OPT_PID"
  shows "o_pid opts' = o_pid opts"
  using assms by (induction es opts rule: take_options.induct) (auto simp: Let_def split: if_splits)

lemma take_options_exit: "take_options es opts = Inl e \<Longrightarrow> e = 0 \<or> e = 1"
  by (induction es opts rule: take_options.induct) (auto simp: Let_def split: if_splits)

text \<open>
  Without a process id the program does nothing: when no \<open>-p\<close> or \<open>--pid\<close> option is on the
  command line, every invocation ends with exit status 0 (after \<open>--help\<close>) or 1, and neither the
  state of the patcher nor anything outside of it has changed.
\<close>

lemma no_pid_no_effect:
  assumes "\<forall>e \<in> set (fst (getopt_long argv)). fst e \<noteq> OPT_PID"
  shows "\<exists>e l'. nsb_main x fd argv l s = Some ((e, l'), s) \<and> (e = 0 \<or> e = 1)"
proof (cases "parse_options argv")
  case (Inl e)
  then have "e = 0 \<or> e = 1"
    by (auto simp: parse_options_def split: prod.splits sum.splits list.splits option.splits dest: take_options_exit)
  with Inl show ?thesis by (simp add: nsb_main_def)
next
  case (Inr opts)
  then obtain es ops opts' h where g: "getopt_long argv = (es, ops)" "take_options es no_options = Inr opts'"
    and o: "opts = opts'\<lparr>o_handler := Some h\<rparr>"
    by (auto simp: parse_options_def split: prod.splits sum.splits list.splits option.splits)
  have "o_pid opts = 0" using take_options_pid[OF g(2)] assms g(1) by (simp add: o no_options_def)
  then have "run_handler x opts s = Some (1, s)"
    by (cases h) (simp_all add: run_handler_def o cmd_patch_process_def cmd_check_process_def cmd_list_patches_def
        cmd_unpatch_process_def)
  with Inr show ?thesis by (simp add: nsb_main_def)
qed

lemma no_pid_no_effect_witness:
  "\<exists>e l'. nsb_main sim_ext 3 [''patch'', ''-f'', ''p.so'', ''--dry-run''] \<lparr>current_loglevel = 2, logfd = -1\<rparr> sim_state = Some ((e, l'), sim_state) \<and> (e = 0 \<or> e = 1)"
proof -
  have "getopt_long [''patch'', ''-f'', ''p.so'', ''--dry-run''] = ([(OPT_FILENAME, ''p.so''), (OPT_DRY_RUN, [])], [''patch''])"
    by (simp add: getopt_long.simps find_short_def take_arg_def get_long_def find_long_def long_opts_def)
  then show ?thesis by (intro no_pid_no_effect) simp
qed

lemma atoi_dec_string:
  assumes "n < 2 ^ 31"
  shows "atoi (dec_string n) = int n"
proof -
  have d: "is_digit 10 c" if "c \<in> set (dec_string n)" for c using that by (rule dec_string_digits)
  obtain c cs where c: "dec_string n = c # cs" by (cases "dec_string n") auto
  have dig: "is_digit 10 c" using d[of c] c by simp
  then have "\<not> is_space c" "c \<noteq> CHR ''-''" "c \<noteq> CHR ''+''"
    by (auto simp: is_digit_def digit_val_def is_space_def Let_def split: option.splits if_splits)
  then have "skip_ws (dec_string n) = dec_string n" "hd (dec_string n) \<noteq> CHR ''-''" "hd (dec_string n) \<noteq> CHR ''+''"
    by (simp_all add: skip_ws_def c)
  moreover have "takeWhile (is_digit 10) (dec_string n) = dec_string n" using d by (simp add: takeWhile_eq_all_conv)
  then have "digits_value 10 (takeWhile (is_digit 10) (dec_string n)) = n" by (simp only: dec_string_value)
  ultimately show ?thesis using assms by (simp add: atoi_def Let_def)
qed

text \<open>
  What a user can ask for with an option, and the ways to write it: a value stands in a word of its own behind the short
  or the long name, behind the short letter, or behind the long name and an equals sign.
\<close>

datatype setting = Pid nat | Verbosity nat | Filename string | Dry_run | No_plugin

definition value_words :: "char \<Rightarrow> string \<Rightarrow> string \<Rightarrow> string list list" where
  "value_words c name v = [[[CHR ''-'', c], v], [''--'' @ name, v], [''--'' @ name @ ''='' @ v]]
     @ (if v = [] then [] else [[CHR ''-'' # c # v]])"

fun spellings :: "setting \<Rightarrow> string list list" where
  "spellings (Pid n) = value_words (CHR ''p'') ''pid'' (dec_string n)"
| "spellings (Verbosity n) = value_words (CHR ''v'') ''verbosity'' (dec_string n)"
| "spellings (Filename f) = value_words (CHR ''f'') ''filename'' f"
| "spellings Dry_run = [[''--dry-run'']]"
| "spellings No_plugin = [[''--no-plugin'']]"

definition spelled :: "setting \<Rightarrow> string list \<Rightarrow> bool" where
  "spelled a ws \<longleftrightarrow> ws \<in> set (spellings a)"

fun set_option :: "setting \<Rightarrow> options \<Rightarrow> options" where
  "set_option (Pid n) opts = opts\<lparr>o_pid := int n\<rparr>"
| "set_option (Verbosity n) opts = opts\<lparr>o_verbosity := int n\<rparr>"
| "set_option (Filename f) opts = opts\<lparr>o_patch_path := Some f\<rparr>"
| "set_option Dry_run opts = opts\<lparr>o_dry_run := True\<rparr>"
| "set_option No_plugin opts = opts\<lparr>o_no_plugin := True\<rparr>"

fun int_setting :: "setting \<Rightarrow> bool" where
  "int_setting (Pid n) \<longleftrightarrow> 0 < n \<and> n < 2 ^ 31"
| "int_setting (Verbosity n) \<longleftrightarrow> 0 < n \<and> n < 2 ^ 31"
| "int_setting _ \<longleftrightarrow> True"

fun event_of :: "setting \<Rightarrow> opt_event" where
  "event_of (Pid n) = (OPT_PID, dec_string n)"
| "event_of (Verbosity n) = (OPT_VERBOSITY, dec_string n)"
| "event_of (Filename f) = (OPT_FILENAME, f)"
| "event_of Dry_run = (OPT_DRY_RUN, [])"
| "event_of No_plugin = (OPT_NO_PLUGIN, [])"

lemma getopt_value:
  assumes "ws \<in> set (value_words c name v)" "find_short c = Some (True, opt)" "find_long name = Some (True, opt)"
    and "c \<noteq> CHR ''-''" "name \<noteq> []" "CHR ''='' \<notin> set name"
  shows "getopt_long (ws @ rest) = ((opt, v) # fst (getopt_long rest), snd (getopt_long rest))"
proof -
  have n: "takeWhile (\<lambda>c. c \<noteq> CHR ''='') name = name" "takeWhile (\<lambda>c. c \<noteq> CHR ''='') (name @ CHR ''='' # w) = name" for w
    using assms(6) by (induction name) auto
  show ?thesis using assms
    by (auto simp: value_words_def getopt_long.simps get_long_def take_arg_def n Let_def split: if_splits prod.splits)
qed

lemma getopt_spelled:
  assumes "spelled a ws"
  shows "getopt_long (ws @ rest) = (event_of a # fst (getopt_long rest), snd (getopt_long rest))"
  using assms
  by (cases a)
    (auto simp: spelled_def find_short_def find_long_def long_opts_def getopt_long.simps get_long_def Let_def split: prod.splits
      intro!: getopt_value)

lemma getopt_settings:
  assumes "list_all2 spelled as wss"
  shows "getopt_long (concat wss @ rest) = (map event_of as @ fst (getopt_long rest), snd (getopt_long rest))"
  using assms by induction (simp_all add: getopt_spelled)

lemma take_settings:
  "\<forall>a \<in> set as. int_setting a \<Longrightarrow> take_options (map event_of as) opts = Inr (fold set_option as opts)"
proof (induction as arbitrary: opts)
  case (Cons a as)
  then show ?case by (cases a) (simp_all add: atoi_dec_string Let_def)
qed simp



end
