(* ===== verification/Spec2Isabelle.thy ===== *)
theory Spec2Isabelle
  imports Hlist Vzp Alloc Freeing Reports Service_Session Patch_Apply Stopped Nsb_Main
begin

text \<open>
  Verification of \<^bold>\<open>nsb\<close>, the binary live patcher: a tool that stops a running process, loads a
  patch (a shared object with a \<open>vzpatch\<close> section) into it, redirects the functions the patch
  replaces, and lets the process go; and that reverts, checks and lists such patches.

  \<^bold>\<open>The parts of the program and the theories that model them.\<close> File names are relative to
  \<open>src/\<close>; a definition has the name of the C function it models, helpers for a loop are named
  next to it.

  \<^item> \<open>Nsb_Prelude\<close>: the types, error codes and flags, little-endian encodings, numbers in text,
    and \<open>iterate\<close>, the loop "call the actor on each element, stop at the first non-zero
    result" that the program writes in many places. The locale \<open>iterator\<close> states its laws; each
    iterator of the program (\<open>iterate_vmas\<close>, \<open>iterate_dl_vmas\<close>, \<open>iterate_dl_maps\<close>) interprets it.
  \<^item> \<open>List_Head\<close>, \<open>List_Walk\<close>, \<open>Hlist\<close>: \<open>patcher/include/list.h\<close>, the intrusive lists, as pointer
    updates on a heap; the loop macros with a body that may change the list; and the lists with
    a head of one pointer. The refinement to sequences there justifies that the other theories
    keep such lists as HOL lists of pointers. The contracts are the locales \<open>node_walk\<close> (a chain
    that can be walked) and \<open>node_list\<close> (one that is closed), which both kinds of lists interpret.
  \<^item> \<open>Freeing\<close>: the loops that free the elements of such a list while walking it (the frames of
    \<open>backtrace.c\<close>, the threads of \<open>process.c\<close>), with the set of blocks that are allocated.
  \<^item> \<open>Compiler\<close>, \<open>Alloc\<close>: the rounding and division macros of \<open>patcher/include/compiler.h\<close>; its other
    macros that have a value, and the helpers of \<open>patcher/include/xmalloc.h\<close>.
  \<^item> \<open>Nsb_Context\<close>: the structures of \<open>patcher/include/\<close> as records. The state \<open>pst\<close> is the
    global \<open>process_context\<close>, a store for each kind of object (areas, loaded objects, ELF
    descriptions, patches), the next fresh pointer, \<open>errno\<close> and the world outside. Everything
    the program calls and does not contain (system calls, compel, libelf, libunwind, the
    generated protobuf code) is a field of the record \<open>ext\<close>, an argument of the definitions;
    nothing is assumed of it except where a theorem says so. \<open>Nsb_Sim\<close> is a concrete
    environment, on which the hypotheses of the theorems are shown to be satisfiable.
  \<^item> \<open>X86_64\<close>: \<open>patcher/x86_64.c\<close>, the jump instruction, the reach of a jump and the call stubs.
  \<^item> \<open>Vma\<close>: \<open>patcher/vma.c\<close>, parsing \<open>/proc/PID/maps\<close> and the sorted list of memory areas;
    the locale \<open>sorted_insert\<close> is the contract of the ordered insertion, shared with \<open>Dl_Map\<close>.
  \<^item> \<open>Util\<close>, \<open>Protobuf\<close>, \<open>Backtrace\<close>: \<open>patcher/util.c\<close> (directories), \<open>protobuf.c\<close> (the
    description of a patch), \<open>backtrace.c\<close> (the frames of a thread and the checks of them).
  \<^item> \<open>Elf\<close> and \<open>Elf_Load\<close>: \<open>patcher/elf.c\<close>, reading ELF files, and mapping the segments of one.
  \<^item> \<open>Dl_Map\<close>: \<open>patcher/dl_map.c\<close>, the objects a process has loaded, made from its areas.
  \<^item> \<open>Process_IO\<close>, \<open>Process_Catch\<close>, \<open>Process\<close>: \<open>patcher/process.c\<close> in three parts: memory, system
    calls, mapping and linking; stopping all threads at a safe point; injecting the service,
    collecting areas and patches, finding room for an object. \<open>Process_Catch\<close> also has the
    iteration over function jumps and the backtrace checks of \<open>patcher/patch.c\<close>.
    \<open>Process_Collect\<close> is about the state that collecting leaves: the areas, the objects made of
    them and the patches among these. Its locale \<open>state_frame\<close> (a reflexive and transitive
    relation on states) carries facts through the loops; allocation, tuning, creation of
    patches and the relations of \<open>Inspection\<close> interpret it.
  \<^item> \<open>Target_Mem\<close>: the memory of the target as a function from addresses to bytes, and the
    predicate \<open>memory_ext\<close>, which says that reading and writing it through \<open>ext\<close> works (an idealisation: ptrace
    fails where nothing is mapped).
  \<^item> \<open>Rtld\<close>: \<open>patcher/rtld.c\<close>, the list of link maps in the memory of the target.
  \<^item> \<open>Service_Msg\<close>, \<open>Service\<close>, \<open>Plugin_Service\<close>, \<open>Service_Link\<close>, \<open>Service_Session\<close>: the messages of
    \<open>plugins/service.h\<close> and the descriptor passing of \<open>common/scm.c\<close>; \<open>patcher/service.c\<close>, the
    patcher's end; \<open>plugins/service.c\<close>, the shared object that runs in the target, with a state
    and an environment of its own; what one end makes of the messages of the other; and both
    ends running together, connected by a socket and by the stub the patcher executes. The locale \<open>fixed_width\<close> is the
    contract of the encodings of arrays.
  \<^item> \<open>Relocations\<close>: \<open>patcher/relocations.c\<close>, which resolves and fills the slots of a patch.
  \<^item> \<open>Patch_Jumps\<close> and \<open>Patch\<close>: \<open>patcher/patch.c\<close>: function jumps, references to static
    variables and the stack of applied patches; and the four commands. \<open>Patch_Apply\<close> puts the
    parts of \<open>apply_dyn_binpatch\<close> together, \<open>Inspection\<close>, \<open>Safe_Stop\<close> and \<open>Stopped\<close> are about what whole
    commands leave alone, and when.
  \<^item> \<open>Nsb_Log\<close>, \<open>Nsb_Main\<close>: \<open>patcher/log.c\<close> and \<open>patcher/include/log.h\<close>, the log; \<open>patcher/main.c\<close>,
    the command line. \<open>Reports\<close> has the tables and lines that are only printed.
  \<^item> \<open>Vzp\<close>: \<open>include/vzp.h\<close>, the macros with which the author of a patch annotates it.

  \<^bold>\<open>How the code corresponds to the definitions.\<close> A function of the code takes the environment,
  its arguments and the state and returns its result with the new state; a value stored through
  a pointer argument is a second result. Error results are the negative error codes of the
  code. \<open>None\<close> is behaviour the C language leaves undefined (a null pointer that is read, an
  access outside an array) or, for the loops given by \<open>partial_function\<close>, a loop that does not
  end. Structure pointers are numbers that index a store, so that aliasing is kept: the applied
  patches, the loaded objects and the areas are shared by pointer. Widths are kept: addresses
  and sizes are 64-bit words, whose arithmetic wraps, \<open>int\<close> results are truncated by \<open>to_int\<close>
  where the code assigns a wider value, bytes are 8-bit words.

  \<^bold>\<open>What is shown.\<close>

  \<^item> Stopping (\<open>Process_Catch\<close>, \<open>Backtrace\<close>): when the process is reported as stopped, every
    thread was seized, then the first area whose file has the wanted Build ID was looked up, and then every stack was unwound and found to have no
    frame in the functions to be replaced, or in that area (\<open>safely_stopped\<close>, which follows the states of the
    run); the search for threads ends once no new ones appear; the attempts, the pauses between them and what ends them are
    exactly described (\<open>before_attempt\<close>). Patching
    and reverting change nothing of the target before that point (\<open>Safe_Stop\<close>), and checking
    and listing change nothing at all (\<open>Inspection\<close>). After it no thread is let go before
    everything else of the command is done, clean-up included, and a command that reports success
    has resumed every thread it seized (\<open>Stopped\<close>).
  \<^item> Collecting (\<open>Vma\<close>, \<open>Dl_Map\<close>, \<open>Process_Collect\<close>): the areas are sorted, the objects are the
    runs of areas with the same path, every object is linked to its areas and has a description, and the applied patches are those of the objects
    with a \<open>vzpatch\<close> section, each with its target and jumps of eight bytes.
  \<^item> Placing (\<open>Process\<close>, \<open>Elf_Load\<close>, \<open>Dl_Map\<close>, \<open>X86_64\<close>): the room that is found is free, the
    segments that are mapped over it with \<open>MAP_FIXED\<close> meet no area of the process (for an object linked at base
    0; otherwise they may, \<open>pinned_over_mapping\<close>), an object whose mapping fails half-way is unmapped again, and an object
    that passes the range check can be reached by a jump from every function of the target.
  \<^item> Applying and reverting (\<open>Patch_Jumps\<close>, \<open>Relocations\<close>, \<open>Patch_Apply\<close>): an applied jump decodes as a
    jump to the new function; references and slots hold what they should and no other byte
    changes; symbols are found as the dynamic linker would with the patch in place. On the
    abstract stack of applied patches applying is a push and reverting a removal, for patches
    in any position, and one after the other gives the memory back.
  \<^item> The service: what one end sends the other understands, answers stay inside their buffer,
    and its list of objects is the one the patcher finds by itself, as long as that has no more than ten. A session of any number of
    requests, with patcher, stub, socket and plugin running together, does on the target what
    the abstract service does, and leaves the two ends in step (\<open>Service_Session\<close>).
  \<^item> The inputs: a line of the maps file, a build id, the \<open>vzpatch\<close> message, the tables of an ELF
    file and the command line, with its options in any order, place and spelling, are read for what they say; a message of the log is written if
    its level asks for it; the annotations of a patch source are all recorded.
  \<^item> The lists: operations and loops, also those whose body deletes the current entry, do on a
    heap what the sequence operations do; loops that free what they walk over free each block
    once and read none that is freed.
  \<^item> The commands: one without a process id does nothing.

  Behaviour of the code that differs from what it means to do is stated as lemmas too, e.g.
  \<open>rtld_needed_array_overflow\<close>, \<open>lost_response_accepted\<close>, \<open>mmap_failure_leaks_first\<close>, \<open>pinned_over_mapping\<close>,
  \<open>failed_shutdown_leaves_threads_stopped\<close>.

  \<^bold>\<open>Fuel and bounds.\<close> Loops over lists are structural. The loop that stops threads until no new
  ones appear, the walk over the link maps, the walk over a dynamic section, the write loop of
  the log and the request loop of the service may run forever, depending on the environment:
  they are given by \<open>partial_function (option)\<close>, and the theorems that they return are stated
  as such. The attempts to stop a process are counted by the code itself, and the frames of a
  backtrace are bounded by its \<open>MAX_DEPTH\<close>, so no fuel is introduced.

  \<^bold>\<open>Not modelled.\<close> The generator (\<open>generator/\<close>, Python), which writes the patches; the protobuf
  definitions and the code generated from them (a parameter); the tests; macros of
  \<open>compiler.h\<close> that are attributes, hints and casts; the texts of log messages other than those of
  \<open>Reports\<close>; freeing of memory outside of \<open>Freeing\<close>, since a freed
  pointer is not used again; the assembly of the emergency return from a signal frame, where
  the model of the service ends. Time is not modelled: a delay between attempts is a call of
  the environment.
\<close>

end
